(* ===== verification/Prelude.thy ===== *)
theory Prelude
  imports Main "HOL-Library.Word"
begin

text \<open>
  Shared vocabulary of the development: octets and machine integers, the panic-free slice
  accesses of Rust (\<open>get\<close> with a range, \<open>first\<close>, \<open>try_into\<close>), big- and little-endian
  integers, the saturating addition of \<open>usize\<close>, and the state-and-error operations
  \<open>('s, 'e, 'a) op\<close> in which every stateful method (\<open>&mut self\<close> with a \<open>Result\<close>) is written.

  A \<open>usize\<close> is a \<open>nat\<close>. A Rust slice is never longer than \<open>isize::MAX\<close>, so additions of offsets
  and lengths cannot saturate and are plain additions; counters, which can, use \<open>sat_add\<close>.
\<close>

unbundle bit_operations_syntax

named_theorems op_simps \<open>unfolding rules of the state-and-error operations\<close>
named_theorems hoare \<open>introduction rules of the partial-correctness triples\<close>

section \<open>Octets and machine integers\<close>

type_synonym u8 = "8 word"
type_synonym u16 = "16 word"
type_synonym u32 = "32 word"
type_synonym u64 = "64 word"
type_synonym bytes = "u8 list"

text \<open>The octets of an ASCII literal, \<open>b"..."\<close> or \<open>"...".as_bytes()\<close>.\<close>

definition ascii :: "string \<Rightarrow> bytes" where
  "ascii s = map of_char s"

definition usize_max :: nat where
  "usize_max = 2 ^ 64 - 1"

definition u32_max :: nat where
  "u32_max = 2 ^ 32 - 1"

definition sat_add :: "nat \<Rightarrow> nat \<Rightarrow> nat" where
  "sat_add a b = min (a + b) usize_max"

lemma sat_add_exact: "a + b \<le> usize_max \<Longrightarrow> sat_add a b = a + b"
  by (simp add: sat_add_def)

lemma sat_add_Suc_le: "sat_add n 1 \<le> k \<Longrightarrow> k < usize_max \<Longrightarrow> sat_add n 1 = Suc n"
  by (simp add: sat_add_def min_def split: if_splits)

lemma sat_add_pos: "0 < sat_add n 1"
  by (simp add: sat_add_def usize_max_def)

lemma sat_add_small: "n \<le> 10000 \<Longrightarrow> sat_add n 1 = Suc n"
  by (simp add: sat_add_def usize_max_def)

text \<open>\<open>to_be_bytes\<close> and \<open>from_be_bytes\<close> of an integer of \<open>n\<close> octets, and their little-endian twins.\<close>

primrec be_of_word :: "nat \<Rightarrow> 'a::len word \<Rightarrow> bytes" where
  "be_of_word 0 w = []"
| "be_of_word (Suc n) w = be_of_word n (drop_bit 8 w) @ [ucast w]"

definition word_of_be :: "bytes \<Rightarrow> 'a::len word" where
  "word_of_be bs = foldl (\<lambda>acc b. push_bit 8 acc OR ucast b) 0 bs"

definition le_of_word :: "nat \<Rightarrow> 'a::len word \<Rightarrow> bytes" where
  "le_of_word n w = rev (be_of_word n w)"

definition word_of_le :: "bytes \<Rightarrow> 'a::len word" where
  "word_of_le bs = word_of_be (rev bs)"

lemma length_be_of_word [simp]: "length (be_of_word n w) = n"
  by (induction n arbitrary: w) simp_all

lemma length_le_of_word [simp]: "length (le_of_word n w) = n"
  by (simp add: le_of_word_def)

lemma word_of_be_snoc:
  "word_of_be (bs @ [b]) = push_bit 8 (word_of_be bs) OR ucast b"
  by (simp add: word_of_be_def)

lemma bit_ucast_u8: "bit (ucast (b :: u8) :: 'a::len word) i \<longleftrightarrow> i < LENGTH('a) \<and> bit b i"
  by (simp add: bit_simps)

lemma be_split:
  fixes w :: "'a::len word"
  shows "push_bit 8 (take_bit n (drop_bit 8 w)) OR ucast (ucast w :: u8) = take_bit (n + 8) w"
proof (rule bit_word_eqI)
  fix i assume "i < LENGTH('a)"
  then show "bit (push_bit 8 (take_bit n (drop_bit 8 w)) OR ucast (ucast w :: u8)) i
      = bit (take_bit (n + 8) w) i"
    by (cases "i < 8") (auto simp: bit_simps)
qed

lemma word_of_be_of_word_take:
  "word_of_be (be_of_word n w) = take_bit (8 * n) w"
proof (induction n arbitrary: w)
  case 0
  show ?case by (simp add: word_of_be_def)
next
  case (Suc n)
  have "word_of_be (be_of_word (Suc n) w)
      = push_bit 8 (take_bit (8 * n) (drop_bit 8 w)) OR ucast (ucast w :: u8)"
    by (simp add: word_of_be_snoc Suc.IH)
  then show ?case by (simp add: be_split add.commute)
qed

lemma word_of_be_of_word [simp]:
  fixes w :: "'a::len word"
  assumes "8 * n = LENGTH('a)"
  shows "word_of_be (be_of_word n w) = w"
  by (rule bit_word_eqI) (simp add: word_of_be_of_word_take bit_simps assms)

lemma word_of_be_bits:
  "bit (word_of_be bs :: 'a::len word) i \<Longrightarrow> i < 8 * length bs"
proof (induction bs arbitrary: i rule: rev_induct)
  case Nil
  then show ?case by (simp add: word_of_be_def)
next
  case (snoc b bs)
  show ?case
  proof (cases "i < 8")
    case False
    with snoc.prems have "bit (word_of_be bs :: 'a word) (i - 8)"
      by (auto simp: word_of_be_snoc bit_simps dest: bit_imp_le_length)
    then show ?thesis using snoc.IH [of "i - 8"] by simp
  qed simp
qed

lemma be_of_word_of_be [simp]:
  assumes "length bs = n" and "8 * n \<le> LENGTH('a::len)"
  shows "be_of_word n (word_of_be bs :: 'a word) = bs"
  using assms
proof (induction bs arbitrary: n rule: rev_induct)
  case Nil
  then show ?case by simp
next
  case (snoc b bs)
  let ?w = "word_of_be bs :: 'a word"
  from snoc.prems have n: "n = Suc (length bs)" and len: "8 * length bs + 8 \<le> LENGTH('a)"
    by simp_all
  have top: "drop_bit 8 (push_bit 8 ?w OR ucast b) = ?w"
    by (rule bit_word_eqI)
      (use len in \<open>auto simp: bit_simps dest: bit_imp_le_length word_of_be_bits\<close>)
  have low: "ucast (push_bit 8 ?w OR ucast b) = b"
    by (rule bit_word_eqI) (use len in \<open>auto simp: bit_simps\<close>)
  have "be_of_word (length bs) ?w = bs"
    by (rule snoc.IH) (use len in simp_all)
  then show ?case by (simp only: n word_of_be_snoc be_of_word.simps top low)
qed

lemma word_of_le_of_word [simp]:
  "8 * n = LENGTH('a::len) \<Longrightarrow> word_of_le (le_of_word n (w :: 'a word)) = w"
  by (simp add: word_of_le_def le_of_word_def)

lemma le_of_word_of_le [simp]:
  "length bs = n \<Longrightarrow> 8 * n \<le> LENGTH('a::len) \<Longrightarrow> le_of_word n (word_of_le bs :: 'a word) = bs"
  by (simp add: word_of_le_def le_of_word_def)

text \<open>The lengths that \<open>u16::try_from\<close> and \<open>u32::try_from\<close> accept survive the conversion.\<close>

lemma unat_of_nat_u16 [simp]: "n < 65536 \<Longrightarrow> unat (word_of_nat n :: u16) = n"
  by (simp add: unat_of_nat take_bit_eq_mod)

lemma unat_of_nat_u32 [simp]: "n < 4294967296 \<Longrightarrow> unat (word_of_nat n :: u32) = n"
  by (simp add: unat_of_nat take_bit_eq_mod)

lemma unat_u16_bound: "unat (w :: u16) < 65536"
  using unsigned_less [of w, where ?'a = nat] by simp

lemma unat_u32_bound: "unat (w :: u32) < 4294967296"
  using unsigned_less [of w, where ?'a = nat] by simp

section \<open>Panic-free slice accesses\<close>

text \<open>\<open>s.get(a..b)\<close>, \<open>s.get(a..)\<close>, \<open>s.get(..b)\<close> and \<open>s.get(i)\<close>: \<open>None\<close> outside the slice.\<close>

definition get_range :: "'a list \<Rightarrow> nat \<Rightarrow> nat \<Rightarrow> 'a list option" where
  "get_range xs a b =
     (if a \<le> b \<and> b \<le> length xs then Some (take (b - a) (drop a xs)) else None)"

definition get_from :: "'a list \<Rightarrow> nat \<Rightarrow> 'a list option" where
  "get_from xs a = (if a \<le> length xs then Some (drop a xs) else None)"

definition get_to :: "'a list \<Rightarrow> nat \<Rightarrow> 'a list option" where
  "get_to xs b = (if b \<le> length xs then Some (take b xs) else None)"

definition get_at :: "'a list \<Rightarrow> nat \<Rightarrow> 'a option" where
  "get_at xs i = (if i < length xs then Some (xs ! i) else None)"

text \<open>\<open>unwrap_or\<close>.\<close>

definition unwrap_or :: "'a option \<Rightarrow> 'a \<Rightarrow> 'a" where
  "unwrap_or r d = (case r of None \<Rightarrow> d | Some x \<Rightarrow> x)"

lemma unwrap_or_simps [simp]: "unwrap_or None d = d" "unwrap_or (Some x) d = x"
  by (simp_all add: unwrap_or_def)

lemma get_range_Some:
  "get_range xs a b = Some ys \<longleftrightarrow> a \<le> b \<and> b \<le> length xs \<and> ys = take (b - a) (drop a xs)"
  by (auto simp: get_range_def)

lemma get_range_None: "get_range xs a b = None \<longleftrightarrow> \<not> (a \<le> b \<and> b \<le> length xs)"
  by (simp add: get_range_def)

lemma length_get_range: "get_range xs a b = Some ys \<Longrightarrow> length ys = b - a"
  by (auto simp: get_range_Some)

lemma get_from_drop [simp]: "unwrap_or (get_from xs n) [] = drop n xs"
  by (simp add: get_from_def)

lemma take_four: "4 \<le> length xs \<Longrightarrow> take 4 xs = [xs ! 0, xs ! 1, xs ! 2, xs ! 3]"
  by (auto simp: eval_nat_numeral Suc_le_length_iff)

section \<open>Codecs\<close>

text \<open>
  The contract of an encoder and a decoder: what is encoded from the domain decodes to itself.
  Both may fail; the errors of the two directions are independent.
\<close>

locale codec =
  fixes enc :: "'a \<Rightarrow> 'e + 'w"
    and dec :: "'w \<Rightarrow> 'd + 'a"
    and dom_enc :: "'a \<Rightarrow> bool"
  assumes dec_enc: "enc x = Inr w \<Longrightarrow> dom_enc x \<Longrightarrow> dec w = Inr x"
begin

lemma enc_inject: "enc x = Inr w \<Longrightarrow> enc y = Inr w \<Longrightarrow> dom_enc x \<Longrightarrow> dom_enc y \<Longrightarrow> x = y"
  using dec_enc [of x w] dec_enc [of y w] by simp

lemma dec_not_Inl: "enc x = Inr w \<Longrightarrow> dom_enc x \<Longrightarrow> dec w \<noteq> Inl e"
  by (simp add: dec_enc)

end

text \<open>One codec carried in the frames of another.\<close>

locale codec_stack = inner: codec enc dec dom_enc + outer: codec frame unframe dom_frame
  for enc :: "'a \<Rightarrow> 'e + 'w" and dec :: "'w \<Rightarrow> 'd + 'a" and dom_enc :: "'a \<Rightarrow> bool"
    and frame :: "'w \<Rightarrow> 'f + 'v" and unframe :: "'v \<Rightarrow> 'g + 'w" and dom_frame :: "'w \<Rightarrow> bool"
begin

lemma stacked:
  "enc x = Inr w \<Longrightarrow> dom_enc x \<Longrightarrow> frame w = Inr v \<Longrightarrow> dom_frame w \<Longrightarrow>
     \<exists>u. unframe v = Inr u \<and> dec u = Inr x"
  by (simp add: inner.dec_enc outer.dec_enc)

end

section \<open>Stateful operations that may fail\<close>

text \<open>
  A method of a stateful object that returns a \<open>Result\<close>: from a state, an error or a value and
  the state the object is left in (on an error too: the \<open>?\<close> operator returns with whatever the
  object holds at that point). \<open>None\<close> is a call into a foreign library that does not return.
\<close>

type_synonym ('s, 'e, 'a) op = "'s \<Rightarrow> (('e + 'a) \<times> 's) option"

definition returnO :: "'a \<Rightarrow> ('s, 'e, 'a) op" where
  "returnO x s = Some (Inr x, s)"

definition throwO :: "'e \<Rightarrow> ('s, 'e, 'a) op" where
  "throwO e s = Some (Inl e, s)"

definition bindO :: "('s, 'e, 'a) op \<Rightarrow> ('a \<Rightarrow> ('s, 'e, 'b) op) \<Rightarrow> ('s, 'e, 'b) op" where
  "bindO m f s =
     (case m s of
        None \<Rightarrow> None
      | Some (Inl e, s') \<Rightarrow> Some (Inl e, s')
      | Some (Inr x, s') \<Rightarrow> f x s')"

definition getO :: "('s \<Rightarrow> 'a) \<Rightarrow> ('s, 'e, 'a) op" where
  "getO f s = Some (Inr (f s), s)"

definition modifyO :: "('s \<Rightarrow> 's) \<Rightarrow> ('s, 'e, unit) op" where
  "modifyO f s = Some (Inr (), f s)"

text \<open>A pure \<open>Result\<close> under \<open>?\<close>, with its error converted (\<open>From\<close>, \<open>map_err\<close>).\<close>

definition liftO :: "('d \<Rightarrow> 'e) \<Rightarrow> 'd + 'a \<Rightarrow> ('s, 'e, 'a) op" where
  "liftO h r s = (case r of Inl d \<Rightarrow> Some (Inl (h d), s) | Inr x \<Rightarrow> Some (Inr x, s))"

text \<open>A method that always returns.\<close>

definition pureO :: "('s \<Rightarrow> ('e + 'a) \<times> 's) \<Rightarrow> ('s, 'e, 'a) op" where
  "pureO m s = Some (m s)"

text \<open>A method of a field of the object, its error converted.\<close>

definition zoomO ::
  "('s \<Rightarrow> 't) \<Rightarrow> ('t \<Rightarrow> 's \<Rightarrow> 's) \<Rightarrow> ('d \<Rightarrow> 'e) \<Rightarrow> ('t, 'd, 'a) op \<Rightarrow> ('s, 'e, 'a) op" where
  "zoomO get put h m s =
     (case m (get s) of
        None \<Rightarrow> None
      | Some (Inl d, t) \<Rightarrow> Some (Inl (h d), put t s)
      | Some (Inr x, t) \<Rightarrow> Some (Inr x, put t s))"

lemmas op_defs [op_simps] =
  returnO_def throwO_def bindO_def getO_def modifyO_def liftO_def zoomO_def pureO_def

lemma bindO_assoc: "bindO (bindO m f) g = bindO m (\<lambda>x. bindO (f x) g)"
  by (rule ext) (simp add: bindO_def split: option.split sum.split prod.split)

lemma bindO_returnO [simp]: "bindO (returnO x) f = f x" "bindO m returnO = m"
  by (rule ext, simp add: bindO_def returnO_def split: option.split sum.split prod.split)+

lemma bindO_Inr:
  "bindO m f s = Some (Inr y, t) \<longleftrightarrow> (\<exists>x u. m s = Some (Inr x, u) \<and> f x u = Some (Inr y, t))"
  by (auto simp: bindO_def split: option.splits sum.splits prod.splits)

lemma bindO_Inl:
  "bindO m f s = Some (Inl e, t) \<longleftrightarrow>
     m s = Some (Inl e, t) \<or> (\<exists>x u. m s = Some (Inr x, u) \<and> f x u = Some (Inl e, t))"
  by (auto simp: bindO_def split: option.splits sum.splits prod.splits)

text \<open>
  Partial correctness: from a state with \<open>P\<close>, a value returned satisfies \<open>Q\<close> with the state after
  it, and so does an error with \<open>E\<close>.
\<close>

definition hoareO ::
  "('s \<Rightarrow> bool) \<Rightarrow> ('s, 'e, 'a) op \<Rightarrow> ('a \<Rightarrow> 's \<Rightarrow> bool) \<Rightarrow> ('e \<Rightarrow> 's \<Rightarrow> bool) \<Rightarrow> bool" where
  "hoareO P m Q E \<longleftrightarrow>
     (\<forall>s. P s \<longrightarrow>
        (case m s of
           None \<Rightarrow> True
         | Some (Inl e, t) \<Rightarrow> E e t
         | Some (Inr x, t) \<Rightarrow> Q x t))"

lemma hoareO_Inr: "hoareO P m Q E \<Longrightarrow> P s \<Longrightarrow> m s = Some (Inr x, t) \<Longrightarrow> Q x t"
  by (force simp: hoareO_def)

lemma hoareO_Inl: "hoareO P m Q E \<Longrightarrow> P s \<Longrightarrow> m s = Some (Inl e, t) \<Longrightarrow> E e t"
  by (force simp: hoareO_def)

lemma hoareO_weaken:
  assumes "hoareO P' m Q' E'" and "\<And>s. P s \<Longrightarrow> P' s"
    and "\<And>x s. Q' x s \<Longrightarrow> Q x s" and "\<And>e s. E' e s \<Longrightarrow> E e s"
  shows "hoareO P m Q E"
  using assms by (fastforce simp: hoareO_def split: option.splits sum.splits prod.splits)

lemma hoareO_bind [hoare]:
  assumes "hoareO P m R E" and "\<And>x. hoareO (R x) (f x) Q E"
  shows "hoareO P (bindO m f) Q E"
  using assms by (fastforce simp: hoareO_def bindO_def split: option.splits sum.splits prod.splits)

lemma hoareO_prims [hoare]:
  "hoareO (Q x) (returnO x) Q E"
  "hoareO (E e) (throwO e) Q E"
  "hoareO (\<lambda>s. Q (g s) s) (getO g) Q E"
  "hoareO (\<lambda>s. Q () (u s)) (modifyO u) Q E"
  "hoareO (\<lambda>s. (case r of Inl d \<Rightarrow> E (h d) s | Inr x \<Rightarrow> Q x s)) (liftO h r) Q E"
  by (auto simp: hoareO_def op_simps split: sum.splits)

text \<open>The same with nothing promised of errors: what a caller that stops at the first error sees.\<close>

definition okO :: "('s \<Rightarrow> bool) \<Rightarrow> ('s, 'e, 'a) op \<Rightarrow> ('a \<Rightarrow> 's \<Rightarrow> bool) \<Rightarrow> bool" where
  "okO P m Q \<longleftrightarrow> (\<forall>s x t. P s \<longrightarrow> m s = Some (Inr x, t) \<longrightarrow> Q x t)"

named_theorems oks \<open>rules of the fail-stop triples\<close>

lemma okOI: "(\<And>s x t. P s \<Longrightarrow> m s = Some (Inr x, t) \<Longrightarrow> Q x t) \<Longrightarrow> okO P m Q"
  by (simp add: okO_def)

lemma okOD: "okO P m Q \<Longrightarrow> P s \<Longrightarrow> m s = Some (Inr x, t) \<Longrightarrow> Q x t"
  by (simp add: okO_def)

lemma ok_bind: "okO P m R \<Longrightarrow> (\<And>x. okO (R x) (f x) Q) \<Longrightarrow> okO P (bindO m f) Q"
  unfolding okO_def bindO_Inr by blast

lemma ok_return [oks]: "(\<And>s. P s \<Longrightarrow> Q x s) \<Longrightarrow> okO P (returnO x) Q"
  by (simp add: okO_def returnO_def)

lemma ok_throw [oks]: "okO P (throwO e) Q"
  by (simp add: okO_def throwO_def)

lemma ok_weaken: "okO P m Q \<Longrightarrow> (\<And>s. P' s \<Longrightarrow> P s) \<Longrightarrow> (\<And>x s. Q x s \<Longrightarrow> Q' x s) \<Longrightarrow> okO P' m Q'"
  unfolding okO_def by blast

lemma ok_pre: "okO P m Q \<Longrightarrow> (\<And>s. P' s \<Longrightarrow> P s) \<Longrightarrow> okO P' m Q"
  unfolding okO_def by blast

lemma ok_get: "(\<And>x. okO (\<lambda>s. P s \<and> x = g s) (f x) Q) \<Longrightarrow> okO P (bindO (getO g) f) Q"
  unfolding okO_def by (simp add: bindO_def getO_def)

lemma ok_modify: "(\<And>s. P s \<Longrightarrow> R (u s)) \<Longrightarrow> okO R (f ()) Q \<Longrightarrow> okO P (bindO (modifyO u) f) Q"
  unfolding okO_def bindO_def modifyO_def by auto

lemma ok_lift: "(\<And>x. r = Inr x \<Longrightarrow> okO P (f x) Q) \<Longrightarrow> okO P (bindO (liftO h r) f) Q"
  unfolding okO_def by (cases r) (simp_all add: bindO_def liftO_def)

lemma ok_false [oks]: "okO (\<lambda>_. False) m Q"
  by (simp add: okO_def)

text \<open>Total operations: every call returns.\<close>

definition total_op :: "('s, 'e, 'a) op \<Rightarrow> bool" where
  "total_op m \<longleftrightarrow> (\<forall>s. m s \<noteq> None)"

named_theorems totals \<open>operations that always return\<close>

lemma total_bind [totals]: "total_op m \<Longrightarrow> (\<And>x. total_op (f x)) \<Longrightarrow> total_op (bindO m f)"
  by (simp add: total_op_def bindO_def split: option.split sum.split)

lemma total_prims [totals]:
  "total_op (returnO x)" "total_op (throwO e)" "total_op (getO g)" "total_op (modifyO u)" "total_op (liftO h r)"
  "total_op (pureO p)"
  by (simp_all add: total_op_def op_simps split: sum.split)

lemma total_zoom [totals]: "total_op m \<Longrightarrow> total_op (zoomO get put h m)"
  by (auto simp: total_op_def zoomO_def split: option.split sum.split)

end
