(* ===== verification/Tlv_Raw.thy ===== *)
theory Tlv_Raw
  imports Prelude
begin

text \<open>
  The generic TEAP TLV frame: crates/teap/src/tlv/raw.rs, with the codec errors of
  crates/teap/src/tlv/error.rs and the type registry of crates/teap/src/tlv/types.rs.
  The reader and the encoder are translated as written; the relation \<open>tlv_frames\<close> is the wire
  grammar of RFC 7170 section 4.2, and the lemmas show that the reader accepts exactly the octets
  of that grammar (up to the ceiling on the number of TLVs) and that encoding and decoding are
  inverse.
\<close>

section \<open>Codec errors\<close>

datatype len_req =
    Exact nat
  | AtLeast nat
  | EvenAtLeast nat nat  \<comment> \<open>\<open>min\<close>, \<open>base\<close>\<close>

datatype tlv_error =
    TruncatedHeader nat nat  \<comment> \<open>\<open>offset\<close>, \<open>available\<close>\<close>
  | TruncatedValue u16 nat nat  \<comment> \<open>\<open>tlv_type\<close>, \<open>declared\<close>, \<open>available\<close>\<close>
  | ReservedType
  | BadBodyLength u16 nat len_req  \<comment> \<open>\<open>tlv_type\<close>, \<open>actual\<close>, \<open>want\<close>\<close>
  | ValueTooLong u16 nat  \<comment> \<open>\<open>tlv_type\<close>, \<open>len\<close>\<close>
  | TypeOutOfRange u16
  | FieldLengthMismatch u16 nat nat  \<comment> \<open>\<open>tlv_type\<close>, \<open>a\<close>, \<open>b\<close>\<close>
  | TooManyTlvs nat  \<comment> \<open>\<open>limit\<close>\<close>

section \<open>Constants and types\<close>

definition HEADER_LEN :: nat where [simp]: "HEADER_LEN = 4"
definition MANDATORY_BIT :: u16 where [simp]: "MANDATORY_BIT = 0x8000"
definition RESERVED_BIT :: u16 where [simp]: "RESERVED_BIT = 0x4000"
definition TYPE_MASK :: u16 where [simp]: "TYPE_MASK = 0x3FFF"
definition MAX_TLVS :: nat where "MAX_TLVS = 4096"

text \<open>The type-number registry (\<open>type_id\<close>).\<close>

definition AUTHORITY_ID :: u16 where [simp]: "AUTHORITY_ID = 1"
definition IDENTITY_TYPE :: u16 where [simp]: "IDENTITY_TYPE = 2"
definition RESULT :: u16 where [simp]: "RESULT = 3"
definition NAK :: u16 where [simp]: "NAK = 4"
definition ERROR_TYPE :: u16 where [simp]: "ERROR_TYPE = 5"
definition CHANNEL_BINDING :: u16 where [simp]: "CHANNEL_BINDING = 7"
definition VENDOR_SPECIFIC :: u16 where [simp]: "VENDOR_SPECIFIC = 9"
definition REQUEST_ACTION :: u16 where [simp]: "REQUEST_ACTION = 10"
definition EAP_PAYLOAD :: u16 where [simp]: "EAP_PAYLOAD = 11"
definition INTERMEDIATE_RESULT :: u16 where [simp]: "INTERMEDIATE_RESULT = 12"
definition PAC_TYPE :: u16 where [simp]: "PAC_TYPE = 13"
definition CRYPTO_BINDING :: u16 where [simp]: "CRYPTO_BINDING = 14"
definition TRUSTED_SERVER_ROOT :: u16 where [simp]: "TRUSTED_SERVER_ROOT = 18"

record raw_tlv =
  rt_mandatory :: bool
  rt_type :: u16
  rt_value :: bytes

definition raw_tlv_new :: "bool \<Rightarrow> u16 \<Rightarrow> bytes \<Rightarrow> raw_tlv" where
  "raw_tlv_new m ty v = \<lparr>rt_mandatory = m, rt_type = ty, rt_value = v\<rparr>"

record tlv_reader =
  rd_buf :: bytes
  rd_pos :: nat

section \<open>Encoding\<close>

text \<open>
  \<open>encode_into\<close> appends to a buffer it is lent: the model returns the extended buffer. Every error
  is found before the first octet is appended.
\<close>

definition encode_into :: "raw_tlv \<Rightarrow> bytes \<Rightarrow> tlv_error + bytes" where
  "encode_into t out =
     (if rt_type t = 0 then Inl ReservedType
      else if rt_type t AND NOT TYPE_MASK \<noteq> 0 then Inl (TypeOutOfRange (rt_type t))
      else if 65535 < length (rt_value t) then
        Inl (ValueTooLong (rt_type t) (length (rt_value t)))
      else
        let len = word_of_nat (length (rt_value t)) :: u16;
            w0 = rt_type t AND TYPE_MASK;
            w = (if rt_mandatory t then w0 OR MANDATORY_BIT else w0)
        in Inr (out @ be_of_word 2 w @ be_of_word 2 len @ rt_value t))"

definition encode :: "raw_tlv \<Rightarrow> tlv_error + bytes" where
  "encode t = encode_into t []"

fun encode_all_into :: "raw_tlv list \<Rightarrow> bytes \<Rightarrow> tlv_error + bytes" where
  "encode_all_into [] out = Inr out"
| "encode_all_into (t # ts) out =
     (case encode_into t out of Inl e \<Rightarrow> Inl e | Inr out' \<Rightarrow> encode_all_into ts out')"

definition encode_all :: "raw_tlv list \<Rightarrow> tlv_error + bytes" where
  "encode_all ts = encode_all_into ts []"

section \<open>Decoding\<close>

definition reader_new :: "bytes \<Rightarrow> tlv_reader" where
  "reader_new buf = \<lparr>rd_buf = buf, rd_pos = 0\<rparr>"

definition remaining :: "tlv_reader \<Rightarrow> nat" where
  "remaining r = length (rd_buf r) - rd_pos r"

definition reader_is_empty :: "tlv_reader \<Rightarrow> bool" where
  "reader_is_empty r \<longleftrightarrow> length (rd_buf r) \<le> rd_pos r"

definition next_tlv :: "tlv_reader \<Rightarrow> (tlv_error + raw_tlv) \<times> tlv_reader" where
  "next_tlv r =
     (case get_range (rd_buf r) (rd_pos r) (rd_pos r + HEADER_LEN) of
        Some [b0, b1, b2, b3] \<Rightarrow>
          let w = word_of_be [b0, b1] :: u16;
              declared = unat (word_of_be [b2, b3] :: u16);
              mandatory = (w AND MANDATORY_BIT \<noteq> 0);
              ty = w AND TYPE_MASK;
              value_start = rd_pos r + HEADER_LEN;
              value_end = value_start + declared
          in if ty = 0 then (Inl ReservedType, r)
             else (case get_range (rd_buf r) value_start value_end of
                 None \<Rightarrow>
                   (Inl (TruncatedValue ty declared (length (rd_buf r) - value_start)), r)
               | Some v \<Rightarrow> (Inr (raw_tlv_new mandatory ty v), r\<lparr>rd_pos := value_end\<rparr>))
      | _ \<Rightarrow> (Inl (TruncatedHeader (rd_pos r) (remaining r)), r))"

text \<open>What a successful read tells of the octets it consumed.\<close>

lemma next_tlv_Inr:
  assumes "next_tlv r = (Inr t, r')"
  obtains w :: u16 where
    "drop (rd_pos r) (rd_buf r) =
       be_of_word 2 w @ be_of_word 2 (word_of_nat (length (rt_value t)) :: u16) @ rt_value t
         @ drop (rd_pos r') (rd_buf r)"
    "rt_type t = w AND TYPE_MASK" "rt_type t \<noteq> 0" "rt_mandatory t = (w AND MANDATORY_BIT \<noteq> 0)"
    "length (rt_value t) \<le> 65535" "rd_buf r' = rd_buf r"
    "rd_pos r' = rd_pos r + 4 + length (rt_value t)" "rd_pos r' \<le> length (rd_buf r)"
proof -
  let ?b = "rd_buf r" and ?p = "rd_pos r"
  obtain b0 b1 b2 b3 where hdr: "get_range ?b ?p (?p + 4) = Some [b0, b1, b2, b3]"
    using assms by (auto simp: next_tlv_def split: option.splits list.splits)
  define w :: u16 where "w = word_of_be [b0, b1]"
  define n where "n = unat (word_of_be [b2, b3] :: u16)"
  from assms hdr have val: "get_range ?b (?p + 4) (?p + 4 + n) = Some (rt_value t)"
    and t: "rt_type t = w AND TYPE_MASK" "rt_type t \<noteq> 0"
      "rt_mandatory t = (w AND MANDATORY_BIT \<noteq> 0)"
    and r': "r' = r\<lparr>rd_pos := ?p + 4 + n\<rparr>"
    by (auto simp: next_tlv_def Let_def w_def n_def raw_tlv_new_def split: if_splits option.splits)
  from val have len: "length (rt_value t) = n" and fits: "?p + 4 + n \<le> length ?b"
    and v: "rt_value t = take n (drop (?p + 4) ?b)"
    by (auto simp: get_range_Some)
  from hdr have four: "take 4 (drop ?p ?b) = [b0, b1, b2, b3]"
    by (simp add: get_range_Some)
  have w2: "be_of_word 2 w = [b0, b1]" and n2: "be_of_word 2 (word_of_nat n :: u16) = [b2, b3]"
    by (simp_all add: w_def n_def)
  have "drop ?p ?b = take 4 (drop ?p ?b) @ take n (drop (?p + 4) ?b) @ drop (?p + 4 + n) ?b"
    by (metis append_take_drop_id drop_drop add.commute)
  then have "drop ?p ?b = be_of_word 2 w @ be_of_word 2 (word_of_nat n :: u16) @ rt_value t
      @ drop (?p + 4 + n) ?b"
    unfolding four w2 n2 v by simp
  moreover have "n \<le> 65535"
    using unat_u16_bound [of "word_of_be [b2, b3]"] by (simp add: n_def)
  ultimately show thesis
    using that [of w] t len fits r' by simp
qed

lemma next_tlv_Inl: "next_tlv r = (Inl e, r') \<Longrightarrow> r' = r"
  by (auto simp: next_tlv_def Let_def split: option.splits list.splits if_splits)

text \<open>\<open>parse_all\<close>: the loop over the reader, with the TLVs read so far.\<close>

function parse_loop :: "tlv_reader \<Rightarrow> raw_tlv list \<Rightarrow> tlv_error + raw_tlv list" where
  "parse_loop r tlvs =
     (if reader_is_empty r then Inr tlvs
      else if MAX_TLVS \<le> length tlvs then Inl (TooManyTlvs MAX_TLVS)
      else (case next_tlv r of
          (Inl e, _) \<Rightarrow> Inl e
        | (Inr t, r') \<Rightarrow> parse_loop r' (tlvs @ [t])))"
  by pat_completeness auto
termination
proof (relation "measure (\<lambda>(r, _). length (rd_buf r) - rd_pos r)", goal_cases)
  case (2 r tlvs p y t)
  then have "next_tlv r = (Inr t, y)" by simp
  then show ?case by (rule next_tlv_Inr) simp
qed simp

declare parse_loop.simps [simp del]

definition parse_all :: "bytes \<Rightarrow> tlv_error + raw_tlv list" where
  "parse_all buf = parse_loop (reader_new buf) []"


section \<open>The wire grammar\<close>

text \<open>
  RFC 7170 section 4.2: the M bit, a reserved bit the receiver ignores, fourteen bits of type, the
  length of the value in two octets, the value.
\<close>

definition tlv_header :: "bool \<Rightarrow> bool \<Rightarrow> u16 \<Rightarrow> u16" where
  "tlv_header m r ty = ty OR (if m then push_bit 15 1 else 0) OR (if r then push_bit 14 1 else 0)"

definition tlv_frame :: "bool \<Rightarrow> raw_tlv \<Rightarrow> bytes" where
  "tlv_frame r t =
     be_of_word 2 (tlv_header (rt_mandatory t) r (rt_type t))
       @ be_of_word 2 (word_of_nat (length (rt_value t)) :: u16) @ rt_value t"

definition tlv_ok :: "raw_tlv \<Rightarrow> bool" where
  "tlv_ok t \<longleftrightarrow> rt_type t \<noteq> 0 \<and> rt_type t AND NOT (mask 14) = 0 \<and> length (rt_value t) \<le> 65535"

inductive tlv_frames :: "raw_tlv list \<Rightarrow> bytes \<Rightarrow> bool" where
  frames_Nil: "tlv_frames [] []"
| frames_Cons: "tlv_ok t \<Longrightarrow> tlv_frames ts bs \<Longrightarrow> tlv_frames (t # ts) (tlv_frame r t @ bs)"

inductive_cases tlv_frames_ConsE: "tlv_frames (t # ts) bs"
inductive_cases tlv_frames_NilE: "tlv_frames [] bs"

lemma type_mask_eq: "(0x3FFF :: u16) = mask 14" "(0x8000 :: u16) = push_bit 15 1"
  by (simp_all add: mask_eq_exp_minus_1 push_bit_eq_mult)

lemma and_top_bit: "(w :: u16) AND push_bit n 1 = 0 \<longleftrightarrow> \<not> bit w n"
  by (simp add: push_bit_eq_mult and_exp_eq_0_iff_not_bit)

lemma bit_push1: "bit (push_bit n 1 :: u16) i \<longleftrightarrow> i = n \<and> i < 16"
  by (auto simp: push_bit_of_1 bit_exp_iff)

lemmas header_bits =
  bit_or_iff bit_and_iff bit_push1 bit_mask_iff if_distrib [where f = "\<lambda>w. bit w _"] bit_0_eq
  bot_apply bot_bool_def

lemma masked_type_bits:
  assumes "ty AND NOT (mask 14) = (0 :: u16)" "bit ty i"
  shows "i < 14"
proof (rule ccontr)
  assume "\<not> i < 14"
  moreover have "i < 16" using bit_imp_le_length [OF assms(2)] by simp
  ultimately have "bit (ty AND NOT (mask 14)) i" using assms(2) by (simp add: bit_simps)
  then show False using assms(1) by simp
qed

lemma header_split:
  "tlv_header (w AND 0x8000 \<noteq> 0) (bit w 14) (w AND 0x3FFF) = (w :: u16)"
proof (rule bit_word_eqI)
  fix i assume "i < LENGTH(16)"
  then have "i < 14 \<or> i = 14 \<or> i = 15" by auto
  then show "bit (tlv_header (w AND 0x8000 \<noteq> 0) (bit w 14) (w AND 0x3FFF)) i = bit w i"
    unfolding type_mask_eq tlv_header_def and_top_bit header_bits by auto
qed

lemma header_join:
  assumes "ty AND NOT (mask 14) = 0"
  shows "tlv_header m r ty AND 0x3FFF = ty" "(tlv_header m r ty AND 0x8000 \<noteq> 0) = m"
proof -
  note high = masked_type_bits [OF assms]
  show "tlv_header m r ty AND 0x3FFF = ty"
    by (rule bit_word_eqI) (unfold type_mask_eq tlv_header_def header_bits, auto dest: high)
  show "(tlv_header m r ty AND 0x8000 \<noteq> 0) = m"
    unfolding type_mask_eq tlv_header_def and_top_bit header_bits by (auto dest: high)
qed

lemma length_tlv_frame [simp]: "length (tlv_frame r t) = 4 + length (rt_value t)"
  by (simp add: tlv_frame_def)

lemma tlv_frame_not_Nil [simp]: "tlv_frame r t \<noteq> []"
  by (metis length_tlv_frame list.size(3) add_eq_0_iff_both_eq_0 zero_neq_numeral)

lemma tlv_frame_unfold:
  assumes "tlv_ok t"
  obtains b0 b1 b2 b3 where "tlv_frame r t = [b0, b1, b2, b3] @ rt_value t"
    "word_of_be [b0, b1] = tlv_header (rt_mandatory t) r (rt_type t)"
    "unat (word_of_be [b2, b3] :: u16) = length (rt_value t)"
proof -
  obtain b0 b1 b2 b3 where
    h: "be_of_word 2 (tlv_header (rt_mandatory t) r (rt_type t)) = [b0, b1]" and
    l: "be_of_word 2 (word_of_nat (length (rt_value t)) :: u16) = [b2, b3]"
    by (simp add: numeral_2_eq_2)
  have "word_of_be [b0, b1] = tlv_header (rt_mandatory t) r (rt_type t)"
    and "word_of_be [b2, b3] = (word_of_nat (length (rt_value t)) :: u16)"
    by (simp_all flip: h l)
  with assms that [of b0 b1 b2 b3] show thesis
    by (simp add: tlv_frame_def h l tlv_ok_def)
qed

lemma next_tlv_frame:
  assumes ok: "tlv_ok t" and buf: "drop (rd_pos r) (rd_buf r) = tlv_frame b t @ rest"
  shows "next_tlv r = (Inr t, r\<lparr>rd_pos := rd_pos r + 4 + length (rt_value t)\<rparr>)"
proof -
  obtain b0 b1 b2 b3 where f: "tlv_frame b t = [b0, b1, b2, b3] @ rt_value t"
    and h: "word_of_be [b0, b1] = tlv_header (rt_mandatory t) b (rt_type t)"
    and l: "unat (word_of_be [b2, b3] :: u16) = length (rt_value t)"
    using tlv_frame_unfold [OF ok] .
  have len: "rd_pos r + 4 + length (rt_value t) \<le> length (rd_buf r)"
    using arg_cong [OF buf, of length] by (simp add: f)
  have h4: "get_range (rd_buf r) (rd_pos r) (rd_pos r + 4) = Some [b0, b1, b2, b3]"
    using len by (simp add: get_range_Some buf f)
  have "drop (rd_pos r + 4) (rd_buf r) = drop 4 (drop (rd_pos r) (rd_buf r))"
    by (simp add: add.commute)
  then have "drop (rd_pos r + 4) (rd_buf r) = rt_value t @ rest"
    unfolding buf f by simp
  then have v: "get_range (rd_buf r) (rd_pos r + 4) (rd_pos r + 4 + length (rt_value t))
      = Some (rt_value t)"
    using len by (simp add: get_range_Some)
  have ty: "rt_type t \<noteq> 0" and m: "rt_type t AND NOT (mask 14) = 0"
    using ok by (simp_all add: tlv_ok_def)
  show ?thesis
    unfolding next_tlv_def HEADER_LEN_def h4
    using ty header_join [OF m, of "rt_mandatory t" b] v
    by (simp add: h l Let_def raw_tlv_new_def)
qed

lemma encode_into_frame: "tlv_ok t \<Longrightarrow> encode_into t out = Inr (out @ tlv_frame False t)"
proof -
  assume ok: "tlv_ok t"
  then have "rt_type t AND mask 14 = rt_type t"
    by (intro bit_word_eqI) (auto simp: tlv_ok_def bit_and_iff bit_mask_iff dest: masked_type_bits)
  with ok show ?thesis
    unfolding encode_into_def TYPE_MASK_def MANDATORY_BIT_def type_mask_eq
    by (simp add: tlv_ok_def tlv_frame_def tlv_header_def Let_def)
qed

lemma encode_into_Inr: "encode_into t out = Inr out' \<longleftrightarrow> tlv_ok t \<and> out' = out @ tlv_frame False t"
proof
  assume e: "encode_into t out = Inr out'"
  then have "tlv_ok t"
    unfolding encode_into_def TYPE_MASK_def type_mask_eq
    by (auto simp: tlv_ok_def split: if_splits)
  with e show "tlv_ok t \<and> out' = out @ tlv_frame False t" by (simp add: encode_into_frame)
qed (simp add: encode_into_frame)

section \<open>The reader accepts the grammar, and encoding inverts it\<close>

lemma next_tlv_is_frame:
  assumes "next_tlv r = (Inr t, r')"
  obtains b where "tlv_ok t" "drop (rd_pos r) (rd_buf r) = tlv_frame b t @ drop (rd_pos r') (rd_buf r')"
    "rd_buf r' = rd_buf r" "rd_pos r' \<le> length (rd_buf r)"
proof -
  from assms obtain w :: u16 where
    d: "drop (rd_pos r) (rd_buf r) =
       be_of_word 2 w @ be_of_word 2 (word_of_nat (length (rt_value t)) :: u16) @ rt_value t
         @ drop (rd_pos r') (rd_buf r)"
    and ty: "rt_type t = w AND TYPE_MASK" "rt_type t \<noteq> 0"
    and m: "rt_mandatory t = (w AND MANDATORY_BIT \<noteq> 0)"
    and l: "length (rt_value t) \<le> 65535" and r': "rd_buf r' = rd_buf r"
    and p: "rd_pos r' \<le> length (rd_buf r)"
    by (rule next_tlv_Inr)
  have w: "tlv_header (rt_mandatory t) (bit w 14) (rt_type t) = w"
    using header_split [of w] by (simp add: ty m)
  have "rt_type t AND NOT (mask 14) = 0"
    by (rule bit_word_eqI) (simp add: ty type_mask_eq bit_simps)
  with ty l have "tlv_ok t" by (simp add: tlv_ok_def)
  moreover have "drop (rd_pos r) (rd_buf r) = tlv_frame (bit w 14) t @ drop (rd_pos r') (rd_buf r')"
    by (simp add: d tlv_frame_def w r')
  ultimately show thesis using that r' p by blast
qed

lemma parse_loop_sound:
  "parse_loop r acc = Inr ts \<Longrightarrow> length acc \<le> MAX_TLVS \<Longrightarrow>
     \<exists>us. ts = acc @ us \<and> tlv_frames us (drop (rd_pos r) (rd_buf r)) \<and> length ts \<le> MAX_TLVS"
proof (induction r acc rule: parse_loop.induct)
  case (1 r acc)
  show ?case
  proof (cases "reader_is_empty r")
    case True
    with 1(2,3) show ?thesis
      by (auto simp: parse_loop.simps reader_is_empty_def intro: frames_Nil)
  next
    case False
    with 1(2) obtain t r' where n: "next_tlv r = (Inr t, r')" and lt: "length acc < MAX_TLVS"
      and go: "parse_loop r' (acc @ [t]) = Inr ts"
      by (simp add: parse_loop.simps [of r] split: if_splits prod.splits sum.splits)
    from n obtain b where "tlv_ok t"
      and d: "drop (rd_pos r) (rd_buf r) = tlv_frame b t @ drop (rd_pos r') (rd_buf r')"
      by (rule next_tlv_is_frame)
    moreover obtain us where "ts = (acc @ [t]) @ us" "tlv_frames us (drop (rd_pos r') (rd_buf r'))"
      "length ts \<le> MAX_TLVS"
      using 1(1) [OF False _ n [symmetric] refl go] lt by auto
    ultimately show ?thesis by (auto simp: d intro: frames_Cons)
  qed
qed

lemma parse_loop_complete:
  "tlv_frames us (drop (rd_pos r) (rd_buf r)) \<Longrightarrow> length acc + length us \<le> MAX_TLVS \<Longrightarrow>
     parse_loop r acc = Inr (acc @ us)"
proof (induction us arbitrary: r acc)
  case Nil
  then show ?case by (auto simp: parse_loop.simps reader_is_empty_def elim: tlv_frames_NilE)
next
  case (Cons t us)
  from Cons.prems(1) obtain b bs where ok: "tlv_ok t" and us: "tlv_frames us bs"
    and d: "drop (rd_pos r) (rd_buf r) = tlv_frame b t @ bs"
    by (auto elim: tlv_frames_ConsE)
  let ?r = "r\<lparr>rd_pos := rd_pos r + 4 + length (rt_value t)\<rparr>"
  have n: "next_tlv r = (Inr t, ?r)" by (rule next_tlv_frame [OF ok d])
  have "drop (rd_pos ?r) (rd_buf ?r) = drop (4 + length (rt_value t)) (drop (rd_pos r) (rd_buf r))"
    by (simp add: add.commute add.left_commute)
  also have "\<dots> = bs" unfolding d by (simp add: tlv_frame_def)
  finally have "parse_loop ?r (acc @ [t]) = Inr ((acc @ [t]) @ us)"
    using Cons.IH [of ?r "acc @ [t]"] us Cons.prems(2) by simp
  moreover have "\<not> reader_is_empty r"
    using d by (auto simp: reader_is_empty_def)
  ultimately show ?case
    using n Cons.prems(2) by (simp add: parse_loop.simps [of r])
qed

lemma parse_all_iff:
  "parse_all bs = Inr ts \<longleftrightarrow> tlv_frames ts bs \<and> length ts \<le> MAX_TLVS"
  using parse_loop_sound [of "reader_new bs" "[]" ts] parse_loop_complete [of ts "reader_new bs" "[]"]
  by (auto simp: parse_all_def reader_new_def)

lemma encode_all_into_Inr:
  "encode_all_into ts out = Inr out' \<longleftrightarrow>
     list_all tlv_ok ts \<and> out' = out @ concat (map (tlv_frame False) ts)"
proof (induction ts arbitrary: out)
  case (Cons t ts)
  show ?case
    by (cases "tlv_ok t"; cases "encode_into t out")
      (auto simp: encode_into_frame encode_into_Inr Cons.IH)
qed auto

lemma encode_all_Inr:
  "encode_all ts = Inr bs \<longleftrightarrow> list_all tlv_ok ts \<and> bs = concat (map (tlv_frame False) ts)"
  by (simp add: encode_all_def encode_all_into_Inr)

lemma encode_all_frames: "encode_all ts = Inr bs \<Longrightarrow> tlv_frames ts bs"
  unfolding encode_all_Inr by (induction ts arbitrary: bs) (auto intro: tlv_frames.intros)

lemma parse_encode_all:
  "encode_all ts = Inr bs \<Longrightarrow> length ts \<le> MAX_TLVS \<Longrightarrow> parse_all bs = Inr ts"
  by (simp add: parse_all_iff encode_all_frames)

interpretation tlv_list: codec encode_all parse_all "\<lambda>ts. length ts \<le> MAX_TLVS"
  by unfold_locales (rule parse_encode_all)

text \<open>Every TLV sequence that is read can be written again, in as many octets.\<close>

lemma tlv_frames_length: "tlv_frames ts bs \<Longrightarrow> length bs = (\<Sum>t\<leftarrow>ts. 4 + length (rt_value t))"
  by (induction rule: tlv_frames.induct) simp_all

lemma tlv_frames_ok: "tlv_frames ts bs \<Longrightarrow> list_all tlv_ok ts"
  by (induction rule: tlv_frames.induct) simp_all

lemma encode_parsed:
  "parse_all bs = Inr ts \<Longrightarrow> \<exists>bs'. encode_all ts = Inr bs' \<and> length bs' = length bs"
  by (auto simp: parse_all_iff encode_all_Inr dest: tlv_frames_ok)
    (metis encode_all_Inr encode_all_frames tlv_frames_length tlv_frames_ok)

text \<open>The reader stops with \<open>TooManyTlvs\<close> exactly when the ceiling is reached before the end.\<close>

lemma next_tlv_error: "next_tlv r = (Inl e, r') \<Longrightarrow> e \<noteq> TooManyTlvs n"
  by (auto simp: next_tlv_def Let_def split: option.splits list.splits if_splits)

lemma parse_loop_count:
  assumes "parse_loop r acc = Inl (TooManyTlvs n)" and "length acc \<le> MAX_TLVS"
  shows "n = MAX_TLVS \<and> (\<exists>us f rest. length acc + length us = MAX_TLVS \<and> tlv_frames us f
    \<and> rest \<noteq> [] \<and> drop (rd_pos r) (rd_buf r) = f @ rest)"
  using assms
proof (induction r acc rule: parse_loop.induct)
  case (1 r acc)
  from 1(2) have ne: "\<not> reader_is_empty r"
    by (auto simp: parse_loop.simps [of r])
  show ?case
  proof (cases "MAX_TLVS \<le> length acc")
    case True
    with 1(2,3) ne show ?thesis
      by (intro conjI exI [of _ "[]"] exI [of _ "drop (rd_pos r) (rd_buf r)"])
        (auto simp: parse_loop.simps [of r] reader_is_empty_def intro: frames_Nil)
  next
    case False
    with 1(2) ne obtain t r' where n: "next_tlv r = (Inr t, r')"
      and go: "parse_loop r' (acc @ [t]) = Inl (TooManyTlvs n)"
      by (auto simp: parse_loop.simps [of r] next_tlv_error split: prod.splits sum.splits
          dest: next_tlv_error)
    from n obtain b where "tlv_ok t"
      and d: "drop (rd_pos r) (rd_buf r) = tlv_frame b t @ drop (rd_pos r') (rd_buf r')"
      by (rule next_tlv_is_frame)
    moreover obtain us f rest where "length (acc @ [t]) + length us = MAX_TLVS" "tlv_frames us f"
      "rest \<noteq> []" "drop (rd_pos r') (rd_buf r') = f @ rest" "n = MAX_TLVS"
      using 1(1) [OF ne False n [symmetric] refl go] False by auto
    ultimately show ?thesis
      by (intro conjI exI [of _ "t # us"] exI [of _ "tlv_frame b t @ f"] exI [of _ rest])
        (auto intro: frames_Cons)
  qed
qed

section \<open>Properties\<close>

text \<open>C13: the TLV reader decodes exactly the octet strings of the TLV grammar of RFC 7170 (with the
  reserved bit of each header ignored), to exactly the TLVs they spell, up to 4096 of them.\<close>

theorem tlv_reader_grammar:
  "parse_all bs = Inr ts \<longleftrightarrow> tlv_frames ts bs \<and> length ts \<le> MAX_TLVS"
  by (rule parse_all_iff)

text \<open>Encoding a list of at most 4096 TLVs and decoding the octets gives the list back, and what
  the decoder accepts can be encoded again, in as many octets.\<close>

lemma tlv_round_trip:
  assumes "length ts \<le> MAX_TLVS"
  shows "((\<exists>bs. encode_all ts = Inr bs \<and> parse_all bs = Inr ts) \<longleftrightarrow> list_all tlv_ok ts)
    \<and> (\<forall>bs. parse_all bs = Inr ts \<longrightarrow> (\<exists>bs'. encode_all ts = Inr bs' \<and> length bs' = length bs))"
  using assms encode_parsed parse_encode_all by (auto simp: encode_all_Inr)

lemma tlv_round_trip_witness:
  "(\<exists>bs. encode_all [raw_tlv_new True 3 [0, 1]] = Inr bs \<and> parse_all bs = Inr [raw_tlv_new True 3 [0, 1]])"
  using tlv_round_trip [of "[raw_tlv_new True 3 [0, 1]]"]
  by (simp add: MAX_TLVS_def tlv_ok_def raw_tlv_new_def mask_eq_exp_minus_1)

text \<open>The reader gives up with \<open>TooManyTlvs\<close> only after it has read its ceiling of 4096
  well-formed TLVs and octets are left: no shorter input is turned away for its size.\<close>

lemma tlv_ceiling:
  assumes "parse_all bs = Inl (TooManyTlvs n)"
  shows "n = MAX_TLVS \<and> (\<exists>us f rest. length us = MAX_TLVS \<and> tlv_frames us f \<and> rest \<noteq> [] \<and> bs = f @ rest)"
  using parse_loop_count [of "reader_new bs" "[]" n] assms by (simp add: parse_all_def reader_new_def)

lemma tlv_frames_replicate:
  "tlv_ok t \<Longrightarrow> tlv_frames (replicate n t) (concat (replicate n (tlv_frame False t)))"
  by (induction n) (auto intro: tlv_frames.intros)

lemma parse_loop_over:
  "tlv_frames us (drop (rd_pos r) (rd_buf r)) \<Longrightarrow> length acc \<le> MAX_TLVS \<Longrightarrow>
     MAX_TLVS < length acc + length us \<Longrightarrow> parse_loop r acc = Inl (TooManyTlvs MAX_TLVS)"
proof (induction us arbitrary: r acc)
  case (Cons t us)
  from Cons.prems(1) obtain b bs where ok: "tlv_ok t" and us: "tlv_frames us bs"
    and d: "drop (rd_pos r) (rd_buf r) = tlv_frame b t @ bs"
    by (auto elim: tlv_frames_ConsE)
  have ne: "\<not> reader_is_empty r" using d by (auto simp: reader_is_empty_def)
  let ?r = "r\<lparr>rd_pos := rd_pos r + 4 + length (rt_value t)\<rparr>"
  have "drop (rd_pos ?r) (rd_buf ?r) = drop (4 + length (rt_value t)) (drop (rd_pos r) (rd_buf r))"
    by (simp add: add.commute add.left_commute)
  also have "\<dots> = bs" unfolding d by (simp add: tlv_frame_def)
  finally have bs: "drop (rd_pos ?r) (rd_buf ?r) = bs" .
  show ?case
  proof (cases "MAX_TLVS \<le> length acc")
    case False
    then have "parse_loop ?r (acc @ [t]) = Inl (TooManyTlvs MAX_TLVS)"
      using Cons.IH [of ?r "acc @ [t]"] us Cons.prems(3) bs by simp
    then show ?thesis
      using False ne next_tlv_frame [OF ok d] by (simp add: parse_loop.simps [of r])
  qed (simp add: parse_loop.simps [of r] ne)
qed simp

end
