(* ===== verification/Tlv_Body.thy ===== *)
theory Tlv_Body
  imports Tlv_Raw
begin

text \<open>
  The typed bodies of the TLVs the supplicant produces and consumes:
  crates/teap/src/tlv/body.rs. One record or datatype per Rust type, with its \<open>from_value\<close> and
  \<open>to_tlv\<close> under the type's prefix (\<open>it\<close> Identity-Type, \<open>rt\<close> Result, \<open>er\<close> Error, \<open>ep\<close>
  EAP-Payload, \<open>ir\<close> Intermediate-Result, \<open>cb\<close> Crypto-Binding, \<open>nak\<close> NAK, \<open>vs\<close>
  Vendor-Specific). The lemmas are the round trips of every body and the exact domains on which
  parsing succeeds.
\<close>

section \<open>Fixed-width reads\<close>

definition u16_at :: "bytes \<Rightarrow> nat \<Rightarrow> u16 option" where
  "u16_at body off = map_option word_of_be (get_range body off (off + 2))"

definition u32_at :: "bytes \<Rightarrow> nat \<Rightarrow> u32 option" where
  "u32_at body off = map_option word_of_be (get_range body off (off + 4))"

section \<open>Result, Identity-Type and Error\<close>

datatype result_status =
    RsSuccess
  | RsFailure
  | RsUnknown u16

definition result_status_from_u16 :: "u16 \<Rightarrow> result_status" where
  "result_status_from_u16 v = (if v = 1 then RsSuccess else if v = 2 then RsFailure else RsUnknown v)"

fun result_status_to_u16 :: "result_status \<Rightarrow> u16" where
  "result_status_to_u16 RsSuccess = 1"
| "result_status_to_u16 RsFailure = 2"
| "result_status_to_u16 (RsUnknown v) = v"

datatype identity_type =
    ItUser
  | ItMachine
  | ItUnknown u16

definition it_from_value :: "bytes \<Rightarrow> tlv_error + identity_type" where
  "it_from_value body =
     (case (if length body = 2 then u16_at body 0 else None) of
        None \<Rightarrow> Inl (BadBodyLength IDENTITY_TYPE (length body) (Exact 2))
      | Some v \<Rightarrow> Inr (if v = 1 then ItUser else if v = 2 then ItMachine else ItUnknown v))"

fun identity_type_to_u16 :: "identity_type \<Rightarrow> u16" where
  "identity_type_to_u16 ItUser = 1"
| "identity_type_to_u16 ItMachine = 2"
| "identity_type_to_u16 (ItUnknown v) = v"

definition it_to_tlv :: "identity_type \<Rightarrow> bool \<Rightarrow> raw_tlv" where
  "it_to_tlv i mandatory =
     raw_tlv_new mandatory IDENTITY_TYPE (be_of_word 2 (identity_type_to_u16 i))"

definition rt_from_value :: "bytes \<Rightarrow> tlv_error + result_status" where
  "rt_from_value body =
     (case (if length body = 2 then u16_at body 0 else None) of
        None \<Rightarrow> Inl (BadBodyLength RESULT (length body) (Exact 2))
      | Some v \<Rightarrow> Inr (result_status_from_u16 v))"

definition rt_to_tlv :: "result_status \<Rightarrow> bool \<Rightarrow> raw_tlv" where
  "rt_to_tlv st mandatory = raw_tlv_new mandatory RESULT (be_of_word 2 (result_status_to_u16 st))"

definition er_from_value :: "bytes \<Rightarrow> tlv_error + u32" where
  "er_from_value body =
     (case (if length body = 4 then u32_at body 0 else None) of
        None \<Rightarrow> Inl (BadBodyLength ERROR_TYPE (length body) (Exact 4))
      | Some code \<Rightarrow> Inr code)"

definition er_to_tlv :: "u32 \<Rightarrow> bool \<Rightarrow> raw_tlv" where
  "er_to_tlv code mandatory = raw_tlv_new mandatory ERROR_TYPE (be_of_word 4 code)"

section \<open>EAP-Payload\<close>

definition ep_from_value :: "bytes \<Rightarrow> bytes" where
  "ep_from_value body = body"

definition ep_to_tlv :: "bytes \<Rightarrow> bool \<Rightarrow> raw_tlv" where
  "ep_to_tlv eap mandatory = raw_tlv_new mandatory EAP_PAYLOAD eap"

section \<open>Intermediate-Result\<close>

record intermediate_result_tlv =
  ir_status :: result_status
  ir_tlvs :: "raw_tlv list"

definition ir_from_value :: "bytes \<Rightarrow> tlv_error + intermediate_result_tlv" where
  "ir_from_value body =
     (case u16_at body 0 of
        None \<Rightarrow> Inl (BadBodyLength INTERMEDIATE_RESULT (length body) (AtLeast 2))
      | Some st \<Rightarrow>
          (case parse_all (unwrap_or (get_from body 2) []) of
             Inl e \<Rightarrow> Inl e
           | Inr ts \<Rightarrow> Inr \<lparr>ir_status = result_status_from_u16 st, ir_tlvs = ts\<rparr>))"

definition ir_to_tlv :: "intermediate_result_tlv \<Rightarrow> bool \<Rightarrow> tlv_error + raw_tlv" where
  "ir_to_tlv ir mandatory =
     (case encode_all_into (ir_tlvs ir) (be_of_word 2 (result_status_to_u16 (ir_status ir))) of
        Inl e \<Rightarrow> Inl e
      | Inr value \<Rightarrow> Inr (raw_tlv_new mandatory INTERMEDIATE_RESULT value))"

section \<open>Crypto-Binding\<close>

record crypto_binding_tlv =
  cb_version :: u8
  cb_received_version :: u8
  cb_sub_type :: u8
  cb_nonce :: bytes  \<comment> \<open>\<open>[u8; 32]\<close>\<close>
  cb_emsk_mac :: bytes
  cb_msk_mac :: bytes

definition CB_PREFIX_LEN :: nat where [simp]: "CB_PREFIX_LEN = 36"

definition cb_bad :: "nat \<Rightarrow> tlv_error" where
  "cb_bad actual =
     BadBodyLength CRYPTO_BINDING actual (EvenAtLeast (CB_PREFIX_LEN + 2) CB_PREFIX_LEN)"

definition cb_from_value :: "bytes \<Rightarrow> tlv_error + crypto_binding_tlv" where
  "cb_from_value body =
     (case (get_at body 1, get_at body 2, get_at body 3, get_range body 4 CB_PREFIX_LEN) of
        (Some version, Some received, Some sub, Some nonce) \<Rightarrow>
          let macs = unwrap_or (get_from body CB_PREFIX_LEN) [];
              half = length macs div 2
          in if macs = [] \<or> length macs mod 2 \<noteq> 0 then Inl (cb_bad (length body))
             else (case (get_to macs half, get_from macs half) of
                 (Some emsk, Some msk) \<Rightarrow>
                   Inr \<lparr>cb_version = version, cb_received_version = received, cb_sub_type = sub,
                     cb_nonce = nonce, cb_emsk_mac = emsk, cb_msk_mac = msk\<rparr>
               | _ \<Rightarrow> Inl (cb_bad (length body)))
      | _ \<Rightarrow> Inl (cb_bad (length body)))"

definition cb_to_tlv :: "crypto_binding_tlv \<Rightarrow> bool \<Rightarrow> tlv_error + raw_tlv" where
  "cb_to_tlv cb mandatory =
     (if length (cb_emsk_mac cb) \<noteq> length (cb_msk_mac cb) then
        Inl (FieldLengthMismatch CRYPTO_BINDING (length (cb_emsk_mac cb)) (length (cb_msk_mac cb)))
      else Inr (raw_tlv_new mandatory CRYPTO_BINDING
        ([0, cb_version cb, cb_received_version cb, cb_sub_type cb] @ cb_nonce cb
          @ cb_emsk_mac cb @ cb_msk_mac cb)))"

section \<open>NAK and Vendor-Specific\<close>

record nak_tlv =
  nak_vendor_id :: u32
  nak_nak_type :: u16
  nak_tlvs :: "raw_tlv list"

definition NAK_PREFIX_LEN :: nat where [simp]: "NAK_PREFIX_LEN = 6"

definition nak_from_value :: "bytes \<Rightarrow> tlv_error + nak_tlv" where
  "nak_from_value body =
     (let bad = BadBodyLength NAK (length body) (AtLeast NAK_PREFIX_LEN) in
      case u32_at body 0 of
        None \<Rightarrow> Inl bad
      | Some vendor \<Rightarrow>
          (case u16_at body 4 of
             None \<Rightarrow> Inl bad
           | Some ty \<Rightarrow>
               (case parse_all (unwrap_or (get_from body NAK_PREFIX_LEN) []) of
                  Inl e \<Rightarrow> Inl e
                | Inr ts \<Rightarrow> Inr \<lparr>nak_vendor_id = vendor, nak_nak_type = ty, nak_tlvs = ts\<rparr>)))"

definition nak_to_tlv :: "nak_tlv \<Rightarrow> bool \<Rightarrow> tlv_error + raw_tlv" where
  "nak_to_tlv n mandatory =
     (case encode_all_into (nak_tlvs n)
             (be_of_word 4 (nak_vendor_id n) @ be_of_word 2 (nak_nak_type n)) of
        Inl e \<Rightarrow> Inl e
      | Inr value \<Rightarrow> Inr (raw_tlv_new mandatory NAK value))"

record vendor_specific_tlv =
  vs_vendor_id :: u32
  vs_data :: bytes

definition VS_PREFIX_LEN :: nat where [simp]: "VS_PREFIX_LEN = 4"

definition vs_from_value :: "bytes \<Rightarrow> tlv_error + vendor_specific_tlv" where
  "vs_from_value body =
     (case u32_at body 0 of
        None \<Rightarrow> Inl (BadBodyLength VENDOR_SPECIFIC (length body) (AtLeast VS_PREFIX_LEN))
      | Some vendor \<Rightarrow>
          Inr \<lparr>vs_vendor_id = vendor, vs_data = unwrap_or (get_from body VS_PREFIX_LEN) []\<rparr>)"

definition vs_to_tlv :: "vendor_specific_tlv \<Rightarrow> bool \<Rightarrow> raw_tlv" where
  "vs_to_tlv v mandatory =
     raw_tlv_new mandatory VENDOR_SPECIFIC (be_of_word 4 (vs_vendor_id v) @ vs_data v)"

section \<open>Round trips\<close>

named_theorems body_simps \<open>reads at the front of a buffer\<close>

lemma raw_tlv_new_sel [simp]:
  "rt_value (raw_tlv_new m ty v) = v" "rt_type (raw_tlv_new m ty v) = ty"
  "rt_mandatory (raw_tlv_new m ty v) = m"
  by (simp_all add: raw_tlv_new_def)

lemma u16_at_front [body_simps]: "u16_at (be_of_word 2 w @ rest) 0 = Some w"
  by (simp add: u16_at_def get_range_def)

lemma u32_at_front [body_simps]: "u32_at (be_of_word 4 w @ rest) 0 = Some w"
  by (simp add: u32_at_def get_range_def)

lemmas reads_alone [body_simps] =
  u16_at_front [where rest = "[]", unfolded append_Nil2]
  u32_at_front [where rest = "[]", unfolded append_Nil2]

lemma u16_at_None: "u16_at body off = None \<longleftrightarrow> length body < off + 2"
  by (auto simp: u16_at_def get_range_None)

lemma u32_at_None: "u32_at body off = None \<longleftrightarrow> length body < off + 4"
  by (auto simp: u32_at_def get_range_None)

lemma u16_at_Some:
  "u16_at body off = Some w \<longleftrightarrow> off + 2 \<le> length body \<and> take 2 (drop off body) = be_of_word 2 w"
  by (auto simp: u16_at_def get_range_def)

lemma result_status_round [simp]: "result_status_to_u16 (result_status_from_u16 v) = v"
  by (simp add: result_status_from_u16_def)

text \<open>The statuses a decoder produces: an \<open>Unknown\<close> never hides a known code.\<close>

definition status_wf :: "result_status \<Rightarrow> bool" where
  "status_wf st \<longleftrightarrow> st \<noteq> RsUnknown 1 \<and> st \<noteq> RsUnknown 2"

lemma status_round: "status_wf st \<Longrightarrow> result_status_from_u16 (result_status_to_u16 st) = st"
  by (cases st) (auto simp: status_wf_def result_status_from_u16_def)

lemma status_wf_from [simp]: "status_wf (result_status_from_u16 v)"
  by (simp add: status_wf_def result_status_from_u16_def)

definition identity_wf :: "identity_type \<Rightarrow> bool" where
  "identity_wf i \<longleftrightarrow> i \<noteq> ItUnknown 1 \<and> i \<noteq> ItUnknown 2"

lemma it_round: "identity_wf i \<Longrightarrow> it_from_value (rt_value (it_to_tlv i m)) = Inr i"
  by (cases i) (auto simp: it_from_value_def it_to_tlv_def identity_wf_def body_simps)

lemma rt_round: "status_wf st \<Longrightarrow> rt_from_value (rt_value (rt_to_tlv st m)) = Inr st"
  by (simp add: rt_from_value_def rt_to_tlv_def body_simps status_round)

lemma er_round: "er_from_value (rt_value (er_to_tlv code m)) = Inr code"
  by (simp add: er_from_value_def er_to_tlv_def body_simps)

lemma vs_round: "vs_from_value (rt_value (vs_to_tlv v m)) = Inr v"
  by (simp add: vs_from_value_def vs_to_tlv_def body_simps)

lemma parse_after_prefix:
  assumes "encode_all_into ts pre = Inr value" and "length ts \<le> MAX_TLVS"
  shows "parse_all (unwrap_or (get_from value (length pre)) []) = Inr ts"
proof -
  have "drop (length pre) value = concat (map (tlv_frame False) ts)" "list_all tlv_ok ts"
    using assms(1) by (auto simp: encode_all_into_Inr)
  then show ?thesis using assms(2) by (simp add: parse_encode_all encode_all_Inr)
qed

lemma ir_round:
  assumes "ir_to_tlv ir m = Inr t" and "status_wf (ir_status ir)" and "length (ir_tlvs ir) \<le> MAX_TLVS"
  shows "ir_from_value (rt_value t) = Inr ir"
proof -
  obtain v where v: "encode_all_into (ir_tlvs ir) (be_of_word 2 (result_status_to_u16 (ir_status ir))) = Inr v"
    and t: "t = raw_tlv_new m INTERMEDIATE_RESULT v"
    using assms(1) by (auto simp: ir_to_tlv_def split: sum.splits)
  have "u16_at v 0 = Some (result_status_to_u16 (ir_status ir))"
    using v by (simp add: encode_all_into_Inr body_simps)
  with parse_after_prefix [OF v assms(3)] show ?thesis
    by (simp add: t ir_from_value_def status_round [OF assms(2)])
qed

lemma nak_round:
  assumes "nak_to_tlv n m = Inr t" and "length (nak_tlvs n) \<le> MAX_TLVS"
  shows "nak_from_value (rt_value t) = Inr n"
proof -
  obtain v where
    v: "encode_all_into (nak_tlvs n) (be_of_word 4 (nak_vendor_id n) @ be_of_word 2 (nak_nak_type n)) = Inr v"
    and t: "t = raw_tlv_new m NAK v"
    using assms(1) by (auto simp: nak_to_tlv_def split: sum.splits)
  have "u32_at v 0 = Some (nak_vendor_id n)" "u16_at v 4 = Some (nak_nak_type n)"
    using v by (simp_all add: encode_all_into_Inr body_simps u16_at_Some)
  with parse_after_prefix [OF v assms(2)] show ?thesis
    by (simp add: t nak_from_value_def Let_def)
qed

text \<open>The wire form of a Crypto-Binding body: a reserved octet, then the fields.\<close>

definition cb_wf :: "crypto_binding_tlv \<Rightarrow> bool" where
  "cb_wf cb \<longleftrightarrow> length (cb_nonce cb) = 32 \<and> length (cb_emsk_mac cb) = length (cb_msk_mac cb)
     \<and> cb_msk_mac cb \<noteq> []"

definition cb_octets :: "u8 \<Rightarrow> crypto_binding_tlv \<Rightarrow> bytes" where
  "cb_octets reserved cb =
     [reserved, cb_version cb, cb_received_version cb, cb_sub_type cb] @ cb_nonce cb
       @ cb_emsk_mac cb @ cb_msk_mac cb"

lemma cb_from_octets:
  assumes wf: "cb_wf cb"
  shows "cb_from_value (cb_octets r cb) = Inr cb"
proof -
  let ?b = "cb_octets r cb" and ?macs = "cb_emsk_mac cb @ cb_msk_mac cb"
  from wf have len: "length (cb_nonce cb) = 32" "length (cb_emsk_mac cb) = length (cb_msk_mac cb)"
    and ne: "cb_msk_mac cb \<noteq> []"
    by (simp_all add: cb_wf_def)
  have "get_at ?b 1 = Some (cb_version cb)" "get_at ?b 2 = Some (cb_received_version cb)"
    "get_at ?b 3 = Some (cb_sub_type cb)" "get_range ?b 4 36 = Some (cb_nonce cb)"
    by (simp_all add: cb_octets_def get_at_def get_range_def len)
  moreover have "unwrap_or (get_from ?b 36) [] = ?macs"
    by (simp add: cb_octets_def len)
  moreover have "length ?macs div 2 = length (cb_emsk_mac cb)" "length ?macs mod 2 = 0"
    by (simp_all add: len)
  ultimately show ?thesis
    using ne by (simp add: cb_from_value_def Let_def get_to_def get_from_def)
qed

lemma cb_from_value_octets:
  assumes "cb_from_value body = Inr cb"
  shows "cb_wf cb \<and> body = cb_octets (body ! 0) cb"
proof -
  from assms have len: "36 < length body" and even: "even (length body - 36)"
    by (auto simp: cb_from_value_def Let_def get_range_def get_at_def even_iff_mod_2_eq_zero
        split: option.splits if_splits)
  let ?macs = "drop 36 body" and ?h = "(length body - 36) div 2"
  have cb: "cb = \<lparr>cb_version = body ! 1, cb_received_version = body ! 2, cb_sub_type = body ! 3,
      cb_nonce = take 32 (drop 4 body), cb_emsk_mac = take ?h ?macs, cb_msk_mac = drop ?h ?macs\<rparr>"
    using assms
    by (auto simp: cb_from_value_def Let_def get_range_def get_at_def get_to_def get_from_def
        split: option.splits if_splits)
  have "body = take 4 body @ take 32 (drop 4 body) @ drop 36 body"
    using append_take_drop_id [of 4 body] append_take_drop_id [of 32 "drop 4 body"] by simp
  moreover have "take 4 body = [body ! 0, body ! 1, body ! 2, body ! 3]"
    using len by (intro take_four) simp
  ultimately have "body = cb_octets (body ! 0) cb"
    unfolding cb cb_octets_def by (simp del: drop_drop)
  moreover obtain k where k: "length body = 36 + 2 * k"
    using even len by (metis add.commute le_add_diff_inverse2 less_imp_le evenE)
  with len have "cb_wf cb" by (simp add: cb cb_wf_def)
  ultimately show ?thesis by blast
qed

lemma cb_round:
  assumes "cb_to_tlv cb m = Inr t" and "length (cb_nonce cb) = 32" and "cb_msk_mac cb \<noteq> []"
  shows "cb_from_value (rt_value t) = Inr cb"
proof -
  have "cb_wf cb" "rt_value t = cb_octets 0 cb"
    using assms by (auto simp: cb_to_tlv_def cb_wf_def cb_octets_def split: if_splits)
  then show ?thesis by (simp add: cb_from_octets)
qed

text \<open>The bodies that carry structure are codecs.\<close>

interpretation ir: codec "\<lambda>ir. ir_to_tlv ir m" "\<lambda>t. ir_from_value (rt_value t)"
  "\<lambda>ir. status_wf (ir_status ir) \<and> length (ir_tlvs ir) \<le> MAX_TLVS" for m
  by unfold_locales (blast intro: ir_round)

interpretation nak: codec "\<lambda>n. nak_to_tlv n m" "\<lambda>t. nak_from_value (rt_value t)"
  "\<lambda>n. length (nak_tlvs n) \<le> MAX_TLVS" for m
  by unfold_locales (blast intro: nak_round)

interpretation cb: codec "\<lambda>cb. cb_to_tlv cb m" "\<lambda>t. cb_from_value (rt_value t)"
  "\<lambda>cb. length (cb_nonce cb) = 32 \<and> cb_msk_mac cb \<noteq> []" for m
  by unfold_locales (blast intro: cb_round)

section \<open>Properties\<close>

text \<open>A Crypto-Binding body decodes exactly when it is a reserved octet, the version, received
  version, sub-type and a 32-octet nonce, then two compound MACs of one non-zero length: in
  particular an empty or an odd MAC region is never accepted.\<close>

lemma crypto_binding_body:
  "cb_from_value body = Inr cb \<longleftrightarrow>
     length (cb_nonce cb) = 32 \<and> length (cb_emsk_mac cb) = length (cb_msk_mac cb) \<and> cb_msk_mac cb \<noteq> []
     \<and> (\<exists>reserved. body = [reserved, cb_version cb, cb_received_version cb, cb_sub_type cb]
          @ cb_nonce cb @ cb_emsk_mac cb @ cb_msk_mac cb)"
  using cb_from_value_octets [of body cb] cb_from_octets [of cb]
  unfolding cb_wf_def cb_octets_def by auto

text \<open>C20: every typed body comes back from its own TLV: identities and statuses (but for an
  \<open>Unknown\<close> that hides a known code), error codes, vendor data with no condition, and the bodies
  that enclose TLVs when these number at most 4096.\<close>

theorem typed_bodies_round_trip:
  assumes "identity_wf i" and "status_wf st" and "status_wf (ir_status ir)"
    and "length (ir_tlvs ir) \<le> MAX_TLVS" and "length (nak_tlvs n) \<le> MAX_TLVS"
    and "ir_to_tlv ir m = Inr t" and "nak_to_tlv n m = Inr u"
  shows "it_from_value (rt_value (it_to_tlv i m)) = Inr i
    \<and> rt_from_value (rt_value (rt_to_tlv st m)) = Inr st
    \<and> er_from_value (rt_value (er_to_tlv code m)) = Inr code
    \<and> vs_from_value (rt_value (vs_to_tlv v m)) = Inr v
    \<and> ir_from_value (rt_value t) = Inr ir \<and> nak_from_value (rt_value u) = Inr n"
  using assms by (simp add: it_round rt_round er_round vs_round ir.dec_enc nak.dec_enc)

theorem typed_bodies_round_trip_witness:
  "\<exists>t. ir_to_tlv \<lparr>ir_status = RsSuccess, ir_tlvs = [raw_tlv_new True 3 [0, 1]]\<rparr> True = Inr t
     \<and> ir_from_value (rt_value t) = Inr \<lparr>ir_status = RsSuccess, ir_tlvs = [raw_tlv_new True 3 [0, 1]]\<rparr>"
proof -
  let ?r = "raw_tlv_new True 3 [0, 1]"
  have ok: "tlv_ok ?r" by (simp add: tlv_ok_def mask_eq_exp_minus_1)
  obtain t where t: "ir_to_tlv \<lparr>ir_status = RsSuccess, ir_tlvs = [?r]\<rparr> True = Inr t"
    by (simp add: ir_to_tlv_def encode_into_frame [OF ok])
  obtain u where u: "nak_to_tlv \<lparr>nak_vendor_id = 0, nak_nak_type = 7, nak_tlvs = [?r]\<rparr> True = Inr u"
    by (simp add: nak_to_tlv_def encode_into_frame [OF ok])
  show ?thesis
    using typed_bodies_round_trip [OF _ _ _ _ _ t u, of ItUser RsFailure] t
    by (simp add: identity_wf_def status_wf_def MAX_TLVS_def)
qed

end
