(* ===== verification/Eap.thy ===== *)
theory Eap
  imports Tlv_Raw
begin

text \<open>
  EAP packet framing, the outer envelope of TEAP: crates/teap/src/eap.rs. The decoder and the
  encoder are translated branch for branch; the lemmas say exactly which octets decode, and that
  the two directions are inverse on the packets the supplicant builds.
\<close>

datatype eap_code =
    Request
  | Response
  | EapSuccess
  | EapFailure
  | UnknownCode u8

definition eap_code_from_u8 :: "u8 \<Rightarrow> eap_code" where
  "eap_code_from_u8 v =
     (if v = 1 then Request else if v = 2 then Response else if v = 3 then EapSuccess
      else if v = 4 then EapFailure else UnknownCode v)"

fun eap_code_to_u8 :: "eap_code \<Rightarrow> u8" where
  "eap_code_to_u8 Request = 1"
| "eap_code_to_u8 Response = 2"
| "eap_code_to_u8 EapSuccess = 3"
| "eap_code_to_u8 EapFailure = 4"
| "eap_code_to_u8 (UnknownCode v) = v"

fun carries_type :: "eap_code \<Rightarrow> bool" where
  "carries_type Request = True"
| "carries_type Response = True"
| "carries_type _ = False"

definition EAP_HEADER_LEN :: nat where [simp]: "EAP_HEADER_LEN = 4"

record eap_packet =
  ep_code :: eap_code
  ep_id :: u8
  ep_type :: "u8 option"
  ep_data :: bytes

definition eap_decode :: "bytes \<Rightarrow> tlv_error + eap_packet" where
  "eap_decode bs =
     (case get_range bs 0 EAP_HEADER_LEN of
        Some [code, ident, hi, lo] \<Rightarrow>
          let declared = unat (word_of_be [hi, lo] :: u16)
          in if declared < EAP_HEADER_LEN \<or> declared \<noteq> length bs then
               Inl (TruncatedValue 0 declared (length bs))
             else
               let c = eap_code_from_u8 code;
                   body = unwrap_or (get_from bs EAP_HEADER_LEN) []
               in if carries_type c then
                    (case get_at body 0 of
                       None \<Rightarrow> Inl (TruncatedValue 0 declared (length bs))
                     | Some ty \<Rightarrow> Inr \<lparr>ep_code = c, ep_id = ident, ep_type = Some ty,
                         ep_data = unwrap_or (get_from body 1) []\<rparr>)
                  else Inr \<lparr>ep_code = c, ep_id = ident, ep_type = None, ep_data = []\<rparr>
      | _ \<Rightarrow> Inl (TruncatedHeader 0 (length bs)))"

definition eap_encode :: "eap_packet \<Rightarrow> tlv_error + bytes" where
  "eap_encode p =
     (let type_len = (if ep_type p = None then 0 else 1);
          total = EAP_HEADER_LEN + type_len + length (ep_data p)
      in if 65535 < total then Inl (ValueTooLong 0 total)
         else Inr ([eap_code_to_u8 (ep_code p), ep_id p] @ be_of_word 2 (word_of_nat total :: u16)
           @ (case ep_type p of None \<Rightarrow> [] | Some ty \<Rightarrow> ty # ep_data p)))"

section \<open>Exact domain and round trips\<close>

definition eap_code_wf :: "eap_code \<Rightarrow> bool" where
  "eap_code_wf c \<longleftrightarrow> (\<forall>v. c = UnknownCode v \<longrightarrow> v \<notin> {1, 2, 3, 4})"

definition eap_wf :: "eap_packet \<Rightarrow> bool" where
  "eap_wf p \<longleftrightarrow> eap_code_wf (ep_code p) \<and> (ep_type p \<noteq> None \<longleftrightarrow> carries_type (ep_code p))
     \<and> (ep_type p = None \<longrightarrow> ep_data p = [])"

lemma eap_code_round: "eap_code_wf c \<Longrightarrow> eap_code_from_u8 (eap_code_to_u8 c) = c"
  by (cases c) (auto simp: eap_code_wf_def eap_code_from_u8_def)

lemma eap_code_to_from [simp]: "eap_code_to_u8 (eap_code_from_u8 v) = v"
  by (simp add: eap_code_from_u8_def)

lemma eap_code_wf_from [simp]: "eap_code_wf (eap_code_from_u8 v)"
  by (simp add: eap_code_wf_def eap_code_from_u8_def)

lemma eap_decode_unfold:
  "eap_decode bs = (case bs of
      c # i # hi # lo # body \<Rightarrow>
        let n = unat (word_of_be [hi, lo] :: u16) in
        if n \<noteq> length bs then Inl (TruncatedValue 0 n (length bs))
        else if carries_type (eap_code_from_u8 c) then
          (case body of
             [] \<Rightarrow> Inl (TruncatedValue 0 n n)
           | ty # data \<Rightarrow>
               Inr \<lparr>ep_code = eap_code_from_u8 c, ep_id = i, ep_type = Some ty, ep_data = data\<rparr>)
        else Inr \<lparr>ep_code = eap_code_from_u8 c, ep_id = i, ep_type = None, ep_data = []\<rparr>
    | _ \<Rightarrow> Inl (TruncatedHeader 0 (length bs)))"
  by (auto simp: eap_decode_def get_range_def get_at_def get_from_def Let_def split: list.split)

lemma eap_decode_encode:
  assumes "eap_encode p = Inr bs" and "eap_wf p"
  shows "eap_decode bs = Inr p"
proof -
  obtain c i ty d where p: "p = \<lparr>ep_code = c, ep_id = i, ep_type = ty, ep_data = d\<rparr>"
    by (cases p) auto
  define n where "n = 4 + (if ty = None then 0 else 1) + length d"
  obtain hi lo where h: "be_of_word 2 (word_of_nat n :: u16) = [hi, lo]"
    by (simp add: numeral_2_eq_2)
  have n: "n < 65536"
    using assms(1) by (auto simp: eap_encode_def p n_def Let_def split: if_splits)
  have bs: "bs = eap_code_to_u8 c # i # hi # lo # (case ty of None \<Rightarrow> [] | Some t \<Rightarrow> t # d)"
    using assms(1) by (auto simp: eap_encode_def p n_def [symmetric] h Let_def split: if_splits)
  have "unat (word_of_be [hi, lo] :: u16) = n"
    using n by (simp flip: h)
  with assms(2) show ?thesis
    by (auto simp: eap_decode_unfold p bs n_def eap_wf_def eap_code_round split: option.splits)
qed

lemma eap_decode_wf: "eap_decode bs = Inr p \<Longrightarrow> eap_wf p"
  by (auto simp: eap_decode_unfold eap_wf_def Let_def split: list.splits if_splits)

lemma eap_encode_decode:
  assumes "eap_decode bs = Inr p"
  shows "length bs \<le> 65535"
    "carries_type (ep_code p) \<or> length bs = 4 \<Longrightarrow> eap_encode p = Inr bs"
proof -
  obtain c i hi lo body where bs: "bs = c # i # hi # lo # body"
    and n: "unat (word_of_be [hi, lo] :: u16) = length bs"
    and p: "ep_code p = eap_code_from_u8 c" "ep_id p = i"
      "carries_type (ep_code p) \<Longrightarrow> body \<noteq> [] \<and> ep_type p = Some (hd body) \<and> ep_data p = tl body"
      "\<not> carries_type (ep_code p) \<Longrightarrow> ep_type p = None \<and> ep_data p = []"
    using assms by (auto simp: eap_decode_unfold Let_def split: list.splits if_splits)
  from n unat_u16_bound [of "word_of_be [hi, lo]"] show le: "length bs \<le> 65535" by simp
  have "word_of_nat (length bs) = (word_of_be [hi, lo] :: u16)"
    by (simp flip: n)
  then have "be_of_word 2 (word_of_nat (length bs) :: u16) = [hi, lo]" by simp
  then show "carries_type (ep_code p) \<or> length bs = 4 \<Longrightarrow> eap_encode p = Inr bs"
    using p le by (cases "carries_type (ep_code p)"; cases body) (auto simp: eap_encode_def Let_def bs)
qed

interpretation eap: codec eap_encode eap_decode eap_wf
  by unfold_locales (rule eap_decode_encode)

section \<open>Properties\<close>

text \<open>What the EAP decoder accepts is at most 65535 octets and well formed; a packet it decodes
  is encoded back to the same octets when it is a Request, a Response or header-only, and every
  well-formed packet that can be encoded is decoded to itself.\<close>

lemma eap_round_trip:
  assumes "eap_decode bs = Inr p"
  shows "eap_wf p \<and> length bs \<le> 65535
    \<and> (carries_type (ep_code p) \<or> length bs = 4 \<longrightarrow> eap_encode p = Inr bs)
    \<and> (\<forall>q bs'. eap_encode q = Inr bs' \<and> eap_wf q \<longrightarrow> eap_decode bs' = Inr q)"
  using eap_decode_wf [OF assms] eap_encode_decode [OF assms] eap.dec_enc by blast

lemma eap_round_trip_witness:
  "eap_encode \<lparr>ep_code = Request, ep_id = 1, ep_type = Some 55, ep_data = [9]\<rparr> = Inr [1, 1, 0, 6, 55, 9]"
proof -
  have "word_of_be [0, 6] = (6 :: u16)" by (simp add: word_of_be_def push_bit_eq_mult)
  then have "eap_decode [1, 1, 0, 6, 55, 9]
      = Inr \<lparr>ep_code = Request, ep_id = 1, ep_type = Some 55, ep_data = [9]\<rparr>"
    by (simp add: eap_decode_unfold eap_code_from_u8_def)
  from eap_round_trip [OF this] show ?thesis by simp
qed

text \<open>A Success or Failure packet with octets after its header is not turned away: the decoder
  drops them and reports the packet as header-only.\<close>

lemma eap_result_trailing_accepted:
  assumes "c \<in> {3, 4}" and "length body + 4 < 65536"
  shows "eap_decode ([c, i] @ be_of_word 2 (word_of_nat (length body + 4) :: u16) @ body)
    = Inr \<lparr>ep_code = eap_code_from_u8 c, ep_id = i, ep_type = None, ep_data = []\<rparr>"
proof -
  obtain hi lo where h: "be_of_word 2 (word_of_nat (length body + 4) :: u16) = [hi, lo]"
    by (simp add: numeral_2_eq_2)
  have "unat (word_of_be [hi, lo] :: u16) = length body + 4"
    unfolding h [symmetric] by (subst word_of_be_of_word) (simp_all add: unat_of_nat_u16 [OF assms(2)] del: of_nat_add)
  then show ?thesis
    unfolding h using assms(1) by (auto simp: eap_decode_unfold eap_code_from_u8_def Let_def)
qed

end
