(* ===== verification/Outer.thy ===== *)
theory Outer
  imports Eap
begin

text \<open>
  The TEAP outer framing and fragmentation: crates/teap/src/outer.rs. \<open>reasm_push\<close> keeps the
  order of the source's checks and leaves the reassembler as the source does on each error.
  The lemmas: parsing and building are inverse up to the reserved bits, the reassembler never
  buffers more than its bound, and it recovers every message \<open>fragment\<close> cut.
\<close>

definition TEAP_EAP_TYPE :: u8 where [simp]: "TEAP_EAP_TYPE = 55"
definition TEAP_VERSION :: u8 where [simp]: "TEAP_VERSION = 1"
definition FLAG_L :: u8 where [simp]: "FLAG_L = 0x80"
definition FLAG_M :: u8 where [simp]: "FLAG_M = 0x40"
definition FLAG_S :: u8 where [simp]: "FLAG_S = 0x20"
definition VERSION_MASK :: u8 where [simp]: "VERSION_MASK = 0x07"
definition TLS_LEN_FIELD :: nat where [simp]: "TLS_LEN_FIELD = 4"
definition MAX_FRAGMENTS :: nat where "MAX_FRAGMENTS = 1024"

record teap_outer =
  to_more :: bool
  to_start :: bool
  to_version :: u8
  to_length :: "u32 option"
  to_data :: bytes

definition outer_ack :: "u8 \<Rightarrow> teap_outer" where
  "outer_ack version =
     \<lparr>to_more = False, to_start = False, to_version = version AND VERSION_MASK,
       to_length = None, to_data = []\<rparr>"

definition is_ack :: "teap_outer \<Rightarrow> bool" where
  "is_ack o' \<longleftrightarrow> \<not> to_start o' \<and> \<not> to_more o' \<and> to_data o' = []"

definition outer_parse :: "bytes \<Rightarrow> tlv_error + teap_outer" where
  "outer_parse type_data =
     (case get_at type_data 0 of
        None \<Rightarrow> Inl (TruncatedValue (ucast TEAP_EAP_TYPE) 1 0)
      | Some flags \<Rightarrow>
          let more = (flags AND FLAG_M \<noteq> 0);
              start = (flags AND FLAG_S \<noteq> 0);
              version = flags AND VERSION_MASK
          in if flags AND FLAG_L \<noteq> 0 then
               (case get_range type_data 1 (1 + TLS_LEN_FIELD) of
                  None \<Rightarrow> Inl (TruncatedValue (ucast TEAP_EAP_TYPE) (1 + TLS_LEN_FIELD) (length type_data))
                | Some len_bytes \<Rightarrow>
                    Inr \<lparr>to_more = more, to_start = start, to_version = version,
                      to_length = Some (word_of_be len_bytes),
                      to_data = unwrap_or (get_from type_data (1 + TLS_LEN_FIELD)) []\<rparr>)
             else Inr \<lparr>to_more = more, to_start = start, to_version = version, to_length = None,
               to_data = unwrap_or (get_from type_data 1) []\<rparr>)"

definition outer_flags :: "teap_outer \<Rightarrow> u8" where
  "outer_flags o' =
     (let f0 = to_version o' AND VERSION_MASK;
          f1 = (if to_more o' then f0 OR FLAG_M else f0);
          f2 = (if to_start o' then f1 OR FLAG_S else f1)
      in if to_length o' \<noteq> None then f2 OR FLAG_L else f2)"

definition outer_build :: "teap_outer \<Rightarrow> bytes" where
  "outer_build o' =
     [outer_flags o'] @ (case to_length o' of None \<Rightarrow> [] | Some len \<Rightarrow> be_of_word 4 len) @ to_data o'"

section \<open>Reassembly\<close>

record reassembler =
  ra_buf :: bytes
  ra_expected :: "nat option"
  ra_max :: nat
  ra_fragments :: nat

definition reasm_new :: "nat \<Rightarrow> reassembler" where
  "reasm_new max_total = \<lparr>ra_buf = [], ra_expected = None, ra_max = max_total, ra_fragments = 0\<rparr>"

text \<open>Recording the declared total (the \<open>if let Some(declared)\<close> block).\<close>

definition reasm_declare ::
  "teap_outer \<Rightarrow> reassembler \<Rightarrow> (tlv_error + unit) \<times> reassembler" where
  "reasm_declare o' r =
     (case to_length o' of
        None \<Rightarrow> (Inr (), r)
      | Some d \<Rightarrow>
          let declared = unat d in
          if ra_max r < declared then (Inl (TooManyTlvs (ra_max r)), r)
          else (case ra_expected r of
              None \<Rightarrow> (Inr (), r\<lparr>ra_expected := Some declared\<rparr>)
            | Some prev \<Rightarrow>
                if prev \<noteq> declared then (Inl (TruncatedValue (ucast TEAP_EAP_TYPE) declared prev), r)
                else (Inr (), r)))"

definition reasm_push ::
  "teap_outer \<Rightarrow> reassembler \<Rightarrow> (tlv_error + bytes option) \<times> reassembler" where
  "reasm_push o' r0 =
     (let r1 = r0\<lparr>ra_fragments := sat_add (ra_fragments r0) 1\<rparr> in
      if MAX_FRAGMENTS < ra_fragments r1 then (Inl (TooManyTlvs MAX_FRAGMENTS), r1)
      else (case reasm_declare o' r1 of
          (Inl e, r2) \<Rightarrow> (Inl e, r2)
        | (Inr _, r2) \<Rightarrow>
            if ra_max r2 < length (ra_buf r2) + length (to_data o') then
              (Inl (TooManyTlvs (ra_max r2)), r2)
            else
              let r3 = r2\<lparr>ra_buf := ra_buf r2 @ to_data o'\<rparr> in
              if to_more o' then (Inr None, r3)
              else (case ra_expected r3 of
                  Some tot \<Rightarrow>
                    if length (ra_buf r3) \<noteq> tot then
                      (Inl (TruncatedValue (ucast TEAP_EAP_TYPE) tot (length (ra_buf r3))), r3)
                    else (Inr (Some (ra_buf r3)),
                      r3\<lparr>ra_expected := None, ra_fragments := 0, ra_buf := []\<rparr>)
                | None \<Rightarrow> (Inr (Some (ra_buf r3)),
                    r3\<lparr>ra_expected := None, ra_fragments := 0, ra_buf := []\<rparr>))))"

section \<open>Fragmentation\<close>

text \<open>\<open>message.chunks(n)\<close>, for a positive \<open>n\<close>.\<close>

function chunks :: "nat \<Rightarrow> bytes \<Rightarrow> bytes list" where
  "chunks n xs = (if xs = [] \<or> n = 0 then [] else take n xs # chunks n (drop n xs))"
  by pat_completeness auto
termination
  by (relation "measure (\<lambda>(n, xs). length xs)") auto

declare chunks.simps [simp del]

text \<open>The loop over the chunks: \<open>first\<close> tells whether the total is still to be sent.\<close>

fun frag_loop :: "u8 \<Rightarrow> u32 option \<Rightarrow> bool \<Rightarrow> bytes list \<Rightarrow> teap_outer list" where
  "frag_loop version tot first [] = []"
| "frag_loop version tot first (piece # pieces) =
     \<lparr>to_more = (pieces \<noteq> []), to_start = False, to_version = version,
       to_length = (if first then tot else None), to_data = piece\<rparr>
     # frag_loop version tot False pieces"

definition fragment :: "bytes \<Rightarrow> nat \<Rightarrow> u8 \<Rightarrow> teap_outer list" where
  "fragment message max_fragment version0 =
     (let chunk = max max_fragment 1;
          version = version0 AND VERSION_MASK
      in if length message \<le> chunk then
           [\<lparr>to_more = False, to_start = False, to_version = version, to_length = None,
             to_data = message\<rparr>]
         else
           let tot = (if length message \<le> u32_max then Some (word_of_nat (length message)) else None)
           in frag_loop version tot True (chunks chunk message))"

section \<open>Parsing and building\<close>

lemma octet_bits: "i < LENGTH(8) \<Longrightarrow> i \<in> {0, 1, 2, 3, 4, 5, 6, 7}"
  by auto

text \<open>The flag octet holds exactly the three flags and the version.\<close>

lemma flag_masks:
  "FLAG_L = push_bit 7 1" "FLAG_M = push_bit 6 1" "FLAG_S = push_bit 5 1" "VERSION_MASK = mask 3"
  by (simp_all add: push_bit_eq_mult mask_eq_exp_minus_1)

lemma and_flag: "(w :: u8) AND push_bit n 1 = 0 \<longleftrightarrow> \<not> bit w n"
  by (simp add: push_bit_eq_mult and_exp_eq_0_iff_not_bit)

lemma bit_flag: "bit (push_bit n 1 :: u8) i \<longleftrightarrow> i = n \<and> i < 8"
  by (auto simp: push_bit_of_1 bit_exp_iff)

lemma outer_flags_bits:
  "bit (outer_flags m) i \<longleftrightarrow>
     i < 3 \<and> bit (to_version m) i \<or> i = 6 \<and> to_more m \<or> i = 5 \<and> to_start m
     \<or> i = 7 \<and> to_length m \<noteq> None"
  unfolding outer_flags_def Let_def flag_masks
  by (auto simp: bit_or_iff bit_and_iff bit_flag bit_mask_iff simp del: push_bit_of_1)

lemma outer_flags_read:
  "outer_flags m AND FLAG_L \<noteq> 0 \<longleftrightarrow> to_length m \<noteq> None"
  "outer_flags m AND FLAG_M \<noteq> 0 \<longleftrightarrow> to_more m"
  "outer_flags m AND FLAG_S \<noteq> 0 \<longleftrightarrow> to_start m"
  "outer_flags m AND VERSION_MASK = to_version m AND VERSION_MASK"
  unfolding flag_masks and_flag
  by (auto simp: outer_flags_bits bit_and_iff bit_mask_iff intro!: bit_word_eqI)

text \<open>A message the supplicant can build: the version fits its three bits.\<close>

definition outer_wf :: "teap_outer \<Rightarrow> bool" where
  "outer_wf m \<longleftrightarrow> to_version m AND VERSION_MASK = to_version m"

lemma outer_parse_build:
  assumes "outer_wf m"
  shows "outer_parse (outer_build m) = Inr m"
proof -
  note flags = outer_flags_read [of m]
  have v: "outer_flags m AND VERSION_MASK = to_version m"
    using assms flags(4) by (simp add: outer_wf_def)
  show ?thesis
  proof (cases "to_length m")
    case None
    then show ?thesis
      unfolding outer_parse_def outer_build_def
      by (cases m) (use flags v None in \<open>simp add: get_at_def get_from_def Let_def del: FLAG_L_def FLAG_M_def FLAG_S_def VERSION_MASK_def\<close>)
  next
    case (Some len)
    then show ?thesis
      unfolding outer_parse_def outer_build_def
      by (cases m) (use flags v Some in \<open>simp add: get_at_def get_range_def Let_def del: FLAG_L_def FLAG_M_def FLAG_S_def VERSION_MASK_def\<close>)
  qed
qed

text \<open>TEAP messages as the Type-Data of EAP packets: one codec carried in the other.\<close>

definition teap_packet :: "eap_code \<Rightarrow> u8 \<Rightarrow> bytes \<Rightarrow> eap_packet" where
  "teap_packet c i d = \<lparr>ep_code = c, ep_id = i, ep_type = Some TEAP_EAP_TYPE, ep_data = d\<rparr>"

interpretation teap: codec_stack "\<lambda>m. (Inr (outer_build m) :: unit + bytes)" outer_parse outer_wf
  "\<lambda>d. eap_encode (teap_packet c i d)" "\<lambda>bs. map_sum (\<lambda>e. e) ep_data (eap_decode bs)"
  "\<lambda>d. carries_type c" for c i
proof unfold_locales
  fix x d and w v :: bytes
  show "Inr (outer_build x) = (Inr w :: unit + bytes) \<Longrightarrow> outer_wf x \<Longrightarrow> outer_parse w = Inr x"
    by (auto simp: outer_parse_build)
  assume "eap_encode (teap_packet c i d) = Inr v" "carries_type c"
  moreover from this have "eap_wf (teap_packet c i d)"
    by (cases c) (auto simp: eap_wf_def teap_packet_def eap_code_wf_def)
  ultimately have "eap_decode v = Inr (teap_packet c i d)"
    by (simp add: eap_decode_encode)
  then show "map_sum (\<lambda>e. e) ep_data (eap_decode v) = Inr d"
    by (simp add: teap_packet_def)
qed

section \<open>What the reassembler returns\<close>

text \<open>Pushing a sequence of fragments, collecting the messages they complete.\<close>

fun reasm_run :: "teap_outer list \<Rightarrow> reassembler \<Rightarrow> (tlv_error + bytes list) \<times> reassembler" where
  "reasm_run [] r = (Inr [], r)"
| "reasm_run (m # ms) r =
     (case reasm_push m r of
        (Inl e, r') \<Rightarrow> (Inl e, r')
      | (Inr None, r') \<Rightarrow> reasm_run ms r'
      | (Inr (Some x), r') \<Rightarrow>
          (case reasm_run ms r' of
             (Inl e, r'') \<Rightarrow> (Inl e, r'')
           | (Inr xs, r'') \<Rightarrow> (Inr (x # xs), r'')))"

definition reasm_inv :: "reassembler \<Rightarrow> bool" where
  "reasm_inv r \<longleftrightarrow> length (ra_buf r) \<le> ra_max r \<and> (\<forall>n. ra_expected r = Some n \<longrightarrow> n \<le> ra_max r)"

lemma reasm_new_inv [simp]: "reasm_inv (reasm_new n)"
  by (simp add: reasm_inv_def reasm_new_def)

lemma reasm_declare_keeps:
  "reasm_declare m r = (x, r') \<Longrightarrow>
     ra_buf r' = ra_buf r \<and> ra_max r' = ra_max r \<and> ra_fragments r' = ra_fragments r
     \<and> (reasm_inv r \<longrightarrow> reasm_inv r')"
  by (auto simp: reasm_declare_def reasm_inv_def Let_def split: option.splits if_splits)

lemma reasm_push_keeps:
  assumes "reasm_push m r = (x, r')" and "reasm_inv r"
  shows "reasm_inv r' \<and> ra_max r' = ra_max r"
proof -
  let ?r1 = "r\<lparr>ra_fragments := sat_add (ra_fragments r) 1\<rparr>"
  obtain y r2 where d: "reasm_declare m ?r1 = (y, r2)" by (cases "reasm_declare m ?r1")
  have "reasm_inv ?r1" using assms(2) by (simp add: reasm_inv_def)
  then have "reasm_inv r2" "ra_max r2 = ra_max r"
    using reasm_declare_keeps [OF d] by simp_all
  then show ?thesis
    using assms d
    by (auto simp: reasm_push_def Let_def reasm_inv_def split: if_splits option.splits sum.splits)
qed

lemma reasm_push_Inr:
  assumes "reasm_push m r = (Inr x, r')"
  shows "length (ra_buf r @ to_data m) \<le> ra_max r \<and>
    (if to_more m then x = None \<and> ra_buf r' = ra_buf r @ to_data m \<and> ra_max r' = ra_max r
     else x = Some (ra_buf r @ to_data m) \<and> r' = reasm_new (ra_max r))"
proof -
  let ?r1 = "r\<lparr>ra_fragments := sat_add (ra_fragments r) 1\<rparr>"
  obtain y r2 where d: "reasm_declare m ?r1 = (y, r2)" by (cases "reasm_declare m ?r1")
  then show ?thesis
    using assms reasm_declare_keeps [OF d]
    by (auto simp: reasm_push_def Let_def reasm_new_def split: if_splits option.splits sum.splits)
qed

lemma reasm_run_data:
  "reasm_run ms r = (Inr xs, r') \<Longrightarrow> reasm_inv r \<Longrightarrow>
     concat xs @ ra_buf r' = ra_buf r @ concat (map to_data ms) \<and> reasm_inv r'
     \<and> ra_max r' = ra_max r \<and> (\<forall>x\<in>set xs. length x \<le> ra_max r)"
proof (induction ms arbitrary: r xs)
  case (Cons m ms)
  obtain y r1 where p: "reasm_push m r = (Inr y, r1)"
    using Cons.prems(1) by (auto split: prod.splits sum.splits)
  note push = reasm_push_Inr [OF p]
  have inv: "reasm_inv r1" "ra_max r1 = ra_max r"
    using reasm_push_keeps [OF p Cons.prems(2)] by simp_all
  show ?case
  proof (cases "to_more m")
    case True
    with push p Cons.prems Cons.IH [of r1 xs] inv show ?thesis by simp
  next
    case False
    with push p Cons.prems(1) obtain zs where "reasm_run ms r1 = (Inr zs, r')"
      "xs = (ra_buf r @ to_data m) # zs"
      by (auto split: prod.splits sum.splits)
    with False push Cons.IH [of r1 zs] inv show ?thesis by (auto simp: reasm_new_def)
  qed
qed simp

section \<open>Reassembly inverts fragmentation\<close>

lemma chunks_Nil [simp]: "chunks n [] = []"
  by (simp add: chunks.simps)

lemma concat_chunks: "0 < n \<Longrightarrow> concat (chunks n xs) = xs"
proof (induction n xs rule: chunks.induct)
  case (1 n xs)
  then show ?case by (cases "xs = []") (simp_all add: chunks.simps [of n xs])
qed

lemma length_chunks: "0 < n \<Longrightarrow> length xs \<le> n * k \<Longrightarrow> length (chunks n xs) \<le> k"
proof (induction n xs arbitrary: k rule: chunks.induct)
  case (1 n xs)
  show ?case
  proof (cases "xs = []")
    case False
    with 1(3) obtain j where "k = Suc j" by (cases k) auto
    with False 1 show ?thesis by (simp add: chunks.simps [of n xs])
  qed (simp add: chunks.simps)
qed

lemma chunks_Nil_iff: "0 < n \<Longrightarrow> chunks n xs = [] \<longleftrightarrow> xs = []"
  by (simp add: chunks.simps)

text \<open>The remaining fragments, after the first: no length field.\<close>

lemma reasm_frag_loop:
  assumes "pieces \<noteq> []" and "ra_fragments r + length pieces \<le> MAX_FRAGMENTS"
    and "length (ra_buf r @ concat pieces) \<le> ra_max r"
    and "first \<Longrightarrow> ra_expected r = None \<and> (\<forall>n. tot = Some n \<longrightarrow> unat n = length (ra_buf r @ concat pieces))"
    and "\<not> first \<Longrightarrow> (\<forall>n. ra_expected r = Some n \<longrightarrow> n = length (ra_buf r @ concat pieces))"
  shows "reasm_run (frag_loop v tot first pieces) r
     = (Inr [ra_buf r @ concat pieces], reasm_new (ra_max r))"
  using assms
proof (induction pieces arbitrary: r first)
  case (Cons p ps)
  have frag: "sat_add (ra_fragments r) 1 = Suc (ra_fragments r)" "Suc (ra_fragments r) \<le> MAX_FRAGMENTS"
    using Cons.prems(2) by (auto simp: MAX_FRAGMENTS_def sat_add_def usize_max_def)
  let ?m = "hd (frag_loop v tot first (p # ps))"
  let ?e = "if first then map_option unat tot else ra_expected r"
  have decl: "reasm_declare ?m (r\<lparr>ra_fragments := Suc (ra_fragments r)\<rparr>)
      = (Inr (), r\<lparr>ra_fragments := Suc (ra_fragments r), ra_expected := ?e\<rparr>)"
    using Cons.prems(3-5) by (auto simp: reasm_declare_def Let_def split: option.split)
  show ?case
  proof (cases "ps = []")
    case True
    then have "reasm_push ?m r = (Inr (Some (ra_buf r @ p)), reasm_new (ra_max r))"
      using Cons.prems(3-5) frag decl
      by (auto simp: reasm_push_def Let_def reasm_new_def split: option.split)
    with True show ?thesis by simp
  next
    case False
    let ?r = "r\<lparr>ra_fragments := Suc (ra_fragments r), ra_expected := ?e, ra_buf := ra_buf r @ p\<rparr>"
    have "reasm_push ?m r = (Inr None, ?r)"
      using False Cons.prems(3) frag decl by (simp add: reasm_push_def Let_def)
    moreover have "reasm_run (frag_loop v tot False ps) ?r
        = (Inr [ra_buf ?r @ concat ps], reasm_new (ra_max ?r))"
      by (rule Cons.IH) (use Cons.prems False in \<open>auto split: if_splits\<close>)
    ultimately show ?thesis by simp
  qed
qed simp

lemma reasm_fragment:
  assumes len: "length msg \<le> mx" and cnt: "length msg \<le> max mf 1 * MAX_FRAGMENTS"
  shows "reasm_run (fragment msg mf v) (reasm_new mx) = (Inr [msg], reasm_new mx)"
proof (cases "length msg \<le> max mf 1")
  case True
  with reasm_frag_loop [of "[msg]" "reasm_new mx" False None] len show ?thesis
    by (simp add: fragment_def Let_def reasm_new_def MAX_FRAGMENTS_def)
next
  case False
  let ?ps = "chunks (max mf 1) msg"
  let ?tot = "if length msg \<le> u32_max then Some (word_of_nat (length msg) :: u32) else None"
  have "?ps \<noteq> []" using False by (auto simp: chunks_Nil_iff)
  moreover have "length ?ps \<le> MAX_FRAGMENTS" using cnt by (intro length_chunks) simp_all
  moreover have "concat ?ps = msg" by (simp add: concat_chunks)
  ultimately have "reasm_run (frag_loop (v AND VERSION_MASK) ?tot True ?ps) (reasm_new mx)
      = (Inr [msg], reasm_new mx)"
    using reasm_frag_loop [of ?ps "reasm_new mx" True ?tot "v AND VERSION_MASK"] len
    by (simp add: reasm_new_def u32_max_def)
  with False show ?thesis by (simp add: fragment_def Let_def)
qed

lemma chunks_small: "0 < n \<Longrightarrow> p \<in> set (chunks n xs) \<Longrightarrow> length p \<le> n"
proof (induction n xs rule: chunks.induct)
  case (1 n xs)
  then show ?case by (cases "xs = []") (auto simp: chunks.simps [of n xs])
qed

lemma frag_loop_data: "map to_data (frag_loop v tot first ps) = ps"
  by (induction ps arbitrary: first) simp_all

lemma fragment_small: "m \<in> set (fragment msg mf v) \<Longrightarrow> length (to_data m) \<le> max mf 1"
proof -
  assume m: "m \<in> set (fragment msg mf v)"
  then have "to_data m = msg \<and> length msg \<le> max mf 1 \<or> to_data m \<in> set (chunks (max mf 1) msg)"
    by (auto simp: fragment_def Let_def split: if_splits)
      (metis frag_loop_data image_eqI list.set_map)+
  then show ?thesis using chunks_small [of "max mf 1"] by auto
qed

text \<open>A peer that never ends its message is cut off.\<close>

lemma reasm_run_endless:
  assumes "\<forall>m\<in>set ms. to_more m" and "reasm_run ms r = (Inr xs, r')" and "ra_fragments r \<le> MAX_FRAGMENTS"
  shows "ra_fragments r + length ms \<le> MAX_FRAGMENTS"
  using assms
proof (induction ms arbitrary: r)
  case (Cons m ms)
  obtain y r1 where p: "reasm_push m r = (Inr y, r1)"
    using Cons.prems(2) by (auto split: prod.splits sum.splits)
  let ?r1 = "r\<lparr>ra_fragments := sat_add (ra_fragments r) 1\<rparr>"
  obtain z r2 where d: "reasm_declare m ?r1 = (z, r2)" by (cases "reasm_declare m ?r1")
  have "ra_fragments r1 = Suc (ra_fragments r) \<and> ra_fragments r1 \<le> MAX_FRAGMENTS"
    using p d reasm_declare_keeps [OF d] Cons.prems(1,3)
    by (auto simp: reasm_push_def Let_def MAX_FRAGMENTS_def sat_add_def usize_max_def
        split: if_splits option.splits sum.splits)
  moreover have "reasm_run ms r1 = (Inr xs, r')"
    using p reasm_push_Inr [OF p] Cons.prems(1,2) by simp
  ultimately show ?case using Cons.IH [of r1] Cons.prems(1) by simp
qed simp

section \<open>Unfragmented messages\<close>

definition whole :: "bytes \<Rightarrow> teap_outer" where
  "whole bs = \<lparr>to_more = False, to_start = False, to_version = 1, to_length = None, to_data = bs\<rparr>"

definition start_packet :: teap_outer where
  "start_packet = \<lparr>to_more = False, to_start = True, to_version = 1, to_length = None, to_data = []\<rparr>"

lemma version_one: "(1 :: u8) AND VERSION_MASK = 1"
  by simp

lemma whole_wf [simp]: "outer_wf (whole bs)" "outer_wf start_packet"
  by (simp_all add: outer_wf_def whole_def start_packet_def)

lemma whole_ack [simp]: "is_ack (whole bs) \<longleftrightarrow> bs = []" "\<not> is_ack start_packet" "to_start start_packet"
  by (simp_all add: is_ack_def whole_def start_packet_def)

lemma reasm_whole:
  "length bs \<le> mx \<Longrightarrow> reasm_push (whole bs) (reasm_new mx) = (Inr (Some bs), reasm_new mx)"
  by (simp add: reasm_push_def reasm_declare_def whole_def reasm_new_def sat_add_def usize_max_def
      MAX_FRAGMENTS_def)

lemma length_outer_build: "length (outer_build m) \<le> 5 + length (to_data m)"
  by (auto simp: outer_build_def split: option.split)

section \<open>Properties\<close>

text \<open>Parsing the Type-Data built from a TEAP message gives the message back, its flags, version,
  length field and data.\<close>

lemma outer_round_trip:
  assumes "to_version m < 8"
  shows "outer_parse (outer_build m) = Inr m"
proof (rule outer_parse_build)
  show "outer_wf m"
    unfolding outer_wf_def flag_masks using assms by (intro less_mask_eq) simp
qed

lemma outer_round_trip_witness:
  "outer_parse (outer_build (outer_ack 1)) = Inr (outer_ack 1)"
  using outer_round_trip [of "outer_ack 1"] by (simp add: outer_ack_def)

text \<open>C15: reassembly inverts fragmentation: fed the fragments of a message in order, the reassembler
  returns that message and is as good as new, for every fragment size that cuts it in at most 1024
  pieces; and no fragment carries more than the size asked for.\<close>

theorem fragments_reassemble:
  assumes "length msg \<le> mx" and "length msg \<le> max mf 1 * MAX_FRAGMENTS"
  shows "reasm_run (fragment msg mf v) (reasm_new mx) = (Inr [msg], reasm_new mx)
    \<and> (\<forall>m\<in>set (fragment msg mf v). length (to_data m) \<le> max mf 1)"
  using reasm_fragment [OF assms] fragment_small by blast

theorem fragments_reassemble_witness:
  "reasm_run (fragment [1, 2, 3, 4, 5] 2 1) (reasm_new 100) = (Inr [[1, 2, 3, 4, 5]], reasm_new 100)"
  using fragments_reassemble [of "[1, 2, 3, 4, 5]" 100 2 1] by (simp add: MAX_FRAGMENTS_def)

text \<open>The reassembler loses, repeats and reorders nothing, whatever the peer sends: the messages it
  has returned followed by what it holds are the data of the fragments in order. Neither a returned
  message nor its buffer is ever longer than the bound it was made with.\<close>

lemma reassembler_conserves:
  assumes "reasm_run ms (reasm_new mx) = (Inr xs, r)"
  shows "concat xs @ ra_buf r = concat (map to_data ms) \<and> length (ra_buf r) \<le> mx
    \<and> (\<forall>x\<in>set xs. length x \<le> mx)"
  using reasm_run_data [OF assms reasm_new_inv] by (simp add: reasm_new_def reasm_inv_def)

lemma reassembler_conserves_witness:
  "concat [[1, 2, 3, 4, 5]] @ ra_buf (reasm_new 100) = concat (map to_data (fragment [1, 2, 3, 4, 5] 2 1))"
  using reassembler_conserves [OF reasm_fragment [of "[1, 2, 3, 4, 5]" 100 2 1]]
  by (simp add: MAX_FRAGMENTS_def)

text \<open>A peer that never clears the more-fragments flag is cut off: no more than 1024 fragments
  are ever accepted for one message, even empty ones.\<close>

lemma reassembler_cuts_off:
  assumes "\<forall>m\<in>set ms. to_more m" and "MAX_FRAGMENTS < length ms"
  shows "\<exists>e. fst (reasm_run ms (reasm_new mx)) = Inl e"
proof (cases "fst (reasm_run ms (reasm_new mx))")
  case (Inr xs)
  then have "reasm_run ms (reasm_new mx) = (Inr xs, snd (reasm_run ms (reasm_new mx)))"
    by (simp add: prod_eq_iff)
  from reasm_run_endless [OF assms(1) this] assms(2) show ?thesis by (simp add: reasm_new_def)
qed simp

end
