(* ===== verification/Key_Schedule.thy ===== *)
theory Key_Schedule
  imports Prelude
begin

text \<open>
  The key schedule: crates/teap/src/keyschedule.rs with the errors of crates/teap/src/error.rs,
  and the production MAC of crates/fips-tls/src/mac.rs. The MAC primitive is the trait object
  \<open>TeapMac\<close>, a record of its two methods; aws-lc's HMAC is a parameter. \<open>mac_provider\<close> is the
  contract of an implementation of the trait (documented for HMAC: a fixed positive output
  length). The lemmas show that \<open>hkdf_expand\<close> is the HKDF-Expand of RFC 5869 and that the chain
  keeps the lengths of the contract.
\<close>

datatype key_schedule_error =
    BadSeedLen nat
  | BadImskLen nat
  | BadHashLen
  | OutputTooLong nat nat
  | NoMethods
  | KsInternal

definition S_IMCK_LEN :: nat where [simp]: "S_IMCK_LEN = 40"
definition IMSK_LEN :: nat where [simp]: "IMSK_LEN = 32"
definition IMCK_LEN :: nat where [simp]: "IMCK_LEN = 60"
definition SESSION_KEY_LEN :: nat where [simp]: "SESSION_KEY_LEN = 64"

definition EXPORTER_LABEL_SESSION_KEY_SEED :: bytes where
  "EXPORTER_LABEL_SESSION_KEY_SEED = ascii ''EXPORTER: teap session key seed''"
definition LABEL_INNER_METHODS_COMPOUND_KEYS :: bytes where
  "LABEL_INNER_METHODS_COMPOUND_KEYS = ascii ''Inner Methods Compound Keys''"
definition LABEL_MSK :: bytes where
  "LABEL_MSK = ascii ''Session Key Generating Function''"
definition LABEL_EMSK :: bytes where
  "LABEL_EMSK = ascii ''Extended Session Key Generating Function''"

section \<open>The MAC\<close>

text \<open>A \<open>&dyn TeapMac\<close>.\<close>

record teap_mac =
  mac_hash_len :: nat
  mac_hmac :: "bytes \<Rightarrow> bytes \<Rightarrow> bytes"  \<comment> \<open>key, data\<close>

text \<open>\<open>AwsLcMac\<close> over aws-lc's HMAC, a function of the algorithm, the key and the data.\<close>

datatype hmac_algorithm = HMAC_SHA256 | HMAC_SHA384

record aws_lc_mac =
  am_algo :: hmac_algorithm
  am_hash_len :: nat

definition aws_sha256 :: aws_lc_mac where
  "aws_sha256 = \<lparr>am_algo = HMAC_SHA256, am_hash_len = 32\<rparr>"

definition aws_sha384 :: aws_lc_mac where
  "aws_sha384 = \<lparr>am_algo = HMAC_SHA384, am_hash_len = 48\<rparr>"

definition aws_dyn_mac ::
  "(hmac_algorithm \<Rightarrow> bytes \<Rightarrow> bytes \<Rightarrow> bytes) \<Rightarrow> aws_lc_mac \<Rightarrow> teap_mac" where
  "aws_dyn_mac sign m = \<lparr>mac_hash_len = am_hash_len m, mac_hmac = sign (am_algo m)\<rparr>"

section \<open>HKDF-Expand\<close>

text \<open>The loop \<open>for i in 1..=blocks\<close> over the list of its counters.\<close>

fun hkdf_loop ::
  "teap_mac \<Rightarrow> bytes \<Rightarrow> bytes \<Rightarrow> nat \<Rightarrow> nat \<Rightarrow> nat list \<Rightarrow> bytes \<Rightarrow> bytes
     \<Rightarrow> key_schedule_error + bytes" where
  "hkdf_loop mac prk info len mx [] t okm = Inr okm"
| "hkdf_loop mac prk info len mx (i # is) t okm =
     (if 255 < i then Inl (OutputTooLong len mx)
      else
        let t' = mac_hmac mac prk (t @ info @ [word_of_nat i])
        in hkdf_loop mac prk info len mx is t' (okm @ t'))"

definition hkdf_expand ::
  "teap_mac \<Rightarrow> bytes \<Rightarrow> bytes \<Rightarrow> nat \<Rightarrow> key_schedule_error + bytes" where
  "hkdf_expand mac prk info len =
     (let hash_len = mac_hash_len mac in
      if hash_len = 0 then Inl BadHashLen
      else
        let mx = min (hash_len * 255) usize_max in
        if mx < len then Inl (OutputTooLong len mx)
        else
          let blocks = (len + hash_len - 1) div hash_len in
          case hkdf_loop mac prk info len mx [1..<Suc blocks] [] [] of
            Inl e \<Rightarrow> Inl e
          | Inr okm \<Rightarrow> Inr (take len okm))"

section \<open>The compound-key chain\<close>

type_synonym cmk = bytes

record key_schedule =
  ks_s_imck :: bytes
  ks_methods :: nat

definition ks_new :: "bytes \<Rightarrow> key_schedule_error + key_schedule" where
  "ks_new seed =
     (if length seed \<noteq> S_IMCK_LEN then Inl (BadSeedLen (length seed))
      else Inr \<lparr>ks_s_imck = seed, ks_methods = 0\<rparr>)"

definition absorb_inner ::
  "teap_mac \<Rightarrow> bytes \<Rightarrow> key_schedule \<Rightarrow> (key_schedule_error + cmk) \<times> key_schedule" where
  "absorb_inner mac imsk ks =
     (if length imsk \<noteq> IMSK_LEN then (Inl (BadImskLen (length imsk)), ks)
      else
        let info = LABEL_INNER_METHODS_COMPOUND_KEYS @ imsk in
        case hkdf_expand mac (ks_s_imck ks) info IMCK_LEN of
          Inl e \<Rightarrow> (Inl e, ks)
        | Inr block \<Rightarrow>
            (case (get_to block S_IMCK_LEN, get_range block S_IMCK_LEN IMCK_LEN) of
               (Some next, Some cmk) \<Rightarrow>
                 (Inr cmk, ks\<lparr>ks_s_imck := next, ks_methods := sat_add (ks_methods ks) 1\<rparr>)
             | _ \<Rightarrow> (Inl KsInternal, ks)))"

definition derive_session_keys ::
  "teap_mac \<Rightarrow> key_schedule \<Rightarrow> key_schedule_error + (bytes \<times> bytes)" where
  "derive_session_keys mac ks =
     (if ks_methods ks = 0 then Inl NoMethods
      else
        case hkdf_expand mac (ks_s_imck ks) LABEL_MSK SESSION_KEY_LEN of
          Inl e \<Rightarrow> Inl e
        | Inr msk \<Rightarrow>
            (case hkdf_expand mac (ks_s_imck ks) LABEL_EMSK SESSION_KEY_LEN of
               Inl e \<Rightarrow> Inl e
             | Inr emsk \<Rightarrow> Inr (msk, emsk)))"

section \<open>RFC 5869\<close>

text \<open>\<open>T(0) = ""\<close>, \<open>T(i) = HMAC(PRK, T(i-1) | info | i)\<close>.\<close>

primrec hkdf_t :: "teap_mac \<Rightarrow> bytes \<Rightarrow> bytes \<Rightarrow> nat \<Rightarrow> bytes" where
  "hkdf_t mac prk info 0 = []"
| "hkdf_t mac prk info (Suc i) =
     mac_hmac mac prk (hkdf_t mac prk info i @ info @ [word_of_nat (Suc i)])"

definition hkdf_okm :: "teap_mac \<Rightarrow> bytes \<Rightarrow> bytes \<Rightarrow> nat \<Rightarrow> bytes" where
  "hkdf_okm mac prk info n = concat (map (hkdf_t mac prk info) [1..<Suc n])"

lemma hkdf_okm_Suc: "hkdf_okm mac prk info (Suc n) = hkdf_okm mac prk info n @ hkdf_t mac prk info (Suc n)"
  by (simp add: hkdf_okm_def)

lemma hkdf_loop_rfc:
  "k + n \<le> 255 \<Longrightarrow>
     hkdf_loop mac prk info len mx [Suc k..<Suc (k + n)] (hkdf_t mac prk info k) (hkdf_okm mac prk info k)
       = Inr (hkdf_okm mac prk info (k + n))"
proof (induction n arbitrary: k)
  case (Suc n)
  have "[Suc k..<Suc (k + Suc n)] = Suc k # [Suc (Suc k)..<Suc (Suc k + n)]"
    by (simp add: upt_rec)
  moreover have "hkdf_loop mac prk info len mx [Suc (Suc k)..<Suc (Suc k + n)]
      (hkdf_t mac prk info (Suc k)) (hkdf_okm mac prk info (Suc k))
      = Inr (hkdf_okm mac prk info (Suc k + n))"
    by (rule Suc.IH) (use Suc.prems in simp)
  ultimately show ?case
    using Suc.prems by (simp add: Let_def hkdf_okm_Suc del: upt_Suc)
qed (simp add: hkdf_okm_def)

lemma blocks_bound:
  fixes h len :: nat
  assumes "0 < h" and "len \<le> h * 255"
  shows "(len + h - 1) div h \<le> 255" "len \<le> h * ((len + h - 1) div h)"
proof -
  have "(len + h - 1) div h < 256"
    using assms by (subst div_less_iff_less_mult) simp_all
  then show "(len + h - 1) div h \<le> 255" by simp
  have "len + h - 1 = h * ((len + h - 1) div h) + (len + h - 1) mod h" by simp
  moreover have "(len + h - 1) mod h < h" using assms by simp
  ultimately show "len \<le> h * ((len + h - 1) div h)" by linarith
qed

text \<open>Whatever the MAC, the output is the prefix of the RFC's key material.\<close>

lemma hkdf_expand_rfc:
  assumes "0 < mac_hash_len mac" and "len \<le> min (mac_hash_len mac * 255) usize_max"
  shows "hkdf_expand mac prk info len = Inr (take len
    (hkdf_okm mac prk info ((len + mac_hash_len mac - 1) div mac_hash_len mac)))"
proof -
  let ?n = "(len + mac_hash_len mac - 1) div mac_hash_len mac"
  have "?n \<le> 255" using blocks_bound(1) [of "mac_hash_len mac" len] assms by simp
  then have "hkdf_loop mac prk info len mx [Suc 0..<Suc ?n] [] [] = Inr (hkdf_okm mac prk info ?n)" for mx
    using hkdf_loop_rfc [of 0 ?n mac prk info len mx] by (simp add: hkdf_okm_def)
  moreover have "\<not> min (mac_hash_len mac * 255) usize_max < len" using assms(2) by (simp only: not_less)
  ultimately show ?thesis using assms(1) by (simp add: hkdf_expand_def Let_def)
qed

section \<open>What an implementation of the MAC promises\<close>

text \<open>
  HMAC-H has an output of one fixed, positive length; \<open>ok\<close> holds of the implementations for which
  the documentation promises it.
\<close>

locale mac_provider =
  fixes dyn :: "'p \<Rightarrow> teap_mac"
    and ok :: "'p \<Rightarrow> bool"
  assumes hash_len_pos: "ok p \<Longrightarrow> 0 < mac_hash_len (dyn p)"
    and hmac_length: "ok p \<Longrightarrow> length (mac_hmac (dyn p) key d) = mac_hash_len (dyn p)"
begin

lemma length_okm: "ok p \<Longrightarrow> length (hkdf_okm (dyn p) prk info n) = mac_hash_len (dyn p) * n"
  by (induction n) (simp_all add: hkdf_okm_Suc hmac_length, simp add: hkdf_okm_def)

lemma hkdf_expand_length:
  assumes "ok p" and "len \<le> 255"
  shows "\<exists>okm. hkdf_expand (dyn p) prk info len = Inr okm \<and> length okm = len"
proof -
  let ?h = "mac_hash_len (dyn p)"
  have h: "0 < ?h" using assms(1) by (rule hash_len_pos)
  then have le: "len \<le> min (?h * 255) usize_max"
    using assms(2) by (simp add: usize_max_def)
  show ?thesis
    using hkdf_expand_rfc [OF h le] blocks_bound(2) [OF h, of len] le
    by (simp add: length_okm [OF assms(1)])
qed

text \<open>The chain: a good IMSK is absorbed, the CMK has 20 octets and the S-IMCK keeps its 40.\<close>

lemma absorb_ok:
  assumes "ok p" and "length imsk = IMSK_LEN"
  shows "\<exists>cmk next. absorb_inner (dyn p) imsk ks
      = (Inr cmk, ks\<lparr>ks_s_imck := next, ks_methods := sat_add (ks_methods ks) 1\<rparr>)
    \<and> length cmk = 20 \<and> length next = S_IMCK_LEN
    \<and> hkdf_expand (dyn p) (ks_s_imck ks) (LABEL_INNER_METHODS_COMPOUND_KEYS @ imsk) IMCK_LEN
        = Inr (next @ cmk)"
proof -
  obtain okm where okm: "hkdf_expand (dyn p) (ks_s_imck ks) (LABEL_INNER_METHODS_COMPOUND_KEYS @ imsk) 60
      = Inr okm" "length okm = 60"
    using hkdf_expand_length [OF assms(1), of 60] by auto
  have "take 40 okm @ take 20 (drop 40 okm) = okm"
    using okm(2) append_take_drop_id [of 40 okm] by simp
  with okm assms(2) show ?thesis
    by (intro exI [of _ "take 20 (drop 40 okm)"] exI [of _ "take 40 okm"])
      (simp add: absorb_inner_def get_to_def get_range_def)
qed

lemma derive_ok:
  assumes "ok p" and "0 < ks_methods ks"
  shows "\<exists>msk emsk. derive_session_keys (dyn p) ks = Inr (msk, emsk)
    \<and> length msk = SESSION_KEY_LEN \<and> length emsk = SESSION_KEY_LEN"
proof -
  obtain msk emsk where
    "hkdf_expand (dyn p) (ks_s_imck ks) LABEL_MSK 64 = Inr msk" "length msk = 64"
    "hkdf_expand (dyn p) (ks_s_imck ks) LABEL_EMSK 64 = Inr emsk" "length emsk = 64"
    using hkdf_expand_length [OF assms(1), of 64 "ks_s_imck ks" LABEL_MSK]
      hkdf_expand_length [OF assms(1), of 64 "ks_s_imck ks" LABEL_EMSK] by auto
  with assms(2) show ?thesis by (simp add: derive_session_keys_def)
qed

end

definition mac_lawful :: "teap_mac \<Rightarrow> bool" where
  "mac_lawful mac \<longleftrightarrow> 0 < mac_hash_len mac \<and> (\<forall>k d. length (mac_hmac mac k d) = mac_hash_len mac)"

fun digest_len :: "hmac_algorithm \<Rightarrow> nat" where
  "digest_len HMAC_SHA256 = 32"
| "digest_len HMAC_SHA384 = 48"

text \<open>aws-lc documents the length of an HMAC tag as the digest length of its algorithm.\<close>

definition aws_documented ::
  "(hmac_algorithm \<Rightarrow> bytes \<Rightarrow> bytes \<Rightarrow> bytes) \<Rightarrow> aws_lc_mac \<Rightarrow> bool" where
  "aws_documented sign m \<longleftrightarrow> m \<in> {aws_sha256, aws_sha384}
     \<and> (\<forall>a k d. length (sign a k d) = digest_len a)"

interpretation dyn: mac_provider "\<lambda>m. m" mac_lawful
  by unfold_locales (auto simp: mac_lawful_def)

interpretation aws: mac_provider "aws_dyn_mac sign" "aws_documented sign" for sign
  by unfold_locales (auto simp: aws_documented_def aws_dyn_mac_def aws_sha256_def aws_sha384_def)

lemma aws_lawful: "aws_documented sign m \<Longrightarrow> mac_lawful (aws_dyn_mac sign m)"
  unfolding mac_lawful_def using aws.hash_len_pos aws.hmac_length by blast

text \<open>The only errors of the chain, with a lawful MAC, are bad lengths and an early export.\<close>

lemma absorb_bad: "length imsk \<noteq> IMSK_LEN \<Longrightarrow> absorb_inner mac imsk ks = (Inl (BadImskLen (length imsk)), ks)"
  by (simp add: absorb_inner_def)

definition ks_wf :: "key_schedule \<Rightarrow> bool" where
  "ks_wf ks \<longleftrightarrow> length (ks_s_imck ks) = S_IMCK_LEN"

lemma ks_new_wf: "ks_new seed = Inr ks \<Longrightarrow> ks_wf ks \<and> ks_methods ks = 0 \<and> ks_s_imck ks = seed"
  by (auto simp: ks_new_def ks_wf_def split: if_splits)

lemma absorb_wf: "mac_lawful mac \<Longrightarrow> ks_wf ks \<Longrightarrow> absorb_inner mac imsk ks = (r, ks') \<Longrightarrow> ks_wf ks'"
  using dyn.absorb_ok [of mac imsk ks] absorb_bad [of imsk mac ks]
  by (cases "length imsk = IMSK_LEN") (auto simp: ks_wf_def)

lemma absorb_Inr_methods: "absorb_inner mac imsk ks = (Inr c, ks') \<Longrightarrow> 0 < ks_methods ks'"
  by (auto simp: absorb_inner_def Let_def sat_add_pos [simplified] split: if_splits sum.splits option.splits)

section \<open>Properties\<close>

text \<open>A MAC for the examples: 32 octets, each the sum of the octets of key and data.\<close>

definition sum_mac :: teap_mac where
  "sum_mac = \<lparr>mac_hash_len = 32, mac_hmac = (\<lambda>k d. replicate 32 (sum_list (k @ d)))\<rparr>"

lemma sum_mac_lawful [simp]: "mac_lawful sum_mac" "mac_hash_len sum_mac = 32"
  by (simp_all add: mac_lawful_def sum_mac_def)

text \<open>C16: \<open>hkdf_expand\<close> is the HKDF-Expand of RFC 5869: the first \<open>len\<close> octets of
  \<open>T(1) | T(2) | ...\<close>, with as many blocks as needed, for every length up to 255 times the hash
  length; beyond it, and for a MAC that reports no output length, it is an error.\<close>

theorem hkdf_expand_is_rfc5869:
  assumes "mac_hash_len mac * 255 \<le> usize_max"
  shows "hkdf_expand mac prk info len =
    (if mac_hash_len mac = 0 then Inl BadHashLen
     else if mac_hash_len mac * 255 < len then Inl (OutputTooLong len (mac_hash_len mac * 255))
     else Inr (take len (hkdf_okm mac prk info ((len + mac_hash_len mac - 1) div mac_hash_len mac))))"
proof (cases "mac_hash_len mac = 0 \<or> mac_hash_len mac * 255 < len")
  case True
  then show ?thesis using assms by (auto simp: hkdf_expand_def Let_def min_def)
next
  case False
  then have "0 < mac_hash_len mac" "len \<le> min (mac_hash_len mac * 255) usize_max"
    using assms by simp_all
  from hkdf_expand_rfc [OF this] False show ?thesis by auto
qed

theorem hkdf_expand_is_rfc5869_witness:
  "hkdf_expand sum_mac [1] [2] 33 = Inr (take 33 (hkdf_okm sum_mac [1] [2] 2))"
  using hkdf_expand_is_rfc5869 [of sum_mac "[1]" "[2]" 33] by (simp add: usize_max_def)

text \<open>The compound-key chain over a MAC of fixed length keeps the lengths of the contract: from a
  40-octet seed and a 32-octet IMSK it yields a 20-octet CMK, a 40-octet S-IMCK, and then an MSK and
  an EMSK of 64 octets; before an inner method is absorbed no key can be exported.\<close>

lemma key_chain_lengths:
  assumes "mac_lawful mac" and "length seed = 40" and "length imsk = 32"
  shows "\<exists>ks cmk ks' msk emsk. ks_new seed = Inr ks \<and> derive_session_keys mac ks = Inl NoMethods
    \<and> absorb_inner mac imsk ks = (Inr cmk, ks') \<and> length cmk = 20 \<and> length (ks_s_imck ks') = 40
    \<and> hkdf_expand mac seed (LABEL_INNER_METHODS_COMPOUND_KEYS @ imsk) 60 = Inr (ks_s_imck ks' @ cmk)
    \<and> derive_session_keys mac ks' = Inr (msk, emsk) \<and> length msk = 64 \<and> length emsk = 64"
proof -
  let ?ks = "\<lparr>ks_s_imck = seed, ks_methods = 0\<rparr>"
  obtain cmk nxt where a: "absorb_inner mac imsk ?ks
      = (Inr cmk, ?ks\<lparr>ks_s_imck := nxt, ks_methods := sat_add (ks_methods ?ks) 1\<rparr>)"
    "length cmk = 20" "length nxt = 40"
    "hkdf_expand mac seed (LABEL_INNER_METHODS_COMPOUND_KEYS @ imsk) 60 = Inr (nxt @ cmk)"
    using dyn.absorb_ok [OF assms(1), of imsk ?ks] assms(3) by auto
  moreover obtain msk emsk where "derive_session_keys mac (?ks\<lparr>ks_s_imck := nxt, ks_methods := sat_add 0 1\<rparr>) = Inr (msk, emsk)"
    "length msk = 64" "length emsk = 64"
    using dyn.derive_ok [OF assms(1), of "?ks\<lparr>ks_s_imck := nxt, ks_methods := sat_add 0 1\<rparr>"] sat_add_pos [of 0] by auto
  moreover have "ks_new seed = Inr ?ks" using assms(2) by (simp add: ks_new_def)
  moreover have "derive_session_keys mac ?ks = Inl NoMethods" by (simp add: derive_session_keys_def)
  ultimately show ?thesis by fastforce
qed

end
