(* ===== verification/Crypto_Bind.thy ===== *)
theory Crypto_Bind
  imports Key_Schedule Tlv_Body
begin

text \<open>
  Crypto-Binding compute, seal and verify: crates/teap/src/cryptobind.rs. The lemmas: the
  comparison is equality, \<open>verify\<close> accepts exactly the sealed TLVs, and the MAC covers every
  field of the TLV that the peer interprets.
\<close>

datatype crypto_bind_error =
    BadMacLen nat nat  \<comment> \<open>\<open>expected\<close>, \<open>actual\<close>\<close>
  | EmskMacNotZero
  | MacMismatch
  | CbEncode tlv_error

definition CB_SUBTYPE_REQUEST :: u8 where [simp]: "CB_SUBTYPE_REQUEST = 1"
definition CB_SUBTYPE_RESPONSE :: u8 where [simp]: "CB_SUBTYPE_RESPONSE = 2"
definition CB_TEAP_VERSION :: u8 where [simp]: "CB_TEAP_VERSION = 1"

fun ct_diff :: "(u8 \<times> u8) list \<Rightarrow> u8 \<Rightarrow> u8" where
  "ct_diff [] diff = diff"
| "ct_diff ((x, y) # ps) diff = ct_diff ps (diff OR (x XOR y))"

definition ct_eq :: "bytes \<Rightarrow> bytes \<Rightarrow> bool" where
  "ct_eq a b \<longleftrightarrow> (if length a \<noteq> length b then False else ct_diff (zip a b) 0 = 0)"

definition mac_input :: "crypto_binding_tlv \<Rightarrow> nat \<Rightarrow> crypto_bind_error + bytes" where
  "mac_input cb mac_len =
     (let zeroed = cb\<lparr>cb_emsk_mac := replicate mac_len 0, cb_msk_mac := replicate mac_len 0\<rparr> in
      case cb_to_tlv zeroed True of
        Inl e \<Rightarrow> Inl (CbEncode e)
      | Inr t \<Rightarrow> (case encode t of Inl e \<Rightarrow> Inl (CbEncode e) | Inr bs \<Rightarrow> Inr bs))"

definition compute_msk_compound_mac ::
  "teap_mac \<Rightarrow> cmk \<Rightarrow> crypto_binding_tlv \<Rightarrow> crypto_bind_error + bytes" where
  "compute_msk_compound_mac mac cmk cb =
     (case mac_input cb (mac_hash_len mac) of
        Inl e \<Rightarrow> Inl e
      | Inr input \<Rightarrow> Inr (mac_hmac mac cmk input))"

definition cb_seal ::
  "teap_mac \<Rightarrow> cmk \<Rightarrow> crypto_binding_tlv \<Rightarrow> (crypto_bind_error + unit) \<times> crypto_binding_tlv" where
  "cb_seal mac cmk cb =
     (case compute_msk_compound_mac mac cmk cb of
        Inl e \<Rightarrow> (Inl e, cb)
      | Inr computed \<Rightarrow>
          (Inr (), cb\<lparr>cb_emsk_mac := replicate (mac_hash_len mac) 0, cb_msk_mac := computed\<rparr>))"

definition cb_verify ::
  "teap_mac \<Rightarrow> cmk \<Rightarrow> crypto_binding_tlv \<Rightarrow> crypto_bind_error + unit" where
  "cb_verify mac cmk cb =
     (let hash_len = mac_hash_len mac in
      if length (cb_msk_mac cb) \<noteq> hash_len then Inl (BadMacLen hash_len (length (cb_msk_mac cb)))
      else if length (cb_emsk_mac cb) \<noteq> hash_len then
        Inl (BadMacLen hash_len (length (cb_emsk_mac cb)))
      else if list_ex (\<lambda>b. b \<noteq> 0) (cb_emsk_mac cb) then Inl EmskMacNotZero
      else
        case compute_msk_compound_mac mac cmk cb of
          Inl e \<Rightarrow> Inl e
        | Inr expected \<Rightarrow>
            if ct_eq expected (cb_msk_mac cb) then Inr () else Inl MacMismatch)"

section \<open>The comparison\<close>

lemma word_or_zero: "(a :: u8) OR b = 0 \<longleftrightarrow> a = 0 \<and> b = 0"
  by (metis or.right_neutral word_ao_absorbs(2) word_bw_comms(2) word_log_esimps(1) or_eq_0_iff)

lemma word_xor_zero: "(a :: u8) XOR b = 0 \<longleftrightarrow> a = b"
  by (metis bit.xor_left_self xor.right_neutral xor_self_eq)

lemma ct_diff_zero: "ct_diff ps d = 0 \<longleftrightarrow> d = 0 \<and> (\<forall>(x, y)\<in>set ps. x = y)"
  by (induction ps d rule: ct_diff.induct) (auto simp: word_or_zero word_xor_zero)

lemma ct_eq_iff: "ct_eq a b \<longleftrightarrow> a = b"
proof (cases "length a = length b")
  case True
  then have "(\<forall>(x, y)\<in>set (zip a b). x = y) \<longleftrightarrow> a = b"
    by (induction a b rule: list_induct2) auto
  with True show ?thesis by (simp add: ct_eq_def ct_diff_zero)
qed (auto simp: ct_eq_def)

section \<open>What is authenticated\<close>

text \<open>The octets under the MAC: the whole TLV with both MAC fields zero.\<close>

definition cb_zeroed :: "crypto_binding_tlv \<Rightarrow> nat \<Rightarrow> crypto_binding_tlv" where
  "cb_zeroed cb n = cb\<lparr>cb_emsk_mac := replicate n 0, cb_msk_mac := replicate n 0\<rparr>"

definition cb_signed :: "crypto_binding_tlv \<Rightarrow> nat \<Rightarrow> bytes" where
  "cb_signed cb n = tlv_frame False (raw_tlv_new True CRYPTO_BINDING (cb_octets 0 (cb_zeroed cb n)))"

text \<open>The MAC lengths for which the TLV fits its 16-bit length.\<close>

definition mac_fits :: "nat \<Rightarrow> bool" where
  "mac_fits n \<longleftrightarrow> 36 + 2 * n \<le> 65535"

lemma mac_input_ok:
  assumes "length (cb_nonce cb) = 32" and "mac_fits n"
  shows "mac_input cb n = Inr (cb_signed cb n)"
proof -
  let ?t = "raw_tlv_new True CRYPTO_BINDING (cb_octets 0 (cb_zeroed cb n))"
  have "tlv_ok ?t"
    using assms by (simp add: tlv_ok_def cb_octets_def cb_zeroed_def mac_fits_def mask_eq_exp_minus_1)
  moreover have "cb_to_tlv (cb_zeroed cb n) True = Inr ?t"
    by (simp add: cb_to_tlv_def cb_octets_def cb_zeroed_def)
  ultimately show ?thesis
    by (simp add: mac_input_def cb_signed_def encode_def encode_into_frame Let_def flip: cb_zeroed_def)
qed

lemma cb_signed_ignores [simp]: "cb_signed (cb\<lparr>cb_emsk_mac := a, cb_msk_mac := b\<rparr>) n = cb_signed cb n"
  by (simp add: cb_signed_def cb_zeroed_def)

text \<open>Different header fields are different octets under the MAC.\<close>

lemma cb_signed_inject:
  assumes "cb_signed cb n = cb_signed cb' n" "length (cb_nonce cb) = 32" "length (cb_nonce cb') = 32"
  shows "cb_version cb = cb_version cb' \<and> cb_received_version cb = cb_received_version cb'
    \<and> cb_sub_type cb = cb_sub_type cb' \<and> cb_nonce cb = cb_nonce cb'"
  using assms by (simp add: cb_signed_def tlv_frame_def cb_octets_def cb_zeroed_def)

lemma cb_verify_iff:
  assumes "mac_fits (mac_hash_len mac)" and "length (cb_nonce cb) = 32" and "mac_lawful mac"
  shows "cb_verify mac cmk cb = Inr () \<longleftrightarrow>
    cb_emsk_mac cb = replicate (mac_hash_len mac) 0
    \<and> cb_msk_mac cb = mac_hmac mac cmk (cb_signed cb (mac_hash_len mac))"
proof -
  let ?h = "mac_hash_len mac" and ?m = "mac_hmac mac cmk (cb_signed cb (mac_hash_len mac))"
  have c: "compute_msk_compound_mac mac cmk cb = Inr ?m"
    using assms by (simp add: compute_msk_compound_mac_def mac_input_ok)
  have m: "length ?m = ?h" using assms(3) by (simp add: mac_lawful_def)
  have z: "list_ex (\<lambda>b. b \<noteq> 0) xs \<longleftrightarrow> xs \<noteq> replicate (length xs) 0" for xs :: bytes
    by (induction xs) auto
  have "cb_verify mac cmk cb = Inr () \<longleftrightarrow> length (cb_msk_mac cb) = ?h \<and> length (cb_emsk_mac cb) = ?h
      \<and> cb_emsk_mac cb = replicate (length (cb_emsk_mac cb)) 0 \<and> cb_msk_mac cb = ?m"
    by (simp add: cb_verify_def Let_def c z ct_eq_iff)
  with m show ?thesis by (metis length_replicate)
qed

lemma cb_seal_ok:
  assumes "mac_fits (mac_hash_len mac)" and "length (cb_nonce cb) = 32"
  shows "cb_seal mac cmk cb = (Inr (), cb\<lparr>cb_emsk_mac := replicate (mac_hash_len mac) 0,
    cb_msk_mac := mac_hmac mac cmk (cb_signed cb (mac_hash_len mac))\<rparr>)"
  using assms by (simp add: cb_seal_def compute_msk_compound_mac_def mac_input_ok)

lemma cb_verify_seal:
  assumes "mac_fits (mac_hash_len mac)" and "length (cb_nonce cb) = 32" and "mac_lawful mac"
    and "cb_seal mac cmk cb = (r, cb')"
  shows "r = Inr ()" "cb_verify mac cmk cb' = Inr ()"
  using assms by (auto simp: cb_seal_ok cb_verify_iff)

section \<open>Properties\<close>

text \<open>C12: \<open>verify\<close> accepts a Crypto-Binding under a key exactly when its EMSK MAC is all zeros of the
  hash length and its MSK MAC is the HMAC, under that key, of the whole encoded TLV with both MAC
  fields zero; in particular it accepts what \<open>seal\<close> produces.\<close>

theorem crypto_binding_verify_exact:
  assumes "mac_lawful mac" and "mac_hash_len mac \<le> 32749" and "length (cb_nonce cb) = 32"
  shows "(cb_verify mac cmk cb = Inr () \<longleftrightarrow>
      cb_emsk_mac cb = replicate (mac_hash_len mac) 0
      \<and> cb_msk_mac cb = mac_hmac mac cmk (cb_signed cb (mac_hash_len mac)))
    \<and> (\<exists>cb'. cb_seal mac cmk cb = (Inr (), cb') \<and> cb_verify mac cmk cb' = Inr ())"
proof -
  have fits: "mac_fits (mac_hash_len mac)" using assms(2) by (simp add: mac_fits_def)
  obtain r cb' where "cb_seal mac cmk cb = (r, cb')" by (cases "cb_seal mac cmk cb")
  with cb_verify_seal [OF fits assms(3,1)] cb_verify_iff [OF fits assms(3,1)] show ?thesis by blast
qed

definition sample_binding :: crypto_binding_tlv where
  "sample_binding = \<lparr>cb_version = 1, cb_received_version = 1, cb_sub_type = 1, cb_nonce = replicate 32 5,
     cb_emsk_mac = [], cb_msk_mac = []\<rparr>"

theorem crypto_binding_verify_exact_witness:
  "cb_verify sum_mac [3] sample_binding \<noteq> Inr ()
    \<and> (\<exists>cb'. cb_seal sum_mac [3] sample_binding = (Inr (), cb') \<and> cb_verify sum_mac [3] cb' = Inr ())"
  using crypto_binding_verify_exact [of sum_mac sample_binding "[3]"] by (simp add: sample_binding_def)

text \<open>The octets under the compound MAC determine everything the peer acts on: two
  Crypto-Bindings with the same octets have the same versions, sub-type and nonce, so a Binding
  Response never passes for a Request. The octets do not depend on the MAC fields themselves.\<close>

lemma crypto_binding_covers_fields:
  assumes "cb_signed cb n = cb_signed cb' n" and "length (cb_nonce cb) = 32" and "length (cb_nonce cb') = 32"
  shows "cb_version cb = cb_version cb' \<and> cb_received_version cb = cb_received_version cb'
    \<and> cb_sub_type cb = cb_sub_type cb' \<and> cb_nonce cb = cb_nonce cb'
    \<and> cb_signed (cb\<lparr>cb_emsk_mac := a, cb_msk_mac := b\<rparr>) n = cb_signed cb n"
  using cb_signed_inject [OF assms] by simp

lemma crypto_binding_covers_fields_witness:
  "cb_signed (sample_binding\<lparr>cb_sub_type := 2\<rparr>) 32 \<noteq> cb_signed sample_binding 32
    \<and> cb_signed (sample_binding\<lparr>cb_emsk_mac := [0], cb_msk_mac := [1]\<rparr>) 32 = cb_signed sample_binding 32"
  using crypto_binding_covers_fields [of sample_binding 32 sample_binding "[1]" "[0]"]
    crypto_binding_covers_fields [of "sample_binding\<lparr>cb_sub_type := 2\<rparr>" 32 sample_binding "[]" "[]"]
  by (auto simp: sample_binding_def)

end
