(* ===== verification/Session.thy ===== *)
theory Session
  imports Crypto_Bind
begin

text \<open>
  The Phase-2 state machine: crates/teap/src/session.rs. \<open>TeapSession\<close> is a record over the state
  \<open>'i\<close> of its inner method; the inner method is the trait \<open>InnerMethod\<close>, its \<open>process\<close> a
  parameter \<open>proc\<close> of the operations that call it (\<open>None\<close>: the call does not return). \<open>step\<close> is
  cut at the numbered comments of the source: every phase returns either the step that ends the
  call early (\<open>Inl\<close>) or the TLVs accumulated so far (\<open>Inr\<close>).
\<close>

section \<open>Types\<close>

datatype identity = Machine | User

fun identity_matches :: "identity \<Rightarrow> identity_type \<Rightarrow> bool" where
  "identity_matches Machine ItMachine = True"
| "identity_matches User ItUser = True"
| "identity_matches _ _ = False"

record session_config =
  sc_identity :: identity
  sc_mat_vendor_id :: u32
  sc_mat_to_present :: "bytes option"

datatype inner_step =
    InnerRespond bytes
  | InnerDone bytes
  | InnerFailedStep

datatype fail_reason =
    IdentityMismatch
  | InnerFailed
  | MissingCryptoBinding
  | FailCryptoBinding crypto_bind_error
  | ServerFailure
  | FailKeySchedule key_schedule_error
  | MalformedMessage
  | BadImsk
  | BadCryptoBindingFields

datatype outcome =
    Success (out_msk: bytes) (out_emsk: bytes) (out_mat: "bytes option")
  | Failure fail_reason

datatype session_error =
    Decode tlv_error
  | AlreadyTerminated

datatype step =
    Continue "raw_tlv list"
  | Done "raw_tlv list" outcome

record 'i teap_session =
  ss_cfg :: session_config
  ss_mac :: teap_mac
  ss_inner :: 'i
  ss_ks :: key_schedule
  ss_cmk :: "cmk option"
  ss_imsk :: "bytes option"
  ss_presented_mat :: bool
  ss_terminated :: bool

type_synonym 'i inner_process = "'i \<Rightarrow> bytes \<Rightarrow> (inner_step \<times> 'i) option"
type_synonym ('i, 'a) session_op = "('i teap_session, session_error, 'a) op"

definition CRITICAL_TYPES :: "u16 list" where
  "CRITICAL_TYPES = [IDENTITY_TYPE, INTERMEDIATE_RESULT, CRYPTO_BINDING, RESULT]"

definition session_new ::
  "session_config \<Rightarrow> bytes \<Rightarrow> teap_mac \<Rightarrow> 'i \<Rightarrow> key_schedule_error + 'i teap_session" where
  "session_new cfg seed mac inner =
     (case ks_new seed of
        Inl e \<Rightarrow> Inl e
      | Inr ks \<Rightarrow> Inr \<lparr>ss_cfg = cfg, ss_mac = mac, ss_inner = inner, ss_ks = ks, ss_cmk = None,
          ss_imsk = None, ss_presented_mat = False, ss_terminated = False\<rparr>)"

section \<open>Lookups\<close>

definition find_tlv :: "raw_tlv list \<Rightarrow> u16 \<Rightarrow> raw_tlv option" where
  "find_tlv tlvs ty = find (\<lambda>t. rt_type t = ty) tlvs"

definition find_crypto_binding ::
  "raw_tlv list \<Rightarrow> intermediate_result_tlv \<Rightarrow> tlv_error + crypto_binding_tlv option" where
  "find_crypto_binding inbound ir =
     (case find_tlv inbound CRYPTO_BINDING of
        Some raw \<Rightarrow> (case cb_from_value (rt_value raw) of Inl e \<Rightarrow> Inl e | Inr cb \<Rightarrow> Inr (Some cb))
      | None \<Rightarrow>
          (case find_tlv (ir_tlvs ir) CRYPTO_BINDING of
             Some raw \<Rightarrow>
               (case cb_from_value (rt_value raw) of Inl e \<Rightarrow> Inl e | Inr cb \<Rightarrow> Inr (Some cb))
           | None \<Rightarrow> Inr None))"

fun find_mat_in :: "raw_tlv list \<Rightarrow> u32 \<Rightarrow> tlv_error + bytes option" where
  "find_mat_in [] vendor = Inr None"
| "find_mat_in (raw # raws) vendor =
     (case vs_from_value (rt_value raw) of
        Inl e \<Rightarrow> Inl e
      | Inr vs \<Rightarrow> if vs_vendor_id vs = vendor then Inr (Some (vs_data vs)) else find_mat_in raws vendor)"

definition find_mat :: "raw_tlv list \<Rightarrow> u32 \<Rightarrow> tlv_error + bytes option" where
  "find_mat inbound vendor = find_mat_in (filter (\<lambda>t. rt_type t = VENDOR_SPECIFIC) inbound) vendor"

text \<open>A critical TLV that is repeated, or whose M bit is clear.\<close>

definition malformed :: "raw_tlv list \<Rightarrow> bool" where
  "malformed inbound \<longleftrightarrow>
     list_ex (\<lambda>ty. case filter (\<lambda>x. rt_type x = ty) inbound of
         [] \<Rightarrow> False
       | first # others \<Rightarrow> \<not> rt_mandatory first \<or> others \<noteq> []) CRITICAL_TYPES"

section \<open>The phases of a step\<close>

definition fail_step :: "raw_tlv list \<Rightarrow> fail_reason \<Rightarrow> ('i, step) session_op" where
  "fail_step out reason =
     bindO (modifyO (ss_terminated_update (\<lambda>_. True)))
       (\<lambda>_. returnO (Done (out @ [rt_to_tlv RsFailure True]) (Failure reason)))"

text \<open>\<open>return Ok(self.fail_step(..))\<close> out of a phase.\<close>

definition fail_out :: "raw_tlv list \<Rightarrow> fail_reason \<Rightarrow> ('i, step + raw_tlv list) session_op" where
  "fail_out out reason = bindO (fail_step out reason) (\<lambda>st. returnO (Inl st))"

definition continue_with ::
  "('i, step + raw_tlv list) session_op \<Rightarrow> (raw_tlv list \<Rightarrow> ('i, step + raw_tlv list) session_op)
     \<Rightarrow> ('i, step + raw_tlv list) session_op" where
  "continue_with m f =
     bindO m (\<lambda>r. case r of Inl st \<Rightarrow> returnO (Inl st) | Inr out \<Rightarrow> f out)"

text \<open>The MAT a user session shows, once: the TLV to send and the flag it sets.\<close>

definition present_mat :: "raw_tlv list \<Rightarrow> ('i, step + raw_tlv list) session_op" where
  "present_mat out s =
     (if sc_identity (ss_cfg s) = User \<and> \<not> ss_presented_mat s then
        let out' = (case sc_mat_to_present (ss_cfg s) of
              None \<Rightarrow> out
            | Some mat \<Rightarrow> out @ [vs_to_tlv \<lparr>vs_vendor_id = sc_mat_vendor_id (ss_cfg s), vs_data = mat\<rparr> True])
        in Some (Inr (Inr out'), s\<lparr>ss_presented_mat := True\<rparr>)
      else Some (Inr (Inr out), s))"

definition identity_phase :: "raw_tlv list \<Rightarrow> raw_tlv list \<Rightarrow> ('i, step + raw_tlv list) session_op" where
  "identity_phase inbound out =
     (case find_tlv inbound IDENTITY_TYPE of
        None \<Rightarrow> returnO (Inr out)
      | Some raw \<Rightarrow>
          bindO (liftO Decode (it_from_value (rt_value raw))) (\<lambda>it.
          bindO (getO (\<lambda>s. sc_identity (ss_cfg s))) (\<lambda>ident.
            if \<not> identity_matches ident it then fail_out out IdentityMismatch
            else present_mat out)))"

definition inner_phase ::
  "'i inner_process \<Rightarrow> raw_tlv list \<Rightarrow> raw_tlv list \<Rightarrow> ('i, step + raw_tlv list) session_op" where
  "inner_phase proc inbound out =
     (case find_tlv inbound EAP_PAYLOAD of
        None \<Rightarrow> returnO (Inr out)
      | Some raw \<Rightarrow> (\<lambda>s.
          case proc (ss_inner s) (ep_from_value (rt_value raw)) of
            None \<Rightarrow> None
          | Some (st, i') \<Rightarrow>
              (case st of
                 InnerRespond resp \<Rightarrow> returnO (Inr (out @ [ep_to_tlv resp True]))
               | InnerDone imsk \<Rightarrow>
                   if length imsk \<noteq> IMSK_LEN then fail_out out BadImsk
                   else bindO (modifyO (ss_imsk_update (\<lambda>_. Some imsk))) (\<lambda>_. returnO (Inr out))
               | InnerFailedStep \<Rightarrow> fail_out out InnerFailed) (s\<lparr>ss_inner := i'\<rparr>)))"

text \<open>Absorb the IMSK into the key schedule, unless an earlier call did.\<close>

definition absorb_once :: "bytes \<Rightarrow> raw_tlv list \<Rightarrow> ('i, step + raw_tlv list) session_op" where
  "absorb_once imsk out s =
     (if ss_cmk s = None then
        (case absorb_inner (ss_mac s) imsk (ss_ks s) of
           (Inr cmk, ks') \<Rightarrow> Some (Inr (Inr out), s\<lparr>ss_ks := ks', ss_cmk := Some cmk\<rparr>)
         | (Inl e, ks') \<Rightarrow> fail_out out (FailKeySchedule e) (s\<lparr>ss_ks := ks'\<rparr>))
      else Some (Inr (Inr out), s))"

definition cb_fields_ok :: "crypto_binding_tlv \<Rightarrow> bool" where
  "cb_fields_ok cb \<longleftrightarrow> \<not> (cb_sub_type cb \<noteq> CB_SUBTYPE_REQUEST \<or> cb_version cb \<noteq> CB_TEAP_VERSION
     \<or> cb_received_version cb \<noteq> CB_TEAP_VERSION)"

text \<open>The Binding Response: the request with its sub-type flipped, sealed, in an Intermediate-Result.\<close>

definition binding_response ::
  "teap_mac \<Rightarrow> cmk \<Rightarrow> crypto_binding_tlv \<Rightarrow> raw_tlv list \<Rightarrow> ('i, step + raw_tlv list) session_op" where
  "binding_response mac cmk cb out =
     (case cb_seal mac cmk (cb\<lparr>cb_sub_type := CB_SUBTYPE_RESPONSE\<rparr>) of
        (Inl e, _) \<Rightarrow> fail_out out (FailCryptoBinding e)
      | (Inr _, resp) \<Rightarrow>
          bindO (liftO Decode (cb_to_tlv resp True)) (\<lambda>t.
          bindO (liftO Decode (ir_to_tlv \<lparr>ir_status = RsSuccess, ir_tlvs = [t]\<rparr> True)) (\<lambda>ir.
            returnO (Inr (out @ [ir])))))"

definition verify_binding ::
  "crypto_binding_tlv \<Rightarrow> raw_tlv list \<Rightarrow> ('i, step + raw_tlv list) session_op" where
  "verify_binding cb out =
     (if \<not> cb_fields_ok cb then fail_out out BadCryptoBindingFields
      else bindO (getO (\<lambda>s. (ss_cmk s, ss_mac s))) (\<lambda>(c, mac).
        case c of
          None \<Rightarrow> fail_out out MissingCryptoBinding
        | Some cmk \<Rightarrow>
            (case cb_verify mac cmk cb of
               Inl e \<Rightarrow> fail_out out (FailCryptoBinding e)
             | Inr _ \<Rightarrow> binding_response mac cmk cb out)))"

definition handle_inner_success ::
  "raw_tlv list \<Rightarrow> intermediate_result_tlv \<Rightarrow> raw_tlv list \<Rightarrow> ('i, step + raw_tlv list) session_op" where
  "handle_inner_success inbound ir out =
     bindO (getO ss_imsk) (\<lambda>i.
       case i of
         None \<Rightarrow> fail_out out InnerFailed
       | Some imsk \<Rightarrow>
           continue_with (absorb_once imsk out) (\<lambda>out.
             bindO (liftO Decode (find_crypto_binding inbound ir)) (\<lambda>found.
               case found of
                 None \<Rightarrow> fail_out out MissingCryptoBinding
               | Some cb \<Rightarrow> verify_binding cb out)))"

definition intermediate_phase ::
  "raw_tlv list \<Rightarrow> raw_tlv list \<Rightarrow> ('i, step + raw_tlv list) session_op" where
  "intermediate_phase inbound out =
     (case find_tlv inbound INTERMEDIATE_RESULT of
        None \<Rightarrow> returnO (Inr out)
      | Some raw \<Rightarrow>
          bindO (liftO Decode (ir_from_value (rt_value raw))) (\<lambda>ir.
            if ir_status ir = RsSuccess then handle_inner_success inbound ir out
            else fail_out out InnerFailed))"

definition handle_result ::
  "raw_tlv list \<Rightarrow> result_status \<Rightarrow> raw_tlv list \<Rightarrow> ('i, step) session_op" where
  "handle_result inbound status out s =
     (if status \<noteq> RsSuccess then fail_step out ServerFailure s
      else if ss_cmk s = None then fail_step out MissingCryptoBinding s
      else case derive_session_keys (ss_mac s) (ss_ks s) of
        Inl e \<Rightarrow> fail_step out (FailKeySchedule e) s
      | Inr (msk, emsk) \<Rightarrow>
          (case (if sc_identity (ss_cfg s) = Machine then find_mat inbound (sc_mat_vendor_id (ss_cfg s))
                 else Inr None) of
             Inl e \<Rightarrow> Some (Inl (Decode e), s)
           | Inr issued \<Rightarrow>
               Some (Inr (Done (out @ [rt_to_tlv RsSuccess True]) (Success msk emsk issued)),
                 s\<lparr>ss_terminated := True\<rparr>)))"

definition result_phase :: "raw_tlv list \<Rightarrow> raw_tlv list \<Rightarrow> ('i, step) session_op" where
  "result_phase inbound out =
     (case find_tlv inbound RESULT of
        None \<Rightarrow> returnO (Continue out)
      | Some raw \<Rightarrow>
          bindO (liftO Decode (rt_from_value (rt_value raw))) (\<lambda>status.
            handle_result inbound status out))"

definition session_step :: "'i inner_process \<Rightarrow> raw_tlv list \<Rightarrow> ('i, step) session_op" where
  "session_step proc inbound =
     bindO (getO ss_terminated) (\<lambda>t.
       if t then throwO AlreadyTerminated
       else if malformed inbound then fail_step [] MalformedMessage
       else
         bindO (continue_with (identity_phase inbound []) (\<lambda>out.
                continue_with (inner_phase proc inbound out) (\<lambda>out.
                intermediate_phase inbound out)))
           (\<lambda>r. case r of Inl st \<Rightarrow> returnO st | Inr out \<Rightarrow> result_phase inbound out))"

section \<open>How phases end\<close>

lemma fail_step_eq [simp]:
  "fail_step out reason s =
     Some (Inr (Done (out @ [rt_to_tlv RsFailure True]) (Failure reason)), s\<lparr>ss_terminated := True\<rparr>)"
  by (simp add: fail_step_def op_simps)

lemma fail_out_eq [simp]:
  "fail_out out reason s =
     Some (Inr (Inl (Done (out @ [rt_to_tlv RsFailure True]) (Failure reason))), s\<lparr>ss_terminated := True\<rparr>)"
  by (simp add: fail_out_def op_simps)

definition failed :: "step \<Rightarrow> bool" where
  "failed st \<longleftrightarrow> (\<exists>send reason. st = Done (send @ [rt_to_tlv RsFailure True]) (Failure reason))"

lemma failedI [simp, intro]: "failed (Done (out @ [rt_to_tlv RsFailure True]) (Failure reason))"
  by (auto simp: failed_def)

text \<open>
  A phase ends the call early only by failing it, with a failure Result as the last TLV; otherwise
  the session stays open. It never changes the configuration or the MAC.
\<close>

definition static :: "session_config \<Rightarrow> teap_mac \<Rightarrow> 'i teap_session \<Rightarrow> bool" where
  "static cfg mac s \<longleftrightarrow> ss_cfg s = cfg \<and> ss_mac s = mac"

definition phase_post ::
  "session_config \<Rightarrow> teap_mac \<Rightarrow> step + raw_tlv list \<Rightarrow> 'i teap_session \<Rightarrow> bool" where
  "phase_post cfg mac r s \<longleftrightarrow> static cfg mac s \<and>
     (case r of Inl st \<Rightarrow> failed st \<and> ss_terminated s | Inr _ \<Rightarrow> \<not> ss_terminated s)"

definition phase_err ::
  "session_config \<Rightarrow> teap_mac \<Rightarrow> session_error \<Rightarrow> 'i teap_session \<Rightarrow> bool" where
  "phase_err cfg mac e s \<longleftrightarrow> static cfg mac s \<and> \<not> ss_terminated s \<and> e \<noteq> AlreadyTerminated"

definition phase ::
  "session_config \<Rightarrow> teap_mac \<Rightarrow> ('i, step + raw_tlv list) session_op \<Rightarrow> bool" where
  "phase cfg mac m \<longleftrightarrow>
     hoareO (\<lambda>s. static cfg mac s \<and> \<not> ss_terminated s) m (phase_post cfg mac) (phase_err cfg mac)"

lemmas phase_defs = phase_def hoareO_def phase_post_def phase_err_def static_def

named_theorems phases \<open>how each phase ends\<close>

lemma phase_continue [phases]:
  assumes "phase cfg mac m" and "\<And>out. phase cfg mac (f out)"
  shows "phase cfg mac (continue_with m f)"
  unfolding phase_def continue_with_def
proof (rule hoareO_bind)
  show "hoareO (\<lambda>s. static cfg mac s \<and> \<not> ss_terminated s) m (phase_post cfg mac) (phase_err cfg mac)"
    using assms(1) by (simp add: phase_def)
  fix r
  show "hoareO (phase_post cfg mac r)
      (case r of Inl st \<Rightarrow> returnO (Inl st) | Inr out \<Rightarrow> f out) (phase_post cfg mac) (phase_err cfg mac)"
  proof (cases r)
    case (Inl st)
    then show ?thesis by (simp add: hoareO_def returnO_def)
  next
    case (Inr out)
    then show ?thesis
      using assms(2) [of out] by (auto simp: phase_def phase_post_def elim!: hoareO_weaken)
  qed
qed

lemma phase_return [phases]: "phase cfg mac (returnO (Inr out))"
  by (simp add: phase_defs op_simps)

lemma phase_fail [phases]: "phase cfg mac (fail_out out reason)"
  by (simp add: phase_defs)

lemma phase_lift [phases]:
  "(\<And>x. phase cfg mac (f x)) \<Longrightarrow> phase cfg mac (bindO (liftO Decode r) f)"
  unfolding phase_defs by (cases r) (fastforce simp: op_simps)+

lemma phase_get [phases]: "(\<And>x. phase cfg mac (f x)) \<Longrightarrow> phase cfg mac (bindO (getO g) f)"
  unfolding phase_defs by (simp add: op_simps)

lemma phase_present_mat [phases]: "phase cfg mac (present_mat out)"
  by (simp add: phase_defs present_mat_def)

lemma phase_absorb_once [phases]: "phase cfg mac (absorb_once imsk out)"
  by (auto simp: phase_defs absorb_once_def split: prod.splits sum.splits)

lemma phase_identity [phases]: "phase cfg mac (identity_phase inbound out)"
  unfolding identity_phase_def by (auto intro!: phases split: option.split)

lemma phase_inner [phases]: "phase cfg mac (inner_phase proc inbound out)"
  by (auto simp: inner_phase_def phase_defs op_simps split: option.splits inner_step.splits)

lemma phase_response [phases]: "phase cfg mac (binding_response mac' cmk cb out)"
  unfolding binding_response_def by (auto intro!: phases split: prod.split sum.split)

lemma phase_verify [phases]: "phase cfg mac (verify_binding cb out)"
  unfolding verify_binding_def by (auto intro!: phases split: option.split sum.split)

lemma phase_inner_success [phases]: "phase cfg mac (handle_inner_success inbound ir out)"
  unfolding handle_inner_success_def by (auto intro!: phases split: option.split)

lemma phase_intermediate [phases]: "phase cfg mac (intermediate_phase inbound out)"
  unfolding intermediate_phase_def by (auto intro!: phases split: option.split)

text \<open>The three phases before the Result.\<close>

definition body_phases :: "'i inner_process \<Rightarrow> raw_tlv list \<Rightarrow> ('i, step + raw_tlv list) session_op" where
  "body_phases proc inbound =
     continue_with (identity_phase inbound []) (\<lambda>out.
     continue_with (inner_phase proc inbound out) (\<lambda>out. intermediate_phase inbound out))"

lemma phase_body: "phase cfg mac (body_phases proc inbound)"
  unfolding body_phases_def by (auto intro!: phases)

text \<open>Case analysis of a call.\<close>

lemma session_step_cases:
  assumes "session_step proc inbound s = Some (r, s')"
  obtains (terminated) "ss_terminated s" "r = Inl AlreadyTerminated" "s' = s"
  | (bad) "\<not> ss_terminated s" "malformed inbound"
      "r = Inr (Done [rt_to_tlv RsFailure True] (Failure MalformedMessage))"
      "s' = s\<lparr>ss_terminated := True\<rparr>"
  | (error) e where "\<not> ss_terminated s" "\<not> malformed inbound" "r = Inl e"
      "body_phases proc inbound s = Some (Inl e, s')"
  | (early) st where "\<not> ss_terminated s" "\<not> malformed inbound" "r = Inr st"
      "body_phases proc inbound s = Some (Inr (Inl st), s')"
  | (result) out t where "\<not> ss_terminated s" "\<not> malformed inbound"
      "body_phases proc inbound s = Some (Inr (Inr out), t)"
      "result_phase inbound out t = Some (r, s')"
  using assms
  by (auto simp: session_step_def body_phases_def [symmetric] op_simps split: if_splits option.splits
      prod.splits sum.splits)

section \<open>What is returned, and termination\<close>

lemma body_early:
  "body_phases proc inbound s = Some (Inr (Inl st), s') \<Longrightarrow> \<not> ss_terminated s \<Longrightarrow>
     failed st \<and> ss_terminated s' \<and> static (ss_cfg s) (ss_mac s) s'"
  using hoareO_Inr [OF phase_body [unfolded phase_def], of "ss_cfg s" "ss_mac s" s]
  by (fastforce simp: phase_post_def static_def)

lemma body_goes_on:
  "body_phases proc inbound s = Some (Inr (Inr out), s') \<Longrightarrow> \<not> ss_terminated s \<Longrightarrow>
     \<not> ss_terminated s' \<and> static (ss_cfg s) (ss_mac s) s'"
  using hoareO_Inr [OF phase_body [unfolded phase_def], of "ss_cfg s" "ss_mac s" s]
  by (fastforce simp: phase_post_def static_def)

lemma body_error:
  "body_phases proc inbound s = Some (Inl e, s') \<Longrightarrow> \<not> ss_terminated s \<Longrightarrow>
     \<not> ss_terminated s' \<and> static (ss_cfg s) (ss_mac s) s' \<and> e \<noteq> AlreadyTerminated"
  using hoareO_Inl [OF phase_body [unfolded phase_def], of "ss_cfg s" "ss_mac s" s]
  by (fastforce simp: phase_err_def static_def)

lemma result_phase_cases:
  assumes "result_phase inbound out s = Some (r, s')"
  obtains (none) "find_tlv inbound RESULT = None" "r = Inr (Continue out)" "s' = s"
  | (error) e where "r = Inl (Decode e)" "s' = s"
  | (failed) st where "r = Inr st" "failed st" "s' = s\<lparr>ss_terminated := True\<rparr>"
  | (success) raw c msk emsk issued where "find_tlv inbound RESULT = Some raw"
      "rt_from_value (rt_value raw) = Inr RsSuccess" "ss_cmk s = Some c"
      "derive_session_keys (ss_mac s) (ss_ks s) = Inr (msk, emsk)"
      "(if sc_identity (ss_cfg s) = Machine then find_mat inbound (sc_mat_vendor_id (ss_cfg s))
        else Inr None) = Inr issued"
      "r = Inr (Done (out @ [rt_to_tlv RsSuccess True]) (Success msk emsk issued))"
      "s' = s\<lparr>ss_terminated := True\<rparr>"
proof (cases "find_tlv inbound RESULT")
  case None
  then show thesis using assms none by (simp add: result_phase_def op_simps)
next
  case (Some raw)
  show thesis
  proof (cases "rt_from_value (rt_value raw)")
    case (Inl e)
    then show thesis
      by (intro error [of e]) (use assms Some in \<open>simp_all add: result_phase_def op_simps\<close>)
  next
    case (Inr status)
    then have h: "handle_result inbound status out s = Some (r, s')"
      using assms Some by (simp add: result_phase_def op_simps)
    show thesis
    proof (cases "status = RsSuccess \<and> ss_cmk s \<noteq> None")
      case True
      then show thesis
        using h Some Inr failed success error
        by (auto simp: handle_result_def simp del: if_split
            split: sum.splits prod.splits)
    next
      case False
      then show thesis using h failed by (auto simp: handle_result_def split: if_splits)
    qed
  qed
qed

text \<open>
  The life of a session: a call on an open session leaves it open exactly when it returns
  \<open>Continue\<close> or a decode error; every other call closes it, for good.
\<close>

fun closing_result :: "outcome \<Rightarrow> result_status" where
  "closing_result (Success _ _ _) = RsSuccess"
| "closing_result (Failure _) = RsFailure"

definition life_ok :: "'i teap_session \<Rightarrow> session_error + step \<Rightarrow> 'i teap_session \<Rightarrow> bool" where
  "life_ok s r s' \<longleftrightarrow>
     (ss_terminated s' \<longleftrightarrow> (\<exists>send oc. r = Inr (Done send oc)))
     \<and> static (ss_cfg s) (ss_mac s) s' \<and> r \<noteq> Inl AlreadyTerminated
     \<and> (\<forall>send oc. r = Inr (Done send oc) \<longrightarrow>
          (\<exists>pre. send = pre @ [rt_to_tlv (closing_result oc) True]))"

lemma session_step_life:
  assumes "session_step proc inbound s = Some (r, s')" and "\<not> ss_terminated s"
  shows "life_ok s r s'"
  using assms(1)
proof (cases rule: session_step_cases)
  case (early st)
  then show ?thesis using body_early [of proc inbound s st s'] by (auto simp: life_ok_def failed_def)
next
  case (result out t)
  from result(4) body_goes_on [OF result(3,1)] show ?thesis
    by (cases rule: result_phase_cases) (auto simp: life_ok_def static_def failed_def)
qed (use assms(2) body_error [of proc inbound s _ s'] in \<open>auto simp: life_ok_def static_def\<close>)

section \<open>Success is bound\<close>

text \<open>
  What a message must hold for the session to accept its Crypto-Binding under a key, and for the
  inner method to have delivered an IMSK on it.
\<close>

definition binding_accepted :: "teap_mac \<Rightarrow> cmk \<Rightarrow> raw_tlv list \<Rightarrow> bool" where
  "binding_accepted mac c msg \<longleftrightarrow>
     (\<exists>raw ir cb. find_tlv msg INTERMEDIATE_RESULT = Some raw \<and> ir_from_value (rt_value raw) = Inr ir
        \<and> ir_status ir = RsSuccess \<and> find_crypto_binding msg ir = Inr (Some cb)
        \<and> cb_fields_ok cb \<and> cb_verify mac c cb = Inr ())"

definition imsk_delivered :: "'i inner_process \<Rightarrow> bytes \<Rightarrow> raw_tlv list \<Rightarrow> bool" where
  "imsk_delivered proc k msg \<longleftrightarrow>
     (\<exists>raw i i'. find_tlv msg EAP_PAYLOAD = Some raw
        \<and> proc i (rt_value raw) = Some (InnerDone k, i') \<and> length k = IMSK_LEN)"

text \<open>
  The invariant of an open session whose past messages are \<open>H\<close>; \<open>B\<close> tells whether a key that was
  absorbed must have been confirmed by a Crypto-Binding already.
\<close>

definition sess_inv ::
  "bool \<Rightarrow> 'i inner_process \<Rightarrow> teap_mac \<Rightarrow> bytes \<Rightarrow> raw_tlv list set \<Rightarrow> 'i teap_session \<Rightarrow> bool" where
  "sess_inv B proc mac seed H s \<longleftrightarrow> ss_mac s = mac
     \<and> (\<forall>k. ss_imsk s = Some k \<longrightarrow> (\<exists>m\<in>H. imsk_delivered proc k m))
     \<and> (case ss_cmk s of
          None \<Rightarrow> ss_ks s = \<lparr>ks_s_imck = seed, ks_methods = 0\<rparr>
        | Some c \<Rightarrow>
            (\<exists>k. (\<exists>m\<in>H. imsk_delivered proc k m)
               \<and> absorb_inner mac k \<lparr>ks_s_imck = seed, ks_methods = 0\<rparr> = (Inr c, ss_ks s))
            \<and> (B \<longrightarrow> (\<exists>m\<in>H. binding_accepted mac c m)))"

lemma sess_inv_terminated [simp]:
  "sess_inv B proc mac seed H (s\<lparr>ss_terminated := b\<rparr>) = sess_inv B proc mac seed H s"
  "sess_inv B proc mac seed H (s\<lparr>ss_presented_mat := b\<rparr>) = sess_inv B proc mac seed H s"
  "sess_inv B proc mac seed H (s\<lparr>ss_inner := i\<rparr>) = sess_inv B proc mac seed H s"
  by (simp_all add: sess_inv_def split: option.split)

lemma sess_inv_mono: "sess_inv True proc mac seed H s \<Longrightarrow> H \<subseteq> H' \<Longrightarrow> sess_inv True proc mac seed H' s"
  unfolding sess_inv_def by (fastforce split: option.splits)

lemma sess_inv_relax: "sess_inv True proc mac seed H s \<Longrightarrow> sess_inv False proc mac seed H s"
  by (auto simp: sess_inv_def split: option.splits)

text \<open>A phase keeps the invariant whenever it goes on.\<close>

definition keeps :: "('i teap_session \<Rightarrow> bool) \<Rightarrow> ('i, step + raw_tlv list) session_op
    \<Rightarrow> ('i teap_session \<Rightarrow> bool) \<Rightarrow> bool" where
  "keeps P m Q \<longleftrightarrow> hoareO P m (\<lambda>r s. case r of Inl _ \<Rightarrow> True | Inr _ \<Rightarrow> Q s) (\<lambda>_ _. True)"

lemma keeps_Inr: "keeps P m Q \<Longrightarrow> P s \<Longrightarrow> m s = Some (Inr (Inr out), s') \<Longrightarrow> Q s'"
  unfolding keeps_def by (drule hoareO_Inr) auto

lemma keepsI: "(\<And>s out s'. P s \<Longrightarrow> m s = Some (Inr (Inr out), s') \<Longrightarrow> Q s') \<Longrightarrow> keeps P m Q"
  by (auto simp: keeps_def hoareO_def split: option.split sum.split)

lemma continue_with_Inr:
  "continue_with m f s = Some (Inr (Inr out), s') \<longleftrightarrow>
     (\<exists>o1 t. m s = Some (Inr (Inr o1), t) \<and> f o1 t = Some (Inr (Inr out), s'))"
  by (auto simp: continue_with_def op_simps split: option.splits sum.splits)

lemma keeps_continue:
  "keeps P m R \<Longrightarrow> (\<And>out. keeps R (f out) Q) \<Longrightarrow> keeps P (continue_with m f) Q"
  by (rule keepsI) (auto simp: continue_with_Inr dest: keeps_Inr)

lemma keeps_identity: "keeps (sess_inv B proc mac seed H) (identity_phase inbound out) (sess_inv B proc mac seed H)"
  by (rule keepsI)
    (auto simp: identity_phase_def present_mat_def op_simps split: option.splits sum.splits if_splits)

lemma keeps_inner:
  assumes "inbound \<in> H"
  shows "keeps (sess_inv B proc mac seed H) (inner_phase proc inbound out) (sess_inv B proc mac seed H)"
proof (rule keepsI)
  fix s o1 s'
  assume inv: "sess_inv B proc mac seed H s" and r: "inner_phase proc inbound out s = Some (Inr (Inr o1), s')"
  show "sess_inv B proc mac seed H s'"
  proof (cases "find_tlv inbound EAP_PAYLOAD")
    case None
    with r inv show ?thesis by (simp add: inner_phase_def op_simps)
  next
    case (Some raw)
    with r obtain st i' where p: "proc (ss_inner s) (rt_value raw) = Some (st, i')"
      by (auto simp: inner_phase_def ep_from_value_def split: option.splits)
    show ?thesis
    proof (cases st)
      case (InnerDone k)
      with p Some r have len: "length k = IMSK_LEN" and s': "s' = s\<lparr>ss_inner := i', ss_imsk := Some k\<rparr>"
        by (auto simp: inner_phase_def ep_from_value_def op_simps split: if_splits)
      have "imsk_delivered proc k inbound"
        using Some p InnerDone len by (auto simp: imsk_delivered_def)
      with assms inv show ?thesis by (auto simp: s' sess_inv_def split: option.splits)
    qed (use p Some r inv in \<open>auto simp: inner_phase_def ep_from_value_def op_simps\<close>)
  qed
qed

lemma keeps_absorb:
  "keeps (\<lambda>s. sess_inv True proc mac seed H s \<and> ss_imsk s = Some k) (absorb_once k out)
     (sess_inv False proc mac seed H)"
  by (rule keepsI)
    (fastforce simp: absorb_once_def sess_inv_def split: option.splits sum.splits prod.splits if_splits)

lemma binding_response_Inr:
  "binding_response mac c cb out s = Some (Inr (Inr o1), s') \<Longrightarrow> s' = s"
  by (auto simp: binding_response_def op_simps split: prod.splits sum.splits)

lemma verify_binding_Inr:
  assumes "verify_binding cb out s = Some (Inr (Inr o1), s')"
  obtains c where "ss_cmk s = Some c" "cb_fields_ok cb" "cb_verify (ss_mac s) c cb = Inr ()" "s' = s"
    "binding_response (ss_mac s) c cb out s = Some (Inr (Inr o1), s)"
  using assms
  by (auto simp: verify_binding_def op_simps split: if_splits option.splits sum.splits
      dest: binding_response_Inr)

lemma keeps_inner_success:
  assumes "find_tlv inbound INTERMEDIATE_RESULT = Some raw" "ir_from_value (rt_value raw) = Inr ir"
    "ir_status ir = RsSuccess" "inbound \<in> H"
  shows "keeps (sess_inv True proc mac seed H) (handle_inner_success inbound ir out)
    (sess_inv True proc mac seed H)"
proof (rule keepsI)
  fix s o1 s'
  assume inv: "sess_inv True proc mac seed H s"
    and r: "handle_inner_success inbound ir out s = Some (Inr (Inr o1), s')"
  then obtain k where k: "ss_imsk s = Some k"
    by (auto simp: handle_inner_success_def op_simps split: option.splits)
  with r obtain o2 t cb where a: "absorb_once k out s = Some (Inr (Inr o2), t)"
    and f: "find_crypto_binding inbound ir = Inr (Some cb)"
    and v: "verify_binding cb o2 t = Some (Inr (Inr o1), s')"
    unfolding handle_inner_success_def
    by (auto simp: bindO_def getO_def continue_with_Inr liftO_def split: option.splits sum.splits)
  have t: "sess_inv False proc mac seed H t"
    by (rule keeps_Inr [OF keeps_absorb _ a]) (use inv k in simp)
  from v obtain c where c: "ss_cmk t = Some c" "cb_fields_ok cb" "cb_verify (ss_mac t) c cb = Inr ()" "s' = t"
    by (rule verify_binding_Inr)
  moreover have "ss_mac t = mac" using t by (simp add: sess_inv_def)
  ultimately have "binding_accepted mac c inbound"
    using assms f unfolding binding_accepted_def by auto
  with t c assms(4) show "sess_inv True proc mac seed H s'"
    by (auto simp: sess_inv_def)
qed

lemma keeps_intermediate:
  assumes "inbound \<in> H"
  shows "keeps (sess_inv True proc mac seed H) (intermediate_phase inbound out) (sess_inv True proc mac seed H)"
proof (rule keepsI)
  fix s o1 s'
  assume inv: "sess_inv True proc mac seed H s"
    and r: "intermediate_phase inbound out s = Some (Inr (Inr o1), s')"
  show "sess_inv True proc mac seed H s'"
  proof (cases "find_tlv inbound INTERMEDIATE_RESULT")
    case (Some raw)
    with r obtain ir where ir: "ir_from_value (rt_value raw) = Inr ir" "ir_status ir = RsSuccess"
      and h: "handle_inner_success inbound ir out s = Some (Inr (Inr o1), s')"
      by (auto simp: intermediate_phase_def op_simps split: sum.splits if_splits)
    show ?thesis by (rule keeps_Inr [OF keeps_inner_success [OF Some ir assms] inv h])
  qed (use r inv in \<open>simp add: intermediate_phase_def op_simps\<close>)
qed

lemma keeps_body:
  "inbound \<in> H \<Longrightarrow> keeps (sess_inv True proc mac seed H) (body_phases proc inbound) (sess_inv True proc mac seed H)"
  unfolding body_phases_def
  by (rule keeps_continue [OF keeps_identity keeps_continue [OF keeps_inner keeps_intermediate]])

section \<open>Runs\<close>

text \<open>
  The calls a caller makes that stops at the first error, which is what the header of the source
  asks of it: every message so far was answered with \<open>Continue\<close>.
\<close>

inductive session_run ::
  "'i inner_process \<Rightarrow> 'i teap_session \<Rightarrow> raw_tlv list list \<Rightarrow> 'i teap_session \<Rightarrow> bool"
  for proc s0 where
  run_start: "session_run proc s0 [] s0"
| run_step: "session_run proc s0 ms s \<Longrightarrow> session_step proc m s = Some (Inr (Continue out), s') \<Longrightarrow>
    session_run proc s0 (ms @ [m]) s'"

lemma continue_keeps:
  assumes "session_step proc m s = Some (Inr (Continue out), s')" and "sess_inv True proc mac seed H s"
  shows "sess_inv True proc mac seed (insert m H) s' \<and> \<not> ss_terminated s'"
  using assms(1)
proof (cases rule: session_step_cases)
  case (early st)
  then show ?thesis using body_early [of proc m s st s'] by (auto simp: failed_def)
next
  case (result o1 t)
  have "sess_inv True proc mac seed (insert m H) t"
    by (rule keeps_Inr [OF keeps_body _ result(3)]) (use assms(2) in \<open>auto elim: sess_inv_mono\<close>)
  with result(4) body_goes_on [OF result(3,1)] show ?thesis
    by (cases rule: result_phase_cases) (auto simp: failed_def)
qed auto

lemma session_new_inv:
  "session_new cfg seed mac inner = Inr s0 \<Longrightarrow>
     sess_inv True proc mac seed {} s0 \<and> \<not> ss_terminated s0 \<and> static cfg mac s0"
  by (auto simp: session_new_def ks_new_def sess_inv_def static_def split: if_splits sum.splits)

lemma session_run_inv:
  assumes "session_run proc s0 ms s" and "session_new cfg seed mac inner = Inr s0"
  shows "sess_inv True proc mac seed (set ms) s \<and> \<not> ss_terminated s \<and> static cfg mac s"
  using assms(1)
proof induction
  case run_start
  then show ?case using session_new_inv [OF assms(2), of proc] by simp
next
  case (run_step ms s m out s')
  then show ?case
    using continue_keeps [of proc m s out s' mac seed "set ms"]
      session_step_life [of proc m s "Inr (Continue out)" s']
    by (auto simp: life_ok_def static_def)
qed

lemma success_step:
  assumes "session_step proc m s = Some (Inr (Done send (Success msk emsk mat)), s')"
    and "sess_inv True proc mac seed H s"
  shows "\<exists>c k ks. (\<exists>n\<in>insert m H. imsk_delivered proc k n)
    \<and> absorb_inner mac k \<lparr>ks_s_imck = seed, ks_methods = 0\<rparr> = (Inr c, ks)
    \<and> (\<exists>n\<in>insert m H. binding_accepted mac c n)
    \<and> derive_session_keys mac ks = Inr (msk, emsk)
    \<and> (\<exists>raw. find_tlv m RESULT = Some raw \<and> rt_from_value (rt_value raw) = Inr RsSuccess)"
  using assms(1)
proof (cases rule: session_step_cases)
  case (early st)
  then show ?thesis using body_early [of proc m s st s'] by (auto simp: failed_def)
next
  case (result o1 t)
  have "sess_inv True proc mac seed (insert m H) t"
    by (rule keeps_Inr [OF keeps_body _ result(3)]) (use assms(2) in \<open>auto elim: sess_inv_mono\<close>)
  with result(4) show ?thesis
    by (cases rule: result_phase_cases) (auto simp: failed_def sess_inv_def)
qed auto

lemma success_ticket:
  assumes "session_step proc m s = Some (Inr (Done send (Success msk emsk mat)), s')"
  shows "mat = Some d \<Longrightarrow> sc_identity (ss_cfg s) = Machine
    \<and> find_mat m (sc_mat_vendor_id (ss_cfg s)) = Inr (Some d)"
  using assms
proof (cases rule: session_step_cases)
  case (early st)
  then show ?thesis using body_early [of proc m s st s'] by (auto simp: failed_def)
next
  case (result o1 t)
  assume "mat = Some d"
  with result(4) body_goes_on [OF result(3,1)] show ?thesis
    by (cases rule: result_phase_cases) (auto simp: failed_def static_def split: if_splits)
qed auto

text \<open>A call returns whenever the inner method does.\<close>

lemma total_fail [totals]: "total_op (fail_out out reason)" "total_op (fail_step out reason)"
  by (simp_all add: total_op_def)

lemma total_continue [totals]:
  "total_op m \<Longrightarrow> (\<And>out. total_op (f out)) \<Longrightarrow> total_op (continue_with m f)"
  unfolding continue_with_def by (intro totals) (auto intro: totals split: sum.split)

lemma total_direct [totals]:
  "total_op (present_mat out)" "total_op (absorb_once k out)" "total_op (handle_result m st out)"
  by (auto simp: total_op_def present_mat_def absorb_once_def handle_result_def
      split: prod.split sum.split)

lemma total_parts [totals]:
  "total_op (identity_phase m out)" "total_op (binding_response mac c cb out)" "total_op (result_phase m out)"
  unfolding identity_phase_def binding_response_def result_phase_def
  by (auto intro!: totals split: option.split prod.split sum.split)

lemma total_verify [totals]: "total_op (verify_binding cb out)"
  unfolding verify_binding_def by (auto intro!: totals split: option.split sum.split)

lemma total_intermediate [totals]: "total_op (intermediate_phase m out)"
  unfolding intermediate_phase_def handle_inner_success_def by (auto intro!: totals split: option.split)

lemma session_step_total:
  assumes "\<And>i eap. proc i eap \<noteq> None"
  shows "total_op (session_step proc m)"
proof -
  have ret: "proc i eap = None \<longleftrightarrow> False" for i eap using assms by blast
  have "total_op (inner_phase proc m out)" for out
    by (auto simp: total_op_def inner_phase_def op_simps ret split: option.splits inner_step.splits)
  then show ?thesis
    unfolding session_step_def by (auto intro!: totals split: sum.split)
qed

section \<open>The ticket is shown once\<close>

fun sent :: "step \<Rightarrow> raw_tlv list" where
  "sent (Continue out) = out"
| "sent (Done out _) = out"

definition vendor_tlvs :: "raw_tlv list \<Rightarrow> raw_tlv list" where
  "vendor_tlvs ts = filter (\<lambda>t. rt_type t = VENDOR_SPECIFIC) ts"

lemma vendor_tlvs_simps [simp]:
  "vendor_tlvs [] = []" "vendor_tlvs (xs @ ys) = vendor_tlvs xs @ vendor_tlvs ys"
  "vendor_tlvs [rt_to_tlv st m] = []" "vendor_tlvs [ep_to_tlv e m] = []"
  "vendor_tlvs [vs_to_tlv v m] = [vs_to_tlv v m]"
  by (simp_all add: vendor_tlvs_def rt_to_tlv_def ep_to_tlv_def vs_to_tlv_def)

fun sent_by :: "step + raw_tlv list \<Rightarrow> raw_tlv list" where
  "sent_by (Inl st) = sent st"
| "sent_by (Inr out) = out"

text \<open>A phase that shows no ticket of its own, and leaves the flag as it is.\<close>

definition quiet :: "raw_tlv list \<Rightarrow> ('i, step + raw_tlv list) session_op \<Rightarrow> bool" where
  "quiet out m \<longleftrightarrow> (\<forall>p. hoareO (\<lambda>s. ss_presented_mat s = p) m
     (\<lambda>r s. ss_presented_mat s = p \<and> vendor_tlvs (sent_by r) = vendor_tlvs out) (\<lambda>_ s. ss_presented_mat s = p))"

named_theorems quiets \<open>phases that show no ticket\<close>

lemma quiet_Inr:
  "quiet out m \<Longrightarrow> m s = Some (Inr r, s') \<Longrightarrow>
     ss_presented_mat s' = ss_presented_mat s \<and> vendor_tlvs (sent_by r) = vendor_tlvs out"
  unfolding quiet_def
  by (drule spec [of _ "ss_presented_mat s"], drule hoareO_Inr [of _ m _ _ s r s'], rule refl) auto

lemma quiet_fail [quiets]: "quiet out (fail_out out reason)"
  by (simp add: quiet_def hoareO_def)

lemma quiet_return [quiets]: "quiet out (returnO (Inr out))"
  by (simp add: quiet_def hoareO_def returnO_def)

lemma quiet_lift [quiets]: "(\<And>x. quiet out (f x)) \<Longrightarrow> quiet out (bindO (liftO Decode r) f)"
  by (cases r) (auto simp: quiet_def hoareO_def bindO_def liftO_def)

lemma quiet_get [quiets]: "(\<And>x. quiet out (f x)) \<Longrightarrow> quiet out (bindO (getO g) f)"
  by (auto simp: quiet_def hoareO_def bindO_def getO_def)

lemma quiet_continue [quiets]:
  assumes "quiet out m" and "\<And>o1. vendor_tlvs o1 = vendor_tlvs out \<Longrightarrow> quiet o1 (f o1)"
  shows "quiet out (continue_with m f)"
  unfolding quiet_def continue_with_def
proof (intro allI hoareO_bind)
  fix p
  show "hoareO (\<lambda>s. ss_presented_mat s = p) m
      (\<lambda>r s. ss_presented_mat s = p \<and> vendor_tlvs (sent_by r) = vendor_tlvs out) (\<lambda>_ s. ss_presented_mat s = p)"
    using assms(1) by (simp add: quiet_def)
  fix r
  show "hoareO (\<lambda>s. ss_presented_mat s = p \<and> vendor_tlvs (sent_by r) = vendor_tlvs out)
      (case r of Inl st \<Rightarrow> returnO (Inl st) | Inr o1 \<Rightarrow> f o1)
      (\<lambda>r s. ss_presented_mat s = p \<and> vendor_tlvs (sent_by r) = vendor_tlvs out) (\<lambda>_ s. ss_presented_mat s = p)"
  proof (cases r)
    case (Inr o1)
    show ?thesis
    proof (cases "vendor_tlvs o1 = vendor_tlvs out")
      case True
      then show ?thesis using assms(2) [OF True] Inr by (simp add: quiet_def)
    qed (simp add: Inr hoareO_def)
  qed (simp add: hoareO_def returnO_def)
qed

lemma quiet_inner [quiets]: "quiet out (inner_phase proc inbound out)"
  by (auto simp: inner_phase_def quiet_def hoareO_def op_simps split: option.splits inner_step.splits)

lemma quiet_absorb [quiets]: "quiet out (absorb_once imsk out)"
  by (auto simp: quiet_def hoareO_def absorb_once_def split: prod.splits sum.splits)

lemma quiet_response [quiets]: "quiet out (binding_response mac c cb out)"
proof -
  have "ir_to_tlv ir m = Inr t \<Longrightarrow> vendor_tlvs [t] = []" for ir m t
    by (auto simp: ir_to_tlv_def vendor_tlvs_def split: sum.splits)
  then show ?thesis
    by (auto simp: binding_response_def quiet_def hoareO_def op_simps split: prod.splits sum.splits)
qed

lemma quiet_verify [quiets]: "quiet out (verify_binding cb out)"
  unfolding verify_binding_def by (auto intro!: quiets split: option.split sum.split)

lemma quiet_inner_success [quiets]: "quiet out (handle_inner_success inbound ir out)"
  unfolding handle_inner_success_def by (auto intro!: quiets split: option.split)

lemma quiet_intermediate [quiets]: "quiet out (intermediate_phase inbound out)"
  unfolding intermediate_phase_def by (auto intro!: quiets split: option.split)

lemma quiet_identity:
  assumes "identity_phase inbound out s = Some (Inr r, s')"
  shows "(ss_presented_mat s' = ss_presented_mat s \<and> vendor_tlvs (sent_by r) = vendor_tlvs out) \<or>
    (sc_identity (ss_cfg s) = User \<and> \<not> ss_presented_mat s \<and> ss_presented_mat s'
     \<and> (\<exists>raw. find_tlv inbound IDENTITY_TYPE = Some raw \<and> it_from_value (rt_value raw) = Inr ItUser)
     \<and> vendor_tlvs (sent_by r) = vendor_tlvs out @ (case sc_mat_to_present (ss_cfg s) of None \<Rightarrow> []
         | Some mat \<Rightarrow> [vs_to_tlv \<lparr>vs_vendor_id = sc_mat_vendor_id (ss_cfg s), vs_data = mat\<rparr> True]))"
proof -
  have user: "identity_matches User it \<Longrightarrow> it = ItUser" for it by (cases it) simp_all
  show ?thesis
    using assms
    by (auto simp: identity_phase_def present_mat_def op_simps
        split: option.splits sum.splits if_splits dest!: user)
qed

definition mat_shown :: "raw_tlv list \<Rightarrow> 'i teap_session \<Rightarrow> raw_tlv list \<Rightarrow> 'i teap_session \<Rightarrow> bool" where
  "mat_shown m s out s' \<longleftrightarrow>
     sc_identity (ss_cfg s) = User \<and> \<not> ss_presented_mat s \<and> ss_presented_mat s'
     \<and> (\<exists>raw. find_tlv m IDENTITY_TYPE = Some raw \<and> it_from_value (rt_value raw) = Inr ItUser)
     \<and> (\<exists>mat. sc_mat_to_present (ss_cfg s) = Some mat
          \<and> vendor_tlvs out = [vs_to_tlv \<lparr>vs_vendor_id = sc_mat_vendor_id (ss_cfg s), vs_data = mat\<rparr> True])"

lemma body_tickets:
  assumes "body_phases proc m s = Some (Inr r, s')"
  shows "(ss_presented_mat s \<longrightarrow> ss_presented_mat s') \<and>
    (vendor_tlvs (sent_by r) = [] \<or> mat_shown m s (sent_by r) s')"
proof -
  obtain r1 s1 where i: "identity_phase m [] s = Some (Inr r1, s1)"
    using assms by (auto simp: body_phases_def continue_with_def bindO_def split: option.splits sum.splits)
  have rest: "ss_presented_mat s' = ss_presented_mat s1 \<and> vendor_tlvs (sent_by r) = vendor_tlvs (sent_by r1)"
  proof (cases r1)
    case (Inr out)
    have "quiet out (continue_with (inner_phase proc m out) (intermediate_phase m))"
      by (intro quiets)
    from quiet_Inr [OF this, of s1 r s'] assms i Inr show ?thesis
      by (simp add: body_phases_def continue_with_def [of "identity_phase m []"] bindO_def)
  qed (use assms i in \<open>auto simp: body_phases_def continue_with_def bindO_def returnO_def\<close>)
  show ?thesis
    using quiet_identity [OF i] rest by (auto simp: mat_shown_def split: option.splits)
qed

lemma step_tickets:
  assumes "session_step proc m s = Some (Inr st, s')"
  shows "(ss_presented_mat s \<longrightarrow> ss_presented_mat s') \<and>
    (vendor_tlvs (sent st) = [] \<or> mat_shown m s (sent st) s')"
  using assms
proof (cases rule: session_step_cases)
  case (early st')
  then show ?thesis using body_tickets [OF early(4)] by simp
next
  case (result out t)
  note b = body_tickets [OF result(3)]
  have "handle_result m status out t = Some (Inr st, s') \<Longrightarrow>
      ss_presented_mat s' = ss_presented_mat t \<and> vendor_tlvs (sent st) = vendor_tlvs out" for status
    by (auto simp: handle_result_def split: if_splits sum.splits prod.splits)
  with result(4) have "ss_presented_mat s' = ss_presented_mat t \<and> vendor_tlvs (sent st) = vendor_tlvs out"
    by (auto simp: result_phase_def op_simps split: option.splits sum.splits)
  with b show ?thesis by (auto simp: mat_shown_def)
qed simp_all

section \<open>The honest exchange\<close>

text \<open>
  The server's last message of a session whose inner method is done: a successful
  Intermediate-Result, the sealed Binding Request, a successful Result.
\<close>

definition binding_request :: "bytes \<Rightarrow> crypto_binding_tlv" where
  "binding_request nonce =
     \<lparr>cb_version = CB_TEAP_VERSION, cb_received_version = CB_TEAP_VERSION,
       cb_sub_type = CB_SUBTYPE_REQUEST, cb_nonce = nonce, cb_emsk_mac = [], cb_msk_mac = []\<rparr>"

definition sealed :: "teap_mac \<Rightarrow> cmk \<Rightarrow> crypto_binding_tlv \<Rightarrow> crypto_binding_tlv" where
  "sealed mac c cb = snd (cb_seal mac c cb)"

definition success_message :: "teap_mac \<Rightarrow> cmk \<Rightarrow> bytes \<Rightarrow> raw_tlv list" where
  "success_message mac c nonce =
     [raw_tlv_new True INTERMEDIATE_RESULT (be_of_word 2 (result_status_to_u16 RsSuccess)),
      raw_tlv_new True CRYPTO_BINDING (cb_octets 0 (sealed mac c (binding_request nonce))),
      rt_to_tlv RsSuccess True]"

lemma sealed_ok:
  assumes "mac_lawful mac" "mac_hash_len mac \<le> 64" "length (cb_nonce cb) = 32"
  shows "cb_seal mac c cb = (Inr (), sealed mac c cb)" "cb_wf (sealed mac c cb)"
    "cb_verify mac c (sealed mac c cb) = Inr ()"
    "cb_sub_type (sealed mac c cb) = cb_sub_type cb" "cb_version (sealed mac c cb) = cb_version cb"
    "cb_received_version (sealed mac c cb) = cb_received_version cb"
    "cb_nonce (sealed mac c cb) = cb_nonce cb"
    "length (cb_octets 0 (sealed mac c cb)) \<le> 164"
proof -
  have fits: "mac_fits (mac_hash_len mac)" using assms(2) by (simp add: mac_fits_def)
  note seal = cb_seal_ok [OF fits assms(3), of c]
  have len: "length (mac_hmac mac k d) = mac_hash_len mac" "0 < mac_hash_len mac" for k d
    using assms(1) by (simp_all add: mac_lawful_def)
  show "cb_seal mac c cb = (Inr (), sealed mac c cb)" by (simp add: sealed_def seal)
  then show "cb_verify mac c (sealed mac c cb) = Inr ()"
    by (rule cb_verify_seal(2) [OF fits assms(3,1)])
  show "cb_wf (sealed mac c cb)"
    using len assms(3) by (auto simp: sealed_def seal cb_wf_def simp flip: length_0_conv)
  show "length (cb_octets 0 (sealed mac c cb)) \<le> 164"
    using len assms(2,3) by (simp add: sealed_def seal cb_octets_def)
qed (use assms in \<open>simp_all add: sealed_def cb_seal_ok mac_fits_def\<close>)

lemma parse_all_Nil [simp]: "parse_all [] = Inr []"
  by (simp add: parse_all_iff frames_Nil)

lemma success_ir: "ir_from_value (be_of_word 2 (result_status_to_u16 RsSuccess))
    = Inr \<lparr>ir_status = RsSuccess, ir_tlvs = []\<rparr>"
  by (simp add: ir_from_value_def body_simps result_status_from_u16_def)

text \<open>A Crypto-Binding of bounded size can be put in an Intermediate-Result, and is read back from it.\<close>

lemma cb_in_ir:
  assumes "cb_wf cb" and len: "length (cb_octets 0 cb) \<le> 164"
  defines "t \<equiv> raw_tlv_new True CRYPTO_BINDING (cb_octets 0 cb)"
  shows "cb_to_tlv cb True = Inr t \<and> cb_from_value (rt_value t) = Inr cb
    \<and> (\<exists>ir. ir_to_tlv \<lparr>ir_status = RsSuccess, ir_tlvs = [t]\<rparr> True = Inr ir
      \<and> rt_type ir = INTERMEDIATE_RESULT \<and> rt_mandatory ir \<and> tlv_ok ir \<and> length (rt_value ir) \<le> 170
      \<and> ir_from_value (rt_value ir) = Inr \<lparr>ir_status = RsSuccess, ir_tlvs = [t]\<rparr>)"
proof -
  let ?i = "\<lparr>ir_status = RsSuccess, ir_tlvs = [t]\<rparr>"
  have t: "cb_to_tlv cb True = Inr t"
    using assms(1) by (simp add: cb_to_tlv_def cb_wf_def cb_octets_def t_def)
  have "tlv_ok t" using len by (simp add: tlv_ok_def t_def mask_eq_exp_minus_1)
  then obtain ir where ir: "ir_to_tlv ?i True = Inr ir"
    and ok: "rt_type ir = INTERMEDIATE_RESULT" "length (rt_value ir) \<le> 170" "rt_mandatory ir"
    using len by (auto simp: ir_to_tlv_def encode_into_frame t_def)
  moreover from ir have "ir_from_value (rt_value ir) = Inr ?i"
    by (rule ir_round) (simp_all add: status_wf_def MAX_TLVS_def)
  moreover have "cb_from_value (rt_value t) = Inr cb" using cb_from_octets [OF assms(1)] by (simp add: t_def)
  moreover from ok have "tlv_ok ir" by (simp add: tlv_ok_def mask_eq_exp_minus_1)
  ultimately show ?thesis using t by blast
qed

text \<open>The Binding Response can be encoded, and the server that holds the key accepts it.\<close>

lemma binding_response_ok:
  assumes "mac_lawful mac" "mac_hash_len mac \<le> 64" "length (cb_nonce cb) = 32"
  shows "\<exists>ir. binding_response mac c cb out s = Some (Inr (Inr (out @ [ir])), s)
    \<and> rt_type ir = INTERMEDIATE_RESULT \<and> rt_mandatory ir \<and> tlv_ok ir \<and> length (rt_value ir) \<le> 170
    \<and> (\<exists>t. ir_from_value (rt_value ir) = Inr \<lparr>ir_status = RsSuccess, ir_tlvs = [t]\<rparr>
         \<and> rt_type t = CRYPTO_BINDING
         \<and> cb_from_value (rt_value t) = Inr (sealed mac c (cb\<lparr>cb_sub_type := CB_SUBTYPE_RESPONSE\<rparr>)))"
proof -
  let ?cb = "cb\<lparr>cb_sub_type := CB_SUBTYPE_RESPONSE\<rparr>" and ?r = "sealed mac c (cb\<lparr>cb_sub_type := CB_SUBTYPE_RESPONSE\<rparr>)"
  let ?t = "raw_tlv_new True CRYPTO_BINDING (cb_octets 0 ?r)"
  have "length (cb_nonce ?cb) = 32" using assms(3) by simp
  note sealed = sealed_ok [OF assms(1,2) this, of c]
  note t = cb_in_ir [OF sealed(2,8)]
  then obtain ir where ir: "ir_to_tlv \<lparr>ir_status = RsSuccess, ir_tlvs = [?t]\<rparr> True = Inr ir"
    "rt_type ir = INTERMEDIATE_RESULT" "rt_mandatory ir" "tlv_ok ir" "length (rt_value ir) \<le> 170"
    "ir_from_value (rt_value ir) = Inr \<lparr>ir_status = RsSuccess, ir_tlvs = [?t]\<rparr>"
    by blast
  have "binding_response mac c cb out s = Some (Inr (Inr (out @ [ir])), s)"
    using sealed(1) t ir(1) by (simp add: binding_response_def op_simps)
  moreover have "rt_type ?t = CRYPTO_BINDING" by simp
  ultimately show ?thesis using ir(2-) t by blast
qed

lemma success_message_simps [simp]:
  "\<not> malformed (success_message mac c n)"
  "find_tlv (success_message mac c n) IDENTITY_TYPE = None"
  "find_tlv (success_message mac c n) EAP_PAYLOAD = None"
  "find_tlv (success_message mac c n) INTERMEDIATE_RESULT
     = Some (raw_tlv_new True INTERMEDIATE_RESULT (be_of_word 2 (result_status_to_u16 RsSuccess)))"
  "find_tlv (success_message mac c n) CRYPTO_BINDING
     = Some (raw_tlv_new True CRYPTO_BINDING (cb_octets 0 (sealed mac c (binding_request n))))"
  "find_tlv (success_message mac c n) RESULT = Some (rt_to_tlv RsSuccess True)"
  "find_mat (success_message mac c n) v = Inr None"
  by (simp_all add: malformed_def CRITICAL_TYPES_def success_message_def find_tlv_def find_mat_def
      rt_to_tlv_def)

text \<open>A session ready for the Result: it holds an IMSK and its key schedule is untouched.\<close>

definition ready :: "bytes \<Rightarrow> 'i teap_session \<Rightarrow> bool" where
  "ready k s \<longleftrightarrow> \<not> ss_terminated s \<and> ss_imsk s = Some k \<and> length k = IMSK_LEN \<and> ss_cmk s = None
     \<and> mac_lawful (ss_mac s) \<and> mac_hash_len (ss_mac s) \<le> 64"

lemma success_message_step:
  assumes "ready k s" and a: "absorb_inner (ss_mac s) k (ss_ks s) = (Inr c, ks)"
    and n: "length nonce = 32" and d: "derive_session_keys (ss_mac s) ks = Inr (msk, emsk)"
  shows "\<exists>ir t. session_step proc (success_message (ss_mac s) c nonce) s =
      Some (Inr (Done [ir, rt_to_tlv RsSuccess True] (Success msk emsk None)),
        s\<lparr>ss_ks := ks, ss_cmk := Some c, ss_terminated := True\<rparr>)
    \<and> rt_type ir = INTERMEDIATE_RESULT \<and> rt_mandatory ir \<and> tlv_ok ir
    \<and> ir_from_value (rt_value ir) = Inr \<lparr>ir_status = RsSuccess, ir_tlvs = [t]\<rparr>
    \<and> rt_type t = CRYPTO_BINDING
    \<and> cb_from_value (rt_value t) = Inr (sealed (ss_mac s) c
        ((sealed (ss_mac s) c (binding_request nonce))\<lparr>cb_sub_type := CB_SUBTYPE_RESPONSE\<rparr>))"
proof -
  let ?mac = "ss_mac s" and ?msg = "success_message (ss_mac s) c nonce"
    and ?cb = "sealed (ss_mac s) c (binding_request nonce)"
  let ?s = "s\<lparr>ss_ks := ks, ss_cmk := Some c\<rparr>"
  from assms(1) have mac: "mac_lawful ?mac" "mac_hash_len ?mac \<le> 64" by (simp_all add: ready_def)
  have bn: "length (cb_nonce (binding_request nonce)) = 32" by (simp add: binding_request_def n)
  note cb = sealed_ok [OF mac bn, of c]
  have fields: "cb_fields_ok ?cb" unfolding cb_fields_ok_def cb(4-6) by (simp add: binding_request_def)
  obtain ir t where resp: "binding_response ?mac c ?cb [] ?s = Some (Inr (Inr ([] @ [ir])), ?s)"
    and ir: "rt_type ir = INTERMEDIATE_RESULT" "rt_mandatory ir" "tlv_ok ir"
      "ir_from_value (rt_value ir) = Inr \<lparr>ir_status = RsSuccess, ir_tlvs = [t]\<rparr>"
      "rt_type t = CRYPTO_BINDING"
      "cb_from_value (rt_value t) = Inr (sealed ?mac c (?cb\<lparr>cb_sub_type := CB_SUBTYPE_RESPONSE\<rparr>))"
    using binding_response_ok [OF mac, of ?cb c "[]" ?s] cb(7) bn by auto
  have found: "find_crypto_binding ?msg \<lparr>ir_status = RsSuccess, ir_tlvs = []\<rparr> = Inr (Some ?cb)"
    using cb(2) by (simp add: find_crypto_binding_def cb_from_octets del: CRYPTO_BINDING_def)
  have v: "verify_binding ?cb [] ?s = Some (Inr (Inr [ir]), ?s)"
    using fields cb(3) resp by (simp add: verify_binding_def op_simps)
  have "absorb_once k [] s = Some (Inr (Inr []), ?s)"
    using a assms(1) by (simp add: absorb_once_def ready_def)
  then have "handle_inner_success ?msg \<lparr>ir_status = RsSuccess, ir_tlvs = []\<rparr> [] s = Some (Inr (Inr [ir]), ?s)"
    using assms(1) found v
    by (simp add: handle_inner_success_def ready_def continue_with_def op_simps)
  then have "intermediate_phase ?msg [] s = Some (Inr (Inr [ir]), ?s)"
    by (simp add: intermediate_phase_def success_ir op_simps
      del: INTERMEDIATE_RESULT_def result_status_to_u16.simps)
  then have body: "body_phases proc ?msg s = Some (Inr (Inr [ir]), ?s)"
    by (simp add: body_phases_def continue_with_def identity_phase_def inner_phase_def op_simps
        del: IDENTITY_TYPE_def EAP_PAYLOAD_def)
  have "result_phase ?msg [ir] ?s
      = Some (Inr (Done [ir, rt_to_tlv RsSuccess True] (Success msk emsk None)), ?s\<lparr>ss_terminated := True\<rparr>)"
    using d by (simp add: result_phase_def handle_result_def rt_round status_wf_def op_simps del: RESULT_def)
  then have "session_step proc ?msg s =
      Some (Inr (Done [ir, rt_to_tlv RsSuccess True] (Success msk emsk None)), ?s\<lparr>ss_terminated := True\<rparr>)"
    using body assms(1)
    by (simp add: session_step_def body_phases_def [symmetric] ready_def op_simps)
  then show ?thesis using ir by auto
qed

text \<open>An IMSK from the inner method makes a fresh session ready.\<close>

definition payload_message :: "bytes \<Rightarrow> raw_tlv list" where
  "payload_message eap = [ep_to_tlv eap True]"

lemma payload_step:
  assumes "\<not> ss_terminated s" and "proc (ss_inner s) eap = Some (InnerDone k, i')" and "length k = IMSK_LEN"
  shows "session_step proc (payload_message eap) s = Some (Inr (Continue []), s\<lparr>ss_inner := i', ss_imsk := Some k\<rparr>)"
  using assms
  by (simp add: session_step_def malformed_def CRITICAL_TYPES_def payload_message_def ep_to_tlv_def
      identity_phase_def inner_phase_def intermediate_phase_def result_phase_def find_tlv_def
      ep_from_value_def continue_with_def op_simps)


section \<open>Properties\<close>

text \<open>The examples run on a session of a user with a ticket, whose inner method is done at once.\<close>

definition demo_inner :: "unit inner_process" where
  "demo_inner i eap = Some (InnerDone (replicate 32 1), ())"

definition demo_config :: session_config where
  "demo_config = \<lparr>sc_identity = User, sc_mat_vendor_id = 9, sc_mat_to_present = Some [7]\<rparr>"

definition demo_ks :: key_schedule where
  "demo_ks = \<lparr>ks_s_imck = replicate 40 0, ks_methods = 0\<rparr>"

definition demo_session :: "unit teap_session" where
  "demo_session = \<lparr>ss_cfg = demo_config, ss_mac = sum_mac, ss_inner = (), ss_ks = demo_ks,
     ss_cmk = None, ss_imsk = None, ss_presented_mat = False, ss_terminated = False\<rparr>"

lemma demo_new: "session_new demo_config (replicate 40 0) sum_mac () = Inr demo_session"
  by (simp add: session_new_def ks_new_def demo_session_def demo_ks_def)

lemma demo_run:
  "session_run demo_inner demo_session [payload_message []] (demo_session\<lparr>ss_imsk := Some (replicate 32 1)\<rparr>)"
proof -
  have "session_step demo_inner (payload_message []) demo_session
      = Some (Inr (Continue []), demo_session\<lparr>ss_inner := (), ss_imsk := Some (replicate 32 1)\<rparr>)"
    by (rule payload_step) (simp_all add: demo_session_def demo_inner_def)
  from run_step [OF run_start this] show ?thesis by (simp add: demo_session_def)
qed

lemma demo_ready: "ready (replicate 32 1) (demo_session\<lparr>ss_imsk := Some (replicate 32 1)\<rparr>)"
  by (simp add: ready_def demo_session_def)

lemma demo_success:
  "\<exists>c send msk emsk s'. session_step demo_inner (success_message sum_mac c (replicate 32 2))
     (demo_session\<lparr>ss_imsk := Some (replicate 32 1)\<rparr>) = Some (Inr (Done send (Success msk emsk None)), s')"
proof -
  obtain c nxt where a: "absorb_inner sum_mac (replicate 32 1) demo_ks
      = (Inr c, demo_ks\<lparr>ks_s_imck := nxt, ks_methods := sat_add (ks_methods demo_ks) 1\<rparr>)"
    using dyn.absorb_ok [of sum_mac "replicate 32 1" demo_ks] by auto
  then obtain msk emsk where
    "derive_session_keys sum_mac (demo_ks\<lparr>ks_s_imck := nxt, ks_methods := sat_add (ks_methods demo_ks) 1\<rparr>) = Inr (msk, emsk)"
    using dyn.derive_ok [of sum_mac "demo_ks\<lparr>ks_s_imck := nxt, ks_methods := sat_add (ks_methods demo_ks) 1\<rparr>"]
      sat_add_pos by auto
  with success_message_step [OF demo_ready, of c _ "replicate 32 2" msk emsk demo_inner] a show ?thesis
    by (fastforce simp: demo_session_def)
qed

text \<open>C4: no silent success. When a session whose messages so far were all answered with
  \<open>Continue\<close> ends in success, then the server sent a successful Result in this message, the inner
  method delivered a 32-octet IMSK on one of the messages, one of them carried a successful
  Intermediate-Result with a Binding Request of the right version whose compound MAC verifies under
  the key derived from the TLS seed and that IMSK, and the exported keys are those of the same key
  schedule. A ticket is taken from the server only by a machine session.\<close>

theorem session_success_sound:
  assumes "session_new cfg seed mac inner = Inr s0" and "session_run proc s0 ms s"
    and "session_step proc m s = Some (Inr (Done send (Success msk emsk mat)), s')"
  shows "(\<exists>k c ks. (\<exists>n\<in>set (ms @ [m]). imsk_delivered proc k n)
      \<and> absorb_inner mac k \<lparr>ks_s_imck = seed, ks_methods = 0\<rparr> = (Inr c, ks)
      \<and> (\<exists>n\<in>set (ms @ [m]). binding_accepted mac c n) \<and> derive_session_keys mac ks = Inr (msk, emsk))
    \<and> (\<exists>raw. find_tlv m RESULT = Some raw \<and> rt_from_value (rt_value raw) = Inr RsSuccess)
    \<and> (\<forall>ticket. mat = Some ticket \<longrightarrow> sc_identity cfg = Machine
         \<and> find_mat m (sc_mat_vendor_id cfg) = Inr (Some ticket))"
proof -
  have inv: "sess_inv True proc mac seed (set ms) s" "static cfg mac s"
    using session_run_inv [OF assms(2,1)] by simp_all
  from success_step [OF assms(3) inv(1)] success_ticket [OF assms(3)] inv(2) show ?thesis
    by (auto simp: static_def)
qed

theorem session_success_sound_witness:
  "\<exists>c k n. imsk_delivered demo_inner k n \<and> n \<in> {payload_message [], success_message sum_mac c (replicate 32 2)}"
proof -
  obtain c send msk emsk s' where
    "session_step demo_inner (success_message sum_mac c (replicate 32 2))
       (demo_session\<lparr>ss_imsk := Some (replicate 32 1)\<rparr>) = Some (Inr (Done send (Success msk emsk None)), s')"
    using demo_success by blast
  from session_success_sound [OF demo_new demo_run this] show ?thesis by auto
qed

text \<open>An honest exchange succeeds. To a session that holds an IMSK, the server that derives the
  same key sends a successful Intermediate-Result, the sealed Binding Request and a successful
  Result: the session answers with an Intermediate-Result enclosing a Binding Response that verifies
  under that key and echoes the nonce, then a successful Result, and exports the keys that the
  server's key schedule exports.\<close>

lemma honest_exchange_succeeds:
  assumes "ready k s" and "length nonce = 32"
  shows "\<exists>c ks msk emsk ir t resp. absorb_inner (ss_mac s) k (ss_ks s) = (Inr c, ks)
    \<and> derive_session_keys (ss_mac s) ks = Inr (msk, emsk)
    \<and> session_step proc (success_message (ss_mac s) c nonce) s =
        Some (Inr (Done [ir, rt_to_tlv RsSuccess True] (Success msk emsk None)),
          s\<lparr>ss_ks := ks, ss_cmk := Some c, ss_terminated := True\<rparr>)
    \<and> ir_from_value (rt_value ir) = Inr \<lparr>ir_status = RsSuccess, ir_tlvs = [t]\<rparr>
    \<and> rt_type t = CRYPTO_BINDING \<and> cb_from_value (rt_value t) = Inr resp
    \<and> cb_verify (ss_mac s) c resp = Inr () \<and> cb_sub_type resp = CB_SUBTYPE_RESPONSE
    \<and> cb_nonce resp = nonce"
proof -
  have mac: "mac_lawful (ss_mac s)" "mac_hash_len (ss_mac s) \<le> 64" and k: "length k = IMSK_LEN"
    using assms(1) by (simp_all add: ready_def)
  obtain c nxt where a: "absorb_inner (ss_mac s) k (ss_ks s)
      = (Inr c, (ss_ks s)\<lparr>ks_s_imck := nxt, ks_methods := sat_add (ks_methods (ss_ks s)) 1\<rparr>)"
    using dyn.absorb_ok [OF mac(1) k, of "ss_ks s"] by auto
  let ?ks = "(ss_ks s)\<lparr>ks_s_imck := nxt, ks_methods := sat_add (ks_methods (ss_ks s)) 1\<rparr>"
  obtain msk emsk where d: "derive_session_keys (ss_mac s) ?ks = Inr (msk, emsk)"
    using dyn.derive_ok [OF mac(1), of ?ks] sat_add_pos by auto
  let ?req = "sealed (ss_mac s) c (binding_request nonce)"
  let ?resp = "sealed (ss_mac s) c (?req\<lparr>cb_sub_type := CB_SUBTYPE_RESPONSE\<rparr>)"
  have n: "length (cb_nonce (binding_request nonce)) = 32" "cb_nonce (binding_request nonce) = nonce"
    using assms(2) by (simp_all add: binding_request_def)
  note req = sealed_ok [OF mac n(1), of c]
  have n': "length (cb_nonce (?req\<lparr>cb_sub_type := CB_SUBTYPE_RESPONSE\<rparr>)) = 32" using n req(7) by simp
  note resp = sealed_ok [OF mac n', of c]
  from success_message_step [OF assms(1) a assms(2) d, of proc] obtain ir t where
    "session_step proc (success_message (ss_mac s) c nonce) s =
        Some (Inr (Done [ir, rt_to_tlv RsSuccess True] (Success msk emsk None)),
          s\<lparr>ss_ks := ?ks, ss_cmk := Some c, ss_terminated := True\<rparr>)"
    "ir_from_value (rt_value ir) = Inr \<lparr>ir_status = RsSuccess, ir_tlvs = [t]\<rparr>"
    "rt_type t = CRYPTO_BINDING" "cb_from_value (rt_value t) = Inr ?resp"
    by blast
  with a d resp(3,4,7) req(7) n(2) show ?thesis
    by (intro exI [of _ c] exI [of _ ?ks] exI [of _ msk] exI [of _ emsk] exI [of _ ir] exI [of _ t]
        exI [of _ ?resp]) simp
qed

lemma honest_exchange_succeeds_witness:
  "\<exists>c ks. absorb_inner sum_mac (replicate 32 1) demo_ks = (Inr c, ks)
     \<and> (\<exists>msk emsk. derive_session_keys sum_mac ks = Inr (msk, emsk))"
  using honest_exchange_succeeds [OF demo_ready, of "replicate 32 2" demo_inner]
  by (auto simp: demo_session_def)

text \<open>C17: the life of a session. A call on a closed session changes nothing and is refused. A call on
  an open one closes it exactly when it returns an outcome, and then the last TLV sent is the
  matching Result; it never changes the configuration. It returns whenever the inner method does.\<close>

theorem session_life:
  assumes "\<And>i eap. proc i eap \<noteq> None"
  shows "\<exists>r s'. session_step proc m s = Some (r, s') \<and>
    (if ss_terminated s then r = Inl AlreadyTerminated \<and> s' = s
     else (ss_terminated s' \<longleftrightarrow> (\<exists>send oc. r = Inr (Done send oc)))
       \<and> ss_cfg s' = ss_cfg s \<and> r \<noteq> Inl AlreadyTerminated
       \<and> (\<forall>send oc. r = Inr (Done send oc) \<longrightarrow>
            (\<exists>pre. send = pre @ [rt_to_tlv (closing_result oc) True])))"
proof -
  obtain r s' where r: "session_step proc m s = Some (r, s')"
    using session_step_total [of proc m, OF assms] unfolding total_op_def by (metis not_None_eq prod.exhaust)
  show ?thesis
  proof (cases "ss_terminated s")
    case True
    then show ?thesis by (simp add: session_step_def op_simps)
  next
    case False
    with session_step_life [OF r] r show ?thesis by (auto simp: life_ok_def static_def)
  qed
qed

theorem session_life_witness:
  "session_step demo_inner [] (demo_session\<lparr>ss_terminated := True\<rparr>)
     = Some (Inl AlreadyTerminated, demo_session\<lparr>ss_terminated := True\<rparr>)"
  using session_life [of demo_inner "[]" "demo_session\<lparr>ss_terminated := True\<rparr>"]
  by (auto simp: demo_inner_def demo_session_def)

text \<open>C18: the machine ticket is shown at most once, and only to a server that asked for the user: a
  call sends a Vendor-Specific TLV only in a user session that holds a ticket and has not shown it,
  when the message requests the user identity; it then sends exactly that ticket and the session
  never shows it again.\<close>

theorem ticket_shown_once:
  assumes "session_step proc m s = Some (Inr st, s')"
  shows "(ss_presented_mat s \<longrightarrow> ss_presented_mat s') \<and>
    (vendor_tlvs (sent st) = [] \<or>
     sc_identity (ss_cfg s) = User \<and> \<not> ss_presented_mat s \<and> ss_presented_mat s'
     \<and> (\<exists>raw. find_tlv m IDENTITY_TYPE = Some raw \<and> it_from_value (rt_value raw) = Inr ItUser)
     \<and> (\<exists>mat. sc_mat_to_present (ss_cfg s) = Some mat \<and> vendor_tlvs (sent st)
          = [vs_to_tlv \<lparr>vs_vendor_id = sc_mat_vendor_id (ss_cfg s), vs_data = mat\<rparr> True]))"
  using step_tickets [OF assms] by (simp add: mat_shown_def)

lemma rt_success: "rt_from_value (rt_value (rt_to_tlv RsSuccess m)) = Inr RsSuccess"
  "rt_type (rt_to_tlv st m) = RESULT" "rt_mandatory (rt_to_tlv st m) = m"
  by (simp_all add: rt_round status_wf_def, simp_all add: rt_to_tlv_def)

lemma it_user: "it_from_value (rt_value (it_to_tlv ItUser m)) = Inr ItUser"
  "rt_type (it_to_tlv i m) = IDENTITY_TYPE" "rt_mandatory (it_to_tlv i m) = m"
  by (simp_all add: it_round identity_wf_def, simp_all add: it_to_tlv_def)

theorem ticket_shown_once_witness:
  "\<exists>st s'. session_step demo_inner [it_to_tlv ItUser True] demo_session = Some (Inr st, s')
     \<and> vendor_tlvs (sent st) = [vs_to_tlv \<lparr>vs_vendor_id = 9, vs_data = [7]\<rparr> True] \<and> ss_presented_mat s'"
proof -
  have "session_step demo_inner [it_to_tlv ItUser True] demo_session
      = Some (Inr (Continue [vs_to_tlv \<lparr>vs_vendor_id = 9, vs_data = [7]\<rparr> True]), demo_session\<lparr>ss_presented_mat := True\<rparr>)"
    by (simp add: session_step_def malformed_def CRITICAL_TYPES_def identity_phase_def inner_phase_def
        intermediate_phase_def result_phase_def find_tlv_def continue_with_def present_mat_def op_simps
        demo_session_def demo_config_def it_round identity_wf_def it_user)
  from this ticket_shown_once [OF this] show ?thesis by auto
qed

definition undecodable_binding :: "raw_tlv list" where
  "undecodable_binding =
     [raw_tlv_new True INTERMEDIATE_RESULT (be_of_word 2 (result_status_to_u16 RsSuccess)),
      raw_tlv_new True CRYPTO_BINDING []]"

text \<open>C19: a decode error leaves the key without its proof. A session that holds an IMSK and receives a
  successful Intermediate-Result with a Crypto-Binding that cannot be decoded answers with an error,
  but has already absorbed the IMSK and set its CMK; it is not closed, and a bare successful Result
  on the next call then ends it in success although no Crypto-Binding was ever verified. Only a
  caller that stops at the first error is safe (see \<open>session_success_sound\<close>).\<close>

theorem success_after_decode_error:
  assumes "ready k s"
  shows "\<exists>s1 s2 e msk emsk. session_step proc undecodable_binding s = Some (Inl (Decode e), s1)
    \<and> session_step proc [rt_to_tlv RsSuccess True] s1
        = Some (Inr (Done [rt_to_tlv RsSuccess True] (Success msk emsk None)), s2)"
proof -
  have mac: "mac_lawful (ss_mac s)" and k: "length k = IMSK_LEN"
    using assms by (simp_all add: ready_def)
  obtain c nxt where a: "absorb_inner (ss_mac s) k (ss_ks s)
      = (Inr c, (ss_ks s)\<lparr>ks_s_imck := nxt, ks_methods := sat_add (ks_methods (ss_ks s)) 1\<rparr>)"
    using dyn.absorb_ok [OF mac k, of "ss_ks s"] by auto
  let ?ks = "(ss_ks s)\<lparr>ks_s_imck := nxt, ks_methods := sat_add (ks_methods (ss_ks s)) 1\<rparr>"
  obtain msk emsk where d: "derive_session_keys (ss_mac s) ?ks = Inr (msk, emsk)"
    using dyn.derive_ok [OF mac, of ?ks] sat_add_pos by auto
  let ?s = "s\<lparr>ss_ks := ?ks, ss_cmk := Some c\<rparr>"
  have find: "\<not> malformed undecodable_binding" "find_tlv undecodable_binding IDENTITY_TYPE = None"
    "find_tlv undecodable_binding EAP_PAYLOAD = None"
    "find_tlv undecodable_binding INTERMEDIATE_RESULT
       = Some (raw_tlv_new True INTERMEDIATE_RESULT (be_of_word 2 (result_status_to_u16 RsSuccess)))"
    "find_crypto_binding undecodable_binding ir = Inl (cb_bad 0)" for ir
    by (simp_all add: malformed_def CRITICAL_TYPES_def undecodable_binding_def find_tlv_def
        find_crypto_binding_def cb_from_value_def get_at_def)
  have "handle_inner_success undecodable_binding ir [] s = Some (Inl (Decode (cb_bad 0)), ?s)" for ir
    using assms a find(5) by (simp add: handle_inner_success_def ready_def continue_with_def absorb_once_def op_simps)
  then have "session_step proc undecodable_binding s = Some (Inl (Decode (cb_bad 0)), ?s)"
    using assms find success_ir
    by (simp add: session_step_def identity_phase_def inner_phase_def intermediate_phase_def
        continue_with_def ready_def op_simps
        del: IDENTITY_TYPE_def EAP_PAYLOAD_def INTERMEDIATE_RESULT_def result_status_to_u16.simps)
  moreover have "session_step proc [rt_to_tlv RsSuccess True] ?s
      = Some (Inr (Done [rt_to_tlv RsSuccess True] (Success msk emsk None)), ?s\<lparr>ss_terminated := True\<rparr>)"
    using assms d
    by (simp add: session_step_def malformed_def CRITICAL_TYPES_def identity_phase_def inner_phase_def
        intermediate_phase_def result_phase_def handle_result_def find_tlv_def continue_with_def
        find_mat_def ready_def op_simps rt_success)
  ultimately show ?thesis by blast
qed

theorem success_after_decode_error_witness:
  "\<exists>s1 e. session_step demo_inner undecodable_binding (demo_session\<lparr>ss_imsk := Some (replicate 32 1)\<rparr>)
     = Some (Inl (Decode e), s1)"
  using success_after_decode_error [OF demo_ready, of demo_inner] by blast

end
