(* ===== verification/Fips_Tls.thy ===== *)
theory Fips_Tls
  imports Key_Schedule
begin

text \<open>
  The TLS 1.3 tunnel: crates/fips-tls/src/backend.rs with the errors of crates/fips-tls/src/error.rs.
  rustls is a parameter: the record \<open>rustls\<close> holds the methods of \<open>ClientConnection\<close> that the source
  calls, over an opaque connection \<open>'c\<close> and an opaque error \<open>'re\<close>, together with the allow-list check
  of the external crate usg_fips_tls; \<open>rustls_builder\<close> holds the constructors. The loop that drains
  the outgoing records and the one that drains the plaintext end only when rustls says so: they are
  partial functions, and \<open>None\<close> is a call that does not return. The lemmas show the gate of the
  tunnel: no secret leaves it before the negotiated parameters were checked.
\<close>

section \<open>Errors and the external library\<close>

datatype 're fips_tls_error =
    NotFips
  | DisallowedParameter string
  | BadServerName
  | NoNegotiatedParameters
  | HandshakeIncomplete
  | NotEstablished
  | Rustls 're

text \<open>\<open>usg_fips_tls::error::FipsError\<close> and its conversion.\<close>

datatype fips_error =
    FeNotFips
  | FeDisallowedParameter string
  | FeNoNegotiatedParameters

fun from_fips_error :: "fips_error \<Rightarrow> 're fips_tls_error" where
  "from_fips_error FeNotFips = NotFips"
| "from_fips_error (FeDisallowedParameter what) = DisallowedParameter what"
| "from_fips_error FeNoNegotiatedParameters = NoNegotiatedParameters"

text \<open>An \<open>io::Error\<close>: its kind and, when it wraps one, the rustls error inside.\<close>

text \<open>The gate on the crypto provider (crates/fips-tls/src/provider.rs): the check itself is the dependency's.\<close>

definition assert_fips :: "('p \<Rightarrow> fips_error + unit) \<Rightarrow> 'p \<Rightarrow> 're fips_tls_error + unit" where
  "assert_fips check provider =
     (case check provider of Inl e \<Rightarrow> Inl (from_fips_error e) | Inr u \<Rightarrow> Inr u)"

datatype io_kind = WouldBlock | UnexpectedEof | OtherKind

record 're io_error =
  io_kind :: io_kind
  io_inner :: "'re option"

type_synonym named_group = u16
type_synonym cipher_suite = u16
type_synonym protocol_version = u16

record ('c, 're) rustls =
  rl_is_handshaking :: "'c \<Rightarrow> bool"
  rl_read_tls :: "'c \<Rightarrow> bytes \<Rightarrow> ('re io_error + nat) \<times> 'c"
  rl_process_new_packets :: "'c \<Rightarrow> ('re + unit) \<times> 'c"
  rl_wants_write :: "'c \<Rightarrow> bool"
  rl_write_tls :: "'c \<Rightarrow> ('re io_error + bytes) \<times> 'c"  \<comment> \<open>the octets appended to the buffer\<close>
  rl_write_all :: "'c \<Rightarrow> bytes \<Rightarrow> ('re io_error + unit) \<times> 'c"
  rl_read :: "'c \<Rightarrow> bytes \<Rightarrow> ('re io_error + nat) \<times> bytes \<times> 'c"  \<comment> \<open>fills the chunk it is lent\<close>
  rl_export :: "'c \<Rightarrow> nat \<Rightarrow> bytes \<Rightarrow> 're + bytes"  \<comment> \<open>length, label\<close>
  rl_protocol_version :: "'c \<Rightarrow> protocol_version option"
  rl_suite :: "'c \<Rightarrow> cipher_suite option"
  rl_group :: "'c \<Rightarrow> named_group option"
  rl_general :: "'re"  \<comment> \<open>\<open>Error::General("tls byte I/O error")\<close>\<close>
  rl_enforce :: "protocol_version option \<Rightarrow> cipher_suite option \<Rightarrow> named_group option \<Rightarrow> fips_error + unit"

definition TLS_BUFFER_LIMIT :: nat where "TLS_BUFFER_LIMIT = 64 * 1024"
definition TLS13_AES_256_GCM_SHA384 :: cipher_suite where "TLS13_AES_256_GCM_SHA384 = 0x1302"

datatype 'res client_auth =
    NoClientAuth
  | SoftwareCert "bytes list" bytes
  | Resolver 'res

record ('k, 'res, 'b, 'cfg, 'name, 'c, 're) rustls_builder =
  rb_builder :: "'k \<Rightarrow> 're + 'b"  \<comment> \<open>FIPS provider, TLS 1.3 only, trust anchors\<close>
  rb_no_client_auth :: "'b \<Rightarrow> 'cfg"
  rb_client_auth_cert :: "'b \<Rightarrow> bytes list \<Rightarrow> bytes \<Rightarrow> 're + 'cfg"
  rb_resolver :: "'b \<Rightarrow> 'res \<Rightarrow> 'cfg"
  rb_server_name :: "bytes \<Rightarrow> 'name option"
  rb_new_connection :: "'cfg \<Rightarrow> 'name \<Rightarrow> 're + 'c"
  rb_set_buffer_limit :: "'c \<Rightarrow> nat \<Rightarrow> 'c"

definition client_config ::
  "('k, 'res, 'b, 'cfg, 'name, 'c, 're) rustls_builder \<Rightarrow> 'k \<Rightarrow> 'res client_auth
     \<Rightarrow> 're fips_tls_error + 'cfg" where
  "client_config rb roots auth =
     (case rb_builder rb roots of
        Inl e \<Rightarrow> Inl (Rustls e)
      | Inr b \<Rightarrow>
          (case auth of
             NoClientAuth \<Rightarrow> Inr (rb_no_client_auth rb b)
           | SoftwareCert chain key \<Rightarrow>
               (case rb_client_auth_cert rb b chain key of
                  Inl e \<Rightarrow> Inl (Rustls e) | Inr cfg \<Rightarrow> Inr cfg)
           | Resolver res \<Rightarrow> Inr (rb_resolver rb b res)))"

section \<open>The tunnel\<close>

record 'c tls_client =
  tc_conn :: 'c
  tc_established :: bool

type_synonym ('c, 're, 'a) tls_op = "('c tls_client, 're fips_tls_error, 'a) op"

definition tls_connect ::
  "('k, 'res, 'b, 'cfg, 'name, 'c, 're) rustls_builder \<Rightarrow> 'cfg \<Rightarrow> bytes
     \<Rightarrow> 're fips_tls_error + 'c tls_client" where
  "tls_connect rb cfg server_name =
     (case rb_server_name rb server_name of
        None \<Rightarrow> Inl BadServerName
      | Some name \<Rightarrow>
          (case rb_new_connection rb cfg name of
             Inl e \<Rightarrow> Inl (Rustls e)
           | Inr conn \<Rightarrow>
               Inr \<lparr>tc_conn = rb_set_buffer_limit rb conn TLS_BUFFER_LIMIT, tc_established = False\<rparr>))"

definition io_to_rustls :: "('c, 're) rustls \<Rightarrow> 're io_error \<Rightarrow> 're fips_tls_error" where
  "io_to_rustls rl e = (case io_inner e of Some tls \<Rightarrow> Rustls tls | None \<Rightarrow> Rustls (rl_general rl))"

definition tls_is_handshaking :: "('c, 're) rustls \<Rightarrow> 'c tls_client \<Rightarrow> bool" where
  "tls_is_handshaking rl t = rl_is_handshaking rl (tc_conn t)"

definition negotiated_group :: "('c, 're) rustls \<Rightarrow> 'c tls_client \<Rightarrow> named_group option" where
  "negotiated_group rl t = rl_group rl (tc_conn t)"

definition negotiated_suite :: "('c, 're) rustls \<Rightarrow> 'c tls_client \<Rightarrow> cipher_suite option" where
  "negotiated_suite rl t = rl_suite rl (tc_conn t)"

definition enforce_fips_parameters ::
  "('c, 're) rustls \<Rightarrow> 'c tls_client \<Rightarrow> 're fips_tls_error + unit" where
  "enforce_fips_parameters rl t =
     (case rl_enforce rl (rl_protocol_version rl (tc_conn t)) (negotiated_suite rl t) (negotiated_group rl t) of
        Inl e \<Rightarrow> Inl (from_fips_error e)
      | Inr _ \<Rightarrow> Inr ())"

definition finish_handshake :: "('c, 're) rustls \<Rightarrow> ('c, 're, unit) tls_op" where
  "finish_handshake rl t =
     (if rl_is_handshaking rl (tc_conn t) then Some (Inl HandshakeIncomplete, t)
      else case enforce_fips_parameters rl t of
        Inl e \<Rightarrow> Some (Inl e, t)
      | Inr _ \<Rightarrow> Some (Inr (), t\<lparr>tc_established := True\<rparr>))"

definition require_established :: "('c, 're, unit) tls_op" where
  "require_established t = (if tc_established t then Some (Inr (), t) else Some (Inl NotEstablished, t))"

text \<open>The loop over the records: each round consumes at least one octet.\<close>

function feed_loop :: "('c, 're) rustls \<Rightarrow> bytes \<Rightarrow> 'c \<Rightarrow> ('re fips_tls_error + unit) \<times> 'c" where
  "feed_loop rl rest c =
     (if rest = [] then (Inr (), c)
      else (case rl_read_tls rl c rest of
          (Inl e, c1) \<Rightarrow> (Inl (io_to_rustls rl e), c1)
        | (Inr n, c1) \<Rightarrow>
            if n = 0 then (Inr (), c1)
            else (case rl_process_new_packets rl c1 of
                (Inl e, c2) \<Rightarrow> (Inl (Rustls e), c2)
              | (Inr _, c2) \<Rightarrow> feed_loop rl (unwrap_or (get_from rest n) []) c2)))"
  by pat_completeness auto
termination
  by (relation "measure (\<lambda>(rl, rest, c). length rest)") auto

declare feed_loop.simps [simp del]

definition feed_incoming :: "('c, 're) rustls \<Rightarrow> bytes \<Rightarrow> ('c, 're, unit) tls_op" where
  "feed_incoming rl records t =
     (case feed_loop rl records (tc_conn t) of (r, c) \<Rightarrow> Some (r, t\<lparr>tc_conn := c\<rparr>))"

text \<open>\<open>while wants_write() { write_tls(&mut out)? }\<close>.\<close>

partial_function (option) drain_loop ::
  "('c, 're) rustls \<Rightarrow> bytes \<Rightarrow> 'c \<Rightarrow> (('re fips_tls_error + bytes) \<times> 'c) option" where
  "drain_loop rl out c =
     (if rl_wants_write rl c then
        (case rl_write_tls rl c of
           (Inl e, c1) \<Rightarrow> Some (Inl (io_to_rustls rl e), c1)
         | (Inr bs, c1) \<Rightarrow> drain_loop rl (out @ bs) c1)
      else Some (Inr out, c))"

definition take_outgoing :: "('c, 're) rustls \<Rightarrow> ('c, 're, bytes) tls_op" where
  "take_outgoing rl t =
     (case drain_loop rl [] (tc_conn t) of
        None \<Rightarrow> None
      | Some (r, c) \<Rightarrow> Some (r, t\<lparr>tc_conn := c\<rparr>))"

definition protect :: "('c, 're) rustls \<Rightarrow> bytes \<Rightarrow> ('c, 're, bytes) tls_op" where
  "protect rl plaintext =
     bindO require_established (\<lambda>_ t.
       case rl_write_all rl (tc_conn t) plaintext of
         (Inl e, c) \<Rightarrow> Some (Inl (io_to_rustls rl e), t\<lparr>tc_conn := c\<rparr>)
       | (Inr _, c) \<Rightarrow> take_outgoing rl (t\<lparr>tc_conn := c\<rparr>))"

definition read_ended :: "'re io_error \<Rightarrow> bool" where
  "read_ended e \<longleftrightarrow> io_kind e = WouldBlock \<or> io_kind e = UnexpectedEof"

partial_function (option) read_loop ::
  "('c, 're) rustls \<Rightarrow> bytes \<Rightarrow> bytes \<Rightarrow> 'c \<Rightarrow> (('re fips_tls_error + bytes) \<times> 'c) option" where
  "read_loop rl plaintext chunk c =
     (case rl_read rl c chunk of
        (Inl e, chunk1, c1) \<Rightarrow>
          if read_ended e then Some (Inr plaintext, c1) else Some (Inl (io_to_rustls rl e), c1)
      | (Inr n, chunk1, c1) \<Rightarrow>
          if n = 0 then Some (Inr plaintext, c1)
          else read_loop rl (plaintext @ unwrap_or (get_to chunk1 n) []) chunk1 c1)"

definition unprotect :: "('c, 're) rustls \<Rightarrow> bytes \<Rightarrow> ('c, 're, bytes) tls_op" where
  "unprotect rl records =
     bindO require_established (\<lambda>_.
     bindO (feed_incoming rl records) (\<lambda>_ t.
       case read_loop rl [] (replicate 4096 0) (tc_conn t) of
         None \<Rightarrow> None
       | Some (r, c) \<Rightarrow> Some (r, t\<lparr>tc_conn := c\<rparr>)))"

definition session_key_seed :: "('c, 're) rustls \<Rightarrow> ('c, 're, bytes) tls_op" where
  "session_key_seed rl =
     bindO require_established (\<lambda>_.
     bindO (getO tc_conn) (\<lambda>c.
       liftO Rustls (rl_export rl c S_IMCK_LEN EXPORTER_LABEL_SESSION_KEY_SEED)))"

definition export_keying_material :: "('c, 're) rustls \<Rightarrow> bytes \<Rightarrow> nat \<Rightarrow> ('c, 're, bytes) tls_op" where
  "export_keying_material rl label len =
     bindO require_established (\<lambda>_.
     bindO (getO tc_conn) (\<lambda>c. liftO Rustls (rl_export rl c len label)))"

definition negotiated_mac :: "('c, 're) rustls \<Rightarrow> ('c, 're, aws_lc_mac) tls_op" where
  "negotiated_mac rl =
     bindO require_established (\<lambda>_.
     bindO (getO (negotiated_suite rl)) (\<lambda>suite.
       case suite of
         None \<Rightarrow> throwO NoNegotiatedParameters
       | Some s \<Rightarrow> if s = TLS13_AES_256_GCM_SHA384 then returnO aws_sha384
           else throwO (DisallowedParameter ''cipher suite'')))"

section \<open>The gate\<close>

text \<open>
  The contract of an operation behind a gate: while the gate is shut it refuses, and leaves the
  object as it is.
\<close>

locale gated =
  fixes secret :: "('t, 'e, 'a) op"
    and is_open :: "'t \<Rightarrow> bool"
    and refusal :: 'e
  assumes shut: "\<not> is_open t \<Longrightarrow> secret t = Some (Inl refusal, t)"
begin

lemma opened: "secret t = Some (Inr x, t') \<Longrightarrow> is_open t"
  using shut [of t] by (cases "is_open t") auto

lemma bind_shut: "\<not> is_open t \<Longrightarrow> bindO secret f t = Some (Inl refusal, t)"
  by (simp add: bindO_def shut)

lemma bind_opened: "bindO secret f t = Some (Inr y, t') \<Longrightarrow> is_open t"
  by (cases "is_open t") (simp_all add: bind_shut)

end

interpretation protect: gated "protect rl plaintext" tc_established NotEstablished for rl plaintext
  by unfold_locales (simp add: protect_def require_established_def bindO_def)

interpretation unprotect: gated "unprotect rl records" tc_established NotEstablished for rl records
  by unfold_locales (simp add: unprotect_def require_established_def bindO_def)

interpretation seed: gated "session_key_seed rl" tc_established NotEstablished for rl
  by unfold_locales (simp add: session_key_seed_def require_established_def bindO_def)

interpretation export: gated "export_keying_material rl label len" tc_established NotEstablished
  for rl label len
  by unfold_locales (simp add: export_keying_material_def require_established_def bindO_def)

interpretation mac: gated "negotiated_mac rl" tc_established NotEstablished for rl
  by unfold_locales (simp add: negotiated_mac_def require_established_def bindO_def)

text \<open>Only \<open>finish_handshake\<close> opens the gate, and only after the allow-list was enforced.\<close>

definition approved :: "('c, 're) rustls \<Rightarrow> 'c \<Rightarrow> bool" where
  "approved rl c \<longleftrightarrow> \<not> rl_is_handshaking rl c
     \<and> rl_enforce rl (rl_protocol_version rl c) (rl_suite rl c) (rl_group rl c) = Inr ()"

lemma finish_handshake_Inr:
  "finish_handshake rl t = Some (Inr u, t') \<longleftrightarrow>
     approved rl (tc_conn t) \<and> t' = t\<lparr>tc_established := True\<rparr>"
  by (auto simp: finish_handshake_def approved_def enforce_fips_parameters_def negotiated_suite_def
      negotiated_group_def split: sum.splits)

lemma finish_handshake_Inl: "finish_handshake rl t = Some (Inl e, t') \<Longrightarrow> t' = t"
  by (auto simp: finish_handshake_def split: if_splits sum.splits)

text \<open>An operation that leaves the gate as it found it.\<close>

definition gate_kept :: "('c, 're, 'a) tls_op \<Rightarrow> bool" where
  "gate_kept m \<longleftrightarrow> (\<forall>t r t'. m t = Some (r, t') \<longrightarrow> tc_established t' = tc_established t)"

named_theorems gates \<open>operations that keep the gate\<close>

lemma gate_bind [gates]: "gate_kept m \<Longrightarrow> (\<And>x. gate_kept (f x)) \<Longrightarrow> gate_kept (bindO m f)"
  unfolding gate_kept_def bindO_def by (fastforce split: option.splits prod.splits sum.splits)

lemma gate_prims [gates]:
  "gate_kept (returnO x)" "gate_kept (throwO e)" "gate_kept (getO g)" "gate_kept (liftO h r)"
  "gate_kept require_established"
  by (auto simp: gate_kept_def op_simps require_established_def split: sum.splits if_splits)

lemma gate_feed [gates]: "gate_kept (feed_incoming rl records)"
  by (auto simp: gate_kept_def feed_incoming_def split: prod.splits)

lemma gate_take [gates]: "gate_kept (take_outgoing rl)"
  by (auto simp: gate_kept_def take_outgoing_def split: option.splits prod.splits)

lemma gate_protect [gates]: "gate_kept (protect rl plaintext)"
  unfolding protect_def
proof (intro gates)
  show "gate_kept (\<lambda>t. case rl_write_all rl (tc_conn t) plaintext of
      (Inl e, c) \<Rightarrow> Some (Inl (io_to_rustls rl e), t\<lparr>tc_conn := c\<rparr>)
    | (Inr _, c) \<Rightarrow> take_outgoing rl (t\<lparr>tc_conn := c\<rparr>))"
    by (auto simp: gate_kept_def take_outgoing_def split: prod.splits sum.splits option.splits)
qed

lemma gate_unprotect [gates]: "gate_kept (unprotect rl records)"
  unfolding unprotect_def
  by (intro gates) (auto simp: gate_kept_def split: option.splits prod.splits)

lemma gate_secrets [gates]:
  "gate_kept (session_key_seed rl)" "gate_kept (export_keying_material rl label len)"
  "gate_kept (negotiated_mac rl)"
  unfolding session_key_seed_def export_keying_material_def negotiated_mac_def
  by (intro gates, auto intro: gates split: option.split if_split)+

text \<open>The calls of a tunnel's owner, in any order.\<close>

inductive tunnel_reach :: "('c, 're) rustls \<Rightarrow> 'c tls_client \<Rightarrow> 'c tls_client \<Rightarrow> bool"
  for rl t0 where
  reach_start: "tunnel_reach rl t0 t0"
| reach_finish: "tunnel_reach rl t0 t \<Longrightarrow> finish_handshake rl t = Some (r, t') \<Longrightarrow> tunnel_reach rl t0 t'"
| reach_feed: "tunnel_reach rl t0 t \<Longrightarrow> feed_incoming rl bs t = Some (r, t') \<Longrightarrow> tunnel_reach rl t0 t'"
| reach_take: "tunnel_reach rl t0 t \<Longrightarrow> take_outgoing rl t = Some (rb, t') \<Longrightarrow> tunnel_reach rl t0 t'"
| reach_protect: "tunnel_reach rl t0 t \<Longrightarrow> protect rl bs t = Some (rb, t') \<Longrightarrow> tunnel_reach rl t0 t'"
| reach_unprotect: "tunnel_reach rl t0 t \<Longrightarrow> unprotect rl bs t = Some (rb, t') \<Longrightarrow> tunnel_reach rl t0 t'"
| reach_seed: "tunnel_reach rl t0 t \<Longrightarrow> session_key_seed rl t = Some (rb, t') \<Longrightarrow> tunnel_reach rl t0 t'"
| reach_export: "tunnel_reach rl t0 t \<Longrightarrow> export_keying_material rl l n t = Some (rb, t') \<Longrightarrow> tunnel_reach rl t0 t'"
| reach_mac: "tunnel_reach rl t0 t \<Longrightarrow> negotiated_mac rl t = Some (rm, t') \<Longrightarrow> tunnel_reach rl t0 t'"

definition gate_inv :: "('c, 're) rustls \<Rightarrow> 'c tls_client \<Rightarrow> 'c tls_client \<Rightarrow> bool" where
  "gate_inv rl t0 t \<longleftrightarrow> (tc_established t \<longrightarrow> (\<exists>u. tunnel_reach rl t0 u \<and> approved rl (tc_conn u)))"

lemma gate_kept_inv: "gate_kept m \<Longrightarrow> m t = Some (r, t') \<Longrightarrow> gate_inv rl t0 t \<Longrightarrow> gate_inv rl t0 t'"
  by (auto simp: gate_kept_def gate_inv_def)

lemma tunnel_reach_gate:
  assumes "tunnel_reach rl t0 t" and "\<not> tc_established t0"
  shows "gate_inv rl t0 t"
  using assms(1)
proof induction
  case (reach_finish t r t')
  then show ?case
    by (cases r) (auto simp: finish_handshake_Inr gate_inv_def dest: finish_handshake_Inl)
qed (use assms(2) in \<open>auto simp: gate_inv_def [of _ _ t0] intro: gate_kept_inv [OF gate_feed]
      gate_kept_inv [OF gate_take] gate_kept_inv [OF gate_protect] gate_kept_inv [OF gate_unprotect]
      gate_kept_inv [OF gate_secrets(1)] gate_kept_inv [OF gate_secrets(2)] gate_kept_inv [OF gate_secrets(3)]\<close>)

text \<open>
  The same calls with the past kept: \<open>tried\<close> lists, in order, the states in which \<open>finish_handshake\<close>
  was called on the way from \<open>t0\<close> to \<open>t\<close>.
\<close>

inductive tunnel_history ::
  "('c, 're) rustls \<Rightarrow> 'c tls_client \<Rightarrow> 'c tls_client list \<Rightarrow> 'c tls_client \<Rightarrow> bool"
  for rl t0 where
  hist_start: "tunnel_history rl t0 [] t0"
| hist_finish: "tunnel_history rl t0 tried t \<Longrightarrow> finish_handshake rl t = Some (r, t')
    \<Longrightarrow> tunnel_history rl t0 (tried @ [t]) t'"
| hist_feed: "tunnel_history rl t0 tried t \<Longrightarrow> feed_incoming rl bs t = Some (r, t') \<Longrightarrow> tunnel_history rl t0 tried t'"
| hist_take: "tunnel_history rl t0 tried t \<Longrightarrow> take_outgoing rl t = Some (rb, t') \<Longrightarrow> tunnel_history rl t0 tried t'"
| hist_protect: "tunnel_history rl t0 tried t \<Longrightarrow> protect rl bs t = Some (rb, t') \<Longrightarrow> tunnel_history rl t0 tried t'"
| hist_unprotect: "tunnel_history rl t0 tried t \<Longrightarrow> unprotect rl bs t = Some (rb, t') \<Longrightarrow> tunnel_history rl t0 tried t'"
| hist_seed: "tunnel_history rl t0 tried t \<Longrightarrow> session_key_seed rl t = Some (rb, t') \<Longrightarrow> tunnel_history rl t0 tried t'"
| hist_export: "tunnel_history rl t0 tried t \<Longrightarrow> export_keying_material rl l n t = Some (rb, t')
    \<Longrightarrow> tunnel_history rl t0 tried t'"
| hist_mac: "tunnel_history rl t0 tried t \<Longrightarrow> negotiated_mac rl t = Some (rm, t') \<Longrightarrow> tunnel_history rl t0 tried t'"

lemma gate_keptD: "gate_kept m \<Longrightarrow> m t = Some (r, t') \<Longrightarrow> tc_established t' = tc_established t"
  by (simp add: gate_kept_def)

lemmas gate_calls = gate_feed [THEN gate_keptD] gate_take [THEN gate_keptD] gate_protect [THEN gate_keptD]
  gate_unprotect [THEN gate_keptD] gate_secrets [THEN gate_keptD]

text \<open>The gate is open exactly when one of the calls of \<open>finish_handshake\<close> met an approved connection.\<close>

lemma finish_opens:
  assumes "finish_handshake rl t = Some (r, t')"
  shows "tc_established t' \<longleftrightarrow> tc_established t \<or> approved rl (tc_conn t)"
proof (cases r)
  case (Inl e)
  with assms have "\<not> approved rl (tc_conn t)" using finish_handshake_Inr [of rl t "()"] by auto
  with finish_handshake_Inl [of rl t e t'] assms Inl show ?thesis by simp
next
  case (Inr u)
  with assms show ?thesis by (simp add: finish_handshake_Inr)
qed

lemma history_gate:
  assumes "tunnel_history rl t0 tried t" and "\<not> tc_established t0"
  shows "tc_established t \<longleftrightarrow> (\<exists>u\<in>set tried. approved rl (tc_conn u))"
  using assms(1)
proof induction
  case (hist_finish tried t r t')
  then show ?case by (auto simp: finish_opens)
qed (use assms(2) in \<open>simp_all add: gate_calls\<close>)

lemma history_reach: "tunnel_history rl t0 tried t \<Longrightarrow> tunnel_reach rl t0 t \<and> (\<forall>u\<in>set tried. tunnel_reach rl t0 u)"
  by (induction rule: tunnel_history.induct) (auto intro: tunnel_reach.intros)

section \<open>Loops that end\<close>

text \<open>
  rustls documents that \<open>wants_write\<close> holds while records are queued and that \<open>write_tls\<close> takes
  records off that queue, and that \<open>reader().read\<close> takes octets off the received plaintext. With
  these two the draining loops return.
\<close>

definition write_drains :: "('c, 're) rustls \<Rightarrow> ('c \<Rightarrow> nat) \<Rightarrow> bool" where
  "write_drains rl queued \<longleftrightarrow>
     (\<forall>c bs c1. rl_wants_write rl c \<and> rl_write_tls rl c = (Inr bs, c1) \<longrightarrow> queued c1 < queued c)"

definition read_drains :: "('c, 're) rustls \<Rightarrow> ('c \<Rightarrow> nat) \<Rightarrow> bool" where
  "read_drains rl held \<longleftrightarrow>
     (\<forall>c chunk n chunk1 c1. rl_read rl c chunk = (Inr n, chunk1, c1) \<and> n \<noteq> 0 \<longrightarrow> held c1 < held c)"

lemma drain_loop_returns:
  assumes "write_drains rl queued"
  shows "drain_loop rl out c \<noteq> None"
proof (induction "queued c" arbitrary: c out rule: less_induct)
  case less
  show ?case
  proof (cases "rl_wants_write rl c \<and> (\<exists>bs. fst (rl_write_tls rl c) = Inr bs)")
    case True
    then obtain bs c1 where w: "rl_wants_write rl c" "rl_write_tls rl c = (Inr bs, c1)"
      by (metis prod.collapse)
    then have "queued c1 < queued c" using assms unfolding write_drains_def by blast
    from less [OF this] w show ?thesis by (subst drain_loop.simps) simp
  next
    case False
    then show ?thesis
      by (subst drain_loop.simps) (cases "rl_write_tls rl c"; cases "fst (rl_write_tls rl c)"; auto)
  qed
qed

lemma read_loop_returns:
  assumes "read_drains rl held"
  shows "read_loop rl acc chunk c \<noteq> None"
proof (induction "held c" arbitrary: c acc chunk rule: less_induct)
  case less
  obtain r chunk1 c1 where r: "rl_read rl c chunk = (r, chunk1, c1)"
    by (cases "rl_read rl c chunk") auto
  show ?case
  proof (cases "\<exists>n. r = Inr n \<and> n \<noteq> 0")
    case True
    then obtain n where n: "r = Inr n" "n \<noteq> 0" by blast
    then have "held c1 < held c" using assms r unfolding read_drains_def by blast
    from less [OF this] r n show ?thesis by (subst read_loop.simps) simp
  next
    case False
    with r show ?thesis by (subst read_loop.simps) (cases r; auto)
  qed
qed

lemma tls_ops_return:
  assumes "write_drains rl queued" and "read_drains rl held"
  shows "take_outgoing rl t \<noteq> None" "protect rl bs t \<noteq> None" "unprotect rl bs t \<noteq> None"
    "feed_incoming rl bs t \<noteq> None" "finish_handshake rl t \<noteq> None" "session_key_seed rl t \<noteq> None"
    "negotiated_mac rl t \<noteq> None" "export_keying_material rl l n t \<noteq> None"
proof -
  have d: "drain_loop rl out c = None \<longleftrightarrow> False" for out c
    using drain_loop_returns [OF assms(1)] by blast
  have r: "read_loop rl acc chunk c = None \<longleftrightarrow> False" for acc chunk c
    using read_loop_returns [OF assms(2)] by blast
  show "take_outgoing rl t \<noteq> None"
    by (auto simp: take_outgoing_def d split: option.splits)
  show "protect rl bs t \<noteq> None"
    by (auto simp: protect_def require_established_def op_simps take_outgoing_def d
        split: option.splits prod.splits sum.splits if_splits)
  show "unprotect rl bs t \<noteq> None"
    by (auto simp: unprotect_def feed_incoming_def require_established_def op_simps r
        split: option.splits prod.splits sum.splits if_splits)
qed (auto simp: feed_incoming_def finish_handshake_def session_key_seed_def negotiated_mac_def
      export_keying_material_def require_established_def op_simps
      split: option.splits prod.splits sum.splits if_splits)

section \<open>Properties\<close>

text \<open>A connection for the examples: its records are the plaintext, and its handshake is a script,
  the flights with which it answers what it receives.\<close>

record plain_conn =
  pc_script :: "bytes list"
  pc_out :: bytes
  pc_in :: bytes

definition plain_tls :: "(plain_conn, unit) rustls" where
  "plain_tls =
     \<lparr>rl_is_handshaking = (\<lambda>c. pc_script c \<noteq> []),
      rl_read_tls = (\<lambda>c bs. (Inr (length bs), c\<lparr>pc_in := (if pc_script c = [] then pc_in c @ bs else pc_in c)\<rparr>)),
      rl_process_new_packets = (\<lambda>c. (Inr (),
        c\<lparr>pc_script := tl (pc_script c), pc_out := pc_out c @ concat (take 1 (pc_script c))\<rparr>)),
      rl_wants_write = (\<lambda>c. pc_out c \<noteq> []),
      rl_write_tls = (\<lambda>c. (Inr (pc_out c), c\<lparr>pc_out := []\<rparr>)),
      rl_write_all = (\<lambda>c bs. (Inr (), c\<lparr>pc_out := pc_out c @ bs\<rparr>)),
      rl_read = (\<lambda>c chunk. let n = min (length chunk) (length (pc_in c)) in
        (Inr n, take n (pc_in c) @ drop n chunk, c\<lparr>pc_in := drop n (pc_in c)\<rparr>)),
      rl_export = (\<lambda>c n label. Inr (replicate n 1)),
      rl_protocol_version = (\<lambda>c. Some 0x0304), rl_suite = (\<lambda>c. Some 0x1302),
      rl_group = (\<lambda>c. Some 0x0202), rl_general = (),
      rl_enforce = (\<lambda>v s g. if v = Some 0x0304 then Inr () else Inl FeNoNegotiatedParameters)\<rparr>"

definition plain_builder :: "(unit, unit, unit, unit, bytes, plain_conn, unit) rustls_builder" where
  "plain_builder =
     \<lparr>rb_builder = Inr, rb_no_client_auth = (\<lambda>b. b), rb_client_auth_cert = (\<lambda>b chain key. Inr b),
      rb_resolver = (\<lambda>b r. b), rb_server_name = Some,
      rb_new_connection = (\<lambda>cfg name. Inr \<lparr>pc_script = [[]], pc_out = [22], pc_in = []\<rparr>),
      rb_set_buffer_limit = (\<lambda>c n. c)\<rparr>"

definition plain_tunnel :: "plain_conn tls_client" where
  "plain_tunnel = \<lparr>tc_conn = \<lparr>pc_script = [[]], pc_out = [22], pc_in = []\<rparr>, tc_established = False\<rparr>"

lemma plain_connect: "tls_connect plain_builder () name = Inr plain_tunnel"
  by (simp add: tls_connect_def plain_builder_def plain_tunnel_def)

text \<open>What the plain connection does once its handshake is over.\<close>

definition plain_idle :: "plain_conn tls_client \<Rightarrow> bool" where
  "plain_idle t \<longleftrightarrow> tc_established t \<and> tc_conn t = \<lparr>pc_script = [], pc_out = [], pc_in = []\<rparr>"

lemma plain_read:
  "0 < length chunk \<Longrightarrow> read_loop plain_tls acc chunk c = Some (Inr (acc @ pc_in c), c\<lparr>pc_in := []\<rparr>)"
proof (induction "length (pc_in c)" arbitrary: acc chunk c rule: less_induct)
  case less
  let ?n = "min (length chunk) (length (pc_in c))"
  let ?chunk = "take ?n (pc_in c) @ drop ?n chunk" and ?c = "c\<lparr>pc_in := drop ?n (pc_in c)\<rparr>"
  have r: "rl_read plain_tls c chunk = (Inr ?n, ?chunk, ?c)"
    by (simp add: plain_tls_def Let_def)
  show ?case
  proof (cases "pc_in c = []")
    case True
    with r show ?thesis by (subst read_loop.simps) (cases c, simp)
  next
    case False
    then have n: "?n \<noteq> 0" using less.prems by auto
    have g: "unwrap_or (get_to ?chunk ?n) [] = take ?n (pc_in c)"
      by (simp add: get_to_def get_range_def)
    have "read_loop plain_tls acc chunk c = read_loop plain_tls (acc @ take ?n (pc_in c)) ?chunk ?c"
      using n unfolding read_loop.simps [of plain_tls acc chunk c] r by (simp only: g prod.case sum.case if_False)
    also have "\<dots> = Some (Inr ((acc @ take ?n (pc_in c)) @ pc_in ?c), ?c\<lparr>pc_in := []\<rparr>)"
      by (rule less.hyps) (use n less.prems False in auto)
    finally show ?thesis by simp
  qed
qed

lemma plain_drain:
  "drain_loop plain_tls [] \<lparr>pc_script = k, pc_out = bs, pc_in = is\<rparr>
     = Some (Inr bs, \<lparr>pc_script = k, pc_out = [], pc_in = is\<rparr>)"
  by (cases "bs = []") (simp_all add: plain_tls_def drain_loop.simps)

lemma plain_sel:
  "rl_is_handshaking plain_tls c \<longleftrightarrow> pc_script c \<noteq> []"
  "rl_read_tls plain_tls c bs = (Inr (length bs), c\<lparr>pc_in := (if pc_script c = [] then pc_in c @ bs else pc_in c)\<rparr>)"
  "rl_process_new_packets plain_tls c = (Inr (), c\<lparr>pc_script := tl (pc_script c), pc_out := pc_out c @ concat (take 1 (pc_script c))\<rparr>)"
  "rl_write_all plain_tls c bs = (Inr (), c\<lparr>pc_out := pc_out c @ bs\<rparr>)"
  "rl_export plain_tls c n label = Inr (replicate n 1)"
  "rl_suite plain_tls c = Some 0x1302"
  "rl_enforce plain_tls (rl_protocol_version plain_tls c) s g = Inr ()"
  by (simp_all add: plain_tls_def)

lemma plain_feed:
  "feed_loop plain_tls bs c = (Inr (), if bs = [] then c
     else c\<lparr>pc_script := tl (pc_script c), pc_out := pc_out c @ concat (take 1 (pc_script c)),
       pc_in := (if pc_script c = [] then pc_in c @ bs else pc_in c)\<rparr>)"
  by (simp add: feed_loop.simps [of plain_tls bs] feed_loop.simps [of plain_tls "[]"] plain_sel)

lemma plain_unprotect:
  "plain_idle t \<Longrightarrow> unprotect plain_tls bs t = Some (Inr bs, t)"
  using plain_read [of "replicate 4096 0" "[]"]
  by (cases t) (auto simp: plain_idle_def unprotect_def require_established_def bindO_def
      feed_incoming_def plain_feed)

lemma plain_protect:
  "plain_idle t \<Longrightarrow> protect plain_tls bs t = Some (Inr bs, t)"
  using plain_drain [of "[]" bs "[]"]
  by (cases t) (auto simp: plain_idle_def protect_def require_established_def bindO_def take_outgoing_def
      plain_sel)


text \<open>C7: no secret before the check. Whatever calls were made on a tunnel fresh from \<open>connect\<close>, in
  whatever order, it is open exactly when \<open>finish_handshake\<close> has already been called in a state whose
  handshake was complete and whose negotiated parameters passed the allow-list. As long as that has not
  happened, and though it may still happen later, the tunnel refuses to encrypt, to decrypt, to export
  the session seed or other key material and to name its MAC, and stays as it is. A call of
  \<open>finish_handshake\<close> succeeds in exactly those states.\<close>

theorem tunnel_gate:
  assumes "tls_connect rb cfg name = Inr t0" and "tunnel_history rl t0 tried t"
  shows "(tc_established t \<longleftrightarrow> (\<exists>u\<in>set tried. approved rl (tc_conn u)))
    \<and> ((\<forall>u\<in>set tried. \<not> approved rl (tc_conn u)) \<longrightarrow>
         protect rl plaintext t = Some (Inl NotEstablished, t)
       \<and> unprotect rl records t = Some (Inl NotEstablished, t)
       \<and> session_key_seed rl t = Some (Inl NotEstablished, t)
       \<and> export_keying_material rl label len t = Some (Inl NotEstablished, t)
       \<and> negotiated_mac rl t = Some (Inl NotEstablished, t))
    \<and> (finish_handshake rl t = Some (Inr (), t') \<longleftrightarrow> approved rl (tc_conn t) \<and> t' = t\<lparr>tc_established := True\<rparr>)"
proof -
  have "\<not> tc_established t0"
    using assms(1) by (auto simp: tls_connect_def split: option.splits sum.splits)
  from history_gate [OF assms(2) this] show ?thesis
    by (auto simp: protect.shut unprotect.shut seed.shut export.shut mac.shut finish_handshake_Inr)
qed

text \<open>A tunnel whose owner asks too early: refused, and after the handshake open.\<close>

theorem tunnel_gate_witness:
  "session_key_seed plain_tls plain_tunnel = Some (Inl NotEstablished, plain_tunnel)
   \<and> (\<exists>t1 t2. feed_incoming plain_tls [20] plain_tunnel = Some (Inr (), t1)
        \<and> finish_handshake plain_tls t1 = Some (Inr (), t2) \<and> tc_established t2)"
proof -
  have early: "finish_handshake plain_tls plain_tunnel = Some (Inl HandshakeIncomplete, plain_tunnel)"
    by (simp add: finish_handshake_def plain_sel plain_tunnel_def)
  have h1: "tunnel_history plain_tls plain_tunnel [plain_tunnel] plain_tunnel"
    using hist_finish [OF hist_start early] by simp
  let ?t1 = "plain_tunnel\<lparr>tc_conn := \<lparr>pc_script = [], pc_out = [22], pc_in = []\<rparr>\<rparr>"
  have feed: "feed_incoming plain_tls [20] plain_tunnel = Some (Inr (), ?t1)"
    by (simp add: feed_incoming_def plain_feed plain_tunnel_def)
  have h2: "tunnel_history plain_tls plain_tunnel [plain_tunnel] ?t1" by (rule hist_feed [OF h1 feed])
  have ok: "approved plain_tls (tc_conn ?t1)" and no: "\<not> approved plain_tls (tc_conn plain_tunnel)"
    by (simp_all add: approved_def plain_sel) (simp add: plain_tunnel_def)
  from tunnel_gate [OF plain_connect h2] ok
  have fin: "finish_handshake plain_tls ?t1 = Some (Inr (), ?t1\<lparr>tc_established := True\<rparr>)" by blast
  from hist_finish [OF h2 fin] have "tc_established (?t1\<lparr>tc_established := True\<rparr>)"
    using tunnel_gate [OF plain_connect] ok by simp
  with tunnel_gate [OF plain_connect h1] no feed fin show ?thesis by auto
qed

text \<open>With a TLS library whose queues drain as documented every operation of the tunnel returns:
  the loops that feed, drain and read records all end.\<close>

lemma tunnel_operations_return:
  assumes "write_drains rl queued" and "read_drains rl held"
  shows "\<exists>a b c d e f. take_outgoing rl t = Some a \<and> protect rl bs t = Some b \<and> unprotect rl bs t = Some c
    \<and> feed_incoming rl bs t = Some d \<and> finish_handshake rl t = Some e \<and> session_key_seed rl t = Some f"
  by (simp add: tls_ops_return [OF assms, unfolded not_None_eq] del: split_paired_Ex)

lemma plain_drains: "write_drains plain_tls (\<lambda>c. length (pc_out c))" "read_drains plain_tls (\<lambda>c. length (pc_in c))"
  by (auto simp: write_drains_def read_drains_def plain_tls_def Let_def)

lemma tunnel_operations_return_witness:
  "\<exists>a b. take_outgoing plain_tls plain_tunnel = Some a \<and> protect plain_tls [1] plain_tunnel = Some b"
  using tunnel_operations_return [OF plain_drains, of plain_tunnel "[1]"] by auto

end
