(* ===== verification/Inner_Tls.thy ===== *)
theory Inner_Tls
  imports Fips_Tls Outer Session
begin

text \<open>
  The inner EAP-TLS method: crates/supplicant/src/inner_tls.rs, over the tunnel of \<open>Fips_Tls\<close>.
  \<open>try_process\<close> and the handlers it calls are translated whole; \<open>inner_process_packet\<close> is the
  trait method \<open>process\<close>, which turns every error into a failed state.
\<close>

definition EAP_TLS_TYPE :: u8 where [simp]: "EAP_TLS_TYPE = 13"
definition EAP_TLS_VERSION :: u8 where [simp]: "EAP_TLS_VERSION = 0"
definition EAP_TLS_EXPORTER_LABEL :: bytes where
  "EAP_TLS_EXPORTER_LABEL = ascii ''EXPORTER_EAP_TLS_Key_Material''"
definition EAP_TLS_KEY_LEN :: nat where [simp]: "EAP_TLS_KEY_LEN = 64"
definition MAX_INNER_MESSAGE :: nat where "MAX_INNER_MESSAGE = 256 * 1024"

datatype inner_tls_error =
    InnerConnect
  | InnerProtocol

datatype inner_state =
    InHandshake
  | InAwaitCommitment
  | InDone
  | InFailed

record 'c eap_tls_inner =
  ii_tunnel :: "'c tls_client"
  ii_reasm :: reassembler
  ii_queue :: "teap_outer list"
  ii_state :: inner_state
  ii_started :: bool
  ii_max_fragment :: nat
  ii_last_id :: u8

type_synonym ('c, 'a) inner_op = "('c eap_tls_inner, inner_tls_error, 'a) op"

definition inner_new ::
  "('k, 'res, 'b, 'cfg, 'name, 'c, 're) rustls_builder \<Rightarrow> 'cfg \<Rightarrow> bytes \<Rightarrow> nat
     \<Rightarrow> inner_tls_error + 'c eap_tls_inner" where
  "inner_new rb cfg server_name max_fragment =
     (case tls_connect rb cfg server_name of
        Inl _ \<Rightarrow> Inl InnerConnect
      | Inr tunnel \<Rightarrow> Inr \<lparr>ii_tunnel = tunnel, ii_reasm = reasm_new MAX_INNER_MESSAGE, ii_queue = [],
          ii_state = InHandshake, ii_started = False, ii_max_fragment = max_fragment, ii_last_id = 0\<rparr>)"

text \<open>\<open>self.tunnel.f(..).map_err(|_| Protocol)?\<close> and \<open>self.reasm.push(..).map_err(|_| Protocol)?\<close>.\<close>

definition on_inner_tunnel :: "('c, 're, 'a) tls_op \<Rightarrow> ('c, 'a) inner_op" where
  "on_inner_tunnel m = zoomO ii_tunnel (\<lambda>t. ii_tunnel_update (\<lambda>_. t)) (\<lambda>_. InnerProtocol) m"

definition on_inner_reasm :: "teap_outer \<Rightarrow> ('c, bytes option) inner_op" where
  "on_inner_reasm outer =
     zoomO ii_reasm (\<lambda>r. ii_reasm_update (\<lambda>_. r)) (\<lambda>_. InnerProtocol) (pureO (reasm_push outer))"

definition inner_respond :: "teap_outer \<Rightarrow> ('c, inner_step) inner_op" where
  "inner_respond outer =
     bindO (getO ii_last_id) (\<lambda>last_id.
     bindO (liftO (\<lambda>_. InnerProtocol) (eap_encode
         \<lparr>ep_code = Response, ep_id = last_id, ep_type = Some EAP_TLS_TYPE, ep_data = outer_build outer\<rparr>))
       (\<lambda>bs. returnO (InnerRespond bs)))"

definition inner_send_tls :: "bytes \<Rightarrow> ('c, inner_step) inner_op" where
  "inner_send_tls message =
     bindO (getO ii_max_fragment) (\<lambda>mf.
       case fragment message mf EAP_TLS_VERSION of
         [] \<Rightarrow> bindO (modifyO (ii_queue_update (\<lambda>_. []))) (\<lambda>_. inner_respond (outer_ack EAP_TLS_VERSION))
       | first # rest \<Rightarrow> bindO (modifyO (ii_queue_update (\<lambda>_. rest))) (\<lambda>_. inner_respond first))"

definition inner_next_fragment :: "('c, inner_step) inner_op" where
  "inner_next_fragment =
     bindO (getO ii_queue) (\<lambda>q.
       case q of
         outer # rest \<Rightarrow> bindO (modifyO (ii_queue_update (\<lambda>_. rest))) (\<lambda>_. inner_respond outer)
       | [] \<Rightarrow> inner_respond (outer_ack EAP_TLS_VERSION))"

definition inner_on_handshake :: "('c, 're) rustls \<Rightarrow> teap_outer \<Rightarrow> ('c, inner_step) inner_op" where
  "inner_on_handshake rl outer =
     bindO (getO ii_started) (\<lambda>started.
       if \<not> started then
         if \<not> to_start outer then throwO InnerProtocol
         else
           bindO (modifyO (ii_started_update (\<lambda>_. True))) (\<lambda>_.
           bindO (on_inner_tunnel (take_outgoing rl)) inner_send_tls)
       else
         bindO (on_inner_reasm outer) (\<lambda>pushed.
           case pushed of
             None \<Rightarrow> inner_respond (outer_ack EAP_TLS_VERSION)
           | Some records \<Rightarrow>
               bindO (on_inner_tunnel (feed_incoming rl records)) (\<lambda>_.
               bindO (getO (\<lambda>s. tls_is_handshaking rl (ii_tunnel s))) (\<lambda>handshaking.
                 if handshaking then bindO (on_inner_tunnel (take_outgoing rl)) inner_send_tls
                 else
                   bindO (on_inner_tunnel (take_outgoing rl)) (\<lambda>flight.
                   bindO (on_inner_tunnel (finish_handshake rl)) (\<lambda>_.
                   bindO (modifyO (ii_state_update (\<lambda>_. InAwaitCommitment))) (\<lambda>_.
                     inner_send_tls flight)))))))"

definition inner_on_commitment :: "('c, 're) rustls \<Rightarrow> teap_outer \<Rightarrow> ('c, inner_step) inner_op" where
  "inner_on_commitment rl outer =
     bindO (on_inner_reasm outer) (\<lambda>pushed.
       case pushed of
         None \<Rightarrow> inner_respond (outer_ack EAP_TLS_VERSION)
       | Some records \<Rightarrow>
           if records = [] then throwO InnerProtocol
           else
             bindO (on_inner_tunnel (export_keying_material rl EAP_TLS_EXPORTER_LABEL EAP_TLS_KEY_LEN)) (\<lambda>key.
               case get_to key IMSK_LEN of
                 None \<Rightarrow> throwO InnerProtocol
               | Some imsk \<Rightarrow>
                   bindO (modifyO (ii_state_update (\<lambda>_. InDone))) (\<lambda>_. returnO (InnerDone imsk))))"

definition try_process :: "('c, 're) rustls \<Rightarrow> bytes \<Rightarrow> ('c, inner_step) inner_op" where
  "try_process rl inner_eap =
     bindO (getO ii_state) (\<lambda>st0.
       if st0 = InDone \<or> st0 = InFailed then throwO InnerProtocol
       else
         bindO (liftO (\<lambda>_. InnerProtocol) (eap_decode inner_eap)) (\<lambda>pkt.
           if ep_code pkt \<noteq> Request \<or> ep_type pkt \<noteq> Some EAP_TLS_TYPE then throwO InnerProtocol
           else
             bindO (modifyO (ii_last_id_update (\<lambda>_. ep_id pkt))) (\<lambda>_.
             bindO (liftO (\<lambda>_. InnerProtocol) (outer_parse (ep_data pkt))) (\<lambda>outer.
             bindO (getO (\<lambda>s. (ii_queue s, ii_state s))) (\<lambda>(q, st).
               if is_ack outer \<and> q \<noteq> [] then inner_next_fragment
               else (case st of
                   InHandshake \<Rightarrow> inner_on_handshake rl outer
                 | InAwaitCommitment \<Rightarrow> inner_on_commitment rl outer
                 | _ \<Rightarrow> throwO InnerProtocol))))))"

definition inner_process_packet :: "('c, 're) rustls \<Rightarrow> 'c eap_tls_inner inner_process" where
  "inner_process_packet rl s inner_eap =
     (case try_process rl inner_eap s of
        None \<Rightarrow> None
      | Some (Inr st, s') \<Rightarrow> Some (st, s')
      | Some (Inl _, s') \<Rightarrow> Some (InnerFailedStep, s'\<lparr>ii_state := InFailed\<rparr>))"


section \<open>What a call keeps and what it may return\<close>

text \<open>The key was exported by a tunnel that had passed its gate.\<close>

definition inner_key :: "('c, 're) rustls \<Rightarrow> 'c tls_client \<Rightarrow> bytes \<Rightarrow> bool" where
  "inner_key rl t0 imsk \<longleftrightarrow> length imsk = IMSK_LEN
     \<and> (\<exists>u. tunnel_reach rl t0 u \<and> approved rl (tc_conn u))
     \<and> (\<exists>t key. tunnel_reach rl t0 t
          \<and> rl_export rl (tc_conn t) EAP_TLS_KEY_LEN EAP_TLS_EXPORTER_LABEL = Inr key
          \<and> imsk = take IMSK_LEN key)"

definition eap_tls_packet :: "eap_code \<Rightarrow> u8 \<Rightarrow> bytes \<Rightarrow> eap_packet" where
  "eap_tls_packet c i d = \<lparr>ep_code = c, ep_id = i, ep_type = Some EAP_TLS_TYPE, ep_data = d\<rparr>"

definition inner_result ::
  "('c, 're) rustls \<Rightarrow> 'c tls_client \<Rightarrow> u8 \<Rightarrow> inner_step \<Rightarrow> 'c eap_tls_inner \<Rightarrow> bool" where
  "inner_result rl t0 i st s \<longleftrightarrow>
     (case st of
        InnerRespond bs \<Rightarrow> \<exists>m. eap_encode (eap_tls_packet Response i (outer_build m)) = Inr bs
      | InnerDone imsk \<Rightarrow> inner_key rl t0 imsk \<and> ii_state s = InDone
      | InnerFailedStep \<Rightarrow> False)"

definition inner_inv :: "('c, 're) rustls \<Rightarrow> 'c tls_client \<Rightarrow> u8 \<Rightarrow> 'c eap_tls_inner \<Rightarrow> bool" where
  "inner_inv rl t0 i s \<longleftrightarrow> tunnel_reach rl t0 (ii_tunnel s) \<and> ii_last_id s = i"

lemma inner_inv_update [simp]:
  "inner_inv rl t0 i (s\<lparr>ii_queue := q\<rparr>) = inner_inv rl t0 i s"
  "inner_inv rl t0 i (s\<lparr>ii_started := b\<rparr>) = inner_inv rl t0 i s"
  "inner_inv rl t0 i (s\<lparr>ii_state := st\<rparr>) = inner_inv rl t0 i s"
  "inner_inv rl t0 i (s\<lparr>ii_reasm := r\<rparr>) = inner_inv rl t0 i s"
  by (simp_all add: inner_inv_def)

text \<open>\<open>inner_keeps\<close>: the invariant survives the call, errors included; \<open>inner_tells\<close>: so it does, and
  what is returned is a proper result.\<close>

definition inner_keeps :: "('c, 're) rustls \<Rightarrow> 'c tls_client \<Rightarrow> u8 \<Rightarrow> ('c, 'a) inner_op \<Rightarrow> bool" where
  "inner_keeps rl t0 i m \<longleftrightarrow> hoareO (inner_inv rl t0 i) m (\<lambda>_. inner_inv rl t0 i) (\<lambda>_. inner_inv rl t0 i)"

definition inner_tells :: "('c, 're) rustls \<Rightarrow> 'c tls_client \<Rightarrow> u8 \<Rightarrow> ('c, inner_step) inner_op \<Rightarrow> bool" where
  "inner_tells rl t0 i m \<longleftrightarrow> hoareO (inner_inv rl t0 i) m
     (\<lambda>st s. inner_inv rl t0 i s \<and> inner_result rl t0 i st s) (\<lambda>_. inner_inv rl t0 i)"

named_theorems inners \<open>operations of the inner method that keep its invariant\<close>

lemma inner_keeps_bind [inners]:
  "inner_keeps rl t0 i m \<Longrightarrow> (\<And>x. inner_tells rl t0 i (f x)) \<Longrightarrow> inner_tells rl t0 i (bindO m f)"
  unfolding inner_keeps_def inner_tells_def by (rule hoareO_bind)

lemma inner_keeps_prims [inners]:
  "inner_keeps rl t0 i (getO g)" "inner_keeps rl t0 i (liftO h r)" "inner_keeps rl t0 i (on_inner_reasm outer)"
  "inner_keeps rl t0 i (modifyO (ii_queue_update q))" "inner_keeps rl t0 i (modifyO (ii_started_update b))"
  "inner_keeps rl t0 i (modifyO (ii_state_update st))"
  by (auto simp: inner_keeps_def hoareO_def op_simps on_inner_reasm_def inner_inv_def split: sum.split prod.split)

lemma inner_keeps_tunnel:
  assumes "\<And>t r t'. tunnel_reach rl t0 t \<Longrightarrow> m t = Some (r, t') \<Longrightarrow> tunnel_reach rl t0 t'"
  shows "inner_keeps rl t0 i (on_inner_tunnel m)"
  using assms
  by (fastforce simp: inner_keeps_def hoareO_def on_inner_tunnel_def zoomO_def inner_inv_def
      split: option.splits sum.splits prod.splits)

lemma inner_keeps_tunnels [inners]:
  "inner_keeps rl t0 i (on_inner_tunnel (take_outgoing rl))"
  "inner_keeps rl t0 i (on_inner_tunnel (feed_incoming rl bs))"
  "inner_keeps rl t0 i (on_inner_tunnel (finish_handshake rl))"
  by (rule inner_keeps_tunnel, erule (1) reach_take reach_feed reach_finish)+

lemma inner_tells_throw [inners]: "inner_tells rl t0 i (throwO e)"
  by (simp add: inner_tells_def hoareO_def throwO_def)

lemma inner_tells_respond [inners]: "inner_tells rl t0 i (inner_respond outer)"
  by (auto simp: inner_tells_def hoareO_def inner_respond_def op_simps inner_result_def eap_tls_packet_def
      inner_inv_def split: sum.splits)

lemma inner_tells_send [inners]:
  "inner_tells rl t0 i (inner_send_tls msg)" "inner_tells rl t0 i inner_next_fragment"
  unfolding inner_send_tls_def inner_next_fragment_def by (auto intro!: inners split: list.split)

lemma inner_tells_handshake [inners]: "inner_tells rl t0 i (inner_on_handshake rl outer)"
  unfolding inner_on_handshake_def by (auto intro!: inners split: option.split)

lemma inner_tells_key:
  assumes t0: "\<not> tc_established t0"
  shows "inner_tells rl t0 i
    (bindO (on_inner_tunnel (export_keying_material rl EAP_TLS_EXPORTER_LABEL EAP_TLS_KEY_LEN)) (\<lambda>key.
       case get_to key IMSK_LEN of
         None \<Rightarrow> throwO InnerProtocol
       | Some imsk \<Rightarrow> bindO (modifyO (ii_state_update (\<lambda>_. InDone))) (\<lambda>_. returnO (InnerDone imsk))))"
proof -
  let ?exp = "export_keying_material rl EAP_TLS_EXPORTER_LABEL EAP_TLS_KEY_LEN"
  let ?Q = "\<lambda>key s. inner_inv rl t0 i s \<and> (IMSK_LEN \<le> length key \<longrightarrow> inner_key rl t0 (take IMSK_LEN key))"
  have key: "inner_key rl t0 (take IMSK_LEN key)"
    if r: "tunnel_reach rl t0 t" and e: "?exp t = Some (Inr key, t')" and len: "IMSK_LEN \<le> length key" for t t' key
  proof -
    have "tc_established t" by (rule export.opened [OF e])
    with tunnel_reach_gate [OF r t0] have "\<exists>u. tunnel_reach rl t0 u \<and> approved rl (tc_conn u)"
      by (simp add: gate_inv_def)
    moreover have "rl_export rl (tc_conn t) EAP_TLS_KEY_LEN EAP_TLS_EXPORTER_LABEL = Inr key"
      using e by (auto simp: export_keying_material_def require_established_def op_simps split: if_splits sum.splits)
    ultimately show ?thesis using r len unfolding inner_key_def by auto
  qed
  have "hoareO (inner_inv rl t0 i) (on_inner_tunnel ?exp) ?Q (\<lambda>_. inner_inv rl t0 i)"
    unfolding hoareO_def
  proof (intro allI impI)
    fix s assume s: "inner_inv rl t0 i s"
    show "case on_inner_tunnel ?exp s of None \<Rightarrow> True | Some (Inl e, t) \<Rightarrow> inner_inv rl t0 i t | Some (Inr x, t) \<Rightarrow> ?Q x t"
    proof (cases "?exp (ii_tunnel s)")
      case None
      then show ?thesis by (simp add: on_inner_tunnel_def zoomO_def)
    next
      case (Some p)
      then obtain r t where e: "?exp (ii_tunnel s) = Some (r, t)" by (cases p) simp
      have "tunnel_reach rl t0 t" using reach_export [OF _ e] s by (simp add: inner_inv_def)
      with e key [of "ii_tunnel s" _ t] s show ?thesis
        by (cases r) (simp_all add: on_inner_tunnel_def zoomO_def inner_inv_def del: IMSK_LEN_def EAP_TLS_KEY_LEN_def)
    qed
  qed
  then show ?thesis
    unfolding inner_tells_def
    by (rule hoareO_bind)
      (auto simp: hoareO_def throwO_def bindO_def modifyO_def returnO_def get_to_def inner_result_def
        simp del: IMSK_LEN_def)
qed

lemma inner_tells_commitment:
  assumes "\<not> tc_established t0"
  shows "inner_tells rl t0 i (inner_on_commitment rl outer)"
  unfolding inner_on_commitment_def
  by (auto intro!: inners inner_tells_key [OF assms, simplified] split: option.split)

text \<open>A packet that is dispatched: an EAP Request of type 13 around a message.\<close>

lemma try_process_result:
  assumes "\<not> tc_established t0" and "tunnel_reach rl t0 (ii_tunnel s)"
    and "try_process rl eap s = Some (r, s')"
  shows "tunnel_reach rl t0 (ii_tunnel s')
    \<and> (\<forall>st. r = Inr st \<longrightarrow> (\<exists>pkt. eap_decode eap = Inr pkt \<and> ep_code pkt = Request
          \<and> ep_type pkt = Some EAP_TLS_TYPE \<and> inner_result rl t0 (ep_id pkt) st s'))"
proof (cases "ii_state s = InDone \<or> ii_state s = InFailed")
  case True
  with assms(2,3) show ?thesis by (auto simp: try_process_def op_simps)
next
  case False
  show ?thesis
  proof (cases "eap_decode eap")
    case (Inl e)
    with assms(2,3) False show ?thesis by (auto simp: try_process_def op_simps)
  next
    case (Inr pkt)
    show ?thesis
    proof (cases "ep_code pkt = Request \<and> ep_type pkt = Some EAP_TLS_TYPE")
      case no: False
      with assms(2,3) False Inr show ?thesis by (auto simp: try_process_def op_simps)
    next
      case True
      let ?i = "ep_id pkt"
      let ?rest = "bindO (liftO (\<lambda>_. InnerProtocol) (outer_parse (ep_data pkt))) (\<lambda>outer.
             bindO (getO (\<lambda>s. (ii_queue s, ii_state s))) (\<lambda>(q, st).
               if is_ack outer \<and> q \<noteq> [] then inner_next_fragment
               else (case st of
                   InHandshake \<Rightarrow> inner_on_handshake rl outer
                 | InAwaitCommitment \<Rightarrow> inner_on_commitment rl outer
                 | _ \<Rightarrow> throwO InnerProtocol)))"
      have go: "?rest (s\<lparr>ii_last_id := ?i\<rparr>) = Some (r, s')"
        using assms(3) False True Inr
        by (simp add: try_process_def bindO_def [of "getO ii_state"] bindO_def [of "liftO _ (Inr pkt)"] bindO_def [of "modifyO _"]
            getO_def liftO_def modifyO_def del: EAP_TLS_TYPE_def split del: if_split)
      have tells: "inner_tells rl t0 ?i ?rest"
        by (auto intro!: inners inner_tells_commitment [OF assms(1)] split: inner_state.split)
      have inv: "inner_inv rl t0 ?i (s\<lparr>ii_last_id := ?i\<rparr>)" using assms(2) by (simp add: inner_inv_def)
      show ?thesis
      proof (cases r)
        case (Inl e)
        with hoareO_Inl [OF tells [unfolded inner_tells_def] inv] go show ?thesis by (simp add: inner_inv_def)
      next
        case res: (Inr st)
        with hoareO_Inr [OF tells [unfolded inner_tells_def] inv] go have
          "inner_inv rl t0 ?i s' \<and> inner_result rl t0 ?i st s'" by blast
        with True Inr res show ?thesis by (simp add: inner_inv_def)
      qed
    qed
  qed
qed


section \<open>A method that is used once\<close>

text \<open>
  What the session relies on: an inner method that has delivered its key, or failed, is closed, and
  a closed method fails every later call and stays closed.
\<close>

inductive method_calls :: "'i inner_process \<Rightarrow> 'i \<Rightarrow> 'i \<Rightarrow> bool" for proc i0 where
  calls_start: "method_calls proc i0 i0"
| calls_step: "method_calls proc i0 i \<Longrightarrow> proc i eap = Some (st, i') \<Longrightarrow> method_calls proc i0 i'"

locale one_shot =
  fixes proc :: "'i inner_process" and closed :: "'i \<Rightarrow> bool"
  assumes closed_fails: "closed i \<Longrightarrow> proc i eap = Some (st, i') \<Longrightarrow> st = InnerFailedStep \<and> closed i'"
    and done_closes: "proc i eap = Some (InnerDone k, i') \<Longrightarrow> closed i'"
    and failed_closes: "proc i eap = Some (InnerFailedStep, i') \<Longrightarrow> closed i'"
begin

lemma calls_closed: "method_calls proc i0 i \<Longrightarrow> closed i0 \<Longrightarrow> closed i"
  by (induction rule: method_calls.induct) (auto dest: closed_fails)

lemma after_end:
  assumes "proc i eap = Some (st, i')" and "st = InnerDone k \<or> st = InnerFailedStep"
    and "method_calls proc i' j" and "proc j eap' = Some (st', j')"
  shows "st' = InnerFailedStep"
proof -
  have "closed i'" using assms(1,2) done_closes failed_closes by blast
  then have "closed j" by (rule calls_closed [OF assms(3)])
  from closed_fails [OF this assms(4)] show ?thesis by simp
qed

end

definition inner_closed :: "'c eap_tls_inner \<Rightarrow> bool" where
  "inner_closed s \<longleftrightarrow> ii_state s = InDone \<or> ii_state s = InFailed"

lemma inner_closed_step:
  "inner_closed s \<Longrightarrow> inner_process_packet rl s eap = Some (InnerFailedStep, s\<lparr>ii_state := InFailed\<rparr>)"
  by (auto simp: inner_closed_def inner_process_packet_def try_process_def op_simps)

text \<open>No result of \<open>try_process\<close> is a failed step, and a key closes the method.\<close>

definition shuts :: "('c, inner_step) inner_op \<Rightarrow> bool" where
  "shuts m \<longleftrightarrow> okO (\<lambda>_. True) m
     (\<lambda>st s. st \<noteq> InnerFailedStep \<and> (\<forall>k. st = InnerDone k \<longrightarrow> ii_state s = InDone))"

lemma shuts_bind: "(\<And>x. shuts (f x)) \<Longrightarrow> shuts (bindO m f)"
  unfolding shuts_def by (rule ok_bind [where R = "\<lambda>_ _. True"]) (simp_all add: okO_def)

lemma shuts_ends:
  "shuts (throwO e)" "shuts (inner_respond outer)"
  "shuts (bindO (modifyO (ii_state_update (\<lambda>_. InDone))) (\<lambda>_. returnO (InnerDone k)))"
  by (auto simp: shuts_def okO_def inner_respond_def op_simps split: sum.splits)

lemma shuts_send: "shuts (inner_send_tls msg)" "shuts inner_next_fragment"
  unfolding inner_send_tls_def inner_next_fragment_def
  by (auto intro!: shuts_ends shuts_bind split: list.split)

lemma try_process_open:
  assumes "try_process rl eap s = Some (Inr st, s')"
  shows "st \<noteq> InnerFailedStep \<and> (\<forall>k. st = InnerDone k \<longrightarrow> ii_state s' = InDone)"
proof -
  have "shuts (try_process rl eap)"
    unfolding try_process_def inner_on_handshake_def inner_on_commitment_def
    by (auto intro!: shuts_ends shuts_send shuts_bind split: option.split inner_state.split)
  from okOD [OF this [unfolded shuts_def] _ assms] show ?thesis by simp
qed

lemma inner_process_open:
  assumes "inner_process_packet rl s eap = Some (st, s')" and "st = InnerDone k \<or> st = InnerFailedStep"
  shows "inner_closed s'"
proof -
  obtain r u where "try_process rl eap s = Some (r, u)"
    using assms(1) by (auto simp: inner_process_packet_def split: option.splits)
  with assms try_process_open [of rl eap s] show ?thesis
    by (cases r) (fastforce simp: inner_process_packet_def inner_closed_def)+
qed

interpretation eap_tls: one_shot "inner_process_packet rl" inner_closed for rl
proof unfold_locales
  fix i i' :: "'a eap_tls_inner" and eap k and st
  show "inner_closed i \<Longrightarrow> inner_process_packet rl i eap = Some (st, i') \<Longrightarrow> st = InnerFailedStep \<and> inner_closed i'"
    by (auto simp: inner_closed_step inner_closed_def)
  show "inner_process_packet rl i eap = Some (InnerDone k, i') \<Longrightarrow> inner_closed i'"
    "inner_process_packet rl i eap = Some (InnerFailedStep, i') \<Longrightarrow> inner_closed i'"
    by (blast intro: inner_process_open)+
qed

lemma inner_process_reach:
  assumes "\<not> tc_established t0" and "tunnel_reach rl t0 (ii_tunnel s)"
    and "inner_process_packet rl s eap = Some (st, s')"
  shows "tunnel_reach rl t0 (ii_tunnel s')
    \<and> (st \<noteq> InnerFailedStep \<longrightarrow> (\<exists>pkt. eap_decode eap = Inr pkt \<and> ep_code pkt = Request
          \<and> ep_type pkt = Some EAP_TLS_TYPE \<and> inner_result rl t0 (ep_id pkt) st s'))"
proof -
  obtain r u where t: "try_process rl eap s = Some (r, u)"
    using assms(3) by (auto simp: inner_process_packet_def split: option.splits)
  from try_process_result [OF assms(1,2) t] assms(3) t show ?thesis
    by (cases r) (auto simp: inner_process_packet_def)
qed

lemma inner_calls_reach:
  assumes "method_calls (inner_process_packet rl) s0 s" and "\<not> tc_established (ii_tunnel s0)"
  shows "tunnel_reach rl (ii_tunnel s0) (ii_tunnel s)"
  using assms(1)
  by (induction rule: method_calls.induct) (auto intro: reach_start dest: inner_process_reach [OF assms(2)])


section \<open>Calls that return\<close>

lemma inner_total:
  assumes "write_drains rl queued" and "read_drains rl held"
  shows "total_op (try_process rl eap)"
proof -
  have t: "total_op (take_outgoing rl)" "total_op (feed_incoming rl bs)" "total_op (finish_handshake rl)"
    "total_op (export_keying_material rl l n)" for bs l n
    by (simp_all only: total_op_def tls_ops_return [OF assms] simp_thms)
  have tun: "total_op (on_inner_tunnel (take_outgoing rl))" "total_op (on_inner_tunnel (feed_incoming rl bs))"
    "total_op (on_inner_tunnel (finish_handshake rl))" "total_op (on_inner_tunnel (export_keying_material rl l n))"
    for bs l n
    unfolding on_inner_tunnel_def by (intro total_zoom t)+
  have reasm: "total_op (on_inner_reasm outer)" for outer
    unfolding on_inner_reasm_def by (intro totals)
  have resp: "total_op (inner_respond outer)" for outer
    unfolding inner_respond_def by (intro totals)
  have send: "total_op (inner_send_tls msg)" "total_op inner_next_fragment" for msg
    unfolding inner_send_tls_def inner_next_fragment_def by (auto intro!: totals resp split: list.split)
  show ?thesis
    unfolding try_process_def inner_on_handshake_def inner_on_commitment_def
    by (auto intro!: totals tun reasm resp send split: option.split inner_state.split)
qed

section \<open>Properties\<close>

text \<open>A method whose tunnel is the plain connection.\<close>

definition plain_inner :: "plain_conn eap_tls_inner" where
  "plain_inner = \<lparr>ii_tunnel = plain_tunnel, ii_reasm = reasm_new MAX_INNER_MESSAGE, ii_queue = [],
     ii_state = InHandshake, ii_started = False, ii_max_fragment = 1000, ii_last_id = 0\<rparr>"

lemma plain_inner_new: "inner_new plain_builder () [] 1000 = Inr plain_inner"
  using plain_connect [of "[]"] by (simp add: inner_new_def plain_inner_def)

text \<open>C8: the inner method hands out one key, and only after its own handshake was approved. Whatever
  packets a method made by \<open>inner_new\<close> was given, if a call delivers an IMSK then it is 32 octets
  long, it is the head of the 64 octets exported under the EAP-TLS label by a tunnel whose
  negotiated parameters had passed the allow-list, the packet was an EAP Request of type 13, and
  every later call fails.\<close>

theorem inner_key_once:
  assumes "inner_new rb cfg name mf = Inr s0" and "method_calls (inner_process_packet rl) s0 s"
    and "inner_process_packet rl s eap = Some (InnerDone imsk, s')"
  shows "inner_key rl (ii_tunnel s0) imsk
    \<and> (\<exists>pkt. eap_decode eap = Inr pkt \<and> ep_code pkt = Request \<and> ep_type pkt = Some EAP_TLS_TYPE)
    \<and> (\<forall>s2 eap2 st s3. method_calls (inner_process_packet rl) s' s2
         \<and> inner_process_packet rl s2 eap2 = Some (st, s3) \<longrightarrow> st = InnerFailedStep)"
proof -
  have t0: "\<not> tc_established (ii_tunnel s0)"
    using assms(1) by (auto simp: inner_new_def tls_connect_def split: sum.splits option.splits)
  from inner_process_reach [OF t0 inner_calls_reach [OF assms(2) t0] assms(3)] eap_tls.after_end [OF assms(3)]
  show ?thesis by (auto simp: inner_result_def)
qed

lemma inner_dispatch:
  assumes "eap_encode (eap_tls_packet Request i (outer_build m)) = Inr req" and "outer_wf m"
    and "\<not> inner_closed s" and "\<not> is_ack m"
  shows "try_process rl req s =
     (case ii_state s of
        InHandshake \<Rightarrow> inner_on_handshake rl m
      | InAwaitCommitment \<Rightarrow> inner_on_commitment rl m
      | _ \<Rightarrow> throwO InnerProtocol) (s\<lparr>ii_last_id := i\<rparr>)"
proof -
  have "eap_wf (eap_tls_packet Request i (outer_build m))"
    by (simp add: eap_wf_def eap_code_wf_def eap_tls_packet_def)
  with assms show ?thesis
    by (simp add: try_process_def eap_decode_encode eap_tls_packet_def outer_parse_build inner_closed_def
        bindO_def liftO_def modifyO_def getO_def del: EAP_TLS_TYPE_def split: inner_state.split)
qed

lemma inner_encodes:
  "length (to_data m) \<le> 65500 \<Longrightarrow> \<exists>bs. eap_encode (eap_tls_packet c i (outer_build m)) = Inr bs"
  using length_outer_build [of m] by (simp add: eap_encode_def eap_tls_packet_def Let_def)

text \<open>A short message goes out in one piece.\<close>

definition inner_whole :: "bytes \<Rightarrow> teap_outer" where
  "inner_whole bs = \<lparr>to_more = False, to_start = False, to_version = 0, to_length = None, to_data = bs\<rparr>"

lemma inner_send_whole:
  assumes "length msg \<le> ii_max_fragment s" and "length msg \<le> 65500"
  obtains bs where "inner_send_tls msg s = Some (Inr (InnerRespond bs), s\<lparr>ii_queue := []\<rparr>)"
    "eap_encode (eap_tls_packet Response (ii_last_id s) (outer_build (inner_whole msg))) = Inr bs"
proof -
  have "fragment msg (ii_max_fragment s) EAP_TLS_VERSION = [inner_whole msg]"
    using assms(1) by (simp add: fragment_def inner_whole_def Let_def le_max_iff_disj)
  moreover obtain bs where "eap_encode (eap_tls_packet Response (ii_last_id s) (outer_build (inner_whole msg))) = Inr bs"
    using inner_encodes [of "inner_whole msg" Response "ii_last_id s"] assms(2) by (auto simp: inner_whole_def)
  ultimately show ?thesis
    using that [of bs]
    by (simp add: inner_send_tls_def inner_respond_def op_simps eap_tls_packet_def
        del: EAP_TLS_VERSION_def EAP_TLS_TYPE_def VERSION_MASK_def)
qed

lemma inner_sends:
  assumes "length msg \<le> ii_max_fragment s" and "length msg \<le> 65500"
  shows "\<exists>bs. inner_send_tls msg s = Some (Inr (InnerRespond bs), s\<lparr>ii_queue := []\<rparr>)"
  using inner_send_whole [OF assms] by blast

lemma try_calls:
  "method_calls (inner_process_packet rl) s0 s \<Longrightarrow> \<exists>st. try_process rl eap s = Some (Inr st, s') \<Longrightarrow>
     method_calls (inner_process_packet rl) s0 s'"
  using calls_step [of "inner_process_packet rl" s0 s eap] by (auto simp: inner_process_packet_def)

lemma plain_inner_done:
  "\<exists>s imsk req s'. method_calls (inner_process_packet plain_tls) plain_inner s
     \<and> inner_process_packet plain_tls s req = Some (InnerDone imsk, s')"
proof -
  let ?t = "\<lambda>k e. \<lparr>tc_conn = \<lparr>pc_script = k, pc_out = [], pc_in = []\<rparr>, tc_established = e\<rparr>"
  let ?s1 = "plain_inner\<lparr>ii_tunnel := ?t [[]] False, ii_started := True, ii_last_id := 1, ii_queue := []\<rparr>"
  let ?s2 = "plain_inner\<lparr>ii_tunnel := ?t [] True, ii_state := InAwaitCommitment, ii_started := True, ii_last_id := 1, ii_queue := []\<rparr>"
  have take: "take_outgoing plain_tls plain_tunnel = Some (Inr [22], ?t [[]] False)"
    "take_outgoing plain_tls (?t [] False) = Some (Inr [], ?t [] False)"
    using plain_drain [of "[[]]" "[22]" "[]"] plain_drain [of "[]" "[]" "[]"]
    by (simp_all add: take_outgoing_def plain_tunnel_def)
  have fin: "feed_incoming plain_tls [1] (?t [[]] False) = Some (Inr (), ?t [] False)"
    "finish_handshake plain_tls (?t [] False) = Some (Inr (), ?t [] True)"
    by (simp_all add: feed_incoming_def plain_feed finish_handshake_def enforce_fips_parameters_def plain_sel)
  have len: "length (to_data start_packet) \<le> 65500" "length (to_data (whole [1])) \<le> 65500"
    by (simp_all add: start_packet_def whole_def)
  obtain r1 r2 where req: "eap_encode (eap_tls_packet Request 1 (outer_build start_packet)) = Inr r1"
    "eap_encode (eap_tls_packet Request 1 (outer_build (whole [1]))) = Inr r2"
    using inner_encodes [OF len(1), of Request 1] inner_encodes [OF len(2), of Request 1] by blast
  have "\<exists>bs. try_process plain_tls r1 plain_inner = Some (Inr (InnerRespond bs), ?s1)"
    using inner_sends [of "[22]" "plain_inner\<lparr>ii_tunnel := ?t [[]] False, ii_started := True, ii_last_id := 1\<rparr>"] take(1)
    by (simp add: inner_dispatch [OF req(1)] inner_closed_def plain_inner_def inner_on_handshake_def
        on_inner_tunnel_def op_simps)
  then have 1: "method_calls (inner_process_packet plain_tls) plain_inner ?s1"
    by (blast intro: try_calls [OF calls_start])
  let ?u = "plain_inner\<lparr>ii_tunnel := ?t [] True, ii_state := InAwaitCommitment, ii_started := True, ii_last_id := 1\<rparr>"
  have r: "on_inner_reasm (whole [1]) ?s1 = Some (Inr (Some [1]), ?s1)"
    "on_inner_reasm (whole [1]) ?s2 = Some (Inr (Some [1]), ?s2)"
    using reasm_whole [of "[1]" MAX_INNER_MESSAGE]
    by (simp_all add: on_inner_reasm_def zoomO_def pureO_def plain_inner_def MAX_INNER_MESSAGE_def)
  have "\<exists>bs. try_process plain_tls r2 ?s1 = Some (Inr (InnerRespond bs), ?s2)"
    using inner_sends [of "[]" ?u] r(1) fin take(2)
    by (simp add: inner_dispatch [OF req(2)] inner_closed_def inner_on_handshake_def plain_inner_def
        on_inner_tunnel_def bindO_def zoomO_def getO_def modifyO_def tls_is_handshaking_def plain_sel)
  then have 2: "method_calls (inner_process_packet plain_tls) plain_inner ?s2"
    by (blast intro: try_calls [OF 1])
  have "export_keying_material plain_tls EAP_TLS_EXPORTER_LABEL 64 (?t [] True) = Some (Inr (replicate 64 1), ?t [] True)"
    by (simp add: export_keying_material_def require_established_def op_simps plain_sel)
  then have "try_process plain_tls r2 ?s2 = Some (Inr (InnerDone (replicate 32 1)), ?s2\<lparr>ii_state := InDone\<rparr>)"
    using r(2)
    by (simp add: inner_dispatch [OF req(2)] inner_closed_def inner_on_commitment_def plain_inner_def
        on_inner_tunnel_def bindO_def zoomO_def modifyO_def returnO_def get_to_def)
  then have "\<exists>imsk s'. inner_process_packet plain_tls ?s2 r2 = Some (InnerDone imsk, s')"
    by (simp add: inner_process_packet_def)
  with 2 show ?thesis by blast
qed

theorem inner_key_once_witness:
  "\<exists>imsk. inner_key plain_tls plain_tunnel imsk"
proof -
  obtain s imsk req s' where "method_calls (inner_process_packet plain_tls) plain_inner s"
    "inner_process_packet plain_tls s req = Some (InnerDone imsk, s')"
    using plain_inner_done by blast
  from inner_key_once [OF plain_inner_new this] show ?thesis by (auto simp: plain_inner_def)
qed

text \<open>C21: the inner method never gets stuck, and its answers are well formed. With a TLS library whose
  queues drain as documented every call returns; a call that answers was given an EAP Request of
  type 13 and answers with an EAP Response of type 13 with the same identifier; and a method that
  failed once fails for good.\<close>

theorem inner_answers:
  assumes "write_drains rl queued" and "read_drains rl held"
    and "inner_new rb cfg name mf = Inr s0" and "method_calls (inner_process_packet rl) s0 s"
  shows "\<exists>st s'. inner_process_packet rl s eap = Some (st, s')
    \<and> (\<forall>bs. st = InnerRespond bs \<longrightarrow> (\<exists>pkt m. eap_decode eap = Inr pkt \<and> ep_code pkt = Request
         \<and> ep_type pkt = Some EAP_TLS_TYPE
         \<and> eap_encode (eap_tls_packet Response (ep_id pkt) (outer_build m)) = Inr bs))
    \<and> (st = InnerFailedStep \<longrightarrow> (\<forall>s2 eap2 st2 s3. method_calls (inner_process_packet rl) s' s2
         \<and> inner_process_packet rl s2 eap2 = Some (st2, s3) \<longrightarrow> st2 = InnerFailedStep))"
proof -
  have t0: "\<not> tc_established (ii_tunnel s0)"
    using assms(3) by (auto simp: inner_new_def tls_connect_def split: sum.splits option.splits)
  obtain st s' where r: "inner_process_packet rl s eap = Some (st, s')"
    using inner_total [OF assms(1,2), of eap]
    unfolding total_op_def inner_process_packet_def by (fastforce split: option.split sum.split)
  from inner_process_reach [OF t0 inner_calls_reach [OF assms(4) t0] r] eap_tls.after_end [OF r] r
  show ?thesis by (intro exI [of _ st] exI [of _ s']) (auto simp: inner_result_def)
qed

theorem inner_answers_witness:
  "\<exists>st s'. inner_process_packet plain_tls plain_inner [1, 2, 3] = Some (st, s')"
  using inner_answers [OF plain_drains plain_inner_new calls_start, of "[1, 2, 3]"] by blast

end
