(* ===== verification/Driver.thy ===== *)
theory Driver
  imports Inner_Tls
begin

text \<open>
  The TEAP driver: crates/supplicant/src/driver.rs with the errors of crates/supplicant/src/error.rs
  and the assembly of crates/supplicant/src/builder.rs. The driver is a record over the connection
  of its tunnel and the state of its inner method; \<open>proc\<close> is the method's \<open>process\<close>, \<open>sign\<close> the
  HMAC of aws-lc and \<open>rl\<close> rustls. Every handler is translated whole, in the order in which it
  changes the state, so that an early return leaves the driver as the source does.
\<close>

definition MAX_TLS_MESSAGE :: nat where "MAX_TLS_MESSAGE = 256 * 1024"
definition MAX_HANDSHAKE_ROUNDS :: nat where "MAX_HANDSHAKE_ROUNDS = 64"
definition MAX_PHASE2_ROUNDS :: nat where "MAX_PHASE2_ROUNDS = 64"

datatype 're driver_error =
    DrvDecode tlv_error
  | DrvTls "'re fips_tls_error"
  | DrvSession session_error
  | DrvProtocol string

record driver_config =
  dc_identity :: identity
  dc_server_name :: bytes
  dc_mat_vendor_id :: u32
  dc_mat_to_present :: "bytes option"
  dc_max_fragment :: nat

datatype driver_reply =
    DrvRespond bytes
  | Finished "bytes option" outcome

datatype driver_phase =
    ExpectStart
  | Handshake
  | Phase2
  | Terminated

record ('c, 'i) teap_driver =
  dr_cfg :: driver_config
  dr_tunnel :: "'c tls_client"
  dr_inner :: "'i option"
  dr_phase :: driver_phase
  dr_reasm :: reassembler
  dr_queue :: "teap_outer list"
  dr_session :: "'i teap_session option"
  dr_pending :: "outcome option"
  dr_last_id :: u8
  dr_rounds :: nat

type_synonym ('c, 're, 'i, 'a) driver_op = "(('c, 'i) teap_driver, 're driver_error, 'a) op"
type_synonym hmac_sign = "hmac_algorithm \<Rightarrow> bytes \<Rightarrow> bytes \<Rightarrow> bytes"

definition driver_new ::
  "('k, 'res, 'b, 'cfg, 'name, 'c, 're) rustls_builder \<Rightarrow> driver_config \<Rightarrow> 'k \<Rightarrow> 'i
     \<Rightarrow> 're driver_error + ('c, 'i) teap_driver" where
  "driver_new rb cfg roots inner =
     (case client_config rb roots NoClientAuth of
        Inl e \<Rightarrow> Inl (DrvTls e)
      | Inr config \<Rightarrow>
          (case tls_connect rb config (dc_server_name cfg) of
             Inl e \<Rightarrow> Inl (DrvTls e)
           | Inr tunnel \<Rightarrow>
               Inr \<lparr>dr_cfg = cfg, dr_tunnel = tunnel, dr_inner = Some inner, dr_phase = ExpectStart,
                 dr_reasm = reasm_new MAX_TLS_MESSAGE, dr_queue = [], dr_session = None,
                 dr_pending = None, dr_last_id = 0, dr_rounds = 0\<rparr>))"

definition is_established :: "('c, 'i) teap_driver \<Rightarrow> bool" where
  "is_established d \<longleftrightarrow> dr_phase d = Phase2 \<or> dr_phase d = Terminated"

section \<open>Calls on the parts of the driver\<close>

definition on_tunnel :: "('c, 're, 'a) tls_op \<Rightarrow> ('c, 're, 'i, 'a) driver_op" where
  "on_tunnel m = zoomO dr_tunnel (\<lambda>t. dr_tunnel_update (\<lambda>_. t)) DrvTls m"

definition on_reasm :: "teap_outer \<Rightarrow> ('c, 're, 'i, bytes option) driver_op" where
  "on_reasm outer =
     zoomO dr_reasm (\<lambda>r. dr_reasm_update (\<lambda>_. r)) DrvDecode (pureO (reasm_push outer))"

text \<open>\<open>self.session.as_mut().ok_or(..)?\<close>, then \<open>session.step(&tlvs)?\<close>.\<close>

definition on_session :: "('i, 'a) session_op \<Rightarrow> ('c, 're, 'i, 'a) driver_op" where
  "on_session m d =
     (case dr_session d of
        None \<Rightarrow> Some (Inl (DrvProtocol ''no session''), d)
      | Some s \<Rightarrow>
          zoomO (\<lambda>_. s) (\<lambda>s'. dr_session_update (\<lambda>_. Some s')) DrvSession m d)"

section \<open>Sending\<close>

definition respond :: "teap_outer \<Rightarrow> ('c, 're, 'i, driver_reply) driver_op" where
  "respond outer =
     bindO (getO dr_last_id) (\<lambda>last_id.
     bindO (liftO DrvDecode (eap_encode
         \<lparr>ep_code = Response, ep_id = last_id, ep_type = Some TEAP_EAP_TYPE, ep_data = outer_build outer\<rparr>))
       (\<lambda>bs. returnO (DrvRespond bs)))"

definition send_tls_message :: "bytes \<Rightarrow> ('c, 're, 'i, driver_reply) driver_op" where
  "send_tls_message message =
     bindO (getO (\<lambda>d. dc_max_fragment (dr_cfg d))) (\<lambda>mf.
       case fragment message mf TEAP_VERSION of
         [] \<Rightarrow> bindO (modifyO (dr_queue_update (\<lambda>_. []))) (\<lambda>_. respond (outer_ack TEAP_VERSION))
       | first # rest \<Rightarrow> bindO (modifyO (dr_queue_update (\<lambda>_. rest))) (\<lambda>_. respond first))"

definition next_out_fragment :: "('c, 're, 'i, driver_reply) driver_op" where
  "next_out_fragment =
     bindO (getO dr_queue) (\<lambda>q.
       case q of
         outer # rest \<Rightarrow> bindO (modifyO (dr_queue_update (\<lambda>_. rest))) (\<lambda>_. respond outer)
       | [] \<Rightarrow> respond (outer_ack TEAP_VERSION))"

definition protect_tlvs :: "('c, 're) rustls \<Rightarrow> raw_tlv list \<Rightarrow> ('c, 're, 'i, bytes) driver_op" where
  "protect_tlvs rl tlvs =
     bindO (liftO DrvDecode (encode_all tlvs)) (\<lambda>bs. on_tunnel (protect rl bs))"

section \<open>The handlers\<close>

definition start_phase2 ::
  "('c, 're) rustls \<Rightarrow> hmac_sign \<Rightarrow> ('c, 're, 'i, unit) driver_op" where
  "start_phase2 rl sign =
     bindO (on_tunnel (session_key_seed rl)) (\<lambda>seed.
     bindO (on_tunnel (negotiated_mac rl)) (\<lambda>mac.
     bindO (getO dr_inner) (\<lambda>inner.
     bindO (modifyO (dr_inner_update (\<lambda>_. None))) (\<lambda>_.
       case inner of
         None \<Rightarrow> throwO (DrvProtocol ''inner method already used'')
       | Some i \<Rightarrow>
           bindO (getO dr_cfg) (\<lambda>cfg.
             case session_new \<lparr>sc_identity = dc_identity cfg, sc_mat_vendor_id = dc_mat_vendor_id cfg,
                 sc_mat_to_present = dc_mat_to_present cfg\<rparr> seed (aws_dyn_mac sign mac) i of
               Inl _ \<Rightarrow> throwO (DrvProtocol ''session key seed rejected'')
             | Inr session \<Rightarrow>
                 bindO (modifyO (dr_session_update (\<lambda>_. Some session))) (\<lambda>_.
                 bindO (modifyO (dr_phase_update (\<lambda>_. Phase2))) (\<lambda>_.
                   modifyO (dr_rounds_update (\<lambda>_. 0)))))))))"

text \<open>The part of \<open>on_handshake\<close> that runs once a whole message is there.\<close>

definition handshake_message ::
  "('c, 're) rustls \<Rightarrow> hmac_sign \<Rightarrow> bytes \<Rightarrow> ('c, 're, 'i, driver_reply) driver_op" where
  "handshake_message rl sign message =
     bindO (on_tunnel (feed_incoming rl message)) (\<lambda>_.
     bindO (getO (\<lambda>d. tls_is_handshaking rl (dr_tunnel d))) (\<lambda>handshaking.
       if handshaking then bindO (on_tunnel (take_outgoing rl)) send_tls_message
       else
         bindO (on_tunnel (take_outgoing rl)) (\<lambda>flight.
         bindO (on_tunnel (finish_handshake rl)) (\<lambda>_.
         bindO (start_phase2 rl sign) (\<lambda>_. send_tls_message flight)))))"

definition on_handshake ::
  "('c, 're) rustls \<Rightarrow> hmac_sign \<Rightarrow> teap_outer \<Rightarrow> ('c, 're, 'i, driver_reply) driver_op" where
  "on_handshake rl sign outer =
     bindO (modifyO (\<lambda>d. d\<lparr>dr_rounds := sat_add (dr_rounds d) 1\<rparr>)) (\<lambda>_.
     bindO (getO dr_rounds) (\<lambda>rounds.
       if MAX_HANDSHAKE_ROUNDS < rounds then throwO (DrvProtocol ''handshake exceeded round limit'')
       else
         bindO (on_reasm outer) (\<lambda>pushed.
           case pushed of
             None \<Rightarrow> respond (outer_ack TEAP_VERSION)
           | Some message \<Rightarrow> handshake_message rl sign message)))"

text \<open>The part of \<open>on_phase2\<close> that runs once all the records of a message are there.\<close>

definition phase2_records ::
  "('c, 're) rustls \<Rightarrow> 'i inner_process \<Rightarrow> bytes \<Rightarrow> ('c, 're, 'i, driver_reply) driver_op" where
  "phase2_records rl proc records =
     bindO (on_tunnel (unprotect rl records)) (\<lambda>plaintext.
     bindO (liftO DrvDecode (parse_all plaintext)) (\<lambda>tlvs.
     bindO (on_session (session_step proc tlvs)) (\<lambda>st.
       case st of
         Continue out \<Rightarrow> bindO (protect_tlvs rl out) send_tls_message
       | Done send outcome \<Rightarrow>
           bindO (protect_tlvs rl send) (\<lambda>ciphertext.
           bindO (modifyO (dr_phase_update (\<lambda>_. Terminated))) (\<lambda>_.
           bindO (modifyO (dr_pending_update (\<lambda>_. Some outcome))) (\<lambda>_.
             send_tls_message ciphertext))))))"

definition on_phase2 ::
  "('c, 're) rustls \<Rightarrow> 'i inner_process \<Rightarrow> teap_outer \<Rightarrow> ('c, 're, 'i, driver_reply) driver_op" where
  "on_phase2 rl proc outer =
     bindO (modifyO (\<lambda>d. d\<lparr>dr_rounds := sat_add (dr_rounds d) 1\<rparr>)) (\<lambda>_.
     bindO (getO dr_rounds) (\<lambda>rounds.
       if MAX_PHASE2_ROUNDS < rounds then throwO (DrvProtocol ''phase 2 exceeded round limit'')
       else
         bindO (on_reasm outer) (\<lambda>pushed.
           case pushed of
             None \<Rightarrow> respond (outer_ack TEAP_VERSION)
           | Some records \<Rightarrow> phase2_records rl proc records)))"

text \<open>The dispatch of \<open>on_request\<close>: a bare ACK draws the next fragment, the rest depends on the phase.\<close>

definition on_outer ::
  "('c, 're) rustls \<Rightarrow> hmac_sign \<Rightarrow> 'i inner_process \<Rightarrow> teap_outer
     \<Rightarrow> ('c, 're, 'i, driver_reply) driver_op" where
  "on_outer rl sign proc outer d =
     (if is_ack outer \<and> dr_queue d \<noteq> [] then next_out_fragment
      else (case dr_phase d of
          ExpectStart \<Rightarrow>
            if \<not> to_start outer then throwO (DrvProtocol ''expected TEAP Start'')
            else
              bindO (modifyO (dr_phase_update (\<lambda>_. Handshake))) (\<lambda>_.
              bindO (on_tunnel (take_outgoing rl)) send_tls_message)
        | Handshake \<Rightarrow> on_handshake rl sign outer
        | Phase2 \<Rightarrow> on_phase2 rl proc outer
        | Terminated \<Rightarrow> throwO (DrvProtocol ''packet after terminal state''))) d"

definition on_request ::
  "('c, 're) rustls \<Rightarrow> hmac_sign \<Rightarrow> 'i inner_process \<Rightarrow> eap_packet
     \<Rightarrow> ('c, 're, 'i, driver_reply) driver_op" where
  "on_request rl sign proc pkt =
     (if ep_type pkt \<noteq> Some TEAP_EAP_TYPE then throwO (DrvProtocol ''inner EAP type is not TEAP'')
      else
        bindO (modifyO (dr_last_id_update (\<lambda>_. ep_id pkt))) (\<lambda>_.
        bindO (liftO DrvDecode (outer_parse (ep_data pkt))) (on_outer rl sign proc)))"

definition driver_step ::
  "('c, 're) rustls \<Rightarrow> hmac_sign \<Rightarrow> 'i inner_process \<Rightarrow> bytes \<Rightarrow> ('c, 're, 'i, driver_reply) driver_op" where
  "driver_step rl sign proc eap_request =
     bindO (liftO DrvDecode (eap_decode eap_request)) (\<lambda>pkt.
       case ep_code pkt of
         EapFailure \<Rightarrow>
           bindO (modifyO (dr_phase_update (\<lambda>_. Terminated))) (\<lambda>_.
           bindO (modifyO (dr_pending_update (\<lambda>_. None))) (\<lambda>_.
             returnO (Finished None (Failure ServerFailure))))
       | EapSuccess \<Rightarrow>
           bindO (modifyO (dr_phase_update (\<lambda>_. Terminated))) (\<lambda>_.
           bindO (getO dr_pending) (\<lambda>pending.
           bindO (modifyO (dr_pending_update (\<lambda>_. None))) (\<lambda>_.
             case pending of
               None \<Rightarrow> throwO (DrvProtocol ''EAP-Success before a result'')
             | Some outcome \<Rightarrow> returnO (Finished None outcome))))
       | Request \<Rightarrow> on_request rl sign proc pkt
       | _ \<Rightarrow> throwO (DrvProtocol ''unexpected EAP code from server''))"

section \<open>Assembly\<close>

definition assemble_driver ::
  "('k, 'res, 'b, 'cfg, 'name, 'c, 're) rustls_builder \<Rightarrow> driver_config \<Rightarrow> 'k \<Rightarrow> 'res client_auth
     \<Rightarrow> 're driver_error + ('c, 'c eap_tls_inner) teap_driver" where
  "assemble_driver rb cfg roots auth =
     (case client_config rb roots auth of
        Inl e \<Rightarrow> Inl (DrvTls e)
      | Inr inner_config \<Rightarrow>
          (case inner_new rb inner_config (dc_server_name cfg) (dc_max_fragment cfg) of
             Inl _ \<Rightarrow> Inl (DrvProtocol ''inner EAP-TLS construction failed'')
           | Inr inner \<Rightarrow> driver_new rb cfg roots inner))"

section \<open>What the driver keeps\<close>

text \<open>
  A predicate on the phase, session, pending outcome and inner method, over a tunnel that is still
  the one the driver was made with.
\<close>

type_synonym 'i drv_pred =
  "driver_phase \<Rightarrow> 'i teap_session option \<Rightarrow> outcome option \<Rightarrow> 'i option \<Rightarrow> bool"

definition drv ::
  "('c, 're) rustls \<Rightarrow> 'c tls_client \<Rightarrow> driver_config \<Rightarrow> 'i drv_pred \<Rightarrow> ('c, 'i) teap_driver \<Rightarrow> bool" where
  "drv rl t0 cfg Q d \<longleftrightarrow> tunnel_reach rl t0 (dr_tunnel d) \<and> dr_cfg d = cfg
     \<and> Q (dr_phase d) (dr_session d) (dr_pending d) (dr_inner d)"

lemma drv_update [simp]:
  "drv rl t0 cfg Q (d\<lparr>dr_queue := q\<rparr>) = drv rl t0 cfg Q d"
  "drv rl t0 cfg Q (d\<lparr>dr_last_id := i\<rparr>) = drv rl t0 cfg Q d"
  "drv rl t0 cfg Q (d\<lparr>dr_rounds := n\<rparr>) = drv rl t0 cfg Q d"
  "drv rl t0 cfg Q (d\<lparr>dr_reasm := r\<rparr>) = drv rl t0 cfg Q d"
  by (simp_all add: drv_def)

lemma drv_mono: "drv rl t0 cfg Q d \<Longrightarrow> (\<And>p s o' i. Q p s o' i \<Longrightarrow> Q' p s o' i) \<Longrightarrow> drv rl t0 cfg Q' d"
  by (simp add: drv_def)

lemma zoom_Inr:
  "zoomO get put h m s = Some (Inr x, s') \<longleftrightarrow> (\<exists>t. m (get s) = Some (Inr x, t) \<and> s' = put t s)"
  by (auto simp: zoomO_def split: option.splits sum.splits)

lemma ok_respond [oks]: "okO (drv rl t0 cfg Q) (respond outer) (\<lambda>_. drv rl t0 cfg Q)"
  by (rule okOI) (auto simp: respond_def op_simps split: sum.splits)

lemma ok_send [oks]: "okO (drv rl t0 cfg Q) (send_tls_message msg) (\<lambda>_. drv rl t0 cfg Q)"
  by (rule okOI)
    (auto simp: send_tls_message_def respond_def op_simps split: list.splits sum.splits option.splits)

lemma ok_next [oks]: "okO (drv rl t0 cfg Q) next_out_fragment (\<lambda>_. drv rl t0 cfg Q)"
  by (rule okOI)
    (auto simp: next_out_fragment_def respond_def op_simps split: list.splits sum.splits option.splits)

lemma ok_reasm [oks]: "okO (drv rl t0 cfg Q) (on_reasm outer) (\<lambda>_. drv rl t0 cfg Q)"
  by (rule okOI) (auto simp: on_reasm_def zoom_Inr pureO_def)

lemma ok_tunnel:
  assumes "\<And>t r t'. tunnel_reach rl t0 t \<Longrightarrow> m t = Some (r, t') \<Longrightarrow> tunnel_reach rl t0 t'"
  shows "okO (drv rl t0 cfg Q) (on_tunnel m) (\<lambda>_. drv rl t0 cfg Q)"
  using assms by (intro okOI) (auto simp: on_tunnel_def zoom_Inr drv_def)

lemma ok_tunnels [oks]:
  "okO (drv rl t0 cfg Q) (on_tunnel (take_outgoing rl)) (\<lambda>_. drv rl t0 cfg Q)"
  "okO (drv rl t0 cfg Q) (on_tunnel (feed_incoming rl bs)) (\<lambda>_. drv rl t0 cfg Q)"
  "okO (drv rl t0 cfg Q) (on_tunnel (unprotect rl bs)) (\<lambda>_. drv rl t0 cfg Q)"
  "okO (drv rl t0 cfg Q) (on_tunnel (protect rl bs)) (\<lambda>_. drv rl t0 cfg Q)"
  "okO (drv rl t0 cfg Q) (on_tunnel (finish_handshake rl)) (\<lambda>_. drv rl t0 cfg Q)"
  "okO (drv rl t0 cfg Q) (on_tunnel (negotiated_mac rl)) (\<lambda>_. drv rl t0 cfg Q)"
  by (rule ok_tunnel, erule (1) reach_take reach_feed reach_unprotect reach_protect reach_finish reach_mac)+

lemma ok_unprotect:
  "okO (drv rl t0 cfg Q) (on_tunnel (unprotect rl bs))
     (\<lambda>p d. drv rl t0 cfg Q d \<and> (\<exists>t t'. tunnel_reach rl t0 t \<and> unprotect rl bs t = Some (Inr p, t')))"
proof (rule okOI)
  fix d p d'
  assume d: "drv rl t0 cfg Q d" and u: "on_tunnel (unprotect rl bs) d = Some (Inr p, d')"
  from u obtain t' where "unprotect rl bs (dr_tunnel d) = Some (Inr p, t')"
    by (auto simp: on_tunnel_def zoom_Inr)
  with okOD [OF ok_tunnels(3) d u] d
  show "drv rl t0 cfg Q d' \<and> (\<exists>t t'. tunnel_reach rl t0 t \<and> unprotect rl bs t = Some (Inr p, t'))"
    by (auto simp: drv_def)
qed

lemma ok_protect_tlvs [oks]:
  "okO (drv rl t0 cfg Q) (protect_tlvs rl tlvs) (\<lambda>_. drv rl t0 cfg Q)"
  unfolding protect_tlvs_def by (intro ok_lift oks)

section \<open>A success of the driver is a success of its session\<close>

text \<open>The seed came out of the tunnel after the check of the negotiated parameters.\<close>

definition seed_from :: "('c, 're) rustls \<Rightarrow> 'c tls_client \<Rightarrow> bytes \<Rightarrow> bool" where
  "seed_from rl t0 seed \<longleftrightarrow>
     (\<exists>u v. tunnel_reach rl t0 u \<and> approved rl (tc_conn u) \<and> tunnel_reach rl t0 v
        \<and> rl_export rl (tc_conn v) S_IMCK_LEN EXPORTER_LABEL_SESSION_KEY_SEED = Inr seed)"

text \<open>The message was decrypted by the tunnel, at some point of its life.\<close>

definition from_tunnel :: "('c, 're) rustls \<Rightarrow> 'c tls_client \<Rightarrow> raw_tlv list \<Rightarrow> bool" where
  "from_tunnel rl t0 msg \<longleftrightarrow>
     (\<exists>t records plaintext t'. tunnel_reach rl t0 t
        \<and> unprotect rl records t = Some (Inr plaintext, t') \<and> parse_all plaintext = Inr msg)"

definition session_cfg :: "driver_config \<Rightarrow> session_config" where
  "session_cfg cfg = \<lparr>sc_identity = dc_identity cfg, sc_mat_vendor_id = dc_mat_vendor_id cfg,
     sc_mat_to_present = dc_mat_to_present cfg\<rparr>"

text \<open>What a success must rest on: the seed, an IMSK delivered by the inner method on one of the
  messages of the tunnel, and a Crypto-Binding verified under the key derived from both.\<close>

definition bound_success ::
  "('c, 're) rustls \<Rightarrow> hmac_sign \<Rightarrow> 'i inner_process \<Rightarrow> 'c tls_client \<Rightarrow> driver_config
     \<Rightarrow> bytes \<Rightarrow> bytes \<Rightarrow> bytes option \<Rightarrow> bool" where
  "bound_success rl sign proc t0 cfg msk emsk mat \<longleftrightarrow>
     (\<exists>seed k c ks n n'. seed_from rl t0 seed
        \<and> from_tunnel rl t0 n \<and> imsk_delivered proc k n
        \<and> absorb_inner (aws_dyn_mac sign aws_sha384) k \<lparr>ks_s_imck = seed, ks_methods = 0\<rparr> = (Inr c, ks)
        \<and> from_tunnel rl t0 n' \<and> binding_accepted (aws_dyn_mac sign aws_sha384) c n'
        \<and> derive_session_keys (aws_dyn_mac sign aws_sha384) ks = Inr (msk, emsk)
        \<and> (mat \<noteq> None \<longrightarrow> dc_identity cfg = Machine))"

definition outcome_ok ::
  "('c, 're) rustls \<Rightarrow> hmac_sign \<Rightarrow> 'i inner_process \<Rightarrow> 'c tls_client \<Rightarrow> driver_config \<Rightarrow> outcome \<Rightarrow> bool" where
  "outcome_ok rl sign proc t0 cfg oc \<longleftrightarrow>
     (case oc of Success msk emsk mat \<Rightarrow> bound_success rl sign proc t0 cfg msk emsk mat | _ \<Rightarrow> True)"

text \<open>The three stages of the driver.\<close>

definition stage1 :: "'i drv_pred" where
  "stage1 ph se pe inn \<longleftrightarrow> (ph = ExpectStart \<or> ph = Handshake) \<and> se = None \<and> pe = None"

definition stage2 ::
  "('c, 're) rustls \<Rightarrow> hmac_sign \<Rightarrow> 'i inner_process \<Rightarrow> 'c tls_client \<Rightarrow> driver_config \<Rightarrow> 'i drv_pred" where
  "stage2 rl sign proc t0 cfg ph se pe inn \<longleftrightarrow> ph = Phase2 \<and> pe = None \<and>
     (\<exists>seed i s0 ms s. se = Some s \<and> seed_from rl t0 seed
        \<and> session_new (session_cfg cfg) seed (aws_dyn_mac sign aws_sha384) i = Inr s0
        \<and> session_run proc s0 ms s \<and> (\<forall>m\<in>set ms. from_tunnel rl t0 m))"

definition stage3 ::
  "('c, 're) rustls \<Rightarrow> hmac_sign \<Rightarrow> 'i inner_process \<Rightarrow> 'c tls_client \<Rightarrow> driver_config \<Rightarrow> 'i drv_pred" where
  "stage3 rl sign proc t0 cfg ph se pe inn \<longleftrightarrow> ph = Terminated
     \<and> (case pe of None \<Rightarrow> True | Some oc \<Rightarrow> outcome_ok rl sign proc t0 cfg oc)"

definition drv_inv ::
  "('c, 're) rustls \<Rightarrow> hmac_sign \<Rightarrow> 'i inner_process \<Rightarrow> 'c tls_client \<Rightarrow> driver_config
     \<Rightarrow> ('c, 'i) teap_driver \<Rightarrow> bool" where
  "drv_inv rl sign proc t0 cfg = drv rl t0 cfg (\<lambda>ph se pe inn. stage1 ph se pe inn
     \<or> stage2 rl sign proc t0 cfg ph se pe inn \<or> stage3 rl sign proc t0 cfg ph se pe inn)"

lemma stage_phase:
  "stage1 ph se pe inn \<Longrightarrow> ph = ExpectStart \<or> ph = Handshake"
  "stage2 rl sign proc t0 cfg ph se pe inn \<Longrightarrow> ph = Phase2"
  "stage3 rl sign proc t0 cfg ph se pe inn \<Longrightarrow> ph = Terminated"
  by (auto simp: stage1_def stage2_def stage3_def)

lemma session_key_seed_Inr:
  assumes "session_key_seed rl t = Some (Inr seed, t')"
  shows "tc_established t \<and> t' = t
    \<and> rl_export rl (tc_conn t) S_IMCK_LEN EXPORTER_LABEL_SESSION_KEY_SEED = Inr seed"
  using assms by (auto simp: session_key_seed_def require_established_def op_simps split: if_splits sum.splits)

lemma ok_seed:
  assumes "\<not> tc_established t0"
  shows "okO (drv rl t0 cfg Q) (on_tunnel (session_key_seed rl)) (\<lambda>seed d. drv rl t0 cfg Q d \<and> seed_from rl t0 seed)"
proof (rule okOI)
  fix d seed d'
  assume d: "drv rl t0 cfg Q d" and s: "on_tunnel (session_key_seed rl) d = Some (Inr seed, d')"
  from s obtain t where t: "session_key_seed rl (dr_tunnel d) = Some (Inr seed, t)" "d' = d\<lparr>dr_tunnel := t\<rparr>"
    by (auto simp: on_tunnel_def zoom_Inr)
  note seed = session_key_seed_Inr [OF t(1)]
  have r: "tunnel_reach rl t0 (dr_tunnel d)" using d by (simp add: drv_def)
  from tunnel_reach_gate [OF r assms] seed have "\<exists>u. tunnel_reach rl t0 u \<and> approved rl (tc_conn u)"
    by (simp add: gate_inv_def)
  with seed r have "seed_from rl t0 seed" by (auto simp: seed_from_def)
  with d t seed show "drv rl t0 cfg Q d' \<and> seed_from rl t0 seed" by (simp add: drv_def)
qed

lemma ok_mac:
  "okO (\<lambda>d. drv rl t0 cfg Q d \<and> F) (on_tunnel (negotiated_mac rl)) (\<lambda>m d. drv rl t0 cfg Q d \<and> F \<and> m = aws_sha384)"
proof (rule okOI)
  fix d m d'
  assume d: "drv rl t0 cfg Q d \<and> F" and m: "on_tunnel (negotiated_mac rl) d = Some (Inr m, d')"
  then have "m = aws_sha384"
    by (auto simp: on_tunnel_def zoom_Inr negotiated_mac_def require_established_def op_simps
        split: if_splits option.splits)
  with okOD [OF ok_tunnels(6) _ m] d show "drv rl t0 cfg Q d' \<and> F \<and> m = aws_sha384" by blast
qed

lemma stage2_start:
  "seed_from rl t0 seed \<Longrightarrow> session_new \<lparr>sc_identity = dc_identity cfg,
     sc_mat_vendor_id = dc_mat_vendor_id cfg, sc_mat_to_present = dc_mat_to_present cfg\<rparr>
     seed (aws_dyn_mac sign aws_sha384) i = Inr s \<Longrightarrow> stage2 rl sign proc t0 cfg Phase2 (Some s) None inn"
  unfolding stage2_def session_cfg_def
  by (intro conjI exI [of _ seed] exI [of _ i] exI [of _ s] exI [of _ "[]"]) (auto intro: run_start)

lemma ok_start_phase2:
  assumes "\<not> tc_established t0"
  shows "okO (drv rl t0 cfg stage1) (start_phase2 rl sign) (\<lambda>_. drv rl t0 cfg (stage2 rl sign proc t0 cfg))"
  unfolding start_phase2_def
proof (rule ok_bind [OF ok_seed [OF assms]], rule ok_bind [OF ok_mac], rule ok_get)
  fix seed m inner
  let ?P = "\<lambda>d. drv rl t0 cfg stage1 d \<and> seed_from rl t0 seed \<and> m = aws_sha384"
  show "okO (\<lambda>d. (drv rl t0 cfg stage1 d \<and> seed_from rl t0 seed \<and> m = aws_sha384) \<and> inner = dr_inner d)
     (bindO (modifyO (dr_inner_update (\<lambda>_. None)))
       (\<lambda>_. case inner of None \<Rightarrow> throwO (DrvProtocol ''inner method already used'')
          | Some i \<Rightarrow> bindO (getO dr_cfg) (\<lambda>cfg.
              case session_new \<lparr>sc_identity = dc_identity cfg, sc_mat_vendor_id = dc_mat_vendor_id cfg,
                  sc_mat_to_present = dc_mat_to_present cfg\<rparr> seed (aws_dyn_mac sign m) i of
                Inl _ \<Rightarrow> throwO (DrvProtocol ''session key seed rejected'')
              | Inr session \<Rightarrow>
                  bindO (modifyO (dr_session_update (\<lambda>_. Some session))) (\<lambda>_.
                  bindO (modifyO (dr_phase_update (\<lambda>_. Phase2))) (\<lambda>_.
                    modifyO (dr_rounds_update (\<lambda>_. 0)))))))
     (\<lambda>_. drv rl t0 cfg (stage2 rl sign proc t0 cfg))"
  proof (rule ok_modify [where R = ?P])
    show "okO ?P (case inner of None \<Rightarrow> throwO (DrvProtocol ''inner method already used'')
          | Some i \<Rightarrow> bindO (getO dr_cfg) (\<lambda>cfg.
              case session_new \<lparr>sc_identity = dc_identity cfg, sc_mat_vendor_id = dc_mat_vendor_id cfg,
                  sc_mat_to_present = dc_mat_to_present cfg\<rparr> seed (aws_dyn_mac sign m) i of
                Inl _ \<Rightarrow> throwO (DrvProtocol ''session key seed rejected'')
              | Inr session \<Rightarrow>
                  bindO (modifyO (dr_session_update (\<lambda>_. Some session))) (\<lambda>_.
                  bindO (modifyO (dr_phase_update (\<lambda>_. Phase2))) (\<lambda>_.
                    modifyO (dr_rounds_update (\<lambda>_. 0))))))
     (\<lambda>_. drv rl t0 cfg (stage2 rl sign proc t0 cfg))"
      by (rule okOI)
        (auto simp: op_simps drv_def stage1_def session_cfg_def
          split: option.splits sum.splits intro!: stage2_start)
  qed (auto simp: drv_def stage1_def)
qed

text \<open>Any of the three stages will do for the invariant.\<close>

lemma to_inv:
  "okO P m (\<lambda>_. drv rl t0 cfg stage1) \<Longrightarrow> okO P m (\<lambda>_. drv_inv rl sign proc t0 cfg)"
  "okO P m (\<lambda>_. drv rl t0 cfg (stage2 rl sign proc t0 cfg)) \<Longrightarrow> okO P m (\<lambda>_. drv_inv rl sign proc t0 cfg)"
  "okO P m (\<lambda>_. drv rl t0 cfg (stage3 rl sign proc t0 cfg)) \<Longrightarrow> okO P m (\<lambda>_. drv_inv rl sign proc t0 cfg)"
  unfolding drv_inv_def by (erule ok_weaken; auto elim: drv_mono)+

lemma ok_counted:
  assumes "\<And>n. okO (drv rl t0 cfg Q) (f n) R"
  shows "okO (drv rl t0 cfg Q) (bindO (modifyO (\<lambda>d. d\<lparr>dr_rounds := sat_add (dr_rounds d) 1\<rparr>)) (\<lambda>_. bindO (getO dr_rounds) f)) R"
proof (rule ok_modify [where R = "drv rl t0 cfg Q"])
  show "okO (drv rl t0 cfg Q) (bindO (getO dr_rounds) f) R"
    by (rule ok_get, rule ok_weaken [OF assms]) simp_all
qed simp

lemma ok_ask:
  assumes "\<And>x. okO P (f x) R"
  shows "okO P (bindO (getO g) f) R"
  by (rule ok_get, rule ok_weaken [OF assms]) simp_all

lemma ok_handshake_message:
  assumes "\<not> tc_established t0"
  shows "okO (drv rl t0 cfg stage1) (handshake_message rl sign message) (\<lambda>_. drv_inv rl sign proc t0 cfg)"
  unfolding handshake_message_def
proof (rule ok_bind [OF ok_tunnels(2)], rule ok_ask)
  fix handshaking
  have "okO (drv rl t0 cfg stage1)
      (bindO (on_tunnel (take_outgoing rl)) (\<lambda>flight. bindO (on_tunnel (finish_handshake rl)) (\<lambda>_.
         bindO (start_phase2 rl sign) (\<lambda>_. send_tls_message flight)))) (\<lambda>_. drv_inv rl sign proc t0 cfg)"
    by (rule to_inv(2)) (intro ok_bind [OF ok_tunnels(1)] ok_bind [OF ok_tunnels(5)]
        ok_bind [OF ok_start_phase2 [OF assms, where proc = proc]] ok_send)
  then show "okO (drv rl t0 cfg stage1)
      (if handshaking then bindO (on_tunnel (take_outgoing rl)) send_tls_message
       else bindO (on_tunnel (take_outgoing rl)) (\<lambda>flight. bindO (on_tunnel (finish_handshake rl)) (\<lambda>_.
         bindO (start_phase2 rl sign) (\<lambda>_. send_tls_message flight)))) (\<lambda>_. drv_inv rl sign proc t0 cfg)"
    by (simp add: to_inv(1) ok_bind [OF ok_tunnels(1)] ok_send)
qed

lemma ok_on_handshake:
  assumes "\<not> tc_established t0"
  shows "okO (drv rl t0 cfg stage1) (on_handshake rl sign outer) (\<lambda>_. drv_inv rl sign proc t0 cfg)"
  unfolding on_handshake_def
  by (rule ok_counted)
    (auto intro!: ok_throw ok_bind [OF ok_reasm] ok_handshake_message [OF assms] to_inv(1) [OF ok_respond]
      split: option.split)

text \<open>A call of the session in Phase 2.\<close>

lemma ok_session_step:
  "okO (\<lambda>d. drv rl t0 cfg (stage2 rl sign proc t0 cfg) d \<and> from_tunnel rl t0 tlvs)
     (on_session (session_step proc tlvs))
     (\<lambda>st. case st of
        Continue _ \<Rightarrow> drv rl t0 cfg (stage2 rl sign proc t0 cfg)
      | Done _ oc \<Rightarrow> drv rl t0 cfg (\<lambda>ph se pe inn. outcome_ok rl sign proc t0 cfg oc))"
proof (rule okOI)
  fix d st d'
  assume d: "drv rl t0 cfg (stage2 rl sign proc t0 cfg) d \<and> from_tunnel rl t0 tlvs"
    and r: "on_session (session_step proc tlvs) d = Some (Inr st, d')"
  from d obtain seed i s0 ms s where s: "dr_session d = Some s" and seed: "seed_from rl t0 seed"
    and new: "session_new (session_cfg cfg) seed (aws_dyn_mac sign aws_sha384) i = Inr s0"
    and run: "session_run proc s0 ms s" and msgs: "\<forall>m\<in>set ms. from_tunnel rl t0 m" and ph: "dr_phase d = Phase2" "dr_pending d = None"
    by (auto simp: drv_def stage2_def)
  from r s obtain s' where step: "session_step proc tlvs s = Some (Inr st, s')"
    and d': "d' = d\<lparr>dr_session := Some s'\<rparr>"
    by (auto simp: on_session_def zoom_Inr)
  show "(case st of Continue _ \<Rightarrow> drv rl t0 cfg (stage2 rl sign proc t0 cfg)
      | Done _ oc \<Rightarrow> drv rl t0 cfg (\<lambda>ph se pe inn. outcome_ok rl sign proc t0 cfg oc)) d'"
  proof (cases st)
    case (Continue out)
    with run step have "session_run proc s0 (ms @ [tlvs]) s'" by (auto intro: run_step)
    moreover have "\<forall>m\<in>set (ms @ [tlvs]). from_tunnel rl t0 m" using d msgs by simp
    ultimately have "stage2 rl sign proc t0 cfg Phase2 (Some s') None (dr_inner d)"
      using seed new unfolding stage2_def by blast
    with d d' ph show ?thesis by (simp add: Continue drv_def)
  next
    case (Done send oc)
    have "outcome_ok rl sign proc t0 cfg oc"
    proof (cases oc)
      case (Success msk emsk mat)
      have inv: "sess_inv True proc (aws_dyn_mac sign aws_sha384) seed (set ms) s"
        "static (session_cfg cfg) (aws_dyn_mac sign aws_sha384) s"
        using session_run_inv [OF run new] by simp_all
      note step' = step [unfolded Done Success]
      have all: "\<forall>m\<in>insert tlvs (set ms). from_tunnel rl t0 m" using d msgs by simp
      have "mat \<noteq> None \<longrightarrow> dc_identity cfg = Machine"
        using success_ticket [OF step'] inv(2) by (auto simp: static_def session_cfg_def)
      with success_step [OF step' inv(1)] seed all show ?thesis
        unfolding outcome_ok_def bound_success_def Success outcome.case by blast
    qed (simp add: outcome_ok_def)
    with d d' show ?thesis by (simp add: Done drv_def)
  qed
qed

lemma ok_phase2_records:
  "okO (drv rl t0 cfg (stage2 rl sign proc t0 cfg)) (phase2_records rl proc records)
     (\<lambda>_. drv_inv rl sign proc t0 cfg)"
  unfolding phase2_records_def
proof (rule ok_bind [OF ok_unprotect], rule ok_lift, rule ok_bind [OF ok_pre [OF ok_session_step]])
  fix p tlvs d
  assume "parse_all p = Inr tlvs"
    and "drv rl t0 cfg (stage2 rl sign proc t0 cfg) d
      \<and> (\<exists>t t'. tunnel_reach rl t0 t \<and> unprotect rl records t = Some (Inr p, t'))"
  then show "drv rl t0 cfg (stage2 rl sign proc t0 cfg) d \<and> from_tunnel rl t0 tlvs"
    unfolding from_tunnel_def by blast
next
  fix st
  let ?bound = "\<lambda>oc ph se pe inn. outcome_ok rl sign proc t0 cfg oc"
  show "okO ((case st of Continue _ \<Rightarrow> drv rl t0 cfg (stage2 rl sign proc t0 cfg)
        | Done _ oc \<Rightarrow> drv rl t0 cfg (?bound oc)))
      (case st of Continue out \<Rightarrow> bindO (protect_tlvs rl out) send_tls_message
       | Done send outcome \<Rightarrow> bindO (protect_tlvs rl send) (\<lambda>ciphertext.
           bindO (modifyO (dr_phase_update (\<lambda>_. Terminated))) (\<lambda>_.
           bindO (modifyO (dr_pending_update (\<lambda>_. Some outcome))) (\<lambda>_. send_tls_message ciphertext))))
      (\<lambda>_. drv_inv rl sign proc t0 cfg)"
  proof (cases st)
    case (Continue out)
    then show ?thesis by (simp add: to_inv(2) ok_bind [OF ok_protect_tlvs] ok_send)
  next
    case (Done send oc)
    have "okO (drv rl t0 cfg (?bound oc))
        (bindO (modifyO (dr_phase_update (\<lambda>_. Terminated))) (\<lambda>_.
         bindO (modifyO (dr_pending_update (\<lambda>_. Some oc))) (\<lambda>_. send_tls_message ct)))
        (\<lambda>_. drv_inv rl sign proc t0 cfg)" for ct
    proof (rule ok_modify [where R = "drv rl t0 cfg (\<lambda>ph se pe inn. ph = Terminated \<and> outcome_ok rl sign proc t0 cfg oc)"],
        simp add: drv_def, rule ok_modify [where R = "drv rl t0 cfg (stage3 rl sign proc t0 cfg)"],
        simp add: drv_def stage3_def)
    qed (rule to_inv(3) [OF ok_send])
    then show ?thesis by (simp only: Done step.case) (rule ok_bind [OF ok_protect_tlvs])
  qed
qed

lemma ok_on_phase2:
  "okO (drv rl t0 cfg (stage2 rl sign proc t0 cfg)) (on_phase2 rl proc outer)
     (\<lambda>_. drv_inv rl sign proc t0 cfg)"
  unfolding on_phase2_def
  by (rule ok_counted)
    (auto intro!: ok_throw ok_bind [OF ok_reasm] ok_phase2_records to_inv(2) [OF ok_respond] split: option.split)

section \<open>Answers\<close>

text \<open>Whatever the driver answers to a request is a TEAP Response with the identifier it holds.\<close>

definition answer :: "u8 \<Rightarrow> driver_reply \<Rightarrow> bool" where
  "answer i r \<longleftrightarrow> (\<exists>bs m. r = DrvRespond bs \<and> eap_encode (teap_packet Response i (outer_build m)) = Inr bs)"

definition answers :: "('c, 're, 'i, driver_reply) driver_op \<Rightarrow> bool" where
  "answers m \<longleftrightarrow> (\<forall>i. okO (\<lambda>d. dr_last_id d = i) m (\<lambda>r d. dr_last_id d = i \<and> answer i r))"

definition keeps_id :: "('c, 're, 'i, 'a) driver_op \<Rightarrow> bool" where
  "keeps_id m \<longleftrightarrow> (\<forall>i. okO (\<lambda>d. dr_last_id d = i) m (\<lambda>_ d. dr_last_id d = i))"

named_theorems answering \<open>operations that answer, and operations that keep the identifier\<close>

lemma answers_bind [answering]: "keeps_id m \<Longrightarrow> (\<And>x. answers (f x)) \<Longrightarrow> answers (bindO m f)"
  unfolding answers_def keeps_id_def by (blast intro: ok_bind)

lemma keeps_id_bind [answering]: "keeps_id m \<Longrightarrow> (\<And>x. keeps_id (f x)) \<Longrightarrow> keeps_id (bindO m f)"
  unfolding keeps_id_def by (blast intro: ok_bind)

lemma keeps_id_prims [answering]:
  "keeps_id (getO g)" "keeps_id (liftO h r)" "keeps_id (throwO e)" "keeps_id (on_tunnel t)"
  "keeps_id (on_reasm outer)" "keeps_id (on_session s)"
  "keeps_id (modifyO (dr_queue_update q))" "keeps_id (modifyO (dr_phase_update p))"
  "keeps_id (modifyO (dr_pending_update o'))" "keeps_id (modifyO (dr_inner_update n))"
  "keeps_id (modifyO (dr_session_update se))" "keeps_id (modifyO (dr_rounds_update k))"
  "keeps_id (modifyO (\<lambda>d. d\<lparr>dr_rounds := sat_add (dr_rounds d) 1\<rparr>))"
  "keeps_id (modifyO (\<lambda>d. d\<lparr>dr_rounds := sat_add (dr_rounds d) (Suc 0)\<rparr>))"
  by (auto simp: keeps_id_def okO_def getO_def liftO_def throwO_def modifyO_def on_tunnel_def
      on_reasm_def on_session_def zoom_Inr split: sum.splits option.splits)

lemma answers_throw [answering]: "answers (throwO e)"
  by (simp add: answers_def okO_def throwO_def)

lemma answers_respond [answering]: "answers (respond outer)"
  by (auto simp: answers_def okO_def respond_def answer_def teap_packet_def op_simps split: sum.splits)

lemma answers_send [answering]: "answers (send_tls_message msg)" "answers next_out_fragment"
  unfolding send_tls_message_def next_out_fragment_def
  by (auto intro!: answering split: list.split)

lemma keeps_id_parts [answering]: "keeps_id (protect_tlvs rl tlvs)" "keeps_id (start_phase2 rl sign)"
  unfolding protect_tlvs_def start_phase2_def by (auto intro!: answering split: option.split sum.split)

lemma answers_handlers [answering]:
  "answers (on_handshake rl sign outer)" "answers (on_phase2 rl proc outer)"
  unfolding on_handshake_def handshake_message_def on_phase2_def phase2_records_def
  by (auto intro!: answering split: option.split step.split)

lemma answersD:
  "answers m \<Longrightarrow> m d = Some (Inr r, d') \<Longrightarrow> dr_last_id d' = dr_last_id d \<and> answer (dr_last_id d) r"
  by (auto simp: answers_def okO_def)

lemma on_outer_answer:
  assumes "on_outer rl sign proc outer d = Some (Inr r, d')"
  shows "answer (dr_last_id d) r"
proof (cases "is_ack outer \<and> dr_queue d \<noteq> []")
  case True
  with assms show ?thesis
    by (simp add: on_outer_def) (drule answersD [OF answers_send(2)], simp)
next
  case False
  note go = assms [unfolded on_outer_def if_not_P [OF False]]
  have "answers (bindO (modifyO (dr_phase_update (\<lambda>_. Handshake))) (\<lambda>_.
      bindO (on_tunnel (take_outgoing rl)) send_tls_message))"
    by (intro answering)
  note cases = answersD [OF this] answersD [OF answers_handlers(1)] answersD [OF answers_handlers(2)]
  show ?thesis
    by (cases "dr_phase d") (use go in \<open>auto simp: throwO_def split: if_splits dest: cases\<close>)
qed

lemma on_request_Inr:
  "on_request rl sign proc pkt d = Some (Inr r, d') \<longleftrightarrow> ep_type pkt = Some TEAP_EAP_TYPE \<and>
     (\<exists>outer. outer_parse (ep_data pkt) = Inr outer
        \<and> on_outer rl sign proc outer (d\<lparr>dr_last_id := ep_id pkt\<rparr>) = Some (Inr r, d'))"
  by (auto simp: on_request_def bindO_def modifyO_def throwO_def liftO_def split: sum.splits)

lemma on_request_answer:
  assumes "on_request rl sign proc pkt d = Some (Inr r, d')"
  shows "answer (ep_id pkt) r"
  using assms on_outer_answer unfolding on_request_Inr by fastforce

section \<open>A step and its outcome\<close>

lemma on_outer_inv:
  assumes t0: "\<not> tc_established t0" and d: "drv_inv rl sign proc t0 cfg d"
    and go: "on_outer rl sign proc outer d = Some (Inr r, d')"
  shows "drv_inv rl sign proc t0 cfg d'"
proof (cases "is_ack outer \<and> dr_queue d \<noteq> []")
  case True
  with go d show ?thesis unfolding drv_inv_def on_outer_def by (auto intro: okOD [OF ok_next])
next
  case False
  note go' = go [unfolded on_outer_def if_not_P [OF False]]
  have start: "okO (drv rl t0 cfg stage1)
      (bindO (modifyO (dr_phase_update (\<lambda>_. Handshake))) (\<lambda>_. bindO (on_tunnel (take_outgoing rl)) send_tls_message))
      (\<lambda>_. drv_inv rl sign proc t0 cfg)"
    by (rule to_inv(1), rule ok_modify [where R = "drv rl t0 cfg stage1"])
      (auto simp: drv_def stage1_def intro: ok_bind [OF ok_tunnels(1)] ok_send)
  show ?thesis
  proof (cases "dr_phase d")
    case ExpectStart
    then have "drv rl t0 cfg stage1 d" using d by (auto simp: drv_inv_def drv_def dest: stage_phase)
    with ExpectStart go' okOD [OF start] show ?thesis
      by (auto simp: throwO_def split: if_splits)
  next
    case Handshake
    then have "drv rl t0 cfg stage1 d" using d by (auto simp: drv_inv_def drv_def dest: stage_phase)
    from okOD [OF ok_on_handshake [OF t0] this] Handshake go' show ?thesis by auto
  next
    case Phase2
    then have "drv rl t0 cfg (stage2 rl sign proc t0 cfg) d"
      using d by (auto simp: drv_inv_def drv_def dest: stage_phase)
    from okOD [OF ok_on_phase2 this] Phase2 go' show ?thesis by auto
  next
    case Terminated
    with go' show ?thesis by (auto simp: throwO_def)
  qed
qed

lemma on_request_inv:
  assumes "\<not> tc_established t0" and "drv_inv rl sign proc t0 cfg d"
    and "on_request rl sign proc pkt d = Some (Inr r, d')"
  shows "drv_inv rl sign proc t0 cfg d'"
  using assms on_outer_inv [OF assms(1), of rl sign proc cfg "d\<lparr>dr_last_id := ep_id pkt\<rparr>"]
  by (auto simp: on_request_Inr drv_inv_def)

lemma driver_step_request:
  assumes "driver_step rl sign proc req d = Some (Inr (DrvRespond bs), d')"
  obtains pkt where "eap_decode req = Inr pkt" "ep_code pkt = Request"
    "on_request rl sign proc pkt d = Some (Inr (DrvRespond bs), d')"
  using assms
  by (auto simp: driver_step_def op_simps split: sum.splits eap_code.splits option.splits)

lemma driver_step_finished:
  assumes "driver_step rl sign proc req d = Some (Inr (Finished send oc), d')"
  obtains pkt where "eap_decode req = Inr pkt" "send = None"
    "(ep_code pkt = EapFailure \<and> oc = Failure ServerFailure) \<or> (ep_code pkt = EapSuccess \<and> dr_pending d = Some oc)"
    "d' = d\<lparr>dr_phase := Terminated, dr_pending := None\<rparr>"
proof -
  obtain pkt where pkt: "eap_decode req = Inr pkt"
    using assms by (auto simp: driver_step_def op_simps split: sum.splits)
  have "on_request rl sign proc pkt d \<noteq> Some (Inr (Finished send oc), d')"
    using on_request_answer [of rl sign proc pkt d "Finished send oc" d'] by (auto simp: answer_def)
  with pkt assms show thesis
    by (intro that [of pkt]) (auto simp: driver_step_def op_simps split: eap_code.splits option.splits)
qed

section \<open>Runs of a driver whose caller stops at the first error\<close>

text \<open>
  \<open>driver_run d0 n d\<close>: from \<open>d0\<close>, requests answered with responses led to \<open>d\<close>; \<open>n\<close> counts those
  that did not merely draw the next fragment of a flight already under way.
\<close>

definition draws_fragment :: "('c, 'i) teap_driver \<Rightarrow> bytes \<Rightarrow> bool" where
  "draws_fragment d req \<longleftrightarrow> (\<exists>pkt outer. eap_decode req = Inr pkt \<and> outer_parse (ep_data pkt) = Inr outer
     \<and> is_ack outer \<and> dr_queue d \<noteq> [])"

inductive driver_run ::
  "('c, 're) rustls \<Rightarrow> hmac_sign \<Rightarrow> 'i inner_process \<Rightarrow> ('c, 'i) teap_driver \<Rightarrow> nat
     \<Rightarrow> ('c, 'i) teap_driver \<Rightarrow> bool"
  for rl sign proc d0 where
  drun_start: "driver_run rl sign proc d0 0 d0"
| drun_step: "driver_run rl sign proc d0 n d \<Longrightarrow>
    driver_step rl sign proc req d = Some (Inr (DrvRespond bs), d') \<Longrightarrow>
    driver_run rl sign proc d0 (if draws_fragment d req then n else Suc n) d'"

lemma driver_new_inv:
  assumes "driver_new rb cfg roots inner = Inr d0"
  shows "drv_inv rl sign proc (dr_tunnel d0) cfg d0" "\<not> tc_established (dr_tunnel d0)"
    "dr_phase d0 = ExpectStart" "dr_pending d0 = None" "dr_rounds d0 = 0"
  using assms
  by (auto simp: driver_new_def drv_inv_def drv_def stage1_def tls_connect_def
      split: sum.splits option.splits intro: reach_start)

lemma driver_run_inv:
  assumes "driver_run rl sign proc d0 n d" and "\<not> tc_established t0" and "drv_inv rl sign proc t0 cfg d0"
  shows "drv_inv rl sign proc t0 cfg d"
  using assms(1)
proof induction
  case (drun_step n d req bs d')
  from drun_step(2) show ?case
    by (rule driver_step_request) (rule on_request_inv [OF assms(2) drun_step.IH])
qed (rule assms(3))

lemma driver_finished_ok:
  assumes "drv_inv rl sign proc t0 cfg d"
    and "driver_step rl sign proc req d = Some (Inr (Finished send oc), d')"
  shows "outcome_ok rl sign proc t0 cfg oc"
  using assms(2)
proof (rule driver_step_finished)
  fix pkt
  assume "(ep_code pkt = EapFailure \<and> oc = Failure ServerFailure)
      \<or> (ep_code pkt = EapSuccess \<and> dr_pending d = Some oc)"
  with assms(1) show ?thesis
    by (auto simp: outcome_ok_def drv_inv_def drv_def stage1_def stage2_def stage3_def)
qed

section \<open>A failure is final\<close>

definition dead :: "('c, 'i) teap_driver \<Rightarrow> bool" where
  "dead d \<longleftrightarrow> dr_phase d = Terminated \<and> dr_pending d = None"

lemma dead_respond: "respond outer d = Some (r, d') \<Longrightarrow> d' = d"
  by (auto simp: respond_def op_simps split: sum.splits)

lemma dead_outer:
  assumes "dead d" and "on_outer rl sign proc outer d = Some (r, d')"
  shows "dead d'"
proof -
  have "next_out_fragment d = Some (r, d') \<or> d' = d"
    using assms by (auto simp: on_outer_def dead_def throwO_def split: if_splits)
  then show ?thesis
    using assms(1)
    by (auto simp: next_out_fragment_def bindO_def getO_def modifyO_def dead_def
        split: list.splits dest!: dead_respond)
qed

lemma dead_step:
  assumes "dead d" and "driver_step rl sign proc req d = Some (r, d')"
  shows "dead d' \<and> (\<forall>send oc. r = Inr (Finished send oc) \<longrightarrow> oc = Failure ServerFailure)"
proof -
  obtain pkt where "eap_decode req = Inr pkt \<or> d' = d \<and> (\<exists>e. r = Inl e)"
    using assms(2) by (auto simp: driver_step_def op_simps split: sum.splits)
  have "dead d'"
  proof (cases "eap_decode req")
    case (Inl e)
    with assms show ?thesis by (simp add: driver_step_def op_simps)
  next
    case (Inr pkt)
    show ?thesis
    proof (cases "ep_code pkt = Request")
      case True
      then have "on_request rl sign proc pkt d = Some (r, d')"
        using assms(2) Inr by (simp add: driver_step_def op_simps)
      then have "d' = d \<or> d' = d\<lparr>dr_last_id := ep_id pkt\<rparr> \<or>
          (\<exists>outer. on_outer rl sign proc outer (d\<lparr>dr_last_id := ep_id pkt\<rparr>) = Some (r, d'))"
        by (auto simp: on_request_def bindO_def modifyO_def throwO_def liftO_def split: if_splits sum.splits)
      moreover have "dead (d\<lparr>dr_last_id := ep_id pkt\<rparr>)" using assms(1) by (simp add: dead_def)
      ultimately show ?thesis using assms(1) dead_outer by blast
    next
      case False
      with assms Inr show ?thesis
        by (auto simp: driver_step_def op_simps dead_def split: eap_code.splits)
    qed
  qed
  moreover have "r = Inr (Finished send oc) \<Longrightarrow> oc = Failure ServerFailure" for send oc
    using assms by (auto simp: dead_def elim!: driver_step_finished)
  ultimately show ?thesis by blast
qed

text \<open>Any sequence of calls, whatever they return.\<close>

inductive driver_calls ::
  "('c, 're) rustls \<Rightarrow> hmac_sign \<Rightarrow> 'i inner_process \<Rightarrow> ('c, 'i) teap_driver \<Rightarrow> ('c, 'i) teap_driver \<Rightarrow> bool"
  for rl sign proc d0 where
  calls_start: "driver_calls rl sign proc d0 d0"
| calls_step: "driver_calls rl sign proc d0 d \<Longrightarrow> driver_step rl sign proc req d = Some (r, d') \<Longrightarrow>
    driver_calls rl sign proc d0 d'"

lemma driver_calls_dead: "driver_calls rl sign proc d0 d \<Longrightarrow> dead d0 \<Longrightarrow> dead d"
  by (induction rule: driver_calls.induct) (auto dest: dead_step)

lemma failure_packet_dead:
  assumes "eap_decode req = Inr pkt" and "ep_code pkt = EapFailure"
  shows "\<exists>d'. driver_step rl sign proc req d = Some (Inr (Finished None (Failure ServerFailure)), d') \<and> dead d'"
  using assms by (simp add: driver_step_def op_simps dead_def)

section \<open>The number of rounds\<close>

text \<open>The parts of a handler that leave the phase and the round counter alone.\<close>

definition steady :: "('c, 're, 'i, 'a) driver_op \<Rightarrow> bool" where
  "steady m \<longleftrightarrow> (\<forall>d x d'. m d = Some (Inr x, d') \<longrightarrow> dr_phase d' = dr_phase d \<and> dr_rounds d' = dr_rounds d)"

named_theorems steadies \<open>operations that leave the phase and the counter alone\<close>

lemma steady_bind [steadies]: "steady m \<Longrightarrow> (\<And>x. steady (f x)) \<Longrightarrow> steady (bindO m f)"
  unfolding steady_def bindO_Inr by metis

lemma steady_prims [steadies]:
  "steady (getO g)" "steady (liftO h r)" "steady (throwO e)" "steady (returnO x)" "steady (on_tunnel t)"
  "steady (on_reasm outer)" "steady (on_session s)" "steady (modifyO (dr_queue_update q))"
  by (auto simp: steady_def getO_def liftO_def throwO_def returnO_def modifyO_def on_tunnel_def
      on_reasm_def on_session_def zoom_Inr split: sum.splits option.splits)

lemma steady_send [steadies]:
  "steady (respond outer)" "steady (send_tls_message msg)" "steady next_out_fragment" "steady (protect_tlvs rl tlvs)"
proof -
  show r: "steady (respond outer)" for outer :: teap_outer
    unfolding respond_def by (intro steadies)
  show "steady (send_tls_message msg)" "steady next_out_fragment" "steady (protect_tlvs rl tlvs)"
    unfolding send_tls_message_def next_out_fragment_def protect_tlvs_def
    by (auto intro!: steadies r split: list.split)
qed

lemma start_phase2_rounds:
  "start_phase2 rl sign d = Some (Inr u, d') \<Longrightarrow> dr_phase d' = Phase2 \<and> dr_rounds d' = 0"
  by (auto simp: start_phase2_def op_simps split: option.splits sum.splits prod.splits)

lemma steadyD: "steady m \<Longrightarrow> m d = Some (Inr x, d') \<Longrightarrow> dr_phase d' = dr_phase d \<and> dr_rounds d' = dr_rounds d"
  by (simp add: steady_def)

lemma handshake_message_rounds:
  fixes rl :: "('c, 're) rustls" and d :: "('c, 'i) teap_driver"
  assumes "handshake_message rl sign message d = Some (Inr r, d')"
  shows "(dr_phase d' = dr_phase d \<and> dr_rounds d' = dr_rounds d) \<or> (dr_phase d' = Phase2 \<and> dr_rounds d' = 0)"
proof -
  from assms obtain d1 where d1: "on_tunnel (feed_incoming rl message) d = Some (Inr (), d1)"
    and go: "(if tls_is_handshaking rl (dr_tunnel d1) then bindO (on_tunnel (take_outgoing rl)) send_tls_message
       else bindO (on_tunnel (take_outgoing rl)) (\<lambda>flight. bindO (on_tunnel (finish_handshake rl)) (\<lambda>_.
         bindO (start_phase2 rl sign) (\<lambda>_. send_tls_message flight)))) d1 = Some (Inr r, d')"
    by (auto simp: handshake_message_def bindO_Inr getO_def)
  have s1: "dr_phase d1 = dr_phase d \<and> dr_rounds d1 = dr_rounds d"
    by (rule steadyD [OF steady_prims(5) d1])
  show ?thesis
  proof (cases "tls_is_handshaking rl (dr_tunnel d1)")
    case True
    have "steady (bindO (on_tunnel (take_outgoing rl)) send_tls_message)" by (intro steadies)
    moreover have "bindO (on_tunnel (take_outgoing rl)) send_tls_message d1 = Some (Inr r, d')"
      using go True by simp
    ultimately show ?thesis using s1 by (auto dest: steadyD)
  next
    case False
    with go obtain d2 d3 flight where "start_phase2 rl sign d2 = Some (Inr (), d3)"
      and "(send_tls_message flight :: ('c, 're, 'i, driver_reply) driver_op) d3 = Some (Inr r, d')"
      by (auto simp: bindO_Inr)
    then show ?thesis using start_phase2_rounds steadyD [OF steady_send(2)] by metis
  qed
qed

lemma phase2_records_rounds:
  fixes rl :: "('c, 're) rustls" and d :: "('c, 'i) teap_driver"
  assumes "phase2_records rl proc records d = Some (Inr r, d')"
  shows "(dr_phase d' = dr_phase d \<and> dr_rounds d' = dr_rounds d) \<or> dr_phase d' = Terminated"
proof -
  let ?rest = "\<lambda>tlvs. bindO (on_session (session_step proc tlvs)) (\<lambda>st. case st of
      Continue out \<Rightarrow> bindO (protect_tlvs rl out) send_tls_message
    | Done send outcome \<Rightarrow> bindO (protect_tlvs rl send) (\<lambda>ciphertext.
        bindO (modifyO (dr_phase_update (\<lambda>_. Terminated))) (\<lambda>_.
        bindO (modifyO (dr_pending_update (\<lambda>_. Some outcome))) (\<lambda>_. send_tls_message ciphertext))))"
  from assms obtain p d1 where u: "on_tunnel (unprotect rl records) d = Some (Inr p, d1)"
    and 1: "bindO (liftO DrvDecode (parse_all p)) ?rest d1 = Some (Inr r, d')"
    by (auto simp: phase2_records_def bindO_Inr [of "on_tunnel (unprotect rl records)"])
  then obtain tlvs where "?rest tlvs d1 = Some (Inr r, d')"
    by (cases "parse_all p") (auto simp: bindO_def [of "liftO DrvDecode _"] liftO_def)
  then obtain st d3 where
    s: "(on_session (session_step proc tlvs) :: ('c, 're, 'i, step) driver_op) d1 = Some (Inr st, d3)"
    and go: "(case st of Continue out \<Rightarrow> bindO (protect_tlvs rl out) send_tls_message
      | Done send outcome \<Rightarrow> bindO (protect_tlvs rl send) (\<lambda>ciphertext.
          bindO (modifyO (dr_phase_update (\<lambda>_. Terminated))) (\<lambda>_.
          bindO (modifyO (dr_pending_update (\<lambda>_. Some outcome))) (\<lambda>_. send_tls_message ciphertext)))) d3
      = Some (Inr r, d')"
    by (auto simp: bindO_Inr [of "on_session (session_step proc tlvs)"])
  with u have d3: "dr_phase d3 = dr_phase d \<and> dr_rounds d3 = dr_rounds d"
    using steadyD [OF steady_prims(5)] steadyD [OF steady_prims(7)] by metis
  show ?thesis
  proof (cases st)
    case (Continue out)
    have "steady (bindO (protect_tlvs rl out) send_tls_message)" by (intro steadies)
    with go Continue d3 show ?thesis by (auto dest: steadyD)
  next
    case (Done send oc)
    with go obtain d4 ct where
      "(send_tls_message ct :: ('c, 're, 'i, driver_reply) driver_op) (d4\<lparr>dr_phase := Terminated, dr_pending := Some oc\<rparr>) = Some (Inr r, d')"
      by (auto simp: bindO_Inr modifyO_def)
    from steadyD [OF steady_send(2) this] show ?thesis by simp
  qed
qed

text \<open>How many more rounds the driver grants, and that every round costs one.\<close>

definition budget :: "('c, 'i) teap_driver \<Rightarrow> nat" where
  "budget d = (case dr_phase d of
      ExpectStart \<Rightarrow> 1 + MAX_HANDSHAKE_ROUNDS + MAX_PHASE2_ROUNDS
    | Handshake \<Rightarrow> MAX_HANDSHAKE_ROUNDS + MAX_PHASE2_ROUNDS - dr_rounds d
    | Phase2 \<Rightarrow> MAX_PHASE2_ROUNDS - dr_rounds d
    | Terminated \<Rightarrow> 0)"

lemma outer_budget:
  fixes rl :: "('c, 're) rustls" and d :: "('c, 'i) teap_driver"
  assumes "on_outer rl sign proc outer d = Some (Inr r, d')"
    and "\<not> (is_ack outer \<and> dr_queue d \<noteq> [])"
  shows "Suc (budget d') \<le> budget d"
proof (cases "dr_phase d")
  case ExpectStart
  have "steady (bindO (on_tunnel (take_outgoing rl)) send_tls_message)" by (intro steadies)
  moreover have "bindO (on_tunnel (take_outgoing rl)) send_tls_message (d\<lparr>dr_phase := Handshake\<rparr>) = Some (Inr r, d')"
    using assms ExpectStart by (auto simp: on_outer_def throwO_def bindO_def modifyO_def split: if_splits)
  ultimately have "dr_phase d' = Handshake" using steadyD by fastforce
  with ExpectStart show ?thesis by (simp add: budget_def MAX_HANDSHAKE_ROUNDS_def MAX_PHASE2_ROUNDS_def)
next
  case Handshake
  let ?d = "d\<lparr>dr_rounds := sat_add (dr_rounds d) 1\<rparr>"
  have h: "on_handshake rl sign outer d = Some (Inr r, d')" using assms Handshake by (auto simp: on_outer_def)
  then have le: "sat_add (dr_rounds d) 1 \<le> MAX_HANDSHAKE_ROUNDS"
    by (auto simp: on_handshake_def bindO_def modifyO_def getO_def throwO_def split: if_splits)
  then have n: "sat_add (dr_rounds d) 1 = Suc (dr_rounds d)" "dr_rounds d < 64"
    by (auto simp: MAX_HANDSHAKE_ROUNDS_def sat_add_def usize_max_def min_def split: if_splits)
  from h le obtain d1 x where
    x: "(on_reasm outer :: ('c, 're, 'i, bytes option) driver_op) ?d = Some (Inr x, d1)"
    and go: "(case x of None \<Rightarrow> respond (outer_ack TEAP_VERSION) | Some message \<Rightarrow> handshake_message rl sign message) d1
      = Some (Inr r, d')"
    by (auto simp: on_handshake_def bindO_Inr modifyO_def getO_def simp del: TEAP_VERSION_def)
  have d1: "dr_phase d1 = Handshake \<and> dr_rounds d1 = Suc (dr_rounds d)"
    using steadyD [OF steady_prims(6) x] Handshake n by simp
  have "(dr_phase d' = Handshake \<and> dr_rounds d' = Suc (dr_rounds d)) \<or> (dr_phase d' = Phase2 \<and> dr_rounds d' = 0)"
    using go d1 steadyD [OF steady_send(1)] handshake_message_rounds
    by (cases x) (fastforce split: option.splits)+
  with Handshake n show ?thesis
    by (auto simp: budget_def MAX_HANDSHAKE_ROUNDS_def MAX_PHASE2_ROUNDS_def)
next
  case Phase2
  let ?d = "d\<lparr>dr_rounds := sat_add (dr_rounds d) 1\<rparr>"
  have h: "on_phase2 rl proc outer d = Some (Inr r, d')" using assms Phase2 by (auto simp: on_outer_def)
  then have le: "sat_add (dr_rounds d) 1 \<le> MAX_PHASE2_ROUNDS"
    by (auto simp: on_phase2_def bindO_def modifyO_def getO_def throwO_def split: if_splits)
  then have n: "sat_add (dr_rounds d) 1 = Suc (dr_rounds d)" "dr_rounds d < 64"
    by (auto simp: MAX_PHASE2_ROUNDS_def sat_add_def usize_max_def min_def split: if_splits)
  from h le obtain d1 x where
    x: "(on_reasm outer :: ('c, 're, 'i, bytes option) driver_op) ?d = Some (Inr x, d1)"
    and go: "(case x of None \<Rightarrow> respond (outer_ack TEAP_VERSION) | Some records \<Rightarrow> phase2_records rl proc records) d1
      = Some (Inr r, d')"
    by (auto simp: on_phase2_def bindO_Inr modifyO_def getO_def simp del: TEAP_VERSION_def)
  have d1: "dr_phase d1 = Phase2 \<and> dr_rounds d1 = Suc (dr_rounds d)"
    using steadyD [OF steady_prims(6) x] Phase2 n by simp
  have "(dr_phase d' = Phase2 \<and> dr_rounds d' = Suc (dr_rounds d)) \<or> dr_phase d' = Terminated"
    using go d1 steadyD [OF steady_send(1)] phase2_records_rounds
    by (cases x) (fastforce split: option.splits)+
  with Phase2 n show ?thesis by (auto simp: budget_def MAX_PHASE2_ROUNDS_def)
next
  case Terminated
  with assms show ?thesis by (auto simp: on_outer_def throwO_def)
qed

lemma budget_last_id [simp]: "budget (d\<lparr>dr_last_id := i\<rparr>) = budget d"
  by (simp add: budget_def split: driver_phase.split)

lemma driver_run_budget:
  "driver_run rl sign proc d0 n d \<Longrightarrow> n + budget d \<le> budget d0"
proof (induction rule: driver_run.induct)
  case (drun_step n d req bs d')
  from drun_step(2) obtain pkt outer where pkt: "eap_decode req = Inr pkt" "outer_parse (ep_data pkt) = Inr outer"
    and o': "on_outer rl sign proc outer (d\<lparr>dr_last_id := ep_id pkt\<rparr>) = Some (Inr (DrvRespond bs), d')"
    by (auto elim!: driver_step_request simp: on_request_Inr)
  have drawn: "draws_fragment d req \<longleftrightarrow> is_ack outer \<and> dr_queue d \<noteq> []"
    using pkt by (simp add: draws_fragment_def)
  show ?case
  proof (cases "draws_fragment d req")
    case True
    with o' drawn have "dr_phase d' = dr_phase d \<and> dr_rounds d' = dr_rounds d"
      by (auto simp: on_outer_def dest: steadyD [OF steady_send(3)])
    then have "budget d' = budget d" by (cases "dr_phase d") (simp_all add: budget_def)
    with True drun_step.IH show ?thesis by simp
  next
    case False
    with outer_budget [OF o'] drawn drun_step.IH show ?thesis by simp
  qed
qed simp

end
