(* ===== verification/Driver_Run.thy ===== *)
theory Driver_Run
  imports Driver
begin

text \<open>
  What the TEAP driver guarantees, over crates/supplicant/src/driver.rs as modelled in \<open>Driver\<close>:
  when it succeeds, that it always answers within its bounds, that a failure is final, and that an
  honest server brings it to success. The second section runs the driver once from \<open>driver_new\<close> to
  \<open>Finished\<close> over the plain connection of \<open>Fips_Tls\<close>.
\<close>

section \<open>Sending and receiving\<close>

lemma teap_encodes:
  "length (to_data m) \<le> 65500 \<Longrightarrow> \<exists>bs. eap_encode (teap_packet c i (outer_build m)) = Inr bs"
  using length_outer_build [of m] by (simp add: eap_encode_def teap_packet_def Let_def)

lemma respond_sends:
  fixes d :: "('c, 'i) teap_driver"
  shows "length (to_data m) \<le> 65500 \<Longrightarrow>
    \<exists>bs. (respond m :: ('c, 're, 'i, driver_reply) driver_op) d = Some (Inr (DrvRespond bs), d)"
  using teap_encodes [of m Response "dr_last_id d"]
  by (auto simp: respond_def teap_packet_def op_simps simp del: TEAP_EAP_TYPE_def)

text \<open>With a fragment size that leaves room for the headers, sending never fails.\<close>

lemma send_sends:
  fixes d :: "('c, 'i) teap_driver"
  assumes "dc_max_fragment (dr_cfg d) \<le> 65500"
  shows "\<exists>bs q. (send_tls_message msg :: ('c, 're, 'i, driver_reply) driver_op) d
    = Some (Inr (DrvRespond bs), d\<lparr>dr_queue := q\<rparr>)"
proof (cases "fragment msg (dc_max_fragment (dr_cfg d)) TEAP_VERSION")
  case Nil
  have "length (to_data (outer_ack TEAP_VERSION)) \<le> 65500" by (simp add: outer_ack_def)
  from respond_sends [OF this, of "d\<lparr>dr_queue := []\<rparr>"] obtain bs where
    "(respond :: teap_outer \<Rightarrow> ('c, 're, 'i, driver_reply) driver_op) (outer_ack TEAP_VERSION) (d\<lparr>dr_queue := []\<rparr>) = Some (Inr (DrvRespond bs), d\<lparr>dr_queue := []\<rparr>)"
    by blast
  with Nil have "(send_tls_message msg :: ('c, 're, 'i, driver_reply) driver_op) d = Some (Inr (DrvRespond bs), d\<lparr>dr_queue := []\<rparr>)"
    by (simp add: send_tls_message_def bindO_def getO_def modifyO_def del: TEAP_VERSION_def)
  then show ?thesis by blast
next
  case (Cons m rest)
  then have "length (to_data m) \<le> max (dc_max_fragment (dr_cfg d)) 1"
    using fragment_small by (metis list.set_intros(1))
  then have "length (to_data m) \<le> 65500" using assms by simp
  from respond_sends [OF this, of "d\<lparr>dr_queue := rest\<rparr>"] obtain bs where
    "(respond m :: ('c, 're, 'i, driver_reply) driver_op) (d\<lparr>dr_queue := rest\<rparr>) = Some (Inr (DrvRespond bs), d\<lparr>dr_queue := rest\<rparr>)"
    by blast
  with Cons have "(send_tls_message msg :: ('c, 're, 'i, driver_reply) driver_op) d = Some (Inr (DrvRespond bs), d\<lparr>dr_queue := rest\<rparr>)"
    by (simp add: send_tls_message_def bindO_def getO_def modifyO_def del: TEAP_VERSION_def)
  then show ?thesis by blast
qed

text \<open>A request carrying a TEAP message is handled as that message.\<close>

lemma request_handled:
  assumes "eap_encode (teap_packet Request i (outer_build m)) = Inr req" and "outer_wf m"
  shows "driver_step rl sign proc req d = on_outer rl sign proc m (d\<lparr>dr_last_id := i\<rparr>)"
proof -
  have "eap_wf (teap_packet Request i (outer_build m))"
    by (simp add: eap_wf_def eap_code_wf_def teap_packet_def)
  with assms show ?thesis
    by (simp add: driver_step_def on_request_def eap_decode_encode teap_packet_def outer_parse_build
        bindO_def liftO_def modifyO_def del: TEAP_EAP_TYPE_def)
qed

section \<open>A whole message in Phase 2\<close>

text \<open>A driver in Phase 2 that holds no fragment, about to receive \<open>records\<close>.\<close>

definition awaits :: "('c, 'i) teap_driver \<Rightarrow> 'i teap_session \<Rightarrow> bytes \<Rightarrow> bool" where
  "awaits d s records \<longleftrightarrow> dr_phase d = Phase2 \<and> dr_session d = Some s
     \<and> dr_rounds d < MAX_PHASE2_ROUNDS \<and> dr_reasm d = reasm_new MAX_TLS_MESSAGE
     \<and> records \<noteq> [] \<and> length records \<le> MAX_TLS_MESSAGE"

lemma phase2_enters:
  fixes rl :: "('c, 're) rustls" and d :: "('c, 'i) teap_driver"
  assumes "awaits d s records"
  shows "on_outer rl sign proc (whole records) d
     = phase2_records rl proc records (d\<lparr>dr_rounds := Suc (dr_rounds d)\<rparr>)"
proof -
  have n: "sat_add (dr_rounds d) 1 = Suc (dr_rounds d)" "\<not> MAX_PHASE2_ROUNDS < Suc (dr_rounds d)"
    using assms by (auto simp: awaits_def MAX_PHASE2_ROUNDS_def sat_add_def usize_max_def)
  have "(on_reasm (whole records) :: ('c, 're, 'i, bytes option) driver_op) (d\<lparr>dr_rounds := Suc (dr_rounds d)\<rparr>)
      = Some (Inr (Some records), d\<lparr>dr_rounds := Suc (dr_rounds d)\<rparr>)"
    using assms reasm_whole [of records MAX_TLS_MESSAGE]
    by (cases d) (simp add: on_reasm_def zoomO_def pureO_def awaits_def)
  with n assms show ?thesis
    by (simp add: on_outer_def awaits_def on_phase2_def bindO_def modifyO_def getO_def
        del: One_nat_def)
qed

lemma phase2_session:
  assumes "unprotect rl records (dr_tunnel d) = Some (Inr p, t)" and "parse_all p = Inr tlvs"
    and "dr_session d = Some s" and "session_step proc tlvs s = Some (Inr st, s')"
  shows "phase2_records rl proc records d =
     (case st of
         Continue out \<Rightarrow> bindO (protect_tlvs rl out) send_tls_message
       | Done send outcome \<Rightarrow>
           bindO (protect_tlvs rl send) (\<lambda>ciphertext.
           bindO (modifyO (dr_phase_update (\<lambda>_. Terminated))) (\<lambda>_.
           bindO (modifyO (dr_pending_update (\<lambda>_. Some outcome))) (\<lambda>_.
             send_tls_message ciphertext)))) (d\<lparr>dr_tunnel := t, dr_session := Some s'\<rparr>)"
  using assms
  by (simp add: phase2_records_def bindO_def liftO_def on_tunnel_def on_session_def zoomO_def)

lemma protects:
  "encode_all out = Inr bs \<Longrightarrow> protect rl bs (dr_tunnel d) = Some (Inr ct, t) \<Longrightarrow>
     protect_tlvs rl out d = Some (Inr ct, d\<lparr>dr_tunnel := t\<rparr>)"
  by (simp add: protect_tlvs_def bindO_def liftO_def on_tunnel_def zoomO_def)

lemma tunnel_session_order:
  "d\<lparr>dr_session := a, dr_tunnel := b\<rparr> = d\<lparr>dr_tunnel := b, dr_session := a\<rparr>"
  by simp

lemma phase2_continues:
  fixes rl :: "('c, 're) rustls" and d :: "('c, 'i) teap_driver"
  assumes w: "awaits d s records" "dc_max_fragment (dr_cfg d) \<le> 65500" and u: "unprotect rl records (dr_tunnel d) = Some (Inr p, t)"
    and p: "parse_all p = Inr tlvs" and s: "session_step proc tlvs s = Some (Inr (Continue out), s')"
    and e: "encode_all out = Inr bs" and c: "protect rl bs t = Some (Inr ct, t')"
  shows "\<exists>reply q. on_outer rl sign proc (whole records) d = Some (Inr (DrvRespond reply),
    d\<lparr>dr_rounds := Suc (dr_rounds d), dr_tunnel := t', dr_session := Some s', dr_queue := q\<rparr>)"
proof -
  let ?d = "d\<lparr>dr_rounds := Suc (dr_rounds d)\<rparr>"
  let ?e = "?d\<lparr>dr_tunnel := t', dr_session := Some s'\<rparr>"
  have "phase2_records rl proc records ?d = send_tls_message ct ?e"
    using phase2_session [of rl records ?d p t tlvs s proc, OF _ p _ s] u w
      protects [OF e, of rl "?d\<lparr>dr_tunnel := t, dr_session := Some s'\<rparr>" ct t'] c
    by (simp add: awaits_def bindO_def tunnel_session_order)
  moreover obtain reply q where
    "(send_tls_message ct :: ('c, 're, 'i, driver_reply) driver_op) ?e = Some (Inr (DrvRespond reply), ?e\<lparr>dr_queue := q\<rparr>)"
    using send_sends [of ?e ct] w(2) by auto
  ultimately show ?thesis unfolding phase2_enters [OF w(1)] by (intro exI [of _ reply] exI [of _ q]) simp
qed

lemma phase2_done:
  fixes rl :: "('c, 're) rustls" and d :: "('c, 'i) teap_driver"
  assumes w: "awaits d s records" "dc_max_fragment (dr_cfg d) \<le> 65500" and u: "unprotect rl records (dr_tunnel d) = Some (Inr p, t)"
    and p: "parse_all p = Inr tlvs" and s: "session_step proc tlvs s = Some (Inr (Done out oc), s')"
    and e: "encode_all out = Inr bs" and c: "protect rl bs t = Some (Inr ct, t')"
  shows "\<exists>reply q. on_outer rl sign proc (whole records) d = Some (Inr (DrvRespond reply),
    d\<lparr>dr_rounds := Suc (dr_rounds d), dr_tunnel := t', dr_session := Some s', dr_phase := Terminated,
      dr_pending := Some oc, dr_queue := q\<rparr>)"
proof -
  let ?d = "d\<lparr>dr_rounds := Suc (dr_rounds d)\<rparr>"
  let ?e = "?d\<lparr>dr_tunnel := t', dr_session := Some s', dr_phase := Terminated, dr_pending := Some oc\<rparr>"
  have "phase2_records rl proc records ?d = send_tls_message ct ?e"
    using phase2_session [of rl records ?d p t tlvs s proc, OF _ p _ s] u w
      protects [OF e, of rl "?d\<lparr>dr_tunnel := t, dr_session := Some s'\<rparr>" ct t'] c
    by (simp add: awaits_def bindO_def modifyO_def tunnel_session_order)
  moreover obtain reply q where
    "(send_tls_message ct :: ('c, 're, 'i, driver_reply) driver_op) ?e = Some (Inr (DrvRespond reply), ?e\<lparr>dr_queue := q\<rparr>)"
    using send_sends [of ?e ct] w(2) by auto
  ultimately show ?thesis unfolding phase2_enters [OF w(1)] by (intro exI [of _ reply] exI [of _ q]) simp
qed

text \<open>A well-formed list of TLVs of bounded size is encoded, in as many octets.\<close>

lemma encodes:
  assumes "list_all tlv_ok ts" and "length ts \<le> MAX_TLVS"
  shows "\<exists>bs. encode_all ts = Inr bs \<and> parse_all bs = Inr ts \<and> length bs = (\<Sum>t\<leftarrow>ts. 4 + length (rt_value t))"
proof -
  obtain bs where bs: "encode_all ts = Inr bs" using assms(1) by (auto simp: encode_all_Inr)
  then have "parse_all bs = Inr ts" by (rule parse_encode_all [OF _ assms(2)])
  with bs tlv_frames_length [OF encode_all_frames [OF bs]] show ?thesis by blast
qed


text \<open>The honest final message can be encoded, and so can the answer to it.\<close>

lemma success_message_encodes:
  assumes "mac_lawful mac" "mac_hash_len mac \<le> 64" "length nonce = 32"
  shows "\<exists>bs. encode_all (success_message mac c nonce) = Inr bs \<and> parse_all bs = Inr (success_message mac c nonce)
    \<and> bs \<noteq> [] \<and> length bs \<le> 200"
proof -
  let ?v = "cb_octets 0 (sealed mac c (binding_request nonce))"
  have v: "length ?v \<le> 164"
    using sealed_ok(8) [OF assms(1,2), of "binding_request nonce" c] assms(3) by (simp add: binding_request_def)
  then have "list_all tlv_ok (success_message mac c nonce)" "length (success_message mac c nonce) \<le> MAX_TLVS"
    by (simp_all add: success_message_def raw_tlv_new_def rt_to_tlv_def tlv_ok_def MAX_TLVS_def mask_eq_exp_minus_1)
  from encodes [OF this] obtain bs where bs: "encode_all (success_message mac c nonce) = Inr bs"
    "parse_all bs = Inr (success_message mac c nonce)"
    "length bs = (\<Sum>t\<leftarrow>success_message mac c nonce. 4 + length (rt_value t))" by blast
  with v have "length bs \<le> 200" "0 < length bs"
    by (simp_all add: success_message_def raw_tlv_new_def rt_to_tlv_def)
  with bs show ?thesis by auto
qed

lemma answer_encodes: "tlv_ok ir \<Longrightarrow> \<exists>bs. encode_all [ir, rt_to_tlv RsSuccess True] = Inr bs"
  using encodes [of "[ir, rt_to_tlv RsSuccess True]"]
  by (auto simp: rt_to_tlv_def raw_tlv_new_def tlv_ok_def MAX_TLVS_def mask_eq_exp_minus_1)

lemma honest_final:
  fixes rl :: "('c, 're) rustls" and d :: "('c, 'i) teap_driver"
  assumes w: "awaits d s records" "dc_max_fragment (dr_cfg d) \<le> 65500" and r: "ready k s" and n: "length nonce = 32"
    and a: "absorb_inner (ss_mac s) k (ss_ks s) = (Inr c, ks)"
    and u: "unprotect rl records (dr_tunnel d) = Some (Inr p, t)"
    and p: "parse_all p = Inr (success_message (ss_mac s) c nonce)"
    and c: "\<And>bs. \<exists>ct t'. protect rl bs t = Some (Inr ct, t')"
  shows "\<exists>reply d' msk emsk. on_outer rl sign proc (whole records) d = Some (Inr (DrvRespond reply), d')
    \<and> derive_session_keys (ss_mac s) ks = Inr (msk, emsk)
    \<and> dr_pending d' = Some (Success msk emsk None)"
proof -
  have mac: "mac_lawful (ss_mac s)" "length k = IMSK_LEN" using r by (simp_all add: ready_def)
  have "ks_methods ks \<noteq> 0"
    using a dyn.absorb_ok [OF mac, of "ss_ks s"] sat_add_pos by auto
  then obtain msk emsk where d: "derive_session_keys (ss_mac s) ks = Inr (msk, emsk)"
    using dyn.derive_ok [OF mac(1), of ks] by auto
  from success_message_step [OF r a n d, of proc] obtain ir s' where
    st: "session_step proc (success_message (ss_mac s) c nonce) s
      = Some (Inr (Done [ir, rt_to_tlv RsSuccess True] (Success msk emsk None)), s')"
    and ok: "tlv_ok ir" by blast
  obtain bs where e: "encode_all [ir, rt_to_tlv RsSuccess True] = Inr bs"
    using answer_encodes [OF ok] by blast
  obtain ct t' where ct: "protect rl bs t = Some (Inr ct, t')" using c by blast
  obtain reply q where "on_outer rl sign proc (whole records) d = Some (Inr (DrvRespond reply),
    d\<lparr>dr_rounds := Suc (dr_rounds d), dr_tunnel := t', dr_session := Some s', dr_phase := Terminated,
      dr_pending := Some (Success msk emsk None), dr_queue := q\<rparr>)"
    using phase2_done [OF w u p st e ct, of sign] by blast
  with d show ?thesis by auto
qed

lemma success_packet:
  assumes "eap_decode req = Inr pkt" and "ep_code pkt = EapSuccess" and "dr_pending d = Some oc"
  shows "driver_step rl sign proc req d
    = Some (Inr (Finished None oc), d\<lparr>dr_phase := Terminated, dr_pending := None\<rparr>)"
  using assms by (simp add: driver_step_def op_simps)

section \<open>A run over the plain connection\<close>

text \<open>The driver of the run: a user without a ticket, whose inner method is done at once.\<close>

definition demo_sign :: hmac_sign where
  "demo_sign a k d = replicate 48 (sum_list (k @ d))"

definition demo_driver_config :: driver_config where
  "demo_driver_config = \<lparr>dc_identity = User, dc_server_name = [], dc_mat_vendor_id = 9,
     dc_mat_to_present = None, dc_max_fragment = 1400\<rparr>"

definition demo_driver :: "(plain_conn, unit) teap_driver" where
  "demo_driver = \<lparr>dr_cfg = demo_driver_config, dr_tunnel = plain_tunnel, dr_inner = Some (),
     dr_phase = ExpectStart, dr_reasm = reasm_new MAX_TLS_MESSAGE, dr_queue = [], dr_session = None,
     dr_pending = None, dr_last_id = 0, dr_rounds = 0\<rparr>"

abbreviation demo_mac :: teap_mac where
  "demo_mac \<equiv> aws_dyn_mac demo_sign aws_sha384"

definition demo_start :: "unit teap_session" where
  "demo_start = \<lparr>ss_cfg = session_cfg demo_driver_config, ss_mac = demo_mac, ss_inner = (),
     ss_ks = \<lparr>ks_s_imck = replicate 40 1, ks_methods = 0\<rparr>,
     ss_cmk = None, ss_imsk = None, ss_presented_mat = False, ss_terminated = False\<rparr>"

lemma demo_new_driver: "driver_new plain_builder demo_driver_config () () = Inr demo_driver"
  by (simp add: driver_new_def client_config_def demo_driver_def demo_driver_config_def
      tls_connect_def plain_builder_def plain_tunnel_def)

lemma demo_mac_lawful [simp]: "mac_lawful demo_mac" "mac_hash_len demo_mac = 48"
  by (simp_all add: mac_lawful_def aws_dyn_mac_def aws_sha384_def demo_sign_def)

lemma demo_first_flight:
  assumes "dr_cfg d = demo_driver_config" "dr_phase d = ExpectStart" "dr_tunnel d = plain_tunnel"
  shows "\<exists>reply q. on_outer plain_tls demo_sign demo_inner start_packet d = Some (Inr (DrvRespond reply),
    d\<lparr>dr_phase := Handshake, dr_tunnel := plain_tunnel\<lparr>tc_conn := \<lparr>pc_script = [[]], pc_out = [], pc_in = []\<rparr>\<rparr>, dr_queue := q\<rparr>)"
proof -
  let ?t = "plain_tunnel\<lparr>tc_conn := \<lparr>pc_script = [[]], pc_out = [], pc_in = []\<rparr>\<rparr>"
  let ?d = "d\<lparr>dr_phase := Handshake, dr_tunnel := ?t\<rparr>"
  have "take_outgoing plain_tls plain_tunnel = Some (Inr [22], ?t)"
    using plain_drain [of "[[]]" "[22]" "[]"] by (simp add: take_outgoing_def plain_tunnel_def)
  then have "on_outer plain_tls demo_sign demo_inner start_packet d = send_tls_message [22] ?d"
    using assms by (simp add: on_outer_def bindO_def modifyO_def on_tunnel_def zoomO_def)
  moreover have "dc_max_fragment (dr_cfg ?d) \<le> 65500" using assms by (simp add: demo_driver_config_def)
  from send_sends [OF this, of "[22]"] obtain reply q where
    "(send_tls_message [22] :: (plain_conn, unit, unit, driver_reply) driver_op) ?d
      = Some (Inr (DrvRespond reply), ?d\<lparr>dr_queue := q\<rparr>)"
    by blast
  ultimately show ?thesis by (intro exI [of _ reply] exI [of _ q]) simp
qed

lemma demo_phase2:
  fixes d :: "(plain_conn, unit) teap_driver"
  assumes "dr_cfg d = demo_driver_config" "dr_inner d = Some ()"
    and "dr_tunnel d = \<lparr>tc_conn = \<lparr>pc_script = [], pc_out = [], pc_in = []\<rparr>, tc_established = True\<rparr>"
  shows "(start_phase2 plain_tls demo_sign :: (plain_conn, unit, unit, unit) driver_op) d = Some (Inr (),
    d\<lparr>dr_inner := None, dr_session := Some demo_start, dr_phase := Phase2, dr_rounds := 0\<rparr>)"
proof -
  let ?t = "\<lparr>tc_conn = \<lparr>pc_script = [], pc_out = [], pc_in = []\<rparr>, tc_established = True\<rparr>"
  have "session_key_seed plain_tls ?t = Some (Inr (replicate 40 1), ?t)"
    "negotiated_mac plain_tls ?t = Some (Inr aws_sha384, ?t)"
    by (simp_all add: session_key_seed_def negotiated_mac_def require_established_def op_simps
        plain_sel negotiated_suite_def TLS13_AES_256_GCM_SHA384_def)
  moreover have "d\<lparr>dr_tunnel := ?t\<rparr> = d" using assms(3) by (cases d) simp
  moreover have "session_new \<lparr>sc_identity = User, sc_mat_vendor_id = 9, sc_mat_to_present = None\<rparr>
      (replicate 40 1) demo_mac () = Inr demo_start"
    by (simp add: session_new_def ks_new_def demo_start_def session_cfg_def demo_driver_config_def)
  ultimately show ?thesis
    using assms
    by (simp add: start_phase2_def bindO_def on_tunnel_def zoomO_def getO_def modifyO_def
        demo_driver_config_def)
qed

lemma demo_handshake:
  fixes d :: "(plain_conn, unit) teap_driver"
  assumes "dr_cfg d = demo_driver_config" "dr_phase d = Handshake" "dr_inner d = Some ()" "dr_rounds d = 0"
    "dr_reasm d = reasm_new MAX_TLS_MESSAGE"
    and "dr_tunnel d = plain_tunnel\<lparr>tc_conn := \<lparr>pc_script = [[]], pc_out = [], pc_in = []\<rparr>\<rparr>"
  shows "\<exists>reply d' q. on_outer plain_tls demo_sign demo_inner (whole [1]) d = Some (Inr (DrvRespond reply), d')
    \<and> dr_cfg d' = demo_driver_config \<and> dr_phase d' = Phase2 \<and> dr_session d' = Some demo_start
    \<and> dr_rounds d' = 0 \<and> dr_reasm d' = reasm_new MAX_TLS_MESSAGE \<and> plain_idle (dr_tunnel d')"
proof -
  let ?t = "\<lparr>tc_conn = \<lparr>pc_script = [], pc_out = [], pc_in = []\<rparr>, tc_established = True\<rparr>"
  let ?u = "\<lparr>tc_conn = \<lparr>pc_script = [], pc_out = [], pc_in = []\<rparr>, tc_established = False\<rparr>"
  let ?d = "d\<lparr>dr_rounds := 1, dr_tunnel := ?t\<rparr>"
  let ?e = "?d\<lparr>dr_inner := None, dr_session := Some demo_start, dr_phase := Phase2, dr_rounds := 0\<rparr>"
  let ?op = "\<lambda>m. m :: (plain_conn, unit, unit, driver_reply) driver_op"
  have r: "(on_reasm (whole [1]) :: (plain_conn, unit, unit, bytes option) driver_op) (d\<lparr>dr_rounds := 1\<rparr>)
      = Some (Inr (Some [1]), d\<lparr>dr_rounds := 1\<rparr>)"
    using assms(5) reasm_whole [of "[1]" MAX_TLS_MESSAGE]
    by (cases d) (simp add: on_reasm_def zoomO_def pureO_def MAX_TLS_MESSAGE_def)
  have t: "feed_incoming plain_tls [1] (dr_tunnel d) = Some (Inr (), ?u)"
    "take_outgoing plain_tls ?u = Some (Inr [], ?u)" "finish_handshake plain_tls ?u = Some (Inr (), ?t)"
    using plain_drain [of "[]" "[]" "[]"] assms(6)
    by (simp_all add: feed_incoming_def plain_feed plain_tunnel_def take_outgoing_def finish_handshake_def
        enforce_fips_parameters_def plain_sel)
  have p: "(start_phase2 plain_tls demo_sign :: (plain_conn, unit, unit, unit) driver_op) ?d = Some (Inr (), ?e)"
    using demo_phase2 [of ?d] assms by simp
  have "?op (handshake_message plain_tls demo_sign [1]) (d\<lparr>dr_rounds := 1\<rparr>) = ?op (send_tls_message []) ?e"
    using t p
    by (simp add: handshake_message_def bindO_def on_tunnel_def zoomO_def getO_def tls_is_handshaking_def
        plain_sel)
  then have "?op (on_outer plain_tls demo_sign demo_inner (whole [1])) d = ?op (send_tls_message []) ?e"
    using assms r
    by (simp add: on_outer_def on_handshake_def bindO_def modifyO_def getO_def MAX_HANDSHAKE_ROUNDS_def
        sat_add_def usize_max_def)
  moreover have "dc_max_fragment (dr_cfg ?e) \<le> 65500" using assms by (simp add: demo_driver_config_def)
  from send_sends [OF this, of "[]"] obtain reply q where
    "?op (send_tls_message []) ?e = Some (Inr (DrvRespond reply), ?e\<lparr>dr_queue := q\<rparr>)"
    by blast
  ultimately show ?thesis
    using assms by (intro exI [of _ reply] exI [of _ "?e\<lparr>dr_queue := q\<rparr>"] exI) (simp add: plain_idle_def)
qed


text \<open>Five calls: Start, the handshake, the inner method, the honest final message, EAP-Success.\<close>

lemma demo_ready_driver: "ready (replicate 32 1) (demo_start\<lparr>ss_imsk := Some (replicate 32 1)\<rparr>)"
  by (simp add: ready_def demo_start_def)

lemma demo_payload:
  fixes d :: "(plain_conn, unit) teap_driver"
  assumes "dr_cfg d = demo_driver_config" "dr_phase d = Phase2" "dr_session d = Some demo_start"
    "dr_rounds d = 0" "dr_reasm d = reasm_new MAX_TLS_MESSAGE" "plain_idle (dr_tunnel d)"
  shows "\<exists>reply d' bs. on_outer plain_tls demo_sign demo_inner (whole bs) d = Some (Inr (DrvRespond reply), d')
    \<and> dr_cfg d' = demo_driver_config \<and> dr_phase d' = Phase2
    \<and> dr_session d' = Some (demo_start\<lparr>ss_imsk := Some (replicate 32 1)\<rparr>)
    \<and> dr_rounds d' = 1 \<and> dr_reasm d' = reasm_new MAX_TLS_MESSAGE \<and> plain_idle (dr_tunnel d')
    \<and> length bs \<le> 65500"
proof -
  have "list_all tlv_ok (payload_message [])" "length (payload_message []) \<le> MAX_TLVS"
    by (simp_all add: payload_message_def ep_to_tlv_def tlv_ok_def raw_tlv_new_def MAX_TLVS_def mask_eq_exp_minus_1)
  from encodes [OF this] obtain bs where bs: "parse_all bs = Inr (payload_message [])" "length bs = 4"
    by (auto simp: payload_message_def ep_to_tlv_def raw_tlv_new_def)
  have st: "session_step demo_inner (payload_message []) demo_start
      = Some (Inr (Continue []), demo_start\<lparr>ss_imsk := Some (replicate 32 1)\<rparr>)"
    by (subst payload_step) (simp_all add: demo_start_def demo_inner_def)
  have mf: "dc_max_fragment (dr_cfg d) \<le> 65500" using assms(1) by (simp add: demo_driver_config_def)
  have "awaits d demo_start bs"
    using assms bs(2) by (auto simp: awaits_def MAX_PHASE2_ROUNDS_def MAX_TLS_MESSAGE_def demo_driver_config_def)
  moreover have "encode_all [] = Inr []" by (simp add: encode_all_def)
  ultimately show ?thesis
    using phase2_continues [OF _ mf plain_unprotect [OF assms(6)] bs(1) st _ plain_protect [OF assms(6)]] assms bs(2)
    by fastforce
qed


lemma demo_final:
  fixes d :: "(plain_conn, unit) teap_driver"
  assumes "dr_cfg d = demo_driver_config" "dr_phase d = Phase2" "dr_rounds d = 1"
    "dr_session d = Some (demo_start\<lparr>ss_imsk := Some (replicate 32 1)\<rparr>)"
    "dr_reasm d = reasm_new MAX_TLS_MESSAGE" "plain_idle (dr_tunnel d)"
  shows "\<exists>reply d' bs msk emsk. on_outer plain_tls demo_sign demo_inner (whole bs) d = Some (Inr (DrvRespond reply), d')
    \<and> dr_pending d' = Some (Success msk emsk None) \<and> length bs \<le> 65500"
proof -
  let ?s = "demo_start\<lparr>ss_imsk := Some (replicate 32 1)\<rparr>"
  have mac: "ss_mac ?s = demo_mac" by (simp add: demo_start_def)
  obtain c ks where a: "absorb_inner (ss_mac ?s) (replicate 32 1) (ss_ks ?s) = (Inr c, ks)"
    using dyn.absorb_ok [of demo_mac "replicate 32 1" "ss_ks ?s"] by (auto simp: mac)
  obtain bs where bs: "parse_all bs = Inr (success_message (ss_mac ?s) c (replicate 32 2))" "bs \<noteq> []" "length bs \<le> 200"
    using success_message_encodes [of "ss_mac ?s" "replicate 32 2" c] by (auto simp: mac)
  have mf: "dc_max_fragment (dr_cfg d) \<le> 65500" using assms(1) by (simp add: demo_driver_config_def)
  have "awaits d ?s bs"
    using assms bs(2,3) by (auto simp: awaits_def MAX_PHASE2_ROUNDS_def MAX_TLS_MESSAGE_def demo_driver_config_def)
  from honest_final [OF this mf demo_ready_driver _ a plain_unprotect [OF assms(6)] bs(1), of demo_sign demo_inner]
    plain_protect [OF assms(6)] bs(3) show ?thesis by fastforce
qed

lemma request_to:
  assumes "length (to_data m) \<le> 65500" and "outer_wf m"
    and "on_outer rl sign proc m (d\<lparr>dr_last_id := 1\<rparr>) = Some (Inr r, d')"
  shows "\<exists>req. driver_step rl sign proc req d = Some (Inr r, d')"
  using teap_encodes [OF assms(1), of Request 1] request_handled [OF _ assms(2), of 1] assms(3) by metis


lemma run_to:
  assumes "driver_run rl sign proc d0 n d" and "length (to_data m) \<le> 65500" and "outer_wf m"
    and "on_outer rl sign proc m (d\<lparr>dr_last_id := 1\<rparr>) = Some (Inr (DrvRespond reply), d')"
  shows "\<exists>n'. driver_run rl sign proc d0 n' d'"
  using request_to [OF assms(2-4)] drun_step [OF assms(1)] by blast

lemma demo_driver_succeeds:
  "\<exists>n d msk emsk d'. driver_run plain_tls demo_sign demo_inner demo_driver n d
     \<and> driver_step plain_tls demo_sign demo_inner [3, 0, 0, 4] d = Some (Inr (Finished None (Success msk emsk None)), d')"
proof -
  let ?run = "driver_run plain_tls demo_sign demo_inner demo_driver"
  obtain reply q where o1: "on_outer plain_tls demo_sign demo_inner start_packet (demo_driver\<lparr>dr_last_id := 1\<rparr>)
      = Some (Inr (DrvRespond reply), demo_driver\<lparr>dr_last_id := 1, dr_phase := Handshake,
          dr_tunnel := plain_tunnel\<lparr>tc_conn := \<lparr>pc_script = [[]], pc_out = [], pc_in = []\<rparr>\<rparr>, dr_queue := q\<rparr>)"
    (is "_ = Some (_, ?d1)")
    using demo_first_flight [of "demo_driver\<lparr>dr_last_id := 1\<rparr>"] by (auto simp: demo_driver_def)
  obtain n1 where r1: "?run n1 ?d1"
    using run_to [OF drun_start _ _ o1] by (auto simp: start_packet_def outer_wf_def)
  obtain reply d2 where o2: "on_outer plain_tls demo_sign demo_inner (whole [1]) (?d1\<lparr>dr_last_id := 1\<rparr>)
      = Some (Inr (DrvRespond reply), d2)"
    and d2: "dr_cfg d2 = demo_driver_config" "dr_phase d2 = Phase2" "dr_session d2 = Some demo_start"
      "dr_rounds d2 = 0" "dr_reasm d2 = reasm_new MAX_TLS_MESSAGE" "plain_idle (dr_tunnel d2)"
    using demo_handshake [of "?d1\<lparr>dr_last_id := 1\<rparr>"] by (auto simp: demo_driver_def)
  obtain n2 where r2: "?run n2 d2" using run_to [OF r1 _ whole_wf(1) o2] by (auto simp: whole_def)
  obtain reply d3 bs where o3: "on_outer plain_tls demo_sign demo_inner (whole bs) (d2\<lparr>dr_last_id := 1\<rparr>)
      = Some (Inr (DrvRespond reply), d3)" and bs: "length bs \<le> 65500"
    and d3: "dr_cfg d3 = demo_driver_config" "dr_phase d3 = Phase2" "dr_rounds d3 = 1"
      "dr_session d3 = Some (demo_start\<lparr>ss_imsk := Some (replicate 32 1)\<rparr>)"
      "dr_reasm d3 = reasm_new MAX_TLS_MESSAGE" "plain_idle (dr_tunnel d3)"
    using demo_payload [of "d2\<lparr>dr_last_id := 1\<rparr>"] d2 by auto
  obtain n3 where r3: "?run n3 d3" using run_to [OF r2 _ whole_wf(1) o3] bs by (auto simp: whole_def)
  obtain reply d4 bs' msk emsk where o4: "on_outer plain_tls demo_sign demo_inner (whole bs') (d3\<lparr>dr_last_id := 1\<rparr>)
      = Some (Inr (DrvRespond reply), d4)" and bs': "length bs' \<le> 65500"
    and d4: "dr_pending d4 = Some (Success msk emsk None)"
    using demo_final [of "d3\<lparr>dr_last_id := 1\<rparr>"] d3 by auto
  obtain n4 where r4: "?run n4 d4" using run_to [OF r3 _ whole_wf(1) o4] bs' by (auto simp: whole_def)
  have "unat (word_of_be [0, 4] :: u16) = 4" by (simp add: word_of_be_def push_bit_eq_mult)
  then have "eap_decode [3, 0, 0, 4] = Inr \<lparr>ep_code = EapSuccess, ep_id = 0, ep_type = None, ep_data = []\<rparr>"
    by (simp add: eap_decode_unfold eap_code_from_u8_def)
  from success_packet [OF this _ d4] r4 show ?thesis by fastforce
qed


section \<open>Properties\<close>

text \<open>C3: no success without a bound tunnel. When a driver made by \<open>driver_new\<close>, whose caller stops at
  the first error, finishes in success, then the tunnel was handed its exporter seed only after the
  negotiated parameters had passed the allow-list; the inner method delivered an IMSK on a message
  that the tunnel decrypted; another (or the same) such message carried a successful
  Intermediate-Result with a Binding Request whose compound MAC verifies under the key derived from
  that seed and that IMSK with SHA-384; the keys returned are those of the same key schedule; and a
  ticket is returned only to a machine.\<close>

theorem driver_success_sound:
  assumes "driver_new rb cfg roots inner = Inr d0" and "driver_run rl sign proc d0 n d"
    and "driver_step rl sign proc req d = Some (Inr (Finished send (Success msk emsk mat)), d')"
  shows "bound_success rl sign proc (dr_tunnel d0) cfg msk emsk mat"
proof -
  have "drv_inv rl sign proc (dr_tunnel d0) cfg d"
    using driver_run_inv [OF assms(2)] driver_new_inv [OF assms(1)] by blast
  from driver_finished_ok [OF this assms(3)] show ?thesis by (simp add: outcome_ok_def)
qed

theorem driver_success_sound_witness:
  "\<exists>msk emsk. bound_success plain_tls demo_sign demo_inner plain_tunnel demo_driver_config msk emsk None"
proof -
  obtain n d msk emsk d' where "driver_run plain_tls demo_sign demo_inner demo_driver n d"
    "driver_step plain_tls demo_sign demo_inner [3, 0, 0, 4] d = Some (Inr (Finished None (Success msk emsk None)), d')"
    using demo_driver_succeeds by blast
  from driver_success_sound [OF demo_new_driver this] show ?thesis
    by (auto simp: demo_driver_def)
qed

text \<open>An honest server brings the driver to success. A driver in Phase 2 whose session holds an IMSK
  receives, in records the tunnel decrypts, the final message of the server that derived the same
  compound key: it answers, and the EAP-Success that follows finishes it in success with the keys of
  that key schedule, provided only that the tunnel encrypts and the fragment size leaves room for
  the headers.\<close>

lemma driver_honest_success:
  assumes "awaits d s records" and "dc_max_fragment (dr_cfg d) \<le> 65500"
    and "ready k s" and "length nonce = 32"
    and "absorb_inner (ss_mac s) k (ss_ks s) = (Inr c, ks)"
    and "unprotect rl records (dr_tunnel d) = Some (Inr p, t)"
    and "parse_all p = Inr (success_message (ss_mac s) c nonce)"
    and "\<And>bs. \<exists>ct t'. protect rl bs t = Some (Inr ct, t')"
    and "eap_encode (teap_packet Request i (outer_build (whole records))) = Inr req"
    and "eap_decode fin = Inr pkt" and "ep_code pkt = EapSuccess"
  shows "\<exists>reply d' msk emsk. driver_step rl sign proc req d = Some (Inr (DrvRespond reply), d')
    \<and> derive_session_keys (ss_mac s) ks = Inr (msk, emsk)
    \<and> driver_step rl sign proc fin d' = Some (Inr (Finished None (Success msk emsk None)),
        d'\<lparr>dr_phase := Terminated, dr_pending := None\<rparr>)"
proof -
  have "awaits (d\<lparr>dr_last_id := i\<rparr>) s records" using assms(1) by (simp add: awaits_def)
  from honest_final [OF this _ assms(3-5) _ assms(7,8), of sign proc] assms(2,6) obtain reply d' msk emsk where
    "on_outer rl sign proc (whole records) (d\<lparr>dr_last_id := i\<rparr>) = Some (Inr (DrvRespond reply), d')"
    "derive_session_keys (ss_mac s) ks = Inr (msk, emsk)" "dr_pending d' = Some (Success msk emsk None)"
    by auto
  then show ?thesis
    unfolding request_handled [OF assms(9) whole_wf(1)] using success_packet [OF assms(10,11), of d'] by blast
qed

lemma driver_honest_success_witness:
  "\<exists>req d reply d' msk emsk d''. driver_step plain_tls demo_sign demo_inner req d = Some (Inr (DrvRespond reply), d')
     \<and> driver_step plain_tls demo_sign demo_inner [3, 0, 0, 4] d' = Some (Inr (Finished None (Success msk emsk None)), d'')"
proof -
  let ?s = "demo_start\<lparr>ss_imsk := Some (replicate 32 1)\<rparr>"
  let ?t = "\<lparr>tc_conn = \<lparr>pc_script = [], pc_out = [], pc_in = []\<rparr>, tc_established = True\<rparr>"
  let ?d = "demo_driver\<lparr>dr_tunnel := ?t, dr_phase := Phase2, dr_session := Some ?s\<rparr>"
  have t: "plain_idle (dr_tunnel ?d)" and mac: "ss_mac ?s = demo_mac"
    by (simp_all add: plain_idle_def demo_start_def)
  obtain c ks where a: "absorb_inner (ss_mac ?s) (replicate 32 1) (ss_ks ?s) = (Inr c, ks)"
    using dyn.absorb_ok [of demo_mac "replicate 32 1" "ss_ks ?s"] by (auto simp: mac)
  obtain bs where bs: "parse_all bs = Inr (success_message (ss_mac ?s) c (replicate 32 2))" "bs \<noteq> []" "length bs \<le> 200"
    using success_message_encodes [of "ss_mac ?s" "replicate 32 2" c] by (auto simp: mac)
  have w: "awaits ?d ?s bs"
    using bs(2,3) by (auto simp: awaits_def MAX_PHASE2_ROUNDS_def MAX_TLS_MESSAGE_def demo_driver_def demo_driver_config_def)
  obtain req where req: "eap_encode (teap_packet Request 1 (outer_build (whole bs))) = Inr req"
    using teap_encodes [of "whole bs"] bs(3) by (auto simp: whole_def)
  have "unat (word_of_be [0, 4] :: u16) = 4" by (simp add: word_of_be_def push_bit_eq_mult)
  then have fin: "eap_decode [3, 0, 0, 4] = Inr \<lparr>ep_code = EapSuccess, ep_id = 0, ep_type = None, ep_data = []\<rparr>"
    by (simp add: eap_decode_unfold eap_code_from_u8_def)
  have mf: "dc_max_fragment (dr_cfg ?d) \<le> 65500" by (simp add: demo_driver_def demo_driver_config_def)
  have n: "length (replicate 32 2) = 32" by simp
  have p: "\<exists>ct t'. protect plain_tls bs' (dr_tunnel ?d) = Some (Inr ct, t')" for bs'
    using plain_protect [OF t] by blast
  from driver_honest_success [OF w mf demo_ready_driver n a plain_unprotect [OF t] bs(1) p req fin]
  show ?thesis by (metis eap_packet.select_convs(1))
qed

text \<open>C9: a failure is final. An EAP-Failure always finishes the driver with a server failure, and
  from then on, whatever packets come and in whatever order, no call returns a success: the driver
  stays terminated with nothing pending.\<close>

theorem driver_failure_final:
  assumes "eap_decode req = Inr pkt" and "ep_code pkt = EapFailure"
  shows "\<exists>d1. driver_step rl sign proc req d = Some (Inr (Finished None (Failure ServerFailure)), d1)
    \<and> (\<forall>d2 req' send oc d3. driver_calls rl sign proc d1 d2
          \<and> driver_step rl sign proc req' d2 = Some (Inr (Finished send oc), d3)
        \<longrightarrow> oc = Failure ServerFailure)"
  using failure_packet_dead [OF assms, of rl sign proc d] driver_calls_dead dead_step by blast

theorem driver_failure_final_witness:
  "\<exists>d1. driver_step plain_tls demo_sign demo_inner [4, 9, 0, 4] demo_driver
     = Some (Inr (Finished None (Failure ServerFailure)), d1)"
proof -
  have "unat (word_of_be [0, 4] :: u16) = 4" by (simp add: word_of_be_def push_bit_eq_mult)
  then have "eap_decode [4, 9, 0, 4] = Inr \<lparr>ep_code = EapFailure, ep_id = 9, ep_type = None, ep_data = []\<rparr>"
    by (simp add: eap_decode_unfold eap_code_from_u8_def)
  from driver_failure_final [OF this, of plain_tls demo_sign demo_inner demo_driver] show ?thesis
    by (simp del: split_paired_Ex) blast
qed

text \<open>The answers of the driver. Whatever a server sends, a packet the driver answers is a Request
  of type 55 and the answer is the encoding of an EAP Response of type 55 with the same identifier
  around a TEAP message; the driver finishes only on EAP-Success or EAP-Failure, sends nothing then,
  and an EAP-Success finishes it with exactly the outcome its session had left pending.\<close>

lemma driver_answers:
  assumes "driver_step rl sign proc req d = Some (Inr st, d')"
  shows "\<exists>pkt. eap_decode req = Inr pkt \<and>
    (case st of
       DrvRespond bs \<Rightarrow> ep_code pkt = Request \<and> ep_type pkt = Some TEAP_EAP_TYPE
         \<and> (\<exists>m. eap_encode (teap_packet Response (ep_id pkt) (outer_build m)) = Inr bs)
     | Finished send oc \<Rightarrow> send = None \<and> dr_phase d' = Terminated \<and> dr_pending d' = None
         \<and> (ep_code pkt = EapFailure \<and> oc = Failure ServerFailure
            \<or> ep_code pkt = EapSuccess \<and> dr_pending d = Some oc))"
proof (cases st)
  case (DrvRespond bs)
  from assms [unfolded this] obtain pkt where "eap_decode req = Inr pkt" "ep_code pkt = Request"
    "on_request rl sign proc pkt d = Some (Inr (DrvRespond bs), d')"
    by (rule driver_step_request)
  with on_request_answer [OF this(3)] show ?thesis
    unfolding DrvRespond by (auto simp: answer_def on_request_Inr simp del: TEAP_EAP_TYPE_def)
next
  case (Finished send oc)
  from assms [unfolded this] show ?thesis
    unfolding Finished by (rule driver_step_finished) auto
qed

lemma driver_answers_witness:
  "\<exists>req pkt. eap_decode req = Inr pkt \<and> ep_code pkt = Request
     \<and> (\<exists>m bs. eap_encode (teap_packet Response (ep_id pkt) (outer_build m)) = Inr bs)"
proof -
  obtain reply d' where "on_outer plain_tls demo_sign demo_inner start_packet (demo_driver\<lparr>dr_last_id := 1\<rparr>)
      = Some (Inr (DrvRespond reply), d')"
    using demo_first_flight [of "demo_driver\<lparr>dr_last_id := 1\<rparr>"] by (auto simp: demo_driver_def)
  from request_to [OF _ whole_wf(2) this] obtain req where
    "driver_step plain_tls demo_sign demo_inner req demo_driver = Some (Inr (DrvRespond reply), d')"
    by (auto simp: start_packet_def)
  from driver_answers [OF this] show ?thesis by auto
qed

text \<open>C10: a server cannot keep the driver busy. From \<open>driver_new\<close>, however a server interleaves its
  messages, at most 129 of its packets are answered other than by drawing the next fragment of a
  flight under way: one Start, 64 rounds of handshake and 64 of Phase 2.\<close>

theorem driver_rounds_bounded:
  assumes "driver_new rb cfg roots inner = Inr d0" and "driver_run rl sign proc d0 n d"
  shows "n \<le> 1 + MAX_HANDSHAKE_ROUNDS + MAX_PHASE2_ROUNDS"
  using driver_run_budget [OF assms(2)] driver_new_inv(3) [OF assms(1)] by (simp add: budget_def)

theorem driver_rounds_bounded_witness:
  "\<exists>n d. driver_run plain_tls demo_sign demo_inner demo_driver n d \<and> n \<le> 129"
proof -
  obtain n d where r: "driver_run plain_tls demo_sign demo_inner demo_driver n d"
    using demo_driver_succeeds by blast
  from driver_rounds_bounded [OF demo_new_driver r] r show ?thesis
    by (auto simp: MAX_HANDSHAKE_ROUNDS_def MAX_PHASE2_ROUNDS_def)
qed

end
