(* ===== verification/Driver_Types.thy ===== *)
theory Driver_Types
  imports Driver_Run
begin

text \<open>
  What the types of crates/supplicant/src/driver.rs and crates/teap/src/session.rs leave open and the code
  keeps nevertheless, on every exit of every call, errors included: lengths of the secrets, bounds of the
  buffers, and which fields go with which phase.
\<close>

section \<open>Operations that keep an invariant on every exit\<close>

definition staysO :: "('s \<Rightarrow> bool) \<Rightarrow> ('s, 'e, 'a) op \<Rightarrow> bool" where
  "staysO I m \<longleftrightarrow> (\<forall>s r s'. I s \<longrightarrow> m s = Some (r, s') \<longrightarrow> I s')"

named_theorems stays \<open>operations that keep an invariant on every exit\<close>

lemma staysI: "(\<And>s r s'. I s \<Longrightarrow> m s = Some (r, s') \<Longrightarrow> I s') \<Longrightarrow> staysO I m"
  by (simp add: staysO_def)

lemma staysD: "staysO I m \<Longrightarrow> I s \<Longrightarrow> m s = Some (r, s') \<Longrightarrow> I s'"
  by (simp add: staysO_def)

lemma stays_bind [stays]: "staysO I m \<Longrightarrow> (\<And>x. staysO I (f x)) \<Longrightarrow> staysO I (bindO m f)"
proof (rule staysI)
  fix s r s'
  assume k: "staysO I m" "\<And>x. staysO I (f x)" and s: "I s" "bindO m f s = Some (r, s')"
  then obtain q t where q: "m s = Some (q, t)" by (auto simp: bindO_def split: option.splits)
  with k(1) s(1) have t: "I t" by (rule staysD)
  from s(2) q show "I s'" by (cases q) (use t in \<open>auto simp: bindO_def dest: staysD [OF k(2) t]\<close>)
qed

lemma stays_prims [stays]:
  "staysO I (returnO x)" "staysO I (throwO e)" "staysO I (liftO h r)" "staysO I (getO g)"
  by (rule staysI, simp add: op_simps split: sum.splits)+

lemma stays_get: "(\<And>s. I s \<Longrightarrow> staysO I (f (g s))) \<Longrightarrow> staysO I (bindO (getO g) f)"
  by (rule staysI) (auto simp: bindO_def getO_def dest: staysD)

lemma stays_modify: "(\<And>s. I s \<Longrightarrow> I (u s)) \<Longrightarrow> staysO I (modifyO u)"
  by (auto simp: staysO_def op_simps)

lemma stays_zoom: "(\<And>s r t. I s \<Longrightarrow> m (get s) = Some (r, t) \<Longrightarrow> I (put t s)) \<Longrightarrow> staysO I (zoomO get put h m)"
  by (rule staysI) (auto simp: zoomO_def split: option.splits sum.splits)

lemma modify_twice: "bindO (modifyO f) (\<lambda>_. bindO (modifyO g) k) = bindO (modifyO (\<lambda>s. g (f s))) k"
  by (rule ext) (simp add: op_simps)

text \<open>How a sequence that starts with such an operation ends.\<close>

lemma bind_exits:
  assumes "bindO m f s = Some (r, s')" and "staysO I m" and "I s"
  obtains (stops) e where "I s'" "r = Inl e" | (goes) x t where "I t" "f x t = Some (r, s')"
proof -
  obtain q t where q: "m s = Some (q, t)" using assms(1) by (auto simp: bindO_def split: option.splits)
  with assms(2,3) have "I t" by (auto dest: staysD)
  with assms(1) q that show ?thesis by (cases q) (auto simp: bindO_def)
qed

section \<open>The session\<close>

definition session_typed :: "session_config \<Rightarrow> 'i teap_session \<Rightarrow> bool" where
  "session_typed cfg s \<longleftrightarrow> ss_cfg s = cfg \<and> mac_lawful (ss_mac s) \<and> length (ks_s_imck (ss_ks s)) = S_IMCK_LEN
     \<and> ks_methods (ss_ks s) = (if ss_cmk s = None then 0 else 1)
     \<and> (\<forall>k. ss_imsk s = Some k \<longrightarrow> length k = IMSK_LEN) \<and> (\<forall>c. ss_cmk s = Some c \<longrightarrow> length c = 20)
     \<and> (ss_presented_mat s \<longrightarrow> sc_identity cfg = User)"

lemma session_typed_upd [simp]:
  "session_typed cfg (s\<lparr>ss_terminated := b\<rparr>) = session_typed cfg s"
  "session_typed cfg (s\<lparr>ss_inner := i\<rparr>) = session_typed cfg s"
  by (simp_all add: session_typed_def)

lemma stays_fail [stays]: "staysO (session_typed cfg) (fail_step out reason)" "staysO (session_typed cfg) (fail_out out reason)"
  by (auto simp: staysO_def)

lemma stays_continue [stays]: "staysO I m \<Longrightarrow> (\<And>out. staysO I (f out)) \<Longrightarrow> staysO I (continue_with m f)"
  unfolding continue_with_def by (intro stays) (auto intro!: stays split: sum.split)

lemma stays_identity [stays]: "staysO (session_typed cfg) (identity_phase inbound out)"
proof -
  have "staysO (session_typed cfg) (present_mat out)"
    by (auto simp: staysO_def present_mat_def session_typed_def split: if_splits)
  then show ?thesis unfolding identity_phase_def by (auto intro!: stays split: option.split)
qed

lemma stays_inner [stays]: "staysO (session_typed cfg) (inner_phase proc inbound out)"
  by (auto simp: staysO_def inner_phase_def op_simps session_typed_def
      split: option.splits prod.splits inner_step.splits if_splits)

lemma stays_absorb:
  assumes "length imsk = IMSK_LEN"
  shows "staysO (session_typed cfg) (absorb_once imsk out)"
proof (rule staysI)
  fix s :: "'i teap_session" and r s'
  assume s: "session_typed cfg s" "absorb_once imsk out s = Some (r, s')"
  then obtain cmk nxt where "absorb_inner (ss_mac s) imsk (ss_ks s)
      = (Inr cmk, (ss_ks s)\<lparr>ks_s_imck := nxt, ks_methods := sat_add (ks_methods (ss_ks s)) 1\<rparr>)"
    "length cmk = 20" "length nxt = S_IMCK_LEN"
    using dyn.absorb_ok [of "ss_mac s" imsk "ss_ks s", OF _ assms] by (auto simp: session_typed_def simp del: One_nat_def)
  with s show "session_typed cfg s'"
    by (auto simp: absorb_once_def session_typed_def sat_add_def usize_max_def split: if_splits)
qed

lemma stays_verify [stays]: "staysO (session_typed cfg) (verify_binding cb out)"
proof -
  have "staysO (session_typed cfg) (binding_response mac cmk cb out)" for mac cmk
    unfolding binding_response_def by (auto intro!: stays split: sum.split prod.split)
  then show ?thesis unfolding verify_binding_def by (auto intro!: stays split: option.split sum.split)
qed

lemma stays_intermediate [stays]: "staysO (session_typed cfg) (intermediate_phase inbound out)"
proof -
  have "staysO (session_typed cfg) (handle_inner_success inbound ir out)" for ir
    unfolding handle_inner_success_def
    by (rule stays_get) (auto intro!: stays stays_absorb simp: session_typed_def [of cfg] split: option.split)
  then show ?thesis unfolding intermediate_phase_def by (auto intro!: stays split: option.split)
qed

lemma stays_result [stays]: "staysO (session_typed cfg) (result_phase inbound out)"
proof -
  have "staysO (session_typed cfg) (handle_result inbound status out)" for status
    by (auto simp: staysO_def handle_result_def split: if_splits sum.splits)
  then show ?thesis unfolding result_phase_def by (auto intro!: stays split: option.split)
qed

lemma stays_session: "staysO (session_typed cfg) (session_step proc inbound)"
  unfolding session_step_def by (auto intro!: stays split: sum.split)


section \<open>The driver\<close>

text \<open>
  Buffers within their bounds, queued fragments no longer than configured, a session exactly when Phase 2
  was entered, over an established tunnel and with the inner method moved into it, and a pending outcome
  only in the last phase.
\<close>

definition driver_typed :: "driver_config \<Rightarrow> ('c, 'i) teap_driver \<Rightarrow> bool" where
  "driver_typed cfg d \<longleftrightarrow> dr_cfg d = cfg
     \<and> reasm_inv (dr_reasm d) \<and> ra_max (dr_reasm d) = MAX_TLS_MESSAGE
     \<and> (\<forall>m\<in>set (dr_queue d). length (to_data m) \<le> max (dc_max_fragment cfg) 1)
     \<and> (dr_session d = None \<longrightarrow> dr_phase d \<noteq> Phase2)
     \<and> (\<forall>s. dr_session d = Some s \<longrightarrow> session_typed (session_cfg cfg) s \<and> tc_established (dr_tunnel d)
          \<and> dr_inner d = None \<and> (dr_phase d = Phase2 \<or> dr_phase d = Terminated))
     \<and> (dr_pending d \<noteq> None \<longrightarrow> dr_phase d = Terminated)"

lemma driver_typed_upd [simp]:
  "driver_typed cfg (d\<lparr>dr_last_id := i\<rparr>) = driver_typed cfg d"
  "driver_typed cfg (d\<lparr>dr_rounds := n\<rparr>) = driver_typed cfg d"
  by (simp_all add: driver_typed_def)

lemma driver_typed_queue:
  "driver_typed cfg d \<Longrightarrow> (\<And>m. m \<in> set q \<Longrightarrow> length (to_data m) \<le> max (dc_max_fragment cfg) 1) \<Longrightarrow>
     driver_typed cfg (d\<lparr>dr_queue := q\<rparr>)"
  by (simp add: driver_typed_def)

text \<open>The same, and in a given phase.\<close>

abbreviation typed_in :: "driver_config \<Rightarrow> driver_phase \<Rightarrow> ('c, 'i) teap_driver \<Rightarrow> bool" where
  "typed_in cfg ph d \<equiv> driver_typed cfg d \<and> dr_phase d = ph"

lemma tunnel_gate_kept: "gate_kept m \<Longrightarrow> m t = Some (r, t') \<Longrightarrow> tc_established t \<Longrightarrow> tc_established t'"
  by (simp add: gate_kept_def)

lemma stays_tunnel:
  assumes "\<And>t r t'. m t = Some (r, t') \<Longrightarrow> tc_established t \<Longrightarrow> tc_established t'"
  shows "staysO (driver_typed cfg) (on_tunnel m)" "staysO (typed_in cfg ph) (on_tunnel m)"
  unfolding on_tunnel_def
  by (rule stays_zoom, insert assms, fastforce simp: driver_typed_def split: option.splits)+

lemma stays_respond [stays]: "staysO I (respond outer)"
  unfolding respond_def by (intro stays)

lemma stays_send [stays]: "staysO (driver_typed cfg) (send_tls_message msg)"
  unfolding send_tls_message_def
proof (rule stays_get, goal_cases)
  case (1 d)
  then have mf: "dc_max_fragment (dr_cfg d) = dc_max_fragment cfg" by (simp add: driver_typed_def)
  show ?case
    unfolding mf using fragment_small [of _ msg "dc_max_fragment cfg" TEAP_VERSION]
    by (cases "fragment msg (dc_max_fragment cfg) TEAP_VERSION")
      (auto simp del: TEAP_VERSION_def One_nat_def intro!: stays stays_modify driver_typed_queue)
qed

lemma stays_next [stays]: "staysO (driver_typed cfg) next_out_fragment"
  unfolding next_out_fragment_def
proof (rule stays_get, goal_cases)
  case (1 d)
  then have "\<And>m. m \<in> set (dr_queue d) \<Longrightarrow> length (to_data m) \<le> max (dc_max_fragment cfg) 1"
    by (simp add: driver_typed_def)
  then show ?case
    by (cases "dr_queue d")
      (auto simp del: TEAP_VERSION_def One_nat_def intro!: stays stays_modify driver_typed_queue)
qed

lemma stays_reasm: "staysO (driver_typed cfg) (on_reasm outer)" "staysO (typed_in cfg ph) (on_reasm outer)"
  unfolding on_reasm_def
  by (rule stays_zoom, use reasm_push_keeps in \<open>fastforce simp: pureO_def driver_typed_def\<close>)+

lemma stays_on_session [stays]:
  "staysO (driver_typed cfg) (on_session (session_step proc tlvs))"
proof (rule staysI)
  fix d :: "('a, 'b) teap_driver" and r d'
  assume d: "driver_typed cfg d" "on_session (session_step proc tlvs) d = Some (r, d')"
  show "driver_typed cfg d'"
  proof (cases "dr_session d")
    case None
    with d show ?thesis by (simp add: on_session_def)
  next
    case (Some s)
    with d(2) obtain q s' where st: "session_step proc tlvs s = Some (q, s')" and d': "d' = d\<lparr>dr_session := Some s'\<rparr>"
      by (auto simp: on_session_def zoomO_def split: option.splits sum.splits)
    have "session_typed (session_cfg cfg) s" using d(1) Some by (simp add: driver_typed_def)
    from staysD [OF stays_session this st] d(1) Some show ?thesis by (simp add: d' driver_typed_def)
  qed
qed

text \<open>Entering Phase 2.\<close>

lemma start_phase2_typed:
  fixes rl :: "('c, 're) rustls" and d :: "('c, 'i) teap_driver"
  assumes doc: "mac_lawful (aws_dyn_mac sign aws_sha384)" and d: "typed_in cfg Handshake d"
    and st: "start_phase2 rl sign d = Some (r, d')"
  shows "driver_typed cfg d'"
proof -
  have none: "dr_session d = None" using d by (cases "dr_session d") (auto simp: driver_typed_def)
  have calls: "session_key_seed rl (dr_tunnel d) = Some (q, t) \<Longrightarrow> t = dr_tunnel d \<and> (\<forall>x. q = Inr x \<longrightarrow> tc_established t)"
    "negotiated_mac rl (dr_tunnel d) = Some (p, t) \<Longrightarrow> t = dr_tunnel d \<and> (\<forall>x. p = Inr x \<longrightarrow> x = aws_sha384)" for q p t
    by (auto simp: session_key_seed_def negotiated_mac_def require_established_def op_simps
        split: if_splits sum.splits option.splits)
  have s: "session_typed c s" if "session_new c seed (aws_dyn_mac sign aws_sha384) i = Inr s" for c seed and i :: 'i and s
    using that doc by (auto simp: session_new_def ks_new_def session_typed_def split: if_splits)
  show ?thesis
    using st d none
    by (auto simp: start_phase2_def bindO_def on_tunnel_def zoomO_def getO_def modifyO_def throwO_def driver_typed_def
        session_cfg_def [symmetric] split: option.splits sum.splits prod.splits dest!: calls s)
qed

lemma finish_keeps: "finish_handshake rl t = Some (r, t') \<Longrightarrow> tc_established t \<Longrightarrow> tc_established t'"
  by (cases r) (auto simp: finish_handshake_Inr dest: finish_handshake_Inl)

lemma handshake_message_typed:
  assumes doc: "mac_lawful (aws_dyn_mac sign aws_sha384)" and d: "typed_in cfg Handshake d"
    and st: "handshake_message rl sign message d = Some (r, d')"
  shows "driver_typed cfg d'"
proof -
  have t: "staysO (typed_in cfg Handshake) (on_tunnel (feed_incoming rl message))"
    "staysO (typed_in cfg Handshake) (on_tunnel (take_outgoing rl))"
    "staysO (typed_in cfg Handshake) (on_tunnel (finish_handshake rl))"
    using finish_keeps
    by (intro stays_tunnel(2), auto dest: tunnel_gate_kept [OF gate_feed] tunnel_gate_kept [OF gate_take])+
  have sends: "driver_typed cfg d'" if "typed_in cfg Handshake t" "bindO (on_tunnel (take_outgoing rl)) send_tls_message t = Some (r, d')" for t
    by (rule bind_exits [OF that(2) t(2) that(1)]) (auto dest: staysD [OF stays_send])
  have finishes: "driver_typed cfg d'"
    if "typed_in cfg Handshake t" "bindO (on_tunnel (take_outgoing rl)) (\<lambda>flight. bindO (on_tunnel (finish_handshake rl)) (\<lambda>_.
         bindO (start_phase2 rl sign) (\<lambda>_. send_tls_message flight))) t = Some (r, d')" for t
  proof (rule bind_exits [OF that(2) t(2) that(1)])
    fix flight u
    assume u: "typed_in cfg Handshake u" and 1: "bindO (on_tunnel (finish_handshake rl)) (\<lambda>_.
         bindO (start_phase2 rl sign) (\<lambda>_. send_tls_message flight)) u = Some (r, d')"
    show ?thesis
    proof (rule bind_exits [OF 1 t(3) u])
      fix v
      assume v: "typed_in cfg Handshake v" and 2: "bindO (start_phase2 rl sign) (\<lambda>_. send_tls_message flight) v = Some (r, d')"
      then obtain q w where w: "start_phase2 rl sign v = Some (q, w)" by (auto simp: bindO_def split: option.splits)
      from start_phase2_typed [OF doc v this] have "driver_typed cfg w" .
      with 2 w show ?thesis by (cases q) (auto simp: bindO_def dest: staysD [OF stays_send])
    qed simp
  qed simp
  show ?thesis
    using st unfolding handshake_message_def
  proof (rule bind_exits [OF _ t(1) d])
    fix x u
    assume u: "typed_in cfg Handshake u" and "bindO (getO (\<lambda>d. tls_is_handshaking rl (dr_tunnel d))) (\<lambda>handshaking.
       if handshaking then bindO (on_tunnel (take_outgoing rl)) send_tls_message
       else bindO (on_tunnel (take_outgoing rl)) (\<lambda>flight. bindO (on_tunnel (finish_handshake rl)) (\<lambda>_.
         bindO (start_phase2 rl sign) (\<lambda>_. send_tls_message flight)))) u = Some (r, d')"
    then show ?thesis
      using sends [OF u] finishes [OF u] by (auto simp: bindO_def [of "getO _"] getO_def split: if_splits)
  qed simp
qed


lemma on_handshake_typed:
  assumes doc: "mac_lawful (aws_dyn_mac sign aws_sha384)" and d: "typed_in cfg Handshake d"
    and st: "on_handshake rl sign outer d = Some (r, d')"
  shows "driver_typed cfg d'"
proof -
  let ?n = "sat_add (dr_rounds d) 1"
  let ?d = "d\<lparr>dr_rounds := ?n\<rparr>"
  have d1: "typed_in cfg Handshake ?d" using d by simp
  show ?thesis
  proof (cases "MAX_HANDSHAKE_ROUNDS < ?n")
    case True
    with st have "d' = ?d" by (auto simp: on_handshake_def op_simps)
    with d1 show ?thesis by simp
  next
    case False
    with st have "bindO (on_reasm outer) (\<lambda>pushed. case pushed of
          None \<Rightarrow> respond (outer_ack TEAP_VERSION) | Some message \<Rightarrow> handshake_message rl sign message) ?d = Some (r, d')"
      by (simp add: on_handshake_def bindO_def [of "modifyO _"] bindO_def [of "getO _"] modifyO_def getO_def del: TEAP_VERSION_def)
    then show ?thesis
    proof (rule bind_exits [OF _ stays_reasm(2) d1])
      fix x t
      assume t: "typed_in cfg Handshake t" and go: "(case x of
          None \<Rightarrow> respond (outer_ack TEAP_VERSION) | Some message \<Rightarrow> handshake_message rl sign message) t = Some (r, d')"
      show ?thesis
      proof (cases x)
        case None
        with go have "respond (outer_ack TEAP_VERSION) t = Some (r, d')" by (simp del: TEAP_VERSION_def)
        from dead_respond [OF this] t show ?thesis by simp
      next
        case (Some message)
        with go have "handshake_message rl sign message t = Some (r, d')" by simp
        from handshake_message_typed [OF doc t this] show ?thesis .
      qed
    qed simp
  qed
qed

lemma stays_protect [stays]: "staysO (driver_typed cfg) (protect_tlvs rl tlvs)"
  unfolding protect_tlvs_def
  by (intro stays stays_tunnel(1)) (auto dest: tunnel_gate_kept [OF gate_protect])

lemma stays_phase2 [stays]: "staysO (driver_typed cfg) (on_phase2 rl proc outer)"
proof -
  have "staysO (driver_typed cfg) (on_tunnel (unprotect rl records))" for records
    by (rule stays_tunnel(1)) (auto dest: tunnel_gate_kept [OF gate_unprotect])
  moreover have "staysO (driver_typed cfg)
      (modifyO (\<lambda>d. d\<lparr>dr_phase := Terminated, dr_pending := Some oc\<rparr>))" for oc
    by (rule stays_modify) (simp add: driver_typed_def)
  ultimately have "staysO (driver_typed cfg) (phase2_records rl proc records)" for records
    unfolding phase2_records_def modify_twice by (auto intro!: stays split: step.split)
  moreover have "staysO (driver_typed cfg) (modifyO (\<lambda>d. d\<lparr>dr_rounds := sat_add (dr_rounds d) 1\<rparr>))"
    by (rule stays_modify) simp
  ultimately show ?thesis
    unfolding on_phase2_def by (auto intro!: stays stays_reasm simp del: TEAP_VERSION_def split: option.split)
qed

lemma stays_outer:
  assumes doc: "mac_lawful (aws_dyn_mac sign aws_sha384)"
  shows "staysO (driver_typed cfg) (on_outer rl sign proc outer)"
proof (rule staysI)
  fix d r d'
  assume d: "driver_typed cfg d" and st: "on_outer rl sign proc outer d = Some (r, d')"
  show "driver_typed cfg d'"
  proof (cases "is_ack outer \<and> dr_queue d \<noteq> []")
    case True
    with st d show ?thesis by (auto simp: on_outer_def dest: staysD [OF stays_next])
  next
    case False
    show ?thesis
    proof (cases "dr_phase d")
      case ExpectStart
      have "driver_typed cfg (d\<lparr>dr_phase := Handshake\<rparr>)" using d ExpectStart by (auto simp: driver_typed_def)
      moreover have "staysO (driver_typed cfg) (bindO (on_tunnel (take_outgoing rl)) send_tls_message)"
        by (intro stays stays_tunnel(1)) (auto dest: tunnel_gate_kept [OF gate_take])
      ultimately show ?thesis
        using st False ExpectStart d
        by (auto simp: on_outer_def bindO_def [of "modifyO _"] modifyO_def throwO_def dest: staysD split: if_splits)
    next
      case Handshake
      with False st have "on_handshake rl sign outer d = Some (r, d')" by (auto simp: on_outer_def)
      with d Handshake show ?thesis by (intro on_handshake_typed [OF doc]) simp_all
    next
      case Phase2
      with False st d show ?thesis by (auto simp: on_outer_def dest: staysD [OF stays_phase2])
    next
      case Terminated
      with False st d show ?thesis by (auto simp: on_outer_def throwO_def)
    qed
  qed
qed

lemma stays_driver:
  assumes "mac_lawful (aws_dyn_mac sign aws_sha384)"
  shows "staysO (driver_typed cfg) (driver_step rl sign proc req)"
proof -
  have "staysO (driver_typed cfg) (modifyO (dr_last_id_update (\<lambda>_. i)))"
    "staysO (driver_typed cfg) (modifyO (dr_phase_update (\<lambda>_. Terminated)))"
    "staysO (driver_typed cfg) (modifyO (dr_pending_update (\<lambda>_. None)))" for i
    by (rule stays_modify, simp add: driver_typed_def)+
  with stays_outer [OF assms] show ?thesis
    unfolding driver_step_def on_request_def
    by (auto intro!: stays split: eap_code.split option.split)
qed

lemma driver_new_typed: "driver_new rb cfg roots inner = Inr d \<Longrightarrow> driver_typed cfg d"
  by (auto simp: driver_new_def driver_typed_def reasm_new_def reasm_inv_def split: sum.splits)

lemma run_calls: "driver_run rl sign proc d0 n d \<Longrightarrow> driver_calls rl sign proc d0 d"
  by (induction rule: driver_run.induct) (auto intro: driver_calls.intros)

section \<open>Properties\<close>

text \<open>C6: the state of a driver is typed. Whatever calls are made on a driver fresh from \<open>driver_new\<close> and
  whatever they return, errors included: the reassembly buffer holds at most 256 KiB and no queued
  fragment is longer than configured; Phase 2 has a session, over an established tunnel; a pending outcome
  is there only after the last phase began; and in a session the chaining secret has 40 octets, a stored
  IMSK 32, a stored compound key 20, the key schedule has absorbed one method if there is a compound key
  and none otherwise, and a ticket was shown only in a user session.\<close>

theorem driver_state_typed:
  assumes "driver_new rb cfg roots inner = Inr d0" and "mac_lawful (aws_dyn_mac sign aws_sha384)"
    and "driver_calls rl sign proc d0 d"
  shows "driver_typed cfg d \<and> length (ra_buf (dr_reasm d)) \<le> 256 * 1024
    \<and> (\<forall>s. dr_session d = Some s \<longrightarrow> session_typed (session_cfg cfg) s)"
proof -
  have "driver_typed cfg d"
    using assms(3) driver_new_typed [OF assms(1)]
    by (induction rule: driver_calls.induct) (auto dest: staysD [OF stays_driver [OF assms(2)]])
  then show ?thesis by (auto simp: driver_typed_def reasm_inv_def MAX_TLS_MESSAGE_def)
qed

theorem driver_state_typed_witness:
  "\<exists>d. driver_calls plain_tls demo_sign demo_inner demo_driver d \<and> dr_pending d \<noteq> None
     \<and> driver_typed demo_driver_config d"
proof -
  obtain n d msk emsk d' where r: "driver_run plain_tls demo_sign demo_inner demo_driver n d"
    "driver_step plain_tls demo_sign demo_inner [3, 0, 0, 4] d = Some (Inr (Finished None (Success msk emsk None)), d')"
    using demo_driver_succeeds by blast
  have p: "dr_pending d \<noteq> None" using r(2) by (auto elim: driver_step_finished)
  from driver_state_typed [OF demo_new_driver demo_mac_lawful(1) run_calls [OF r(1)]] p run_calls [OF r(1)] show ?thesis by blast
qed

end
