(* ===== verification/Text_Codec.thy ===== *)
theory Text_Codec
  imports Prelude
begin

text \<open>
  Rust strings. A \<open>str\<close> is its UTF-8 octets; the operations of the standard library that the source
  uses on it (\<open>from_utf8\<close>, \<open>trim\<close>, \<open>lines\<close>, \<open>split_once\<close>, decimal and hexadecimal conversion) only look
  for ASCII characters, whose octets never occur inside a longer sequence, or for white space.
\<close>

type_synonym str = bytes

section \<open>UTF-8\<close>

text \<open>\<open>core::str::from_utf8\<close>: the well-formed octet sequences of the Unicode standard.\<close>

definition utf8_cont :: "u8 \<Rightarrow> bool" where
  "utf8_cont b \<longleftrightarrow> 0x80 \<le> b \<and> b \<le> 0xBF"

fun utf8_valid :: "bytes \<Rightarrow> bool" where
  "utf8_valid [] = True"
| "utf8_valid (a # bs) =
     (if a < 0x80 then utf8_valid bs
      else if 0xC2 \<le> a \<and> a \<le> 0xDF then
        (case bs of b # cs \<Rightarrow> utf8_cont b \<and> utf8_valid cs | _ \<Rightarrow> False)
      else if 0xE0 \<le> a \<and> a \<le> 0xEF then
        (case bs of b # c # ds \<Rightarrow>
             utf8_cont b \<and> utf8_cont c \<and> (a = 0xE0 \<longrightarrow> 0xA0 \<le> b) \<and> (a = 0xED \<longrightarrow> b \<le> 0x9F) \<and> utf8_valid ds
         | _ \<Rightarrow> False)
      else if 0xF0 \<le> a \<and> a \<le> 0xF4 then
        (case bs of b # c # d # es \<Rightarrow>
             utf8_cont b \<and> utf8_cont c \<and> utf8_cont d \<and> (a = 0xF0 \<longrightarrow> 0x90 \<le> b) \<and> (a = 0xF4 \<longrightarrow> b \<le> 0x8F)
               \<and> utf8_valid es
         | _ \<Rightarrow> False)
      else False)"

section \<open>White space\<close>

text \<open>The characters of Unicode's \<open>White_Space\<close>, encoded.\<close>

definition WHITE_SPACE :: "bytes list" where
  "WHITE_SPACE = map (\<lambda>b. [b]) [9, 10, 11, 12, 13, 32]
     @ [[0xC2, 0x85], [0xC2, 0xA0], [0xE1, 0x9A, 0x80]]
     @ map (\<lambda>k. [0xE2, 0x80, k]) [0x80, 0x81, 0x82, 0x83, 0x84, 0x85, 0x86, 0x87, 0x88, 0x89, 0x8A, 0xA8, 0xA9, 0xAF]
     @ [[0xE2, 0x81, 0x9F], [0xE3, 0x80, 0x80]]"

definition leading_ws :: "bytes list \<Rightarrow> bytes \<Rightarrow> bytes option" where
  "leading_ws ws bs = find (\<lambda>w. take (length w) bs = w) ws"

function strip_ws :: "bytes list \<Rightarrow> bytes \<Rightarrow> bytes" where
  "strip_ws ws bs =
     (case leading_ws ws bs of
        None \<Rightarrow> bs
      | Some w \<Rightarrow> if w = [] then bs else strip_ws ws (drop (length w) bs))"
  by pat_completeness auto
termination
proof (relation "measure (\<lambda>(ws, bs). length bs)")
  fix ws bs w
  assume "leading_ws ws bs = Some w" "w \<noteq> []"
  then have "take (length w) bs = w" "0 < length w" by (auto simp: leading_ws_def find_Some_iff)
  then have "bs \<noteq> []" by auto
  with \<open>0 < length w\<close> show "((ws, drop (length w) bs), ws, bs) \<in> measure (\<lambda>(ws, bs). length bs)" by simp
qed simp

declare strip_ws.simps [simp del]

text \<open>\<open>s.trim()\<close>.\<close>

definition trim :: "str \<Rightarrow> str" where
  "trim s = rev (strip_ws (map rev WHITE_SPACE) (rev (strip_ws WHITE_SPACE s)))"

section \<open>Numbers\<close>

text \<open>\<open>{}\<close> of an unsigned integer.\<close>

fun decimal :: "nat \<Rightarrow> str" where
  "decimal n = (if n < 10 then [48 + word_of_nat n] else decimal (n div 10) @ [48 + word_of_nat (n mod 10)])"

declare decimal.simps [simp del]

definition is_digit :: "u8 \<Rightarrow> bool" where
  "is_digit b \<longleftrightarrow> 48 \<le> b \<and> b \<le> 57"

text \<open>\<open>str::parse::<u64>\<close>: an optional plus sign, at least one digit, no overflow.\<close>

fun parse_digits :: "nat \<Rightarrow> str \<Rightarrow> nat option" where
  "parse_digits acc [] = Some acc"
| "parse_digits acc (b # bs) =
     (if is_digit b \<and> acc * 10 + unat (b - 48) < 2 ^ 64 then parse_digits (acc * 10 + unat (b - 48)) bs
      else None)"

definition parse_u64 :: "str \<Rightarrow> nat option" where
  "parse_u64 s =
     (let d = (case s of b # bs \<Rightarrow> if b = 43 then bs else s | [] \<Rightarrow> [])
      in if d = [] then None else parse_digits 0 d)"

text \<open>\<open>{:02x}\<close> and \<open>{:02X}\<close> of an octet, and the value of a hexadecimal digit of either case.\<close>

definition hex_digit :: "u8 \<Rightarrow> u8 \<Rightarrow> u8" where
  "hex_digit letter n = (if n < 10 then 48 + n else letter + (n - 10))"

definition hex_octet :: "u8 \<Rightarrow> u8 \<Rightarrow> str" where
  "hex_octet letter b = [hex_digit letter (drop_bit 4 b), hex_digit letter (b AND 15)]"

definition hex_val :: "u8 \<Rightarrow> u8 option" where
  "hex_val c =
     (if is_digit c then Some (c - 48)
      else if 97 \<le> c \<and> c \<le> 102 then Some (c - 87)
      else if 65 \<le> c \<and> c \<le> 70 then Some (c - 55)
      else None)"

section \<open>Lines and fields\<close>

text \<open>\<open>lines()\<close>: pieces ended by a line feed, which goes with the carriage return before it.\<close>

definition chomp_cr :: "str \<Rightarrow> str" where
  "chomp_cr l = (if l \<noteq> [] \<and> last l = 13 then butlast l else l)"

fun lines_from :: "str \<Rightarrow> str \<Rightarrow> str list" where
  "lines_from cur [] = (if cur = [] then [] else [cur])"
| "lines_from cur (b # bs) =
     (if b = 10 then chomp_cr cur # lines_from [] bs else lines_from (cur @ [b]) bs)"

definition lines :: "str \<Rightarrow> str list" where
  "lines s = lines_from [] s"

text \<open>\<open>split_once(c)\<close> for an ASCII character.\<close>

fun split_once :: "u8 \<Rightarrow> str \<Rightarrow> (str \<times> str) option" where
  "split_once c [] = None"
| "split_once c (b # bs) = (if b = c then Some ([], bs) else map_option (map_prod ((#) b) id) (split_once c bs))"


section \<open>Trimming\<close>

definition ascii_space :: "u8 \<Rightarrow> bool" where
  "ascii_space b \<longleftrightarrow> b \<in> {9, 10, 11, 12, 13, 32}"

text \<open>An octet that neither begins nor ends a white-space character.\<close>

definition no_space :: "u8 \<Rightarrow> bool" where
  "no_space b \<longleftrightarrow> b < 0x80 \<and> \<not> ascii_space b"

lemma leading_none:
  "\<forall>w\<in>set ws. w \<noteq> [] \<and> hd w \<noteq> c \<Longrightarrow> leading_ws ws (c # bs) = None"
  by (auto simp: leading_ws_def find_None_iff neq_Nil_conv take_Cons')

lemma no_space_leading:
  assumes "no_space c"
  shows "leading_ws WHITE_SPACE (c # bs) = None" "leading_ws (map rev WHITE_SPACE) (c # bs) = None"
  using assms
  by (auto intro!: leading_none simp: WHITE_SPACE_def no_space_def ascii_space_def)

lemma leading_single: "c \<in> set xs \<Longrightarrow> leading_ws (map (\<lambda>b. [b]) xs @ ws) (c # bs) = Some [c]"
  by (induction xs) (auto simp: leading_ws_def)

lemma space_leading:
  assumes "ascii_space c"
  shows "leading_ws WHITE_SPACE (c # bs) = Some [c]" "leading_ws (map rev WHITE_SPACE) (c # bs) = Some [c]"
proof -
  have c: "c \<in> set [9, 10, 11, 12, 13, 32]" using assms by (simp add: ascii_space_def)
  show "leading_ws WHITE_SPACE (c # bs) = Some [c]"
    unfolding WHITE_SPACE_def by (rule leading_single [OF c])
  show "leading_ws (map rev WHITE_SPACE) (c # bs) = Some [c]"
    unfolding WHITE_SPACE_def map_append map_map
    using leading_single [OF c] by (simp add: comp_def)
qed

lemma strip_spaces:
  "list_all ascii_space w \<Longrightarrow> strip_ws WHITE_SPACE (w @ bs) = strip_ws WHITE_SPACE bs"
  "list_all ascii_space w \<Longrightarrow> strip_ws (map rev WHITE_SPACE) (w @ bs) = strip_ws (map rev WHITE_SPACE) bs"
proof (induction w)
  case (Cons c w)
  {
    case 1
    with Cons.IH(1) show ?case by (subst strip_ws.simps) (simp add: space_leading)
  next
    case 2
    with Cons.IH(2) show ?case by (subst strip_ws.simps) (simp add: space_leading)
  }
qed simp_all

lemma strip_done:
  "no_space c \<Longrightarrow> strip_ws WHITE_SPACE (c # bs) = c # bs"
  "no_space c \<Longrightarrow> strip_ws (map rev WHITE_SPACE) (c # bs) = c # bs"
  by (subst strip_ws.simps, simp add: no_space_leading)+

lemma strip_Nil [simp]: "strip_ws WHITE_SPACE [] = []" "strip_ws (map rev WHITE_SPACE) [] = []"
  by (subst strip_ws.simps, simp add: leading_ws_def WHITE_SPACE_def)+

text \<open>ASCII white space around octets that are not white space is trimmed.\<close>

lemma trim_around:
  assumes "list_all ascii_space a" and "list_all ascii_space b" and "list_all no_space s"
  shows "trim (a @ s @ b) = s"
proof (cases s rule: rev_cases)
  case Nil
  have "strip_ws WHITE_SPACE b = []" using strip_spaces(1) [OF assms(2), of "[]"] by simp
  with Nil show ?thesis using assms by (simp add: trim_def strip_spaces)
next
  case (snoc xs y)
  then obtain c r where s: "s = c # r" by (metis append_is_Nil_conv list.exhaust not_Cons_self2)
  have "strip_ws WHITE_SPACE (a @ s @ b) = s @ b"
    using assms s by (simp add: strip_spaces strip_done)
  moreover have "strip_ws (map rev WHITE_SPACE) (rev b @ rev s) = rev s"
    using assms snoc by (subst strip_spaces) (simp_all add: list_all_iff strip_done)
  ultimately show ?thesis by (simp add: trim_def)
qed

section \<open>Lines and numbers read back\<close>

lemma lines_from_app: "10 \<notin> set l \<Longrightarrow> lines_from cur (l @ 10 # rest) = chomp_cr (cur @ l) # lines rest"
  by (induction l arbitrary: cur) (auto simp: lines_def)

lemma lines_app: "10 \<notin> set l \<Longrightarrow> 13 \<notin> set l \<Longrightarrow> lines (l @ 10 # rest) = l # lines rest"
  unfolding lines_def [of "l @ 10 # rest"]
  by (subst lines_from_app) (auto simp: chomp_cr_def dest: last_in_set)

lemma lines_Nil [simp]: "lines [] = []"
  by (simp add: lines_def)

lemma split_once_app: "c \<notin> set k \<Longrightarrow> split_once c (k @ c # v) = Some (k, v)"
  by (induction k) auto

lemma split_once_None: "split_once c xs = None \<longleftrightarrow> c \<notin> set xs"
  by (induction xs) auto

lemma digit_u8: "n < 10 \<Longrightarrow> is_digit (48 + word_of_nat n) \<and> unat (48 + word_of_nat n - 48 :: u8) = n"
proof -
  assume n: "n < 10"
  have w: "unat (word_of_nat n :: u8) = n" using n by (simp add: unsigned_of_nat take_bit_nat_eq_self)
  moreover have "unat (48 + word_of_nat n :: u8) = 48 + n"
    by (subst unat_add_lem [THEN iffD1]) (use n w in simp_all)
  ultimately show ?thesis using n by (simp add: is_digit_def word_le_nat_alt)
qed

lemma set_decimal: "set (decimal n) \<subseteq> {b. is_digit b}"
proof (induction n rule: decimal.induct)
  case (1 n)
  then show ?case using digit_u8 [of n] digit_u8 [of "n mod 10"] by (subst decimal.simps) auto
qed

lemma decimal_nonempty [simp]: "decimal n \<noteq> []"
  by (subst decimal.simps) simp

lemma parse_digits_snoc:
  "parse_digits acc (xs @ [b]) =
     (case parse_digits acc xs of
        None \<Rightarrow> None
      | Some a \<Rightarrow> if is_digit b \<and> a * 10 + unat (b - 48) < 2 ^ 64 then Some (a * 10 + unat (b - 48)) else None)"
  by (induction xs arbitrary: acc) auto

lemma parse_decimal: "n < 2 ^ 64 \<Longrightarrow> parse_digits 0 (decimal n) = Some n"
proof (induction n rule: decimal.induct)
  case (1 n)
  show ?case
  proof (cases "n < 10")
    case True
    with digit_u8 [of n] show ?thesis by (subst decimal.simps) simp
  next
    case False
    with 1 have "parse_digits 0 (decimal (n div 10)) = Some (n div 10)" by simp
    with False 1(2) digit_u8 [of "n mod 10"] show ?thesis
      by (subst decimal.simps) (simp add: parse_digits_snoc)
  qed
qed

lemma parse_u64_decimal [simp]: "n < 2 ^ 64 \<Longrightarrow> parse_u64 (decimal n) = Some n"
proof -
  assume n: "n < 2 ^ 64"
  obtain b bs where d: "decimal n = b # bs" by (metis decimal_nonempty neq_Nil_conv)
  then have "is_digit b" using set_decimal [of n] by auto
  then have "b \<noteq> 43" by (auto simp: is_digit_def)
  then have "parse_u64 (decimal n) = parse_digits 0 (decimal n)" unfolding d parse_u64_def by simp
  with n show ?thesis by (simp add: parse_decimal)
qed

section \<open>Characters of a string\<close>

declare utf8_valid.simps(2) [simp del]

text \<open>A string is its first character, the first octet and those that must follow it, and a string.\<close>

definition tail_len :: "u8 \<Rightarrow> nat" where
  "tail_len a = (if a < 0x80 then 0 else if a \<le> 0xDF then 1 else if a \<le> 0xEF then 2 else 3)"
definition tail_ok :: "u8 \<Rightarrow> bytes \<Rightarrow> bool" where
  "tail_ok a cs \<longleftrightarrow> length cs = tail_len a \<and>
     (if a < 0x80 then True
      else if 0xC2 \<le> a \<and> a \<le> 0xDF then utf8_cont (cs ! 0)
      else if 0xE0 \<le> a \<and> a \<le> 0xEF then
        utf8_cont (cs ! 0) \<and> utf8_cont (cs ! 1) \<and> (a = 0xE0 \<longrightarrow> 0xA0 \<le> cs ! 0) \<and> (a = 0xED \<longrightarrow> cs ! 0 \<le> 0x9F)
      else 0xF0 \<le> a \<and> a \<le> 0xF4 \<and>
        utf8_cont (cs ! 0) \<and> utf8_cont (cs ! 1) \<and> utf8_cont (cs ! 2) \<and> (a = 0xF0 \<longrightarrow> 0x90 \<le> cs ! 0)
          \<and> (a = 0xF4 \<longrightarrow> cs ! 0 \<le> 0x8F))"

lemma utf8_Cons: "utf8_valid (a # bs) \<longleftrightarrow> tail_ok a (take (tail_len a) bs) \<and> utf8_valid (drop (tail_len a) bs)"
proof -
  consider (bs0) "bs = []" | (bs1) b where "bs = [b]" | (bs2) b c where "bs = [b, c]"
    | (bs3) b c d es where "bs = b # c # d # es"
    by (metis neq_Nil_conv)
  note b = this
  consider (c1) "a < 0x80" "tail_len a = 0"
    | (c2) "\<not> a < 0x80" "0xC2 \<le> a \<and> a \<le> 0xDF" "tail_len a = 1"
    | (c3) "\<not> a < 0x80" "\<not> (0xC2 \<le> a \<and> a \<le> 0xDF)" "0xE0 \<le> a \<and> a \<le> 0xEF" "tail_len a = 2"
    | (c4) "\<not> a < 0x80" "\<not> (0xC2 \<le> a \<and> a \<le> 0xDF)" "\<not> (0xE0 \<le> a \<and> a \<le> 0xEF)" "0xF0 \<le> a \<and> a \<le> 0xF4" "tail_len a = 3"
    | (c5) "\<not> a < 0x80" "\<not> (0xC2 \<le> a \<and> a \<le> 0xDF)" "\<not> (0xE0 \<le> a \<and> a \<le> 0xEF)" "\<not> (0xF0 \<le> a \<and> a \<le> 0xF4)"
    unfolding tail_len_def by (auto simp: word_le_nat_alt word_less_nat_alt)
  then show ?thesis
  proof cases
    case c1
    then show ?thesis by (simp add: utf8_valid.simps(2) [of a] tail_ok_def)
  next
    case c2
    with b show ?thesis by cases (simp_all add: utf8_valid.simps(2) [of a] tail_ok_def if_P)
  next
    case c3
    show ?thesis using b by cases (simp_all only: utf8_valid.simps(2) [of a] tail_ok_def c3 if_False if_True list.case, auto)
  next
    case c4
    show ?thesis using b by cases (simp_all only: utf8_valid.simps(2) [of a] tail_ok_def c4 if_False if_True list.case, auto simp: numeral_3_eq_3 numeral_2_eq_2)
  next
    case c5
    show ?thesis
      using c5(4) by (simp only: utf8_valid.simps(2) [of a] tail_ok_def c5(1-3) if_False if_True) blast
  qed
qed

lemma tail_ok_length: "tail_ok a cs \<Longrightarrow> length cs = tail_len a"
  by (simp add: tail_ok_def)

lemma utf8_append: "utf8_valid xs \<Longrightarrow> utf8_valid (xs @ ys) = utf8_valid ys"
proof (induction "length xs" arbitrary: xs rule: less_induct)
  case less
  show ?case
  proof (cases xs)
    case (Cons a bs)
    with less.prems have t: "tail_ok a (take (tail_len a) bs)" "utf8_valid (drop (tail_len a) bs)"
      by (simp_all add: utf8_Cons)
    then have "tail_len a \<le> length bs" using tail_ok_length [OF t(1)] by simp
    with t Cons less.hyps [of "drop (tail_len a) bs"] show ?thesis by (simp add: utf8_Cons)
  qed simp
qed

lemma utf8_ascii: "list_all (\<lambda>b. b < 0x80) xs \<Longrightarrow> utf8_valid xs"
  by (induction xs) (auto simp: utf8_Cons tail_len_def tail_ok_def)

text \<open>Changing ASCII octets to ASCII octets keeps a string well formed.\<close>

lemma utf8_map:
  assumes f: "\<And>b. f b \<noteq> b \<Longrightarrow> b < 0x80 \<and> f b < 0x80" and "utf8_valid xs"
  shows "utf8_valid (map f xs)"
  using assms(2)
proof (induction "length xs" arbitrary: xs rule: less_induct)
  case less
  show ?case
  proof (cases xs)
    case (Cons a bs)
    with less.prems have t: "tail_ok a (take (tail_len a) bs)" "utf8_valid (drop (tail_len a) bs)"
      by (simp_all add: utf8_Cons)
    from less.hyps [OF _ t(2)] Cons have r: "utf8_valid (map f (drop (tail_len a) bs))" by simp
    have c: "f b = b" if "utf8_cont b" for b
      using f [of b] that by (auto simp: utf8_cont_def word_le_nat_alt word_less_nat_alt)
    show ?thesis
    proof (cases "f a = a")
      case False
      then have "a < 0x80" "f a < 0x80" using f by blast+
      with Cons r show ?thesis by (simp add: utf8_Cons tail_len_def tail_ok_def)
    next
      case True
      have "map f (take (tail_len a) bs) = take (tail_len a) bs"
      proof (rule map_idI)
        fix b assume "b \<in> set (take (tail_len a) bs)"
        then obtain i where "i < length (take (tail_len a) bs)" "b = take (tail_len a) bs ! i"
          by (metis in_set_conv_nth)
        then have "utf8_cont b" using t(1)
          by (auto simp: tail_ok_def tail_len_def less_Suc_eq numeral_2_eq_2 numeral_3_eq_3 split: if_splits)
        then show "f b = b" by (rule c)
      qed
      with Cons True t r show ?thesis by (simp add: utf8_Cons take_map drop_map)
    qed
  qed simp
qed

end
