(* ===== verification/Config_Blob.thy ===== *)
theory Config_Blob
  imports Text_Codec
begin

text \<open>
  The connection-data blob of a session profile and its XML envelopes: crates/eaphost/src/config.rs,
  config_xml.rs and profile.rs, with the errors of crates/eaphost/src/error.rs. A Rust string is
  its UTF-8 octets. The reader is a state operation; a small calculus (\<open>reads\<close>) says which octets an
  operation consumes for which value, so that the grammar of the whole blob is composed from those of
  its fields.
\<close>

section \<open>The blob\<close>

text \<open>\<open>EapHostError\<close>, of the operating-system gate and of the registration, and \<open>ConfigError\<close>.\<close>

datatype eap_host_error = OsFipsDisabled | Win32Error u32 | NotWindows

datatype config_error = BadMagic | BadVersion | Truncated | TrailingData | BadUtf8

definition BLOB_MAGIC :: bytes where "BLOB_MAGIC = ascii ''USGT''"
definition BLOB_VERSION :: u8 where "BLOB_VERSION = 1"
definition FLAG_MACHINE :: u8 where "FLAG_MACHINE = 1"

record session_config_blob =
  scb_machine :: bool
  scb_server_name :: bytes
  scb_mat_vendor_id :: u32
  scb_max_fragment :: u32
  scb_selector_subject :: bytes
  scb_roots :: "bytes list"
  scb_mat :: "bytes option"

text \<open>\<open>u32::try_from(n).unwrap_or(u32::MAX)\<close>.\<close>

definition u32_try :: "nat \<Rightarrow> u32" where
  "u32_try n = (if n \<le> u32_max then word_of_nat n else word_of_nat u32_max)"

definition put_u32 :: "u32 \<Rightarrow> bytes" where
  "put_u32 n = le_of_word 4 n"

definition put_bytes :: "bytes \<Rightarrow> bytes" where
  "put_bytes b = put_u32 (u32_try (length b)) @ b"

definition config_to_bytes :: "session_config_blob \<Rightarrow> bytes" where
  "config_to_bytes c =
     BLOB_MAGIC @ [BLOB_VERSION] @ [if scb_machine c then FLAG_MACHINE else 0]
     @ le_of_word 4 (scb_mat_vendor_id c) @ le_of_word 4 (scb_max_fragment c)
     @ put_bytes (scb_server_name c) @ put_bytes (scb_selector_subject c)
     @ put_u32 (u32_try (length (scb_roots c))) @ concat (map put_bytes (scb_roots c))
     @ (case scb_mat c of Some mat \<Rightarrow> [1] @ put_bytes mat | None \<Rightarrow> [0])"

section \<open>The reader\<close>

record cfg_reader =
  cr_b :: bytes
  cr_pos :: nat

type_synonym 'a cfg_op = "(cfg_reader, config_error, 'a) op"

definition cfg_reader_new :: "bytes \<Rightarrow> cfg_reader" where
  "cfg_reader_new b = \<lparr>cr_b = b, cr_pos = 0\<rparr>"

definition cr_is_empty :: "cfg_reader \<Rightarrow> bool" where
  "cr_is_empty r \<longleftrightarrow> length (cr_b r) \<le> cr_pos r"

text \<open>\<open>take\<close>, whose \<open>None\<close> every caller turns into \<open>Truncated\<close>.\<close>

definition cr_take :: "nat \<Rightarrow> bytes cfg_op" where
  "cr_take n r =
     (case get_range (cr_b r) (cr_pos r) (cr_pos r + n) of
        None \<Rightarrow> Some (Inl Truncated, r)
      | Some s \<Rightarrow> Some (Inr s, r\<lparr>cr_pos := cr_pos r + n\<rparr>))"

definition cr_u8 :: "u8 cfg_op" where
  "cr_u8 = bindO (cr_take 1) (\<lambda>s. case s of b # _ \<Rightarrow> returnO b | [] \<Rightarrow> throwO Truncated)"

definition cr_u32 :: "u32 cfg_op" where
  "cr_u32 = bindO (cr_take 4) (\<lambda>s. if length s = 4 then returnO (word_of_le s) else throwO Truncated)"

definition cr_bytes :: "bytes cfg_op" where
  "cr_bytes = bindO cr_u32 (\<lambda>len. cr_take (unat len))"

definition cr_string :: "bytes cfg_op" where
  "cr_string = bindO cr_bytes (\<lambda>raw. if utf8_valid raw then returnO raw else throwO BadUtf8)"

text \<open>\<open>for _ in 0..num_roots\<close>.\<close>

primrec cr_roots :: "nat \<Rightarrow> bytes list \<Rightarrow> bytes list cfg_op" where
  "cr_roots 0 roots = returnO roots"
| "cr_roots (Suc n) roots = bindO cr_bytes (\<lambda>der. cr_roots n (roots @ [der]))"

definition config_fields :: "session_config_blob cfg_op" where
  "config_fields =
     bindO (cr_take 4) (\<lambda>magic. if magic \<noteq> BLOB_MAGIC then throwO BadMagic else
     bindO cr_u8 (\<lambda>version. if version \<noteq> BLOB_VERSION then throwO BadVersion else
     bindO cr_u8 (\<lambda>flags.
     bindO cr_u32 (\<lambda>mat_vendor_id.
     bindO cr_u32 (\<lambda>max_fragment.
     bindO cr_string (\<lambda>server_name.
     bindO cr_string (\<lambda>selector_subject.
     bindO cr_u32 (\<lambda>num_roots.
     bindO (cr_roots (unat num_roots) []) (\<lambda>roots.
     bindO cr_u8 (\<lambda>present.
     bindO (if present = 0 then returnO None else bindO cr_bytes (\<lambda>m. returnO (Some m))) (\<lambda>mat.
       returnO \<lparr>scb_machine = (flags AND FLAG_MACHINE \<noteq> 0), scb_server_name = server_name,
         scb_mat_vendor_id = mat_vendor_id, scb_max_fragment = max_fragment,
         scb_selector_subject = selector_subject, scb_roots = roots, scb_mat = mat\<rparr>)))))))))))"

text \<open>Trailing octets are an error once every field was read.\<close>

definition config_body :: "session_config_blob cfg_op" where
  "config_body =
     bindO config_fields (\<lambda>c. bindO (getO cr_is_empty) (\<lambda>empty.
       if \<not> empty then throwO TrailingData else returnO c))"

definition config_from_bytes :: "bytes \<Rightarrow> (config_error + session_config_blob) option" where
  "config_from_bytes bs = map_option fst (config_body (cfg_reader_new bs))"

section \<open>What an operation reads\<close>

text \<open>
  \<open>reads m G\<close>: from any position inside the octets, \<open>m\<close> returns \<open>x\<close> exactly when octets \<open>e\<close> with
  \<open>G x e\<close> are ahead, and consumes them.
\<close>

definition ahead :: "cfg_reader \<Rightarrow> bytes" where
  "ahead r = drop (cr_pos r) (cr_b r)"

definition cr_ok :: "cfg_reader \<Rightarrow> bool" where
  "cr_ok r \<longleftrightarrow> cr_pos r \<le> length (cr_b r)"

definition skip :: "nat \<Rightarrow> cfg_reader \<Rightarrow> cfg_reader" where
  "skip n r = r\<lparr>cr_pos := cr_pos r + n\<rparr>"

definition reads :: "'a cfg_op \<Rightarrow> ('a \<Rightarrow> bytes \<Rightarrow> bool) \<Rightarrow> bool" where
  "reads m G \<longleftrightarrow> (\<forall>r x r'. cr_ok r \<longrightarrow>
     (m r = Some (Inr x, r') \<longleftrightarrow> (\<exists>e t. G x e \<and> ahead r = e @ t \<and> r' = skip (length e) r)))"

lemma ahead_skip: "ahead r = e @ t \<Longrightarrow> cr_ok r \<Longrightarrow> ahead (skip (length e) r) = t \<and> cr_ok (skip (length e) r)"
proof -
  assume a: "ahead r = e @ t" and r: "cr_ok r"
  then have "length (cr_b r) = cr_pos r + (length e + length t)"
    by (metis add_diff_inverse_nat ahead_def cr_ok_def length_append length_drop not_less)
  moreover have "drop (length e) (ahead r) = t" using a by simp
  ultimately show ?thesis by (simp add: ahead_def skip_def cr_ok_def add.commute)
qed

lemma skip_skip [simp]: "skip n (skip m r) = skip (m + n) r" "skip 0 r = r"
  by (simp_all add: skip_def add.assoc)

named_theorems readers \<open>what the operations of the reader consume\<close>

lemma reads_bind:
  assumes "reads m G" and "\<And>x. reads (f x) (H x)"
  shows "reads (bindO m f) (\<lambda>y e. \<exists>x e1 e2. G x e1 \<and> H x y e2 \<and> e = e1 @ e2)"
  unfolding reads_def
proof (intro allI impI iffI)
  fix r y r'
  assume r: "cr_ok r"
  {
    assume "bindO m f r = Some (Inr y, r')"
    then obtain x r1 where 1: "m r = Some (Inr x, r1)" and 2: "f x r1 = Some (Inr y, r')"
      by (auto simp: bindO_Inr)
    from 1 r assms(1) obtain e1 t1 where e1: "G x e1" "ahead r = e1 @ t1" "r1 = skip (length e1) r"
      by (auto simp: reads_def)
    note ok = ahead_skip [OF e1(2) r]
    from 2 ok e1(3) assms(2) [of x] obtain e2 t2 where "H x y e2" "t1 = e2 @ t2" "r' = skip (length e2) r1"
      by (auto simp: reads_def)
    with e1 show "\<exists>e t. (\<exists>x e1 e2. G x e1 \<and> H x y e2 \<and> e = e1 @ e2) \<and> ahead r = e @ t \<and> r' = skip (length e) r"
      by (intro exI [of _ "e1 @ e2"] exI [of _ t2]) auto
  next
    assume "\<exists>e t. (\<exists>x e1 e2. G x e1 \<and> H x y e2 \<and> e = e1 @ e2) \<and> ahead r = e @ t \<and> r' = skip (length e) r"
    then obtain x e1 e2 t where e: "G x e1" "H x y e2" "ahead r = e1 @ (e2 @ t)" "r' = skip (length e1 + length e2) r"
      by auto
    note ok = ahead_skip [OF e(3) r]
    have "m r = Some (Inr x, skip (length e1) r)" using e r assms(1) unfolding reads_def by blast
    moreover have "f x (skip (length e1) r) = Some (Inr y, skip (length e2) (skip (length e1) r))"
      using e(2) ok assms(2) [of x] unfolding reads_def by blast
    ultimately show "bindO m f r = Some (Inr y, r')" using e(4) by (simp add: bindO_Inr)
  }
qed

lemma reads_weaken: "reads m G \<Longrightarrow> (\<And>x e. G x e \<longleftrightarrow> H x e) \<Longrightarrow> reads m H"
  by (simp add: reads_def)

lemma reads_return [readers]: "reads (returnO v) (\<lambda>x e. x = v \<and> e = [])"
  by (auto simp: reads_def returnO_def)

lemma reads_throw [readers]: "reads (throwO err) (\<lambda>x e. False)"
  by (auto simp: reads_def throwO_def)

lemma reads_if [readers]:
  "reads m G \<Longrightarrow> reads m' H \<Longrightarrow> reads (if c then m else m') (\<lambda>x e. if c then G x e else H x e)"
  by simp

lemma reads_take [readers]: "reads (cr_take n) (\<lambda>x e. x = e \<and> length e = n)"
  unfolding reads_def
proof (intro allI impI)
  fix r x r'
  assume r: "cr_ok r"
  have "get_range (cr_b r) (cr_pos r) (cr_pos r + n)
      = (if n \<le> length (ahead r) then Some (take n (ahead r)) else None)"
    using r by (auto simp: get_range_def ahead_def cr_ok_def)
  then show "cr_take n r = Some (Inr x, r') \<longleftrightarrow>
      (\<exists>e t. (x = e \<and> length e = n) \<and> ahead r = e @ t \<and> r' = skip (length e) r)"
    by (auto simp: cr_take_def skip_def intro: exI [of _ "drop n (ahead r)"])
qed


text \<open>The fields.\<close>

lemma le4: "length e = 4 \<and> (x :: u32) = word_of_le e \<longleftrightarrow> e = le_of_word 4 x"
  by (auto simp: le_of_word_of_le)

lemma reads_u8 [readers]: "reads cr_u8 (\<lambda>x e. e = [x])"
  unfolding cr_u8_def
proof (rule reads_weaken [OF reads_bind [OF reads_take]])
  fix s
  show "reads (case s of [] \<Rightarrow> throwO Truncated | b # _ \<Rightarrow> returnO b) (\<lambda>x e. s \<noteq> [] \<and> x = hd s \<and> e = [])"
    by (cases s) (auto intro: reads_weaken [OF reads_throw] reads_weaken [OF reads_return])
qed (auto simp: length_Suc_conv)

lemma reads_u32 [readers]: "reads cr_u32 (\<lambda>x e. e = le_of_word 4 x)"
  unfolding cr_u32_def
  by (rule reads_weaken [OF reads_bind [OF reads_take reads_if [OF reads_return reads_throw]]])
    (simp, use le4 in auto)

definition framed :: "bytes \<Rightarrow> bytes" where
  "framed x = le_of_word 4 (word_of_nat (length x) :: u32) @ x"

definition fits32 :: "'a list \<Rightarrow> bool" where
  "fits32 x \<longleftrightarrow> length x < 2 ^ 32"

lemma unat_framed: "unat (w :: u32) = n \<longleftrightarrow> n < 2 ^ 32 \<and> w = word_of_nat n"
  using unat_u32_bound [of w] by auto

lemma length_unat: "length xs = unat (w :: u32) \<longleftrightarrow> fits32 xs \<and> w = word_of_nat (length xs)"
  using unat_framed [of w "length xs"] by (auto simp: fits32_def)

lemma reads_bytes [readers]: "reads cr_bytes (\<lambda>x e. fits32 x \<and> e = framed x)"
  unfolding cr_bytes_def
  by (rule reads_weaken [OF reads_bind [OF reads_u32 reads_take]])
    (auto simp: fits32_def framed_def eq_commute [of "length _"] unat_framed)

lemma reads_string [readers]: "reads cr_string (\<lambda>x e. fits32 x \<and> utf8_valid x \<and> e = framed x)"
  unfolding cr_string_def
  by (rule reads_weaken [OF reads_bind [OF reads_bytes reads_if [OF reads_return reads_throw]]]) auto

lemma reads_roots [readers]:
  "reads (cr_roots n acc) (\<lambda>x e. \<exists>ds. x = acc @ ds \<and> length ds = n \<and> list_all fits32 ds \<and> e = concat (map framed ds))"
proof (induction n arbitrary: acc)
  case 0
  show ?case by (auto intro: reads_weaken [OF reads_return])
next
  case (Suc n)
  have "reads (bindO cr_bytes (\<lambda>der. cr_roots n (acc @ [der])))
     (\<lambda>x e. \<exists>d e1 e2. (fits32 d \<and> e1 = framed d) \<and> (\<exists>ds. x = (acc @ [d]) @ ds \<and> length ds = n
        \<and> list_all fits32 ds \<and> e2 = concat (map framed ds)) \<and> e = e1 @ e2)"
    by (rule reads_bind [OF reads_bytes Suc.IH])
  then show ?case
    by (simp, elim reads_weaken) (fastforce simp: length_Suc_conv)
qed

definition mat_octets :: "u8 \<Rightarrow> bytes option \<Rightarrow> bytes" where
  "mat_octets p mat = [p] @ (case mat of None \<Rightarrow> [] | Some m \<Rightarrow> framed m)"

text \<open>The whole grammar: the octets of a profile, for the flag octet and the ticket marker that were sent.\<close>

definition blob_octets :: "u8 \<Rightarrow> u8 \<Rightarrow> session_config_blob \<Rightarrow> bytes" where
  "blob_octets flags present c =
     BLOB_MAGIC @ [BLOB_VERSION, flags] @ le_of_word 4 (scb_mat_vendor_id c) @ le_of_word 4 (scb_max_fragment c)
     @ framed (scb_server_name c) @ framed (scb_selector_subject c)
     @ le_of_word 4 (word_of_nat (length (scb_roots c)) :: u32) @ concat (map framed (scb_roots c))
     @ mat_octets present (scb_mat c)"

definition blob_wf :: "session_config_blob \<Rightarrow> bool" where
  "blob_wf c \<longleftrightarrow> fits32 (scb_server_name c) \<and> utf8_valid (scb_server_name c)
     \<and> fits32 (scb_selector_subject c) \<and> utf8_valid (scb_selector_subject c)
     \<and> fits32 (scb_roots c) \<and> list_all fits32 (scb_roots c)
     \<and> (\<forall>m. scb_mat c = Some m \<longrightarrow> fits32 m)"

lemma reads_fields:
  "reads config_fields (\<lambda>c e. \<exists>flags present. blob_wf c \<and> scb_machine c = (flags AND FLAG_MACHINE \<noteq> 0)
     \<and> (present = 0 \<longleftrightarrow> scb_mat c = None) \<and> e = blob_octets flags present c)"
  unfolding config_fields_def
  apply (rule reads_weaken)
   apply (rule reads_take reads_u8 reads_u32 reads_string reads_roots reads_bytes reads_if reads_throw reads_return reads_bind)+
  subgoal for c e
    by (cases c; cases "scb_mat c")
      (auto simp: length_unat blob_wf_def blob_octets_def mat_octets_def fits32_def BLOB_MAGIC_def ascii_def
        cong: conj_cong, blast)
  done


lemma cfg_steps [totals]:
  "total_op (cr_take n)" "total_op cr_u8" "total_op cr_u32" "total_op cr_bytes" "total_op cr_string"
proof -
  show t: "total_op (cr_take n)" for n by (simp add: total_op_def cr_take_def split: option.split)
  show "total_op cr_u8" unfolding cr_u8_def by (auto intro!: totals t split: list.split)
  show u: "total_op cr_u32" unfolding cr_u32_def by (auto intro!: totals t)
  show b: "total_op cr_bytes" unfolding cr_bytes_def by (intro totals u t)
  show "total_op cr_string" unfolding cr_string_def by (auto intro!: totals b)
qed

lemma cfg_total: "total_op config_body"
proof -
  have roots: "total_op (cr_roots n acc)" for n acc
    by (induction n arbitrary: acc) (auto intro!: totals)
  show ?thesis
    unfolding config_body_def config_fields_def by (auto intro!: totals roots)
qed

lemma reads_here:
  "reads m G \<Longrightarrow> cr_ok r \<Longrightarrow> ahead r = e @ t \<Longrightarrow> G x e \<Longrightarrow> m r = Some (Inr x, skip (length e) r)"
  unfolding reads_def by blast

text \<open>An operation that leaves nothing unread has read all the octets.\<close>

lemma reads_all:
  assumes "reads m G"
  shows "(\<exists>r'. m (cfg_reader_new bs) = Some (Inr x, r') \<and> cr_is_empty r') \<longleftrightarrow> G x bs"
proof -
  have r: "cr_ok (cfg_reader_new bs)" "ahead (cfg_reader_new bs) = bs"
    by (simp_all add: cr_ok_def ahead_def cfg_reader_new_def)
  have "G x bs" if "m (cfg_reader_new bs) = Some (Inr x, r')" "cr_is_empty r'" for r'
  proof -
    from that(1) assms r obtain e t where "G x e" "bs = e @ t" "r' = skip (length e) (cfg_reader_new bs)"
      unfolding reads_def by metis
    with that(2) show ?thesis by (simp add: cr_is_empty_def skip_def cfg_reader_new_def)
  qed
  moreover have "m (cfg_reader_new bs) = Some (Inr x, skip (length bs) (cfg_reader_new bs))" if "G x bs"
    using reads_here [OF assms r(1), of bs "[]" x] r(2) that by simp
  moreover have "cr_is_empty (skip (length bs) (cfg_reader_new bs))"
    by (simp add: cr_is_empty_def skip_def cfg_reader_new_def)
  ultimately show ?thesis by blast
qed

lemma config_from_bytes_iff:
  "config_from_bytes bs = Some (Inr c) \<longleftrightarrow> (\<exists>flags present. blob_wf c
     \<and> scb_machine c = (flags AND FLAG_MACHINE \<noteq> 0) \<and> (present = 0 \<longleftrightarrow> scb_mat c = None)
     \<and> bs = blob_octets flags present c)"
proof -
  have "config_from_bytes bs = Some (Inr c)
      \<longleftrightarrow> (\<exists>r'. config_fields (cfg_reader_new bs) = Some (Inr c, r') \<and> cr_is_empty r')"
    by (auto simp: config_from_bytes_def config_body_def bindO_def getO_def throwO_def returnO_def
        split: option.splits sum.splits prod.splits if_splits)
  also note reads_all [OF reads_fields]
  finally show ?thesis .
qed

text \<open>What is written is the octets of the grammar, with the plain flags.\<close>

lemma u32_try_fits: "fits32 x \<Longrightarrow> u32_try (length x) = word_of_nat (length x)"
  by (simp add: u32_try_def fits32_def u32_max_def)

lemma put_bytes_framed: "fits32 x \<Longrightarrow> put_bytes x = framed x"
  by (simp add: put_bytes_def put_u32_def framed_def u32_try_fits)

lemma map_put_bytes: "list_all fits32 ds \<Longrightarrow> map put_bytes ds = map framed ds"
  by (induction ds) (simp_all add: put_bytes_framed)

lemma config_to_bytes_octets:
  "blob_wf c \<Longrightarrow> config_to_bytes c = blob_octets (if scb_machine c then FLAG_MACHINE else 0)
     (if scb_mat c = None then 0 else 1) c"
  by (auto simp: config_to_bytes_def blob_octets_def mat_octets_def blob_wf_def put_bytes_framed map_put_bytes
      put_u32_def u32_try_fits split: option.split)

lemma config_round: "blob_wf c \<Longrightarrow> config_from_bytes (config_to_bytes c) = Some (Inr c)"
  unfolding config_from_bytes_iff config_to_bytes_octets
  by (intro exI [of _ "if scb_machine c then FLAG_MACHINE else 0"] exI [of _ "if scb_mat c = None then 0 else 1"])
    (simp add: FLAG_MACHINE_def)

text \<open>Octets after a profile are refused.\<close>

lemma config_trailing:
  assumes "config_from_bytes bs = Some (Inr c)" and "t \<noteq> []"
  shows "config_from_bytes (bs @ t) = Some (Inl TrailingData)"
proof -
  let ?r = "cfg_reader_new (bs @ t)"
  have r: "cr_ok ?r" "ahead ?r = bs @ t" by (simp_all add: cr_ok_def ahead_def cfg_reader_new_def)
  have "config_fields ?r = Some (Inr c, skip (length bs) ?r)"
    using reads_here [OF reads_fields r assms(1) [unfolded config_from_bytes_iff]] .
  moreover have "\<not> cr_is_empty (skip (length bs) ?r)"
    using assms(2) by (simp add: cr_is_empty_def skip_def cfg_reader_new_def)
  ultimately show ?thesis
    by (simp add: config_from_bytes_def config_body_def bindO_def getO_def throwO_def)
qed


section \<open>The XML envelope\<close>

definition BLOB_ELEMENT :: str where "BLOB_ELEMENT = ascii ''UsgTeapConfigBlob''"

definition to_hex :: "bytes \<Rightarrow> str" where
  "to_hex bs = concat (map (hex_octet 97) bs)"

text \<open>The loop over \<open>chunks_exact(2)\<close>; \<open>u8::from_str_radix(pair, 16)\<close> of two hexadecimal digits.\<close>

fun from_hex_pairs :: "str \<Rightarrow> bytes \<Rightarrow> bytes option" where
  "from_hex_pairs (h # l # bs) out =
     (case (hex_val h, hex_val l) of
        (Some a, Some b) \<Rightarrow> from_hex_pairs bs (out @ [16 * a + b])
      | _ \<Rightarrow> None)"
| "from_hex_pairs _ out = Some out"

definition from_hex :: "str \<Rightarrow> bytes option" where
  "from_hex s0 = (let s = trim s0 in if length s mod 2 = 1 then None else from_hex_pairs s [])"

definition blob_to_xml :: "bytes \<Rightarrow> str" where
  "blob_to_xml blob =
     ascii ''<'' @ BLOB_ELEMENT @ ascii ''>'' @ to_hex blob @ ascii ''</'' @ BLOB_ELEMENT @ ascii ''>''"

definition xml_text_to_blob :: "str \<Rightarrow> bytes option" where
  "xml_text_to_blob doc_text =
     (case from_hex doc_text of
        None \<Rightarrow> None
      | Some blob \<Rightarrow> if blob = [] then None else Some blob)"

section \<open>The provisioning documents\<close>

definition USG_AUTHOR_ID :: nat where "USG_AUTHOR_ID = 192000"
definition USG_TYPE_ID :: nat where "USG_TYPE_ID = 55"
definition PROFILE_COMMON :: str where
  "PROFILE_COMMON = ascii ''http://www.microsoft.com/provisioning/EapCommon''"

text \<open>An element with an \<open>xmlns\<close> attribute around its text, as the format strings spell it.\<close>

definition xmlns_open :: "string \<Rightarrow> str \<Rightarrow> str" where
  "xmlns_open name ns = ascii ''<'' @ ascii name @ ascii '' xmlns='' @ [34] @ ns @ [34] @ ascii ''>''"

definition eap_host_config_xml :: "bytes \<Rightarrow> str" where
  "eap_host_config_xml blob =
     xmlns_open ''EapHostConfig'' (ascii ''http://www.microsoft.com/provisioning/EapHostConfig'')
     @ ascii ''<EapMethod>''
     @ xmlns_open ''Type'' PROFILE_COMMON @ decimal USG_TYPE_ID @ ascii ''</Type>''
     @ xmlns_open ''VendorId'' PROFILE_COMMON @ ascii ''0</VendorId>''
     @ xmlns_open ''VendorType'' PROFILE_COMMON @ ascii ''0</VendorType>''
     @ xmlns_open ''AuthorId'' PROFILE_COMMON @ decimal USG_AUTHOR_ID @ ascii ''</AuthorId>''
     @ ascii ''</EapMethod><Config>'' @ blob_to_xml blob @ ascii ''</Config></EapHostConfig>''"

definition lan_profile_xml :: "bytes \<Rightarrow> str" where
  "lan_profile_xml blob =
     ascii ''<?xml version='' @ [34] @ ascii ''1.0'' @ [34] @ ascii ''?>''
     @ xmlns_open ''LANProfile'' (ascii ''http://www.microsoft.com/networking/LAN/profile/v1'')
     @ ascii ''<MSM><security><OneXEnforced>false</OneXEnforced><OneXEnabled>true</OneXEnabled>''
     @ xmlns_open ''OneX'' (ascii ''http://www.microsoft.com/networking/OneX/v1'')
     @ ascii ''<EAPConfig>'' @ eap_host_config_xml blob
     @ ascii ''</EAPConfig></OneX></security></MSM></LANProfile>''"

section \<open>The envelope loses nothing\<close>

lemma nibble_bound: "drop_bit 4 (b :: u8) < 16" "b AND 15 < 16"
proof -
  have "unat b < 256" using unsigned_less [of b] by simp
  then have "unat (b div 16) < 16" by (simp add: unat_div)
  then have "b div 16 < 16" by (simp add: word_less_nat_alt)
  then show "drop_bit 4 b < 16" by (simp add: drop_bit_eq_div)
  have "unat (take_bit 4 b) < 16"
    using take_bit_nat_less_exp [of 4 "unat b"] by (simp add: unsigned_take_bit_eq)
  moreover have "b AND 15 = take_bit 4 b" by (simp add: take_bit_eq_mask mask_eq_exp_minus_1)
  ultimately show "b AND 15 < 16" by (simp add: word_less_nat_alt)
qed


lemma nibble_all:
  assumes "list_all P (map word_of_nat [0..<16])" and "(n :: u8) < 16"
  shows "P n"
proof -
  have "unat n < 16" using assms(2) by (simp add: word_less_nat_alt)
  then have "unat n \<in> set [0..<16]" by simp
  moreover have "n = word_of_nat (unat n)" by simp
  ultimately have "n \<in> set (map word_of_nat [0..<16])" by (metis image_eqI list.set_map)
  then show ?thesis using assms(1) unfolding list_all_iff by blast
qed

lemma hex_val_digit: "n < 16 \<Longrightarrow> hex_val (hex_digit 97 n) = Some n"
  by (rule nibble_all [of "\<lambda>n. hex_val (hex_digit 97 n) = Some n"])
    (simp_all add: hex_val_def hex_digit_def is_digit_def upt_conv_Cons)

lemma nibbles: "16 * drop_bit 4 b + (b AND 15) = (b :: u8)"
proof -
  have "(15 :: u8) = mask 4" by (simp add: mask_eq_exp_minus_1)
  then have "b AND 15 = take_bit 4 b" by (simp add: take_bit_eq_mask)
  moreover have "16 * drop_bit 4 b = push_bit 4 (drop_bit 4 b)" by (simp add: push_bit_eq_mult mult.commute)
  ultimately show ?thesis by (simp only: bits_ident)
qed

lemma from_hex_pairs_to_hex: "from_hex_pairs (to_hex bs) out = Some (out @ bs)"
  by (induction bs arbitrary: out) (simp_all add: to_hex_def hex_octet_def hex_val_digit nibble_bound nibbles
      del: drop_bit_numeral_bit1 drop_bit_numeral_bit0)


lemma hex_digit_text: "n < 16 \<Longrightarrow> no_space (hex_digit 97 n)"
  by (rule nibble_all [of "\<lambda>n. no_space (hex_digit 97 n)"])
    (simp_all add: hex_digit_def no_space_def ascii_space_def upt_conv_Cons)

lemma to_hex_text: "list_all no_space (to_hex bs)" "length (to_hex bs) = 2 * length bs"
  by (induction bs) (simp_all add: to_hex_def hex_octet_def hex_digit_text nibble_bound del: drop_bit_numeral_bit1 drop_bit_numeral_bit0)

lemma xml_text_round:
  assumes "list_all ascii_space a" and "list_all ascii_space b"
  shows "xml_text_to_blob (a @ to_hex bs @ b) = (if bs = [] then None else Some bs)"
  using trim_around [OF assms to_hex_text(1)]
  by (simp add: xml_text_to_blob_def from_hex_def Let_def to_hex_text from_hex_pairs_to_hex)

section \<open>Properties\<close>

text \<open>A small profile of a user with one trust anchor and a ticket.\<close>

definition demo_blob :: session_config_blob where
  "demo_blob = \<lparr>scb_machine = False, scb_server_name = ascii ''srv'', scb_mat_vendor_id = 9,
     scb_max_fragment = 1400, scb_selector_subject = ascii ''cn'', scb_roots = [[1, 2]], scb_mat = Some [7]\<rparr>"

lemma demo_blob_wf: "blob_wf demo_blob"
  by (simp add: blob_wf_def demo_blob_def fits32_def ascii_def utf8_ascii)

text \<open>C22: the parser of the session profile always returns, and it accepts exactly the octets of the
  format: magic, version, flags, the two little-endian integers, the two length-prefixed UTF-8 strings,
  the counted trust anchors and the optional ticket, with nothing after them. Only bit 0 of the flags
  and whether the ticket marker is zero matter.\<close>

theorem config_grammar:
  "(\<exists>r. config_from_bytes bs = Some r) \<and>
   (config_from_bytes bs = Some (Inr c) \<longleftrightarrow> (\<exists>flags present. blob_wf c
      \<and> scb_machine c = (flags AND FLAG_MACHINE \<noteq> 0) \<and> (present = 0 \<longleftrightarrow> scb_mat c = None)
      \<and> bs = blob_octets flags present c))"
proof (intro conjI config_from_bytes_iff)
  have "config_body (cfg_reader_new bs) \<noteq> None" using cfg_total by (simp add: total_op_def)
  then show "\<exists>r. config_from_bytes bs = Some r" by (auto simp: config_from_bytes_def)
qed

text \<open>A profile survives its serialisation, whole and refused when octets follow it, and survives the
  XML envelope: the text of the element, with white space around it, decodes to the octets.\<close>

lemma config_round_trip:
  assumes "blob_wf c" and "list_all ascii_space a" and "list_all ascii_space b"
  shows "config_from_bytes (config_to_bytes c) = Some (Inr c)
    \<and> (\<forall>t. t \<noteq> [] \<longrightarrow> config_from_bytes (config_to_bytes c @ t) = Some (Inl TrailingData))
    \<and> xml_text_to_blob (a @ to_hex (config_to_bytes c) @ b) = Some (config_to_bytes c)"
proof -
  have "config_to_bytes c \<noteq> []" by (simp add: config_to_bytes_def)
  with config_round [OF assms(1)] config_trailing [OF config_round [OF assms(1)]] xml_text_round [OF assms(2,3)]
  show ?thesis by simp
qed

lemma config_round_trip_witness:
  "config_from_bytes (config_to_bytes demo_blob @ [0]) = Some (Inl TrailingData)
     \<and> xml_text_to_blob ([32] @ to_hex (config_to_bytes demo_blob) @ [10]) = Some (config_to_bytes demo_blob)"
  using config_round_trip [OF demo_blob_wf, of "[32]" "[10]"] by (simp add: ascii_space_def)

end
