(* ===== verification/Peer_Session.thy ===== *)
theory Peer_Session
  imports Driver_Run "HOL-Library.AList"
begin

text \<open>
  The EAPHost session adapter and the table of live sessions: crates/eaphost/src/session.rs and
  session_registry.rs. \<open>step\<close> is the method \<open>TeapStep::step\<close> of the driver the adapter is generic
  over; the locale \<open>eap_method\<close> is what the adapter relies on, and the TEAP driver satisfies it. The
  registry's hash map is an association list; every method of the registry runs under its one lock,
  so a call is one atomic step.
\<close>

section \<open>The adapter\<close>

datatype session_kind = MachineSession | UserSession

type_synonym ('d, 'e) teap_step = "bytes \<Rightarrow> ('d, 'e, driver_reply) op"

datatype process_action = ActRespond | ActFinished

datatype auth_result =
    AuthSuccess bytes "bytes option"  \<comment> \<open>MSK, issued ticket\<close>
  | AuthFailure fail_reason

record 'd peer_session =
  ps_kind :: session_kind
  ps_driver :: 'd
  ps_pending :: "bytes option"
  ps_result :: "auth_result option"
  ps_terminated :: bool

definition peer_new :: "session_kind \<Rightarrow> 'd \<Rightarrow> 'd peer_session" where
  "peer_new kind driver =
     \<lparr>ps_kind = kind, ps_driver = driver, ps_pending = None, ps_result = None, ps_terminated = False\<rparr>"

definition peer_finish :: "outcome \<Rightarrow> 'd peer_session \<Rightarrow> 'd peer_session" where
  "peer_finish oc s =
     s\<lparr>ps_result := Some (case oc of Success msk emsk issued_mat \<Rightarrow> AuthSuccess msk issued_mat
         | Failure reason \<Rightarrow> AuthFailure reason),
       ps_terminated := True\<rparr>"

definition peer_process ::
  "('d, 'e) teap_step \<Rightarrow> bytes \<Rightarrow> 'd peer_session \<Rightarrow> (process_action \<times> 'd peer_session) option" where
  "peer_process step eap_request s =
     (if ps_terminated s then Some (ActFinished, s)
      else (case step eap_request (ps_driver s) of
          None \<Rightarrow> None
        | Some (Inr (DrvRespond resp), d) \<Rightarrow>
            Some (ActRespond, s\<lparr>ps_driver := d, ps_pending := Some resp\<rparr>)
        | Some (Inr (Finished send oc), d) \<Rightarrow>
            let s1 = s\<lparr>ps_driver := d\<rparr>;
                s2 = (if send \<noteq> None then s1\<lparr>ps_pending := send\<rparr> else s1)
            in Some (ActFinished, peer_finish oc s2)
        | Some (Inl _, d) \<Rightarrow>
            Some (ActFinished, peer_finish (Failure ServerFailure) (s\<lparr>ps_driver := d\<rparr>))))"

definition peer_take_response :: "'d peer_session \<Rightarrow> bytes option \<times> 'd peer_session" where
  "peer_take_response s = (ps_pending s, s\<lparr>ps_pending := None\<rparr>)"

definition peer_response_len :: "'d peer_session \<Rightarrow> nat option" where
  "peer_response_len s = map_option length (ps_pending s)"

definition peer_tunnel_established :: "('d \<Rightarrow> bool) \<Rightarrow> 'd peer_session \<Rightarrow> bool" where
  "peer_tunnel_established established s = established (ps_driver s)"

definition peer_is_finished :: "'d peer_session \<Rightarrow> bool" where
  "peer_is_finished s = ps_terminated s"

text \<open>The calls of a host on one session.\<close>

inductive peer_calls :: "('d, 'e) teap_step \<Rightarrow> 'd peer_session \<Rightarrow> 'd peer_session \<Rightarrow> bool" for step s0 where
  peer_start: "peer_calls step s0 s0"
| peer_step: "peer_calls step s0 s \<Longrightarrow> peer_process step req s = Some (a, s') \<Longrightarrow> peer_calls step s0 s'"
| peer_take: "peer_calls step s0 s \<Longrightarrow> peer_take_response s = (r, s') \<Longrightarrow> peer_calls step s0 s'"

section \<open>What the adapter relies on\<close>

text \<open>
  A method that keeps an invariant as long as it answers, and whose outcomes are good when it
  finishes from a state with the invariant. Nothing is promised after an error.
\<close>

locale eap_method =
  fixes step :: "('d, 'e) teap_step" and inv :: "'d \<Rightarrow> bool" and good :: "outcome \<Rightarrow> bool"
  assumes respond_inv: "inv d \<Longrightarrow> step req d = Some (Inr (DrvRespond bs), d') \<Longrightarrow> inv d'"
    and finished_good: "inv d \<Longrightarrow> step req d = Some (Inr (Finished send oc), d') \<Longrightarrow> good oc"
begin

definition peer_ok :: "'d peer_session \<Rightarrow> bool" where
  "peer_ok s \<longleftrightarrow>
     (\<not> ps_terminated s \<longrightarrow> inv (ps_driver s) \<and> ps_result s = None)
     \<and> (ps_terminated s \<longrightarrow> ps_result s \<noteq> None)
     \<and> (\<forall>msk mat. ps_result s = Some (AuthSuccess msk mat) \<longrightarrow> (\<exists>emsk. good (Success msk emsk mat)))"

lemma process_ok:
  assumes "peer_ok s" and "peer_process step req s = Some (a, s')"
  shows "peer_ok s'"
proof (cases "ps_terminated s")
  case True
  with assms show ?thesis by (simp add: peer_process_def)
next
  case False
  with assms(1) have d: "inv (ps_driver s)" by (simp add: peer_ok_def)
  obtain r d' where r: "step req (ps_driver s) = Some (r, d')"
    using assms(2) False by (auto simp: peer_process_def split: option.splits)
  show ?thesis
  proof (cases r)
    case (Inl e)
    with r False assms(2) show ?thesis by (auto simp: peer_process_def peer_finish_def peer_ok_def)
  next
    case (Inr st)
    show ?thesis
    proof (cases st)
      case (DrvRespond bs)
      with r Inr False assms respond_inv [OF d] show ?thesis by (auto simp: peer_process_def peer_ok_def)
    next
      case (Finished send oc)
      with r Inr have "good oc" by (auto intro: finished_good [OF d])
      with r Inr Finished False assms(2) show ?thesis
        by (auto simp: peer_process_def peer_finish_def peer_ok_def Let_def split: outcome.splits if_splits)
    qed
  qed
qed

lemma calls_ok:
  assumes "peer_calls step s0 s" and "peer_ok s0"
  shows "peer_ok s"
  using assms(1)
proof induction
  case (peer_step s req a s')
  then show ?case using process_ok by blast
next
  case (peer_take s r s')
  then show ?case by (auto simp: peer_take_response_def peer_ok_def)
qed (rule assms(2))

lemma new_ok: "inv d \<Longrightarrow> peer_ok (peer_new kind d)"
  by (simp add: peer_ok_def peer_new_def)

lemma success_good:
  "inv d \<Longrightarrow> peer_calls step (peer_new kind d) s \<Longrightarrow> ps_result s = Some (AuthSuccess msk mat) \<Longrightarrow>
     \<exists>emsk. good (Success msk emsk mat)"
  using calls_ok [OF _ new_ok] unfolding peer_ok_def by blast

lemma result_iff: "inv d \<Longrightarrow> peer_calls step (peer_new kind d) s \<Longrightarrow> ps_result s \<noteq> None \<longleftrightarrow> ps_terminated s"
  using calls_ok [OF _ new_ok, of kind d s] by (auto simp: peer_ok_def)

end

text \<open>The TEAP driver, over a tunnel that starts out unestablished.\<close>

definition driver_sound ::
  "('c, 're) rustls \<Rightarrow> hmac_sign \<Rightarrow> 'i inner_process \<Rightarrow> 'c tls_client \<Rightarrow> driver_config
     \<Rightarrow> ('c, 'i) teap_driver \<Rightarrow> bool" where
  "driver_sound rl sign proc t0 cfg d \<longleftrightarrow> \<not> tc_established t0 \<and> drv_inv rl sign proc t0 cfg d"

interpretation teap_method: eap_method "driver_step rl sign proc" "driver_sound rl sign proc t0 cfg"
  "outcome_ok rl sign proc t0 cfg" for rl sign proc t0 cfg
proof unfold_locales
  fix d d' :: "('a, 'c) teap_driver" and req bs send oc
  assume d: "driver_sound rl sign proc t0 cfg d"
  show "driver_step rl sign proc req d = Some (Inr (DrvRespond bs), d') \<Longrightarrow> driver_sound rl sign proc t0 cfg d'"
    using d unfolding driver_sound_def by (auto elim!: driver_step_request dest: on_request_inv)
  show "driver_step rl sign proc req d = Some (Inr (Finished send oc), d') \<Longrightarrow> outcome_ok rl sign proc t0 cfg oc"
    using d unfolding driver_sound_def by (auto dest: driver_finished_ok)
qed

lemma driver_new_sound: "driver_new rb cfg roots inner = Inr d0 \<Longrightarrow> driver_sound rl sign proc (dr_tunnel d0) cfg d0"
  by (auto simp: driver_sound_def driver_new_inv)

text \<open>A verdict does not change.\<close>

lemma verdict_kept:
  assumes "peer_calls step s s'" and "ps_terminated s"
  shows "ps_terminated s' \<and> ps_result s' = ps_result s"
  using assms(1)
  by induction (use assms(2) in \<open>auto simp: peer_process_def peer_take_response_def\<close>)

lemma finished_process:
  assumes "peer_process step req s = Some (ActFinished, s')"
  shows "ps_terminated s'"
  using assms
  by (auto simp: peer_process_def peer_finish_def Let_def split: if_splits option.splits sum.splits driver_reply.splits)

lemma responding_process:
  assumes "peer_process step req s = Some (ActRespond, s')"
  shows "\<not> ps_terminated s \<and> \<not> ps_terminated s' \<and> (\<exists>bs d. ps_pending s' = Some bs
    \<and> step req (ps_driver s) = Some (Inr (DrvRespond bs), d))"
  using assms
  by (auto simp: peer_process_def peer_finish_def Let_def split: if_splits option.splits sum.splits driver_reply.splits)


fun result_of :: "outcome \<Rightarrow> auth_result" where
  "result_of (Success msk emsk mat) = AuthSuccess msk mat"
| "result_of (Failure reason) = AuthFailure reason"

lemma peer_finish_result: "peer_finish oc s = s\<lparr>ps_result := Some (result_of oc), ps_terminated := True\<rparr>"
  by (cases oc) (simp_all add: peer_finish_def)

lemma ended_iff: "peer_calls step (peer_new kind d0) s \<Longrightarrow> ps_terminated s \<longleftrightarrow> ps_result s \<noteq> None"
proof (induction rule: peer_calls.induct)
  case (peer_step s req a s')
  from peer_step.hyps(2) peer_step.IH show ?case
    by (auto simp: peer_process_def peer_finish_def Let_def
        split: if_splits option.splits sum.splits driver_reply.splits)
qed (auto simp: peer_new_def peer_take_response_def)

section \<open>The registry\<close>

type_synonym session_handle = u64

datatype response_fetch = FetchNone | TooSmall nat | Taken bytes

record 'd session_registry =
  rg_next :: session_handle
  rg_sessions :: "(session_handle \<times> 'd peer_session) list"

definition registry_new :: "'d session_registry" where
  "registry_new = \<lparr>rg_next = 1, rg_sessions = []\<rparr>"

text \<open>\<open>sessions.get_mut(&h)\<close>: the session, and the table with it replaced.\<close>

definition with_session ::
  "session_handle \<Rightarrow> ('d peer_session \<Rightarrow> ('a \<times> 'd peer_session) option) \<Rightarrow> 'd session_registry
     \<Rightarrow> ('a option \<times> 'd session_registry) option" where
  "with_session h f r =
     (case map_of (rg_sessions r) h of
        None \<Rightarrow> Some (None, r)
      | Some s \<Rightarrow>
          (case f s of
             None \<Rightarrow> None
           | Some (x, s') \<Rightarrow> Some (Some x, r\<lparr>rg_sessions := AList.update h s' (rg_sessions r)\<rparr>)))"

definition registry_begin :: "'d peer_session \<Rightarrow> 'd session_registry \<Rightarrow> session_handle \<times> 'd session_registry" where
  "registry_begin session r =
     (let handle = rg_next r in
      (handle, r\<lparr>rg_next := (if handle = - 1 then - 1 else handle + 1),
         rg_sessions := AList.update handle session (rg_sessions r)\<rparr>))"

definition registry_process ::
  "('d, 'e) teap_step \<Rightarrow> session_handle \<Rightarrow> bytes \<Rightarrow> 'd session_registry
     \<Rightarrow> (process_action option \<times> 'd session_registry) option" where
  "registry_process step h eap_request = with_session h (peer_process step eap_request)"

definition registry_take_response ::
  "session_handle \<Rightarrow> 'd session_registry \<Rightarrow> bytes option \<times> 'd session_registry" where
  "registry_take_response h r =
     (case map_of (rg_sessions r) h of
        None \<Rightarrow> (None, r)
      | Some s \<Rightarrow>
          (case peer_take_response s of
             (resp, s') \<Rightarrow> (resp, r\<lparr>rg_sessions := AList.update h s' (rg_sessions r)\<rparr>)))"

definition registry_fetch_response ::
  "session_handle \<Rightarrow> nat \<Rightarrow> 'd session_registry \<Rightarrow> response_fetch \<times> 'd session_registry" where
  "registry_fetch_response h avail r =
     (case map_of (rg_sessions r) h of
        None \<Rightarrow> (FetchNone, r)
      | Some s \<Rightarrow>
          (case peer_response_len s of
             None \<Rightarrow> (FetchNone, r)
           | Some len \<Rightarrow>
               if avail < len then (TooSmall len, r)
               else (case peer_take_response s of
                   (resp, s') \<Rightarrow>
                     ((case resp of None \<Rightarrow> FetchNone | Some bs \<Rightarrow> Taken bs),
                      r\<lparr>rg_sessions := AList.update h s' (rg_sessions r)\<rparr>))))"

definition registry_result :: "session_handle \<Rightarrow> 'd session_registry \<Rightarrow> auth_result option" where
  "registry_result h r = (case map_of (rg_sessions r) h of None \<Rightarrow> None | Some s \<Rightarrow> ps_result s)"

definition registry_tunnel_established ::
  "('d \<Rightarrow> bool) \<Rightarrow> session_handle \<Rightarrow> 'd session_registry \<Rightarrow> bool option" where
  "registry_tunnel_established established h r =
     map_option (peer_tunnel_established established) (map_of (rg_sessions r) h)"

definition registry_end :: "session_handle \<Rightarrow> 'd session_registry \<Rightarrow> bool \<times> 'd session_registry" where
  "registry_end h r =
     (map_of (rg_sessions r) h \<noteq> None, r\<lparr>rg_sessions := AList.delete h (rg_sessions r)\<rparr>)"

definition registry_len :: "'d session_registry \<Rightarrow> nat" where
  "registry_len r = length (rg_sessions r)"

definition registry_is_empty :: "'d session_registry \<Rightarrow> bool" where
  "registry_is_empty r \<longleftrightarrow> registry_len r = 0"

section \<open>The table the registry implements\<close>

text \<open>The abstract table: the live sessions, by handle.\<close>

definition live :: "'d session_registry \<Rightarrow> session_handle \<rightharpoonup> 'd peer_session" where
  "live r = map_of (rg_sessions r)"

definition registry_ok :: "'d session_registry \<Rightarrow> bool" where
  "registry_ok r \<longleftrightarrow> distinct (map fst (rg_sessions r)) \<and> rg_next r \<noteq> 0"

text \<open>The calls of a host on the registry; \<open>issued\<close> lists the handles given out, in order.\<close>

inductive registry_run ::
  "('d, 'e) teap_step \<Rightarrow> session_handle list \<Rightarrow> 'd session_registry \<Rightarrow> bool" for step where
  reg_start: "registry_run step [] registry_new"
| reg_begin: "registry_run step issued r \<Longrightarrow> registry_begin s r = (h, r') \<Longrightarrow>
    registry_run step (issued @ [h]) r'"
| reg_process: "registry_run step issued r \<Longrightarrow> registry_process step h req r = Some (a, r') \<Longrightarrow>
    registry_run step issued r'"
| reg_take: "registry_run step issued r \<Longrightarrow> registry_take_response h r = (x, r') \<Longrightarrow>
    registry_run step issued r'"
| reg_fetch: "registry_run step issued r \<Longrightarrow> registry_fetch_response h n r = (f, r') \<Longrightarrow>
    registry_run step issued r'"
| reg_end: "registry_run step issued r \<Longrightarrow> registry_end h r = (b, r') \<Longrightarrow> registry_run step issued r'"

lemma live_simps [simp]:
  "live (r\<lparr>rg_sessions := AList.update h s al\<rparr>) = (map_of al)(h \<mapsto> s)"
  "live (r\<lparr>rg_sessions := AList.delete h al\<rparr>) = (map_of al)(h := None)"
  "live (r\<lparr>rg_next := n\<rparr>) = live r"
  by (simp_all add: live_def update_conv' delete_conv')

text \<open>Every operation other than \<open>begin\<close> leaves the counter alone and keeps the keys it finds.\<close>

lemma registry_others:
  "registry_process step h req r = Some (a, r') \<Longrightarrow> registry_ok r \<Longrightarrow>
     registry_ok r' \<and> rg_next r' = rg_next r \<and> dom (live r') = dom (live r)"
  "registry_take_response h r = (x, r') \<Longrightarrow> registry_ok r \<Longrightarrow>
     registry_ok r' \<and> rg_next r' = rg_next r \<and> dom (live r') = dom (live r)"
  "registry_fetch_response h n r = (f, r') \<Longrightarrow> registry_ok r \<Longrightarrow>
     registry_ok r' \<and> rg_next r' = rg_next r \<and> dom (live r') = dom (live r)"
  "registry_end h r = (b, r') \<Longrightarrow> registry_ok r \<Longrightarrow>
     registry_ok r' \<and> rg_next r' = rg_next r \<and> dom (live r') = dom (live r) - {h}"
  by (auto simp: registry_process_def with_session_def registry_take_response_def registry_fetch_response_def
      registry_end_def registry_ok_def live_def update_conv' delete_conv' distinct_update distinct_delete
      peer_take_response_def split: option.splits if_splits prod.splits)


lemma registry_len_live:
  assumes "registry_ok r"
  shows "registry_len r = card (dom (live r))"
proof -
  have "card (set (map fst (rg_sessions r))) = length (map fst (rg_sessions r))"
    by (rule distinct_card) (use assms in \<open>simp add: registry_ok_def\<close>)
  then show ?thesis by (simp add: registry_len_def live_def dom_map_of_conv_image_fst)
qed

lemma handle_succ: "(h :: session_handle) + 1 = 0 \<longleftrightarrow> h = - 1"
  by (rule eq_neg_iff_add_eq_0 [symmetric])

lemma handle_max: "unat (- 1 :: session_handle) = 18446744073709551615"
  by (simp add: unsigned_minus_1_eq_mask mask_eq_exp_minus_1)

text \<open>While the counter has not saturated, the handles issued are 1, 2, 3, ...\<close>

definition counted :: "session_handle list \<Rightarrow> 'd session_registry \<Rightarrow> bool" where
  "counted issued r \<longleftrightarrow> map unat issued = [1..<Suc (length issued)] \<and> unat (rg_next r) = Suc (length issued)
     \<and> dom (live r) \<subseteq> set issued"

lemma registry_begin_ok:
  "registry_begin s r = (h, r') \<Longrightarrow> registry_ok r \<Longrightarrow>
     registry_ok r' \<and> h = rg_next r \<and> live r' = (live r)(h \<mapsto> s)
     \<and> rg_next r' = (if h = - 1 then - 1 else h + 1)"
  by (auto simp: registry_begin_def registry_ok_def Let_def live_def update_conv' distinct_update
      handle_succ)

lemma registry_run_ok: "registry_run step issued r \<Longrightarrow> registry_ok r"
  by (induction rule: registry_run.induct)
    (auto simp: registry_new_def registry_ok_def [of registry_new] dest: registry_others registry_begin_ok,
      simp add: registry_ok_def registry_new_def)

lemma registry_run_counted:
  "registry_run step issued r \<Longrightarrow> length issued < 2 ^ 64 - 1 \<Longrightarrow> counted issued r"
proof (induction rule: registry_run.induct)
  case reg_start
  then show ?case by (simp add: counted_def registry_new_def live_def)
next
  case (reg_begin issued r s h r')
  then have c: "counted issued r" and n: "Suc (length issued) < 2 ^ 64 - 1" by simp_all
  note b = registry_begin_ok [OF reg_begin(2) registry_run_ok [OF reg_begin(1)]]
  have h: "unat h = Suc (length issued)" using b c by (simp add: counted_def)
  have "h \<noteq> - 1" using h n handle_max by auto
  then have "unat (h + 1) = Suc (Suc (length issued))"
    using h unatSuc [of h] \<open>h \<noteq> - 1\<close> handle_succ [of h] by (simp add: add.commute)
  with b c h \<open>h \<noteq> - 1\<close> show ?case by (auto simp: counted_def)
next
  case (reg_process issued r h req a r')
  with registry_others(1) [OF reg_process(2) registry_run_ok [OF reg_process(1)]]
  show ?case by (simp add: counted_def)
next
  case (reg_take issued r h x r')
  with registry_others(2) [OF reg_take(2) registry_run_ok [OF reg_take(1)]]
  show ?case by (simp add: counted_def)
next
  case (reg_fetch issued r h n f r')
  with registry_others(3) [OF reg_fetch(2) registry_run_ok [OF reg_fetch(1)]]
  show ?case by (simp add: counted_def)
next
  case (reg_end issued r h b r')
  with registry_others(4) [OF reg_end(2) registry_run_ok [OF reg_end(1)]]
  show ?case by (auto simp: counted_def)
qed

text \<open>A saturated counter gives the same handle to two sessions, and the first is lost.\<close>

lemma registry_handle_reused:
  assumes "rg_next r = - 1"
  shows "\<exists>r1 r2. registry_begin s1 r = (- 1, r1) \<and> registry_begin s2 r1 = (- 1, r2) \<and> live r2 (- 1) = Some s2"
  using assms by (simp add: registry_begin_def Let_def live_def update_conv')

section \<open>The table as a machine of its own\<close>

text \<open>
  The abstract table: how many sessions were begun, and a partial map from handles to live sessions. A call
  says what the table answers and how it changes; the registry has to give the same answers.
\<close>

datatype 'd registry_call =
    RcBegin "'d peer_session"
  | RcProcess session_handle bytes
  | RcTake session_handle
  | RcFetch session_handle nat
  | RcResult session_handle
  | RcTunnel session_handle
  | RcEnd session_handle
  | RcLen
  | RcEmpty

datatype registry_answer =
    AnsHandle session_handle
  | AnsAction "process_action option"
  | AnsResponse "bytes option"
  | AnsFetch response_fetch
  | AnsResult "auth_result option"
  | AnsTunnel "bool option"
  | AnsEnded bool
  | AnsLen nat
  | AnsEmpty bool

fun registry_exec ::
  "('d, 'e) teap_step \<Rightarrow> ('d \<Rightarrow> bool) \<Rightarrow> 'd registry_call \<Rightarrow> 'd session_registry
     \<Rightarrow> (registry_answer \<times> 'd session_registry) option" where
  "registry_exec step est (RcBegin s) r = Some (apfst AnsHandle (registry_begin s r))"
| "registry_exec step est (RcProcess h req) r = map_option (apfst AnsAction) (registry_process step h req r)"
| "registry_exec step est (RcTake h) r = Some (apfst AnsResponse (registry_take_response h r))"
| "registry_exec step est (RcFetch h avail) r = Some (apfst AnsFetch (registry_fetch_response h avail r))"
| "registry_exec step est (RcResult h) r = Some (AnsResult (registry_result h r), r)"
| "registry_exec step est (RcTunnel h) r = Some (AnsTunnel (registry_tunnel_established est h r), r)"
| "registry_exec step est (RcEnd h) r = Some (apfst AnsEnded (registry_end h r))"
| "registry_exec step est RcLen r = Some (AnsLen (registry_len r), r)"
| "registry_exec step est RcEmpty r = Some (AnsEmpty (registry_is_empty r), r)"

type_synonym 'd session_table = "nat \<times> (session_handle \<rightharpoonup> 'd peer_session)"

text \<open>Handles count up from 1 and stay at the largest one.\<close>

definition nth_handle :: "nat \<Rightarrow> session_handle" where
  "nth_handle n = word_of_nat (min (Suc n) (2 ^ 64 - 1))"

definition forget_response :: "session_handle \<Rightarrow> (session_handle \<rightharpoonup> 'd peer_session) \<Rightarrow> session_handle \<rightharpoonup> 'd peer_session" where
  "forget_response h t = t(h := map_option (ps_pending_update (\<lambda>_. None)) (t h))"

fun table_exec ::
  "('d, 'e) teap_step \<Rightarrow> ('d \<Rightarrow> bool) \<Rightarrow> 'd registry_call \<Rightarrow> 'd session_table
     \<Rightarrow> (registry_answer \<times> 'd session_table) option" where
  "table_exec step est (RcBegin s) (n, t) = Some (AnsHandle (nth_handle n), Suc n, t(nth_handle n \<mapsto> s))"
| "table_exec step est (RcProcess h req) (n, t) =
     (case t h of
        None \<Rightarrow> Some (AnsAction None, n, t)
      | Some s \<Rightarrow> map_option (\<lambda>(a, s'). (AnsAction (Some a), n, t(h \<mapsto> s'))) (peer_process step req s))"
| "table_exec step est (RcTake h) (n, t) =
     Some (AnsResponse (Option.bind (t h) ps_pending), n, forget_response h t)"
| "table_exec step est (RcFetch h avail) (n, t) =
     Some (case Option.bind (t h) ps_pending of
        None \<Rightarrow> (AnsFetch FetchNone, n, t)
      | Some resp \<Rightarrow>
          if length resp \<le> avail then (AnsFetch (Taken resp), n, forget_response h t)
          else (AnsFetch (TooSmall (length resp)), n, t))"
| "table_exec step est (RcResult h) (n, t) = Some (AnsResult (Option.bind (t h) ps_result), n, t)"
| "table_exec step est (RcTunnel h) (n, t) = Some (AnsTunnel (map_option (est \<circ> ps_driver) (t h)), n, t)"
| "table_exec step est (RcEnd h) (n, t) = Some (AnsEnded (h \<in> dom t), n, t(h := None))"
| "table_exec step est RcLen (n, t) = Some (AnsLen (card (dom t)), n, t)"
| "table_exec step est RcEmpty (n, t) = Some (AnsEmpty (t = Map.empty), n, t)"

text \<open>The answers to a sequence of calls; \<open>None\<close> when a driver does not return.\<close>

fun all_answers :: "('call \<Rightarrow> 's \<Rightarrow> ('a \<times> 's) option) \<Rightarrow> 'call list \<Rightarrow> 's \<Rightarrow> ('a list \<times> 's) option" where
  "all_answers exec [] s = Some ([], s)"
| "all_answers exec (c # cs) s =
     (case exec c s of
        None \<Rightarrow> None
      | Some (a, s') \<Rightarrow> map_option (apfst ((#) a)) (all_answers exec cs s'))"

text \<open>Two machines that answer each call alike in related states answer every sequence of calls alike.\<close>

lemma answers_alike:
  assumes step: "\<And>c r t. R r t \<Longrightarrow> rel_option (rel_prod (=) R) (f c r) (g c t)" and "R r t"
  shows "rel_option (rel_prod (=) R) (all_answers f cs r) (all_answers g cs t)"
  using assms(2)
proof (induction cs arbitrary: r t)
  case (Cons c cs)
  from step [OF Cons.prems, of c] show ?case
  proof cases
    case (Some x y)
    then obtain a r' t' where x: "x = (a, r')" "y = (a, t')" "R r' t'" by (cases x; cases y) auto
    from Cons.IH [OF x(3)] show ?thesis
      unfolding all_answers.simps Some x(1,2) by cases auto
  qed simp
qed simp

definition implements :: "'d session_registry \<Rightarrow> 'd session_table \<Rightarrow> bool" where
  "implements r T \<longleftrightarrow> registry_ok r \<and> rg_next r = nth_handle (fst T) \<and> live r = snd T"

lemma nth_handle_Suc: "nth_handle (Suc n) = (if nth_handle n = - 1 then - 1 else nth_handle n + 1)"
proof -
  have u: "unat (nth_handle k) = min (Suc k) (2 ^ 64 - 1)" for k
  proof -
    have "min (Suc k) (2 ^ 64 - 1) < 2 ^ LENGTH(64)" by (simp add: min_def)
    then show ?thesis unfolding nth_handle_def by (simp only: unsigned_of_nat take_bit_nat_eq_self of_nat_id)
  qed
  show ?thesis
  proof (cases "Suc n < 2 ^ 64 - 1")
    case True
    then have "unat (nth_handle n) \<noteq> unat (- 1 :: session_handle)" using u [of n] handle_max by simp
    then have "nth_handle n \<noteq> - 1" by metis
    moreover from True have "nth_handle (Suc n) = nth_handle n + 1"
      by (simp add: nth_handle_def min_def add.commute)
    ultimately show ?thesis by simp
  next
    case False
    then have "unat (nth_handle n) = unat (- 1 :: session_handle)"
      "unat (nth_handle (Suc n)) = unat (- 1 :: session_handle)" using u [of n] u [of "Suc n"] handle_max by simp_all
    then show ?thesis by (simp add: word_unat_eq_iff)
  qed
qed

lemma implements_new: "implements registry_new (0, Map.empty)"
  by (simp add: implements_def registry_new_def registry_ok_def live_def nth_handle_def)

lemma exec_implements:
  assumes "implements r T"
  shows "rel_option (rel_prod (=) implements) (registry_exec step est c r) (table_exec step est c T)"
proof -
  obtain n t where T: "T = (n, t)" by (cases T)
  have ok: "registry_ok r" and nx: "rg_next r = nth_handle n" and t: "live r = t"
    using assms by (simp_all add: implements_def T)
  have m: "map_of (rg_sessions r) = t" using t by (simp add: live_def)
  have upd: "implements (r\<lparr>rg_sessions := AList.update h s (rg_sessions r)\<rparr>) (n, t(h \<mapsto> s))" for h s
    using ok nx m by (simp add: implements_def registry_ok_def distinct_update)
  have del: "implements (r\<lparr>rg_sessions := AList.delete h (rg_sessions r)\<rparr>) (n, t(h := None))" for h
    using ok nx m by (simp add: implements_def registry_ok_def distinct_delete)
  have same: "forget_response h t = t" if "t h = None" for h
    using that by (auto simp: forget_response_def)
  show ?thesis
  proof (cases c)
    case (RcBegin s)
    have "registry_begin s r = (nth_handle n, snd (registry_begin s r))" by (simp add: registry_begin_def Let_def nx)
    from registry_begin_ok [OF this ok] t have "implements (snd (registry_begin s r)) (Suc n, t(nth_handle n \<mapsto> s))"
      by (simp add: implements_def nth_handle_Suc)
    moreover have "fst (registry_begin s r) = nth_handle n" by (simp add: registry_begin_def Let_def nx)
    ultimately show ?thesis by (cases "registry_begin s r") (simp add: RcBegin T)
  next
    case (RcProcess h req)
    then show ?thesis using assms upd
      by (auto simp: T registry_process_def with_session_def m option.rel_map split: option.split)
  next
    case (RcTake h)
    then show ?thesis using assms upd same
      by (auto simp: T registry_take_response_def peer_take_response_def m forget_response_def split: option.split)
  next
    case (RcFetch h avail)
    then show ?thesis using assms upd
      by (auto simp: T registry_fetch_response_def peer_response_len_def peer_take_response_def m forget_response_def
          split: option.split)
  next
    case (RcResult h)
    then show ?thesis using assms by (simp add: T registry_result_def m split: option.split)
  next
    case (RcTunnel h)
    have "peer_tunnel_established est = est \<circ> ps_driver" by (rule ext) (simp add: peer_tunnel_established_def)
    with RcTunnel assms show ?thesis by (simp add: T registry_tunnel_established_def m)
  next
    case (RcEnd h)
    then show ?thesis using del by (auto simp: T registry_end_def m)
  next
    case RcLen
    then show ?thesis using assms registry_len_live [OF ok] by (simp add: T t)
  next
    case RcEmpty
    have "registry_is_empty r \<longleftrightarrow> t = Map.empty"
      using m by (auto simp: registry_is_empty_def registry_len_def)
    with RcEmpty assms show ?thesis by (simp add: T)
  qed
qed

section \<open>Properties\<close>

text \<open>A host that reads a success has a bound tunnel. Whatever packets a host gives a session over a
  driver made by \<open>driver_new\<close>, errors included, and whatever responses it takes in between, a success
  it can read rests on an approved tunnel, a delivered IMSK and a verified Crypto-Binding, with the
  MSK of that key schedule: the adapter stops the driver at its first error, so the open session a
  decode error leaves behind (\<open>success_after_decode_error\<close>) is out of reach.\<close>

lemma peer_success_sound:
  assumes "driver_new rb cfg roots inner = Inr d0"
    and "peer_calls (driver_step rl sign proc) (peer_new kind d0) s"
    and "ps_result s = Some (AuthSuccess msk mat)"
  shows "\<exists>emsk. bound_success rl sign proc (dr_tunnel d0) cfg msk emsk mat"
  using teap_method.success_good [OF driver_new_sound [OF assms(1)] assms(2,3)]
  by (simp add: outcome_ok_def)

lemma demo_run_calls:
  assumes "driver_run rl sign proc d0 n d"
  shows "\<exists>s. peer_calls (driver_step rl sign proc) (peer_new kind d0) s \<and> ps_driver s = d \<and> \<not> ps_terminated s"
  using assms
proof induction
  case drun_start
  show ?case by (intro exI [of _ "peer_new kind d0"] conjI peer_start) (simp_all add: peer_new_def)
next
  case (drun_step n d req bs d')
  then obtain s where s: "peer_calls (driver_step rl sign proc) (peer_new kind d0) s" "ps_driver s = d" "\<not> ps_terminated s"
    by blast
  then have "peer_process (driver_step rl sign proc) req s
      = Some (ActRespond, s\<lparr>ps_driver := d', ps_pending := Some bs\<rparr>)"
    using drun_step(2) by (simp add: peer_process_def)
  from peer_step [OF s(1) this] s(3) show ?case by fastforce
qed

text \<open>C23: one verdict, failing closed. Over any driver and whatever was called on the session before: a driver
  error of any kind ends a running session in failure, and a driver that finishes ends it in that very
  outcome, with the last response to send if there is one; a session has a verdict exactly when it has
  ended, and a call answers \<open>Finished\<close> exactly when the session has ended by then. An ended session,
  whatever ended it, keeps its verdict over all further calls and answers every further packet with
  \<open>Finished\<close>, without asking the driver.\<close>

theorem peer_fails_closed:
  assumes "peer_calls step (peer_new kind d0) s"
  shows "(\<forall>e d. \<not> ps_terminated s \<and> step req (ps_driver s) = Some (Inl e, d) \<longrightarrow>
      (\<exists>s1. peer_process step req s = Some (ActFinished, s1) \<and> ps_terminated s1
         \<and> ps_result s1 = Some (AuthFailure ServerFailure) \<and> ps_pending s1 = ps_pending s))
    \<and> (\<forall>send oc d. \<not> ps_terminated s \<and> step req (ps_driver s) = Some (Inr (Finished send oc), d) \<longrightarrow>
      (\<exists>s1. peer_process step req s = Some (ActFinished, s1) \<and> ps_terminated s1
         \<and> ps_result s1 = Some (result_of oc) \<and> ps_pending s1 = (if send = None then ps_pending s else send)))
    \<and> (ps_terminated s \<longleftrightarrow> ps_result s \<noteq> None)
    \<and> (\<forall>a s1. peer_process step req s = Some (a, s1) \<longrightarrow> (a = ActFinished \<longleftrightarrow> ps_terminated s1))
    \<and> (ps_terminated s \<longrightarrow> (\<forall>s2. peer_calls step s s2 \<longrightarrow> ps_result s2 = ps_result s
         \<and> (\<forall>req'. peer_process step req' s2 = Some (ActFinished, s2))))"
proof (intro conjI)
  show "\<forall>e d. \<not> ps_terminated s \<and> step req (ps_driver s) = Some (Inl e, d) \<longrightarrow>
      (\<exists>s1. peer_process step req s = Some (ActFinished, s1) \<and> ps_terminated s1
         \<and> ps_result s1 = Some (AuthFailure ServerFailure) \<and> ps_pending s1 = ps_pending s)"
    by (auto simp: peer_process_def peer_finish_def)
  show "\<forall>send oc d. \<not> ps_terminated s \<and> step req (ps_driver s) = Some (Inr (Finished send oc), d) \<longrightarrow>
      (\<exists>s1. peer_process step req s = Some (ActFinished, s1) \<and> ps_terminated s1
         \<and> ps_result s1 = Some (result_of oc) \<and> ps_pending s1 = (if send = None then ps_pending s else send))"
    by (auto simp: peer_process_def peer_finish_result)
  show "ps_terminated s \<longleftrightarrow> ps_result s \<noteq> None" by (rule ended_iff [OF assms])
  show "\<forall>a s1. peer_process step req s = Some (a, s1) \<longrightarrow> (a = ActFinished \<longleftrightarrow> ps_terminated s1)"
  proof (intro allI impI)
    fix a s1
    assume a: "peer_process step req s = Some (a, s1)"
    show "a = ActFinished \<longleftrightarrow> ps_terminated s1"
      by (cases a) (use a finished_process [of step req s s1] responding_process [of step req s s1] in auto)
  qed
  show "ps_terminated s \<longrightarrow> (\<forall>s2. peer_calls step s s2 \<longrightarrow> ps_result s2 = ps_result s
      \<and> (\<forall>req'. peer_process step req' s2 = Some (ActFinished, s2)))"
  proof (intro allI impI conjI)
    fix s2 req' assume s: "ps_terminated s" "peer_calls step s s2"
    note verdict_kept [OF s(2,1)]
    then show "ps_result s2 = ps_result s" "peer_process step req' s2 = Some (ActFinished, s2)"
      by (simp_all add: peer_process_def)
  qed
qed

text \<open>A session of the TEAP driver that a malformed packet ends.\<close>

theorem peer_fails_closed_witness:
  "\<exists>s1. peer_process (driver_step plain_tls demo_sign demo_inner) [] (peer_new UserSession demo_driver)
     = Some (ActFinished, s1) \<and> ps_result s1 = Some (AuthFailure ServerFailure)
   \<and> (\<forall>s2. peer_calls (driver_step plain_tls demo_sign demo_inner) s1 s2 \<longrightarrow> ps_result s2 = Some (AuthFailure ServerFailure))"
proof -
  let ?step = "driver_step plain_tls demo_sign demo_inner" and ?s = "peer_new UserSession demo_driver"
  have e: "\<not> ps_terminated ?s \<and> ?step [] (ps_driver ?s) = Some (Inl (DrvDecode (TruncatedHeader 0 0)), demo_driver)"
    by (simp add: peer_new_def driver_step_def eap_decode_unfold op_simps)
  from peer_fails_closed [of ?step UserSession demo_driver ?s "[]", OF peer_start] e
  obtain s1 where s1: "peer_process ?step [] ?s = Some (ActFinished, s1)" "ps_terminated s1"
    "ps_result s1 = Some (AuthFailure ServerFailure)"
    by blast
  from peer_fails_closed [of ?step UserSession demo_driver s1 "[]", OF peer_step [OF peer_start s1(1)]] s1 show ?thesis by auto
qed

text \<open>C14: the registry implements the table of live sessions. For every sequence of calls of its methods, from
  the registry's creation on and over any driver, the registry gives the answers of the abstract table, call
  by call: the handle of a new session, the action of a processed packet, the very response that a session
  holds and that taking it removes (or its length when it does not fit), the verdict, whether the tunnel is
  up, whether there was a session to end, and how many there are. It stops where the table stops, at a driver
  that does not return, and ends with the same sessions under the same handles.\<close>

theorem registry_refines_table:
  "map_option (map_prod id live) (all_answers (registry_exec step est) calls registry_new)
   = map_option (map_prod id snd) (all_answers (table_exec step est) calls (0, Map.empty))"
  using answers_alike [of implements "registry_exec step est" "table_exec step est", OF exec_implements implements_new, of calls]
  by (cases rule: option.rel_cases) (auto simp: implements_def)

text \<open>C24: handles are never zero and never reused: over the first 2^64 - 2 sessions, whatever is done in
  between, the handle given to a new session differs from every handle ever given out, and no live
  session has it.\<close>

theorem registry_handles_fresh:
  assumes "registry_run step issued r" and "length issued < 2 ^ 64 - 1" and "registry_begin s r = (h, r')"
  shows "h \<noteq> 0 \<and> h \<notin> set issued \<and> live r h = None \<and> live r' = (live r)(h \<mapsto> s)"
proof -
  have c: "counted issued r" by (rule registry_run_counted [OF assms(1,2)])
  note b = registry_begin_ok [OF assms(3) registry_run_ok [OF assms(1)]]
  have h: "unat h = Suc (length issued)" using b c by (simp add: counted_def)
  have "Suc (length issued) \<notin> set (map unat issued)" using c unfolding counted_def by simp
  then have "h \<notin> set issued" unfolding h [symmetric] by (metis image_eqI set_map)
  moreover have "h \<noteq> 0" using h by auto
  ultimately show ?thesis using b c by (auto simp: counted_def)
qed

theorem registry_handles_fresh_witness:
  "\<exists>r'. registry_begin (peer_new UserSession ()) registry_new = (1, r') \<and> (1 :: session_handle) \<noteq> 0"
proof -
  obtain r' where b: "registry_begin (peer_new UserSession ()) registry_new = (1, r')"
    by (simp add: registry_begin_def registry_new_def Let_def)
  from registry_handles_fresh [OF reg_start _ b] b show ?thesis by auto
qed

text \<open>The two-call fetch loses no response. A fetch into a buffer that is too small reports the length
  and changes nothing; one that fits returns exactly the buffered response, once: the next fetch
  finds none, and every other session and the verdict are as before.\<close>

lemma fetch_two_calls:
  assumes "live r h = Some s" and "ps_pending s = Some bs" and "avail < length bs" and "length bs \<le> room"
  shows "registry_fetch_response h avail r = (TooSmall (length bs), r)
    \<and> (\<exists>r'. registry_fetch_response h room r = (Taken bs, r')
         \<and> live r' = (live r)(h \<mapsto> s\<lparr>ps_pending := None\<rparr>)
         \<and> registry_result h r' = registry_result h r
         \<and> (\<forall>n. registry_fetch_response h n r' = (FetchNone, r')))"
  using assms
  by (simp add: registry_fetch_response_def live_def peer_response_len_def peer_take_response_def update_conv'
      registry_result_def)

end
