(* ===== verification/Files.thy ===== *)
theory Files
  imports Text_Codec
begin

text \<open>
  The file operations of the standard library that the source calls, over an explicit disk. Every
  operation may fail: the disk carries the failures still to come, one entry for each operation, so a
  statement for all disks covers every place at which the system can fail. A write that fails has
  left the file alone or has left an initial part of the data in it.
\<close>

type_synonym path = str

datatype io_kind = NotFound | OtherKind nat

text \<open>\<open>read\<close> and \<open>remove_file\<close> report \<open>NotFound\<close> for a file that is not there and for no other.\<close>

fun other_kind :: "io_kind \<Rightarrow> io_kind" where
  "other_kind NotFound = OtherKind 0"
| "other_kind (OtherKind n) = OtherKind n"

lemma other_kind_not [simp]: "other_kind k \<noteq> NotFound"
  by (cases k) simp_all

datatype fault =
    NoFault
  | Fault io_kind "nat option"  \<comment> \<open>kind, and how much of a write reached the file\<close>

record disk =
  dk_files :: "path \<rightharpoonup> bytes"
  dk_faults :: "fault list"

definition next_fault :: "disk \<Rightarrow> fault \<times> disk" where
  "next_fault d =
     (case dk_faults d of
        [] \<Rightarrow> (NoFault, d)
      | f # fs \<Rightarrow> (f, d\<lparr>dk_faults := fs\<rparr>))"

text \<open>\<open>create_dir_all\<close>: directories hold no data, so only its failure shows.\<close>

definition fs_create_dir_all :: "path \<Rightarrow> disk \<Rightarrow> (io_kind + unit) \<times> disk" where
  "fs_create_dir_all p d =
     (case next_fault d of
        (NoFault, d1) \<Rightarrow> (Inr (), d1)
      | (Fault k _, d1) \<Rightarrow> (Inl k, d1))"

definition fs_write :: "path \<Rightarrow> bytes \<Rightarrow> disk \<Rightarrow> (io_kind + unit) \<times> disk" where
  "fs_write p data d =
     (case next_fault d of
        (NoFault, d1) \<Rightarrow> (Inr (), d1\<lparr>dk_files := (dk_files d1)(p \<mapsto> data)\<rparr>)
      | (Fault k None, d1) \<Rightarrow> (Inl k, d1)
      | (Fault k (Some n), d1) \<Rightarrow> (Inl k, d1\<lparr>dk_files := (dk_files d1)(p \<mapsto> take n data)\<rparr>))"

definition fs_read :: "path \<Rightarrow> disk \<Rightarrow> (io_kind + bytes) \<times> disk" where
  "fs_read p d =
     (case next_fault d of
        (NoFault, d1) \<Rightarrow> (case dk_files d1 p of None \<Rightarrow> (Inl NotFound, d1) | Some bs \<Rightarrow> (Inr bs, d1))
      | (Fault k _, d1) \<Rightarrow> (Inl (other_kind k), d1))"

text \<open>\<open>rename\<close> replaces the target in one step.\<close>

definition fs_rename :: "path \<Rightarrow> path \<Rightarrow> disk \<Rightarrow> (io_kind + unit) \<times> disk" where
  "fs_rename src dst d =
     (case next_fault d of
        (NoFault, d1) \<Rightarrow>
          (case dk_files d1 src of
             None \<Rightarrow> (Inl NotFound, d1)
           | Some bs \<Rightarrow> (Inr (), d1\<lparr>dk_files := (dk_files d1)(src := None, dst \<mapsto> bs)\<rparr>))
      | (Fault k _, d1) \<Rightarrow> (Inl k, d1))"

definition fs_remove_file :: "path \<Rightarrow> disk \<Rightarrow> (io_kind + unit) \<times> disk" where
  "fs_remove_file p d =
     (case next_fault d of
        (NoFault, d1) \<Rightarrow>
          (case dk_files d1 p of
             None \<Rightarrow> (Inl NotFound, d1)
           | Some _ \<Rightarrow> (Inr (), d1\<lparr>dk_files := (dk_files d1)(p := None)\<rparr>))
      | (Fault k _, d1) \<Rightarrow> (Inl (other_kind k), d1))"

lemmas fs_defs = fs_create_dir_all_def fs_write_def fs_read_def fs_rename_def fs_remove_file_def next_fault_def

text \<open>A calm disk has no failure ahead.\<close>

definition calm :: "disk \<Rightarrow> bool" where
  "calm d \<longleftrightarrow> dk_faults d = []"

lemma calm_fs:
  assumes "calm d"
  shows "fs_create_dir_all p d = (Inr (), d)"
    and "fs_write p data d = (Inr (), d\<lparr>dk_files := (dk_files d)(p \<mapsto> data)\<rparr>)"
    and "fs_read p d = (case dk_files d p of None \<Rightarrow> Inl NotFound | Some bs \<Rightarrow> Inr bs, d)"
    and "dk_files d src = Some bs \<Longrightarrow>
      fs_rename src dst d = (Inr (), d\<lparr>dk_files := (dk_files d)(src := None, dst \<mapsto> bs)\<rparr>)"
    and "fs_remove_file p d =
      (if dk_files d p = None then (Inl NotFound, d) else (Inr (), d\<lparr>dk_files := (dk_files d)(p := None)\<rparr>))"
  using assms by (auto simp: calm_def fs_defs split: option.splits)

lemma calm_update [simp]: "calm (d\<lparr>dk_files := m\<rparr>) = calm d"
  by (simp add: calm_def)

text \<open>What an operation can do to the files, whatever fails.\<close>

lemma fs_create_frame: "fs_create_dir_all p d = (r, d') \<Longrightarrow> dk_files d' = dk_files d"
  by (auto simp: fs_defs split: list.splits fault.splits)

lemma fs_read_frame:
  "fs_read p d = (r, d') \<Longrightarrow> dk_files d' = dk_files d
     \<and> (r = Inl NotFound \<longrightarrow> dk_files d p = None) \<and> (\<forall>bs. r = Inr bs \<longrightarrow> dk_files d p = Some bs)"
  by (auto simp: fs_defs split: list.splits fault.splits option.splits)

lemma fs_write_frame:
  "fs_write p data d = (r, d') \<Longrightarrow>
     (\<forall>q. q \<noteq> p \<longrightarrow> dk_files d' q = dk_files d q) \<and> (r = Inr () \<longrightarrow> dk_files d' p = Some data)"
  by (auto simp: fs_defs split: list.splits fault.splits option.splits)

lemma fs_rename_frame:
  "fs_rename src dst d = (r, d') \<Longrightarrow>
     (r = Inr () \<longrightarrow> (src \<noteq> dst \<longrightarrow> dk_files d' dst = dk_files d src))
     \<and> (\<forall>k. r = Inl k \<longrightarrow> dk_files d' = dk_files d)
     \<and> (\<forall>q. q \<noteq> src \<longrightarrow> q \<noteq> dst \<longrightarrow> dk_files d' q = dk_files d q)"
  by (auto simp: fs_defs split: list.splits fault.splits option.splits)

lemma fs_remove_frame:
  "fs_remove_file p d = (r, d') \<Longrightarrow>
     (\<forall>q. q \<noteq> p \<longrightarrow> dk_files d' q = dk_files d q) \<and> (r = Inr () \<longrightarrow> dk_files d' p = None)
     \<and> (\<forall>k. r = Inl k \<longrightarrow> dk_files d' = dk_files d) \<and> (r = Inl NotFound \<longrightarrow> dk_files d p = None)"
  by (auto simp: fs_defs split: list.splits fault.splits option.splits)

text \<open>\<open>PathBuf::join\<close> of a relative component on Windows.\<close>

definition path_join :: "path \<Rightarrow> str \<Rightarrow> path" where
  "path_join dir c =
     (if dir = [] \<or> last dir \<in> {47, 92} \<or> (length dir = 2 \<and> last dir = 58) then dir @ c
      else dir @ [92] @ c)"

end
