(* ===== verification/Status.thy ===== *)
theory Status
  imports Files
begin

text \<open>
  The status file shared with the tray: crates/usg-status/src/lib.rs. The snapshot and its
  \<open>key=value\<close> text, the presentation strings, and publishing by a staging file and a rename over the
  disk of \<open>Files\<close>.
\<close>

section \<open>The snapshot\<close>

datatype auth_state = StIdle | StConnecting | StOuterEstablished | StInnerInProgress | StAuthenticated | StFailed

datatype status_identity = StMachine | StUser

record auth_status =
  st_state :: auth_state
  st_identity :: status_identity
  st_cert_subject :: str
  st_machine_cert :: str
  st_user_cert :: str
  st_machine_thumbprint :: str
  st_user_thumbprint :: str
  st_server_name :: str
  st_detail :: str
  st_updated_unix :: u64

fun state_token :: "auth_state \<Rightarrow> str" where
  "state_token StIdle = ascii ''idle''"
| "state_token StConnecting = ascii ''connecting''"
| "state_token StOuterEstablished = ascii ''outer-established''"
| "state_token StInnerInProgress = ascii ''inner-in-progress''"
| "state_token StAuthenticated = ascii ''authenticated''"
| "state_token StFailed = ascii ''failed''"

definition state_from_token :: "str \<Rightarrow> auth_state option" where
  "state_from_token s =
     (if s = ascii ''idle'' then Some StIdle
      else if s = ascii ''connecting'' then Some StConnecting
      else if s = ascii ''outer-established'' then Some StOuterEstablished
      else if s = ascii ''inner-in-progress'' then Some StInnerInProgress
      else if s = ascii ''authenticated'' then Some StAuthenticated
      else if s = ascii ''failed'' then Some StFailed
      else None)"

fun identity_token :: "status_identity \<Rightarrow> str" where
  "identity_token StMachine = ascii ''machine''"
| "identity_token StUser = ascii ''user''"

definition identity_from_token :: "str \<Rightarrow> status_identity option" where
  "identity_from_token s =
     (if s = ascii ''machine'' then Some StMachine
      else if s = ascii ''user'' then Some StUser
      else None)"

section \<open>Presentation\<close>

text \<open>The UTF-8 octets of the ellipsis and the em dash.\<close>

definition ELLIPSIS :: str where "ELLIPSIS = [0xE2, 0x80, 0xA6]"
definition EM_DASH :: str where "EM_DASH = [0xE2, 0x80, 0x94]"

fun state_label :: "auth_state \<Rightarrow> str" where
  "state_label StIdle = ascii ''Idle''"
| "state_label StConnecting = ascii ''Connecting (outer tunnel)'' @ ELLIPSIS"
| "state_label StOuterEstablished = ascii ''Outer TEAP tunnel established''"
| "state_label StInnerInProgress = ascii ''Inner EAP-TLS in progress'' @ ELLIPSIS"
| "state_label StAuthenticated = ascii ''Authenticated''"
| "state_label StFailed = ascii ''Authentication failed''"

fun state_headline :: "auth_state \<Rightarrow> str" where
  "state_headline StAuthenticated = ascii ''Authenticated''"
| "state_headline StFailed = ascii ''Authentication failed''"
| "state_headline StIdle = ascii ''usg-TEAP''"
| "state_headline StConnecting = ascii ''Authenticating'' @ ELLIPSIS"
| "state_headline StOuterEstablished = ascii ''Authenticating'' @ ELLIPSIS"
| "state_headline StInnerInProgress = ascii ''Authenticating'' @ ELLIPSIS"

fun outer_inner :: "auth_state \<Rightarrow> str \<times> str" where
  "outer_inner StIdle = (EM_DASH, EM_DASH)"
| "outer_inner StConnecting = (ascii ''In progress'', ascii ''Waiting'')"
| "outer_inner StOuterEstablished = (ascii ''Established'', ascii ''Waiting'')"
| "outer_inner StInnerInProgress = (ascii ''Established'', ascii ''In progress'')"
| "outer_inner StAuthenticated = (ascii ''Established'', ascii ''Authenticated'')"
| "outer_inner StFailed = (ascii ''See detail'', ascii ''See detail'')"

fun identity_display_name :: "status_identity \<Rightarrow> str" where
  "identity_display_name StMachine = ascii ''Machine''"
| "identity_display_name StUser = ascii ''User''"

definition dash :: "str \<Rightarrow> str" where
  "dash v = (if v = [] then EM_DASH else v)"

section \<open>The text form\<close>

definition one_line :: "str \<Rightarrow> str" where
  "one_line s = map (\<lambda>c. if c = 10 \<or> c = 13 then 32 else c) s"

definition status_field :: "string \<Rightarrow> str \<Rightarrow> str" where
  "status_field key v = ascii key @ [61] @ v @ [10]"

definition status_encode :: "auth_status \<Rightarrow> str" where
  "status_encode s =
     status_field ''version'' (ascii ''1'')
     @ status_field ''state'' (state_token (st_state s))
     @ status_field ''identity'' (identity_token (st_identity s))
     @ status_field ''cert_subject'' (one_line (st_cert_subject s))
     @ status_field ''machine_cert'' (one_line (st_machine_cert s))
     @ status_field ''user_cert'' (one_line (st_user_cert s))
     @ status_field ''machine_thumbprint'' (one_line (st_machine_thumbprint s))
     @ status_field ''user_thumbprint'' (one_line (st_user_thumbprint s))
     @ status_field ''server_name'' (one_line (st_server_name s))
     @ status_field ''detail'' (one_line (st_detail s))
     @ status_field ''updated_unix'' (decimal (unat (st_updated_unix s)))"

text \<open>The variables of the decoder, and its loop over the lines.\<close>

record status_vars =
  sv_state :: "auth_state option"
  sv_identity :: "status_identity option"
  sv_cert_subject :: str
  sv_machine_cert :: str
  sv_user_cert :: str
  sv_machine_thumbprint :: str
  sv_user_thumbprint :: str
  sv_server_name :: str
  sv_detail :: str
  sv_updated_unix :: u64

definition status_vars_init :: status_vars where
  "status_vars_init =
     \<lparr>sv_state = None, sv_identity = None, sv_cert_subject = [], sv_machine_cert = [], sv_user_cert = [],
      sv_machine_thumbprint = [], sv_user_thumbprint = [], sv_server_name = [], sv_detail = [],
      sv_updated_unix = 0\<rparr>"

definition decode_field :: "str \<Rightarrow> str \<Rightarrow> status_vars \<Rightarrow> status_vars" where
  "decode_field key value a =
     (if key = ascii ''state'' then a\<lparr>sv_state := state_from_token value\<rparr>
      else if key = ascii ''identity'' then a\<lparr>sv_identity := identity_from_token value\<rparr>
      else if key = ascii ''cert_subject'' then a\<lparr>sv_cert_subject := value\<rparr>
      else if key = ascii ''machine_cert'' then a\<lparr>sv_machine_cert := value\<rparr>
      else if key = ascii ''user_cert'' then a\<lparr>sv_user_cert := value\<rparr>
      else if key = ascii ''machine_thumbprint'' then a\<lparr>sv_machine_thumbprint := value\<rparr>
      else if key = ascii ''user_thumbprint'' then a\<lparr>sv_user_thumbprint := value\<rparr>
      else if key = ascii ''server_name'' then a\<lparr>sv_server_name := value\<rparr>
      else if key = ascii ''detail'' then a\<lparr>sv_detail := value\<rparr>
      else if key = ascii ''updated_unix'' then
        a\<lparr>sv_updated_unix := word_of_nat (unwrap_or (parse_u64 value) 0)\<rparr>
      else a)"

definition decode_line :: "status_vars \<Rightarrow> str \<Rightarrow> status_vars" where
  "decode_line a line =
     (case split_once 61 line of
        None \<Rightarrow> a
      | Some (key, value) \<Rightarrow> decode_field key value a)"

definition status_finish :: "status_vars \<Rightarrow> auth_status option" where
  "status_finish a =
     (case sv_state a of
        None \<Rightarrow> None
      | Some state \<Rightarrow>
          (case sv_identity a of
             None \<Rightarrow> None
           | Some identity \<Rightarrow>
               Some \<lparr>st_state = state, st_identity = identity, st_cert_subject = sv_cert_subject a,
                 st_machine_cert = sv_machine_cert a, st_user_cert = sv_user_cert a,
                 st_machine_thumbprint = sv_machine_thumbprint a, st_user_thumbprint = sv_user_thumbprint a,
                 st_server_name = sv_server_name a, st_detail = sv_detail a,
                 st_updated_unix = sv_updated_unix a\<rparr>))"

definition status_decode :: "str \<Rightarrow> auth_status option" where
  "status_decode text = status_finish (foldl decode_line status_vars_init (lines text))"

section \<open>Publishing\<close>

text \<open>\<open>unix_now\<close>: \<open>clock\<close> is the time since the epoch, if the clock is past it.\<close>

definition unix_now :: "u64 option \<Rightarrow> u64" where
  "unix_now clock = unwrap_or clock 0"

text \<open>What the operating system tells the process, and the state the functions keep.\<close>

record status_host =
  sh_program_data :: "str option"
  sh_pid :: nat
  sh_seq :: u64  \<comment> \<open>the static counter of \<open>unique_tmp\<close>\<close>
  sh_disk :: disk

definition status_dir :: "status_host \<Rightarrow> path" where
  "status_dir h = path_join (unwrap_or (sh_program_data h) (ascii ''C:'' @ [92] @ ascii ''ProgramData''))
     (ascii ''usg-supplicant'')"

definition status_file_path :: "status_host \<Rightarrow> path" where
  "status_file_path h = path_join (status_dir h) (ascii ''status'')"

text \<open>\<open>with_extension\<close> of a path that has a file name.\<close>

definition file_name :: "path \<Rightarrow> str" where
  "file_name p = rev (takeWhile (\<lambda>c. c \<noteq> 47 \<and> c \<noteq> 92) (rev p))"

definition file_stem :: "str \<Rightarrow> str" where
  "file_stem name =
     (case split_once 46 (rev name) of
        None \<Rightarrow> name
      | Some (ext, stem) \<Rightarrow> if stem = [] then name else rev stem)"

definition with_extension :: "path \<Rightarrow> str \<Rightarrow> path" where
  "with_extension p ext =
     take (length p - length (file_name p)) p @ file_stem (file_name p) @ (if ext = [] then [] else [46] @ ext)"

definition unique_tmp :: "path \<Rightarrow> status_host \<Rightarrow> path \<times> status_host" where
  "unique_tmp p h =
     (with_extension p (decimal (sh_pid h) @ [46] @ decimal (unat (sh_seq h)) @ ascii ''.tmp''),
      h\<lparr>sh_seq := sh_seq h + 1\<rparr>)"

definition write_status :: "auth_status \<Rightarrow> status_host \<Rightarrow> (io_kind + unit) \<times> status_host" where
  "write_status status h =
     (case fs_create_dir_all (status_dir h) (sh_disk h) of
        (Inl k, d1) \<Rightarrow> (Inl k, h\<lparr>sh_disk := d1\<rparr>)
      | (Inr _, d1) \<Rightarrow>
          (case unique_tmp (status_file_path h) h of
             (tmp, h1) \<Rightarrow>
               (case fs_write tmp (status_encode status) d1 of
                  (Inl k, d2) \<Rightarrow> (Inl k, h1\<lparr>sh_disk := d2\<rparr>)
                | (Inr _, d2) \<Rightarrow>
                    (case fs_rename tmp (status_file_path h) d2 of
                       (r, d3) \<Rightarrow> (r, h1\<lparr>sh_disk := d3\<rparr>)))))"

definition read_status :: "status_host \<Rightarrow> auth_status option \<times> status_host" where
  "read_status h =
     (case fs_read (status_file_path h) (sh_disk h) of
        (Inl _, d1) \<Rightarrow> (None, h\<lparr>sh_disk := d1\<rparr>)
      | (Inr text, d1) \<Rightarrow> (if utf8_valid text then status_decode text else None, h\<lparr>sh_disk := d1\<rparr>))"

section \<open>The text form is read back\<close>

definition flatten_status :: "auth_status \<Rightarrow> auth_status" where
  "flatten_status s =
     s\<lparr>st_cert_subject := one_line (st_cert_subject s), st_machine_cert := one_line (st_machine_cert s),
       st_user_cert := one_line (st_user_cert s), st_machine_thumbprint := one_line (st_machine_thumbprint s),
       st_user_thumbprint := one_line (st_user_thumbprint s), st_server_name := one_line (st_server_name s),
       st_detail := one_line (st_detail s)\<rparr>"

lemma one_line_props [simp]: "10 \<notin> set (one_line s)" "13 \<notin> set (one_line s)"
  by (auto simp: one_line_def)

lemma one_line_id: "10 \<notin> set s \<Longrightarrow> 13 \<notin> set s \<Longrightarrow> one_line s = s"
  unfolding one_line_def by (rule map_idI) auto

lemma one_line_idem [simp]: "one_line (one_line s) = one_line s"
  by (rule one_line_id) simp_all

lemma length_one_line [simp]: "length (one_line s) = length s"
  by (simp add: one_line_def)

lemma utf8_one_line: "utf8_valid s \<Longrightarrow> utf8_valid (one_line s)"
  unfolding one_line_def by (rule utf8_map) (auto split: if_splits)

text \<open>A line of the file is read as its key and its value.\<close>

definition plain_key :: "str \<Rightarrow> bool" where
  "plain_key k \<longleftrightarrow> list_all (\<lambda>b. 45 \<le> b \<and> b < 128 \<and> b \<noteq> 61) k"

lemma lines_field:
  assumes "plain_key (ascii k)" and "10 \<notin> set v" and "13 \<notin> set v"
  shows "foldl decode_line a (lines (status_field k v @ rest))
    = foldl decode_line (decode_field (ascii k) v a) (lines rest)"
proof -
  have k: "10 \<notin> set (ascii k)" "13 \<notin> set (ascii k)" "61 \<notin> set (ascii k)"
    using assms(1) by (auto simp: plain_key_def list_all_iff)
  have "lines (status_field k v @ rest) = (ascii k @ 61 # v) # lines rest"
    unfolding status_field_def using lines_app [of "ascii k @ 61 # v" rest] k assms(2,3) by simp
  then show ?thesis by (simp add: decode_line_def split_once_app k)
qed

lemma token_props [simp]:
  "10 \<notin> set (state_token x)" "13 \<notin> set (state_token x)" "state_from_token (state_token x) = Some x"
  "10 \<notin> set (identity_token y)" "13 \<notin> set (identity_token y)" "identity_from_token (identity_token y) = Some y"
  by (cases x; cases y; simp add: ascii_def state_from_token_def identity_from_token_def)+

lemma decimal_props [simp]: "10 \<notin> set (decimal n)" "13 \<notin> set (decimal n)"
  using set_decimal [of n] by (auto simp: is_digit_def)

lemma parse_u64_word [simp]: "parse_u64 (decimal (unat (w :: u64))) = Some (unat w)"
  by (rule parse_u64_decimal) (use unsigned_less [of w] in simp)

lemma decode_encode: "status_decode (status_encode s) = Some (flatten_status s)"
proof -
  have k: "plain_key (ascii ''version'')" "plain_key (ascii ''state'')" "plain_key (ascii ''identity'')"
    "plain_key (ascii ''cert_subject'')" "plain_key (ascii ''machine_cert'')" "plain_key (ascii ''user_cert'')"
    "plain_key (ascii ''machine_thumbprint'')" "plain_key (ascii ''user_thumbprint'')"
    "plain_key (ascii ''server_name'')" "plain_key (ascii ''detail'')" "plain_key (ascii ''updated_unix'')"
    by (simp_all add: plain_key_def ascii_def)
  have v: "10 \<notin> set (ascii ''1'')" "13 \<notin> set (ascii ''1'')" by (simp_all add: ascii_def)
  note f = lines_field [where rest = "[]", simplified]
  have "foldl decode_line status_vars_init (lines (status_encode s)) =
    \<lparr>sv_state = Some (st_state s), sv_identity = Some (st_identity s),
     sv_cert_subject = one_line (st_cert_subject s), sv_machine_cert = one_line (st_machine_cert s),
     sv_user_cert = one_line (st_user_cert s), sv_machine_thumbprint = one_line (st_machine_thumbprint s),
     sv_user_thumbprint = one_line (st_user_thumbprint s), sv_server_name = one_line (st_server_name s),
     sv_detail = one_line (st_detail s), sv_updated_unix = st_updated_unix s\<rparr>"
    unfolding status_encode_def
    by (simp add: lines_field f k v) (simp add: decode_field_def ascii_def status_vars_init_def)
  then show ?thesis
    by (simp add: status_decode_def status_finish_def flatten_status_def)
qed

text \<open>What is written is well-formed UTF-8 when the fields are, as Rust strings always are.\<close>

definition status_utf8 :: "auth_status \<Rightarrow> bool" where
  "status_utf8 s \<longleftrightarrow> list_all utf8_valid [st_cert_subject s, st_machine_cert s, st_user_cert s,
     st_machine_thumbprint s, st_user_thumbprint s, st_server_name s, st_detail s]"

lemma utf8_field: "plain_key (ascii k) \<Longrightarrow> utf8_valid v \<Longrightarrow> utf8_valid (status_field k v @ rest) = utf8_valid rest"
proof -
  assume k: "plain_key (ascii k)" and v: "utf8_valid v"
  have "utf8_valid (ascii k @ [61])"
    by (rule utf8_ascii) (use k in \<open>auto simp: plain_key_def list_all_iff\<close>)
  moreover have "utf8_valid ([10] :: str)" by (rule utf8_ascii) simp
  ultimately show ?thesis
    using v utf8_append [of "ascii k @ [61]" "v @ [10] @ rest"] utf8_append [of v "[10] @ rest"]
      utf8_append [of "[10]" rest]
    by (simp add: status_field_def)
qed

lemma encode_utf8: "status_utf8 s \<Longrightarrow> utf8_valid (status_encode s)"
proof -
  assume s: "status_utf8 s"
  have t: "utf8_valid (state_token x)" "utf8_valid (identity_token y)" "utf8_valid (ascii ''1'')" for x y
    by (cases x; cases y; simp add: utf8_ascii ascii_def)+
  have d: "utf8_valid (decimal n)" for n
  proof (rule utf8_ascii)
    show "list_all (\<lambda>b. b < 0x80) (decimal n)"
      using set_decimal [of n] by (fastforce simp: list_all_iff is_digit_def word_le_nat_alt word_less_nat_alt)
  qed
  have k: "plain_key (ascii ''version'')" "plain_key (ascii ''state'')" "plain_key (ascii ''identity'')"
    "plain_key (ascii ''cert_subject'')" "plain_key (ascii ''machine_cert'')" "plain_key (ascii ''user_cert'')"
    "plain_key (ascii ''machine_thumbprint'')" "plain_key (ascii ''user_thumbprint'')"
    "plain_key (ascii ''server_name'')" "plain_key (ascii ''detail'')" "plain_key (ascii ''updated_unix'')"
    by (simp_all add: plain_key_def ascii_def)
  note f = utf8_field [where rest = "[]", simplified]
  from s show ?thesis
    unfolding status_encode_def status_utf8_def
    by (simp add: utf8_field f k t d utf8_one_line)
qed

section \<open>The staging file is another file\<close>

lemma last_ascii: "status_dir h \<noteq> [] \<and> last (status_dir h) = 116 \<and> 2 < length (status_dir h)"
  by (simp add: status_dir_def path_join_def ascii_def)

lemma status_path: "status_file_path h = status_dir h @ 92 # ascii ''status''"
  using last_ascii [of h] by (simp add: status_file_path_def path_join_def)

lemma file_name_app:
  assumes "\<forall>c\<in>set n. c \<noteq> 47 \<and> c \<noteq> 92"
  shows "file_name (d @ 92 # n) = n"
proof -
  have "takeWhile (\<lambda>c. c \<noteq> 47 \<and> c \<noteq> 92) (rev n @ 92 # rev d) = rev n"
    by (subst takeWhile_append2) (use assms in auto)
  then show ?thesis by (simp add: file_name_def)
qed

lemma with_extension_plain:
  assumes "\<forall>c\<in>set n. c \<noteq> 47 \<and> c \<noteq> 92" and "46 \<notin> set n"
  shows "with_extension (d @ 92 # n) ext = d @ 92 # n @ (if ext = [] then [] else 46 # ext)"
  using assms(2) file_name_app [OF assms(1), of d]
  by (simp add: with_extension_def file_stem_def split_once_None [THEN iffD2])

lemma tmp_path:
  "fst (unique_tmp (status_file_path h) h)
     = status_file_path h @ 46 # decimal (sh_pid h) @ [46] @ decimal (unat (sh_seq h)) @ ascii ''.tmp''"
  by (simp add: unique_tmp_def status_path with_extension_plain ascii_def)

lemma tmp_differs: "fst (unique_tmp (status_file_path h) h) \<noteq> status_file_path h"
  by (simp add: tmp_path)

lemma decimal_inject: "n < 2 ^ 64 \<Longrightarrow> m < 2 ^ 64 \<Longrightarrow> decimal n = decimal m \<Longrightarrow> n = m"
  using parse_decimal by (metis option.inject)

lemma split_decimal: "split_once 46 (decimal n @ 46 # v) = Some (decimal n, v)"
  by (rule split_once_app) (use set_decimal [of n] in \<open>auto simp: is_digit_def\<close>)

lemma tmp_unique:
  assumes "fst (unique_tmp (status_file_path h1) h1) = fst (unique_tmp (status_file_path h1) h2)"
    and "sh_program_data h2 = sh_program_data h1" and "sh_pid h1 < 2 ^ 32" and "sh_pid h2 < 2 ^ 32"
  shows "sh_pid h1 = sh_pid h2 \<and> sh_seq h1 = sh_seq h2"
proof -
  have p: "status_file_path h2 = status_file_path h1"
    using assms(2) by (simp add: status_file_path_def status_dir_def)
  have e: "decimal (sh_pid h1) @ 46 # decimal (unat (sh_seq h1)) @ ascii ''.tmp''
      = decimal (sh_pid h2) @ 46 # decimal (unat (sh_seq h2)) @ ascii ''.tmp''"
    using assms(1) tmp_path [of h1] tmp_path [of h2] by (simp add: p)
  then have d: "decimal (sh_pid h1) = decimal (sh_pid h2)" "decimal (unat (sh_seq h1)) = decimal (unat (sh_seq h2))"
    by (metis split_decimal option.inject prod.inject append_same_eq)+
  show ?thesis
    using decimal_inject [OF _ _ d(1)] decimal_inject [OF _ _ d(2)] assms(3,4)
      unsigned_less [of "sh_seq h1"] unsigned_less [of "sh_seq h2"]
    by (simp add: word_unat_eq_iff)
qed

section \<open>Lines the decoder does not know\<close>

definition known_keys :: "str list" where
  "known_keys = map ascii [''state'', ''identity'', ''cert_subject'', ''machine_cert'', ''user_cert'',
     ''machine_thumbprint'', ''user_thumbprint'', ''server_name'', ''detail'', ''updated_unix'']"

lemma decode_line_other:
  "(\<forall>k v. split_once 61 line = Some (k, v) \<longrightarrow> k \<notin> set known_keys) \<Longrightarrow> decode_line a line = a"
  by (auto simp: decode_line_def decode_field_def known_keys_def split: option.splits)

lemma unknown_line_ignored:
  assumes "10 \<notin> set line" and "13 \<notin> set line"
    and "\<forall>k v. split_once 61 line = Some (k, v) \<longrightarrow> k \<notin> set known_keys"
  shows "status_decode (line @ 10 # text) = status_decode text"
  using assms by (simp add: status_decode_def lines_app decode_line_other)

text \<open>What one call leaves in the files, on success and on failure.\<close>

lemma write_status_files:
  assumes "write_status s h = (r, h')"
  shows "(r = Inr () \<longrightarrow> dk_files (sh_disk h') (status_file_path h) = Some (status_encode s))
    \<and> (\<forall>k. r = Inl k \<longrightarrow> dk_files (sh_disk h') (status_file_path h) = dk_files (sh_disk h) (status_file_path h))
    \<and> (\<forall>q. q \<notin> {status_file_path h, fst (unique_tmp (status_file_path h) h)} \<longrightarrow>
         dk_files (sh_disk h') q = dk_files (sh_disk h) q)
    \<and> (r = Inr () \<longrightarrow> sh_seq h' = sh_seq h + 1) \<and> sh_program_data h' = sh_program_data h"
proof -
  define p where "p = status_file_path h"
  define t where "t = fst (unique_tmp p h)"
  have pt: "t \<noteq> p" unfolding t_def p_def by (rule tmp_differs)
  obtain c1 d1 where c: "fs_create_dir_all (status_dir h) (sh_disk h) = (c1, d1)" by fastforce
  obtain c2 d2 where w: "fs_write t (status_encode s) d1 = (c2, d2)" by fastforce
  obtain c3 d3 where n: "fs_rename t p d2 = (c3, d3)" by fastforce
  have tmp: "unique_tmp p h = (t, h\<lparr>sh_seq := sh_seq h + 1\<rparr>)" by (simp add: t_def unique_tmp_def)
  have res: "(r, h') = (case c1 of Inl k \<Rightarrow> (Inl k, h\<lparr>sh_disk := d1\<rparr>)
      | Inr _ \<Rightarrow> (case c2 of Inl k \<Rightarrow> (Inl k, h\<lparr>sh_seq := sh_seq h + 1, sh_disk := d2\<rparr>)
          | Inr _ \<Rightarrow> (c3, h\<lparr>sh_seq := sh_seq h + 1, sh_disk := d3\<rparr>)))"
    using assms c w n tmp by (cases c1; cases c2) (auto simp: write_status_def p_def)
  note fr = fs_create_frame [OF c] fs_write_frame [OF w] fs_rename_frame [OF n]
  show ?thesis
    unfolding p_def [symmetric] t_def [symmetric] using res fr pt by (cases c1; cases c2; cases c3) auto
qed

lemma same_status_path: "sh_program_data h' = sh_program_data h \<Longrightarrow> status_file_path h' = status_file_path h"
  by (simp add: status_file_path_def status_dir_def)

section \<open>Properties\<close>

text \<open>C25: a published snapshot is read back, with the line breaks of its text fields turned into spaces
  and nothing else lost, whatever the fields hold; and a line whose key the decoder does not know, or
  that has no key, changes nothing, so later versions can add fields.\<close>

theorem status_round_trip:
  assumes "10 \<notin> set line" and "13 \<notin> set line"
    and "\<forall>k v. split_once 61 line = Some (k, v) \<longrightarrow> k \<notin> set known_keys"
  shows "status_decode (line @ 10 # status_encode s) = Some (flatten_status s)
    \<and> status_decode (status_encode s) = Some (flatten_status s)"
  using unknown_line_ignored [OF assms] decode_encode by simp

definition demo_status :: auth_status where
  "demo_status = \<lparr>st_state = StFailed, st_identity = StUser, st_cert_subject = ascii ''CN=u'', st_machine_cert = [],
     st_user_cert = ascii ''CN=u'', st_machine_thumbprint = [], st_user_thumbprint = ascii ''AB'',
     st_server_name = ascii ''srv'', st_detail = ascii ''a'' @ [10] @ ascii ''b'', st_updated_unix = 77\<rparr>"

theorem status_round_trip_witness:
  "\<exists>t. status_decode (ascii ''future=1'' @ 10 # status_encode demo_status) = Some t \<and> st_detail t = ascii ''a b''"
proof -
  have l: "10 \<notin> set (ascii ''future=1'')" "13 \<notin> set (ascii ''future=1'')"
    "\<forall>k v. split_once 61 (ascii ''future=1'') = Some (k, v) \<longrightarrow> k \<notin> set known_keys"
    by (simp_all add: ascii_def known_keys_def)
  show ?thesis using status_round_trip [OF l, of demo_status]
    by (simp add: flatten_status_def demo_status_def one_line_def ascii_def)
qed

text \<open>C26: publishing is all or nothing. Whichever file operation fails, and however much of a failed
  write reached the disk, the status file holds the new snapshot when the call succeeds and is
  exactly what it was when it does not; other files than it and the staging file are never touched,
  and no two calls share a staging file. After a success a reader whose read does not fail gets
  the snapshot.\<close>

theorem status_publish_atomic:
  assumes "write_status s h = (r, h')"
  shows "(r = Inr () \<longrightarrow> dk_files (sh_disk h') (status_file_path h) = Some (status_encode s))
    \<and> (\<forall>k. r = Inl k \<longrightarrow> dk_files (sh_disk h') (status_file_path h) = dk_files (sh_disk h) (status_file_path h))
    \<and> (\<forall>q. q \<notin> {status_file_path h, fst (unique_tmp (status_file_path h) h)} \<longrightarrow>
         dk_files (sh_disk h') q = dk_files (sh_disk h) q)
    \<and> (r = Inr () \<longrightarrow> sh_seq h' = sh_seq h + 1)
    \<and> (r = Inr () \<and> status_utf8 s \<and> calm (sh_disk h') \<longrightarrow> fst (read_status h') = Some (flatten_status s))"
proof -
  note files = write_status_files [OF assms]
  have "fst (read_status h') = Some (flatten_status s)" if "r = Inr ()" "status_utf8 s" "calm (sh_disk h')"
  proof -
    have "dk_files (sh_disk h') (status_file_path h') = Some (status_encode s)"
      using files that(1) same_status_path [of h' h] by simp
    with that show ?thesis by (simp add: read_status_def calm_fs encode_utf8 decode_encode)
  qed
  with files show ?thesis by blast
qed

text \<open>A host whose second operation fails after three octets.\<close>

definition demo_host :: status_host where
  "demo_host = \<lparr>sh_program_data = None, sh_pid = 4, sh_seq = 0,
     sh_disk = \<lparr>dk_files = (\<lambda>_. None), dk_faults = [NoFault, Fault (OtherKind 28) (Some 3)]\<rparr>\<rparr>"

theorem status_publish_atomic_witness:
  "\<exists>h1 h2. write_status demo_status demo_host = (Inl (OtherKind 28), h1)
     \<and> dk_files (sh_disk h1) (status_file_path demo_host) = None
     \<and> write_status demo_status h1 = (Inr (), h2) \<and> fst (read_status h2) = Some (flatten_status demo_status)"
proof -
  obtain h1 where 1: "write_status demo_status demo_host = (Inl (OtherKind 28), h1)" "calm (sh_disk h1)"
    by (simp add: write_status_def demo_host_def fs_defs calm_def unique_tmp_def)
  then obtain h2 where 2: "write_status demo_status h1 = (Inr (), h2)" "calm (sh_disk h2)"
    by (auto simp: write_status_def calm_fs unique_tmp_def)
  have u: "status_utf8 demo_status" by (simp add: status_utf8_def demo_status_def ascii_def utf8_ascii)
  from status_publish_atomic [OF 1(1)] have "dk_files (sh_disk h1) (status_file_path demo_host) = None"
    by (simp add: demo_host_def)
  with status_publish_atomic [OF 2(1)] 1 2 u show ?thesis by blast
qed

end
