(* ===== verification/Pac.thy ===== *)
theory Pac
  imports Files
begin

text \<open>
  The machine authorization ticket at rest: the framed record (crates/pac/src/record.rs), the two stores
  and \<open>fresh_ticket\<close> (store.rs), the errors (error.rs) and the DPAPI sealer (dpapi.rs). The sealer is a
  parameter of the stores: it may draw on a state of its own, as DPAPI does.
\<close>

section \<open>The record\<close>

datatype pac_error =
    BadRecord
  | TooLarge nat
  | SealError "32 word"
  | UnsealError "32 word"
  | PacIo io_kind
  | PacLocked

definition MAT_MAGIC :: bytes where "MAT_MAGIC = ascii ''MAT1''"
definition MAT_HEADER_LEN :: nat where "MAT_HEADER_LEN = 16"
definition MAX_TICKET_LEN :: nat where "MAX_TICKET_LEN = 64 * 1024"

record mat_record =
  mr_ticket :: bytes
  mr_stored_at_unix :: u64

definition mat_encode :: "mat_record \<Rightarrow> pac_error + bytes" where
  "mat_encode r =
     (if MAX_TICKET_LEN < length (mr_ticket r) then Inl (TooLarge (length (mr_ticket r)))
      else if u32_max < length (mr_ticket r) then Inl (TooLarge (length (mr_ticket r)))
      else Inr (MAT_MAGIC @ be_of_word 8 (mr_stored_at_unix r)
        @ be_of_word 4 (word_of_nat (length (mr_ticket r)) :: u32) @ mr_ticket r))"

definition mat_decode :: "bytes \<Rightarrow> pac_error + mat_record" where
  "mat_decode bs =
     (case get_range bs 0 4 of
        None \<Rightarrow> Inl BadRecord
      | Some magic \<Rightarrow>
          if magic \<noteq> MAT_MAGIC then Inl BadRecord
          else (case get_range bs 4 12 of
              None \<Rightarrow> Inl BadRecord
            | Some stored \<Rightarrow>
                (case get_range bs 12 16 of
                   None \<Rightarrow> Inl BadRecord
                 | Some len_bytes \<Rightarrow>
                     let declared = unat (word_of_be len_bytes :: u32) in
                     if MAX_TICKET_LEN < declared then Inl BadRecord
                     else let end = MAT_HEADER_LEN + declared in
                       (case get_range bs MAT_HEADER_LEN end of
                          None \<Rightarrow> Inl BadRecord
                        | Some ticket \<Rightarrow>
                            if end \<noteq> length bs then Inl BadRecord
                            else Inr \<lparr>mr_ticket = ticket, mr_stored_at_unix = word_of_be stored\<rparr>))))"

text \<open>\<open>checked_sub\<close>: a clock that went backwards is not fresh.\<close>

definition is_fresh :: "mat_record \<Rightarrow> u64 \<Rightarrow> u64 \<Rightarrow> bool" where
  "is_fresh r now_unix max_age_secs \<longleftrightarrow>
     mr_stored_at_unix r \<le> now_unix \<and> now_unix - mr_stored_at_unix r \<le> max_age_secs"

section \<open>The stores\<close>

record 'k sealer =
  seal :: "bytes \<Rightarrow> 'k \<Rightarrow> (pac_error + bytes) \<times> 'k"
  unseal :: "bytes \<Rightarrow> 'k \<Rightarrow> (pac_error + bytes) \<times> 'k"

text \<open>\<open>InMemoryMatStore\<close>: the mutex, and whether a panic has poisoned it.\<close>

record mem_store =
  ms_sealed :: "bytes option"
  ms_poisoned :: bool

definition mem_save :: "mat_record \<Rightarrow> mem_store \<Rightarrow> (pac_error + unit) \<times> mem_store" where
  "mem_save r s =
     (case mat_encode r of
        Inl e \<Rightarrow> (Inl e, s)
      | Inr bs \<Rightarrow> if ms_poisoned s then (Inl PacLocked, s) else (Inr (), s\<lparr>ms_sealed := Some bs\<rparr>))"

definition mem_load :: "mem_store \<Rightarrow> (pac_error + mat_record option) \<times> mem_store" where
  "mem_load s =
     (if ms_poisoned s then (Inl PacLocked, s)
      else (case ms_sealed s of
          None \<Rightarrow> (Inr None, s)
        | Some bs \<Rightarrow> (case mat_decode bs of Inl e \<Rightarrow> Inl e | Inr r \<Rightarrow> Inr (Some r), s)))"

definition mem_clear :: "mem_store \<Rightarrow> (pac_error + unit) \<times> mem_store" where
  "mem_clear s = (if ms_poisoned s then (Inl PacLocked, s) else (Inr (), s\<lparr>ms_sealed := None\<rparr>))"

text \<open>\<open>FileMatStore\<close>, with the disk it writes to and the state of its sealer.\<close>

record 'k file_store =
  fst_path :: path
  fst_sealer :: "'k sealer"
  fst_keys :: 'k
  fst_disk :: disk

definition write_private :: "path \<Rightarrow> bytes \<Rightarrow> disk \<Rightarrow> (pac_error + unit) \<times> disk" where
  "write_private path data d =
     (case fs_write path data d of
        (Inl k, d1) \<Rightarrow> (Inl (PacIo k), d1)
      | (Inr _, d1) \<Rightarrow> (Inr (), d1))"

definition file_save :: "mat_record \<Rightarrow> 'k file_store \<Rightarrow> (pac_error + unit) \<times> 'k file_store" where
  "file_save r s =
     (case mat_encode r of
        Inl e \<Rightarrow> (Inl e, s)
      | Inr plaintext \<Rightarrow>
          (case seal (fst_sealer s) plaintext (fst_keys s) of
             (Inl e, k) \<Rightarrow> (Inl e, s\<lparr>fst_keys := k\<rparr>)
           | (Inr sealed, k) \<Rightarrow>
               (case write_private (fst_path s) sealed (fst_disk s) of
                  (r, d) \<Rightarrow> (r, s\<lparr>fst_keys := k, fst_disk := d\<rparr>))))"

definition file_load :: "'k file_store \<Rightarrow> (pac_error + mat_record option) \<times> 'k file_store" where
  "file_load s =
     (case fs_read (fst_path s) (fst_disk s) of
        (Inl k, d) \<Rightarrow> (if k = NotFound then Inr None else Inl (PacIo k), s\<lparr>fst_disk := d\<rparr>)
      | (Inr sealed, d) \<Rightarrow>
          (case unseal (fst_sealer s) sealed (fst_keys s) of
             (Inl e, k) \<Rightarrow> (Inl e, s\<lparr>fst_keys := k, fst_disk := d\<rparr>)
           | (Inr plaintext, k) \<Rightarrow>
               (case mat_decode plaintext of Inl e \<Rightarrow> Inl e | Inr r \<Rightarrow> Inr (Some r),
                s\<lparr>fst_keys := k, fst_disk := d\<rparr>)))"

definition file_clear :: "'k file_store \<Rightarrow> (pac_error + unit) \<times> 'k file_store" where
  "file_clear s =
     (case fs_remove_file (fst_path s) (fst_disk s) of
        (Inr _, d) \<Rightarrow> (Inr (), s\<lparr>fst_disk := d\<rparr>)
      | (Inl k, d) \<Rightarrow> (if k = NotFound then Inr () else Inl (PacIo k), s\<lparr>fst_disk := d\<rparr>))"

text \<open>\<open>fresh_ticket\<close> is generic in the store, of which it uses \<open>load\<close>.\<close>

definition fresh_ticket ::
  "('s \<Rightarrow> (pac_error + mat_record option) \<times> 's) \<Rightarrow> u64 \<Rightarrow> u64 \<Rightarrow> 's \<Rightarrow> (pac_error + bytes option) \<times> 's" where
  "fresh_ticket load now_unix max_age_secs store =
     (case load store of
        (Inl e, s) \<Rightarrow> (Inl e, s)
      | (Inr (Some r), s) \<Rightarrow> (Inr (if is_fresh r now_unix max_age_secs then Some (mr_ticket r) else None), s)
      | (Inr None, s) \<Rightarrow> (Inr None, s))"

section \<open>DPAPI\<close>

text \<open>
  \<open>DpapiSealer\<close>. \<open>CryptProtectData\<close> (\<open>protect\<close>) and \<open>CryptUnprotectData\<close> are the parameter \<open>crypt\<close>: an
  HRESULT, or an output buffer allocated for the caller, which may be null; \<open>dh_live\<close> counts the
  buffers not yet given to \<open>LocalFree\<close>.
\<close>

record 'k dpapi_host =
  dh_state :: 'k
  dh_live :: nat

type_synonym 'k crypt_api = "bool \<Rightarrow> bytes \<Rightarrow> 'k \<Rightarrow> (32 word + bytes option) \<times> 'k"

definition dpapi_err :: "bool \<Rightarrow> 32 word \<Rightarrow> pac_error" where
  "dpapi_err protect detail = (if protect then SealError detail else UnsealError detail)"

definition dpapi_call :: "'k crypt_api \<Rightarrow> bytes \<Rightarrow> bool \<Rightarrow> 'k dpapi_host \<Rightarrow> (pac_error + bytes) \<times> 'k dpapi_host" where
  "dpapi_call crypt input protect h =
     (if u32_max < length input then (Inl (dpapi_err protect 0), h)
      else (case crypt protect input (dh_state h) of
          (Inl code, k) \<Rightarrow> (Inl (dpapi_err protect code), h\<lparr>dh_state := k\<rparr>)
        | (Inr out, k) \<Rightarrow>
            let h1 = h\<lparr>dh_state := k, dh_live := dh_live h + (if out = None then 0 else 1)\<rparr>;
                copied = unwrap_or out [];
                h2 = (if out = None then h1 else h1\<lparr>dh_live := dh_live h1 - 1\<rparr>)
            in (Inr copied, h2)))"

definition dpapi_sealer :: "'k crypt_api \<Rightarrow> 'k dpapi_host sealer" where
  "dpapi_sealer crypt =
     \<lparr>seal = (\<lambda>plaintext. dpapi_call crypt plaintext True),
      unseal = (\<lambda>ciphertext. dpapi_call crypt ciphertext False)\<rparr>"

lemma dpapi_call_frees: "dpapi_call crypt input protect h = (r, h') \<Longrightarrow> dh_live h' = dh_live h"
  by (auto simp: dpapi_call_def Let_def split: if_splits prod.splits sum.splits)

section \<open>The record is the format\<close>

lemma mat_encode_iff:
  "mat_encode r = Inr bs \<longleftrightarrow>
     length (mr_ticket r) \<le> MAX_TICKET_LEN
     \<and> bs = MAT_MAGIC @ be_of_word 8 (mr_stored_at_unix r)
         @ be_of_word 4 (word_of_nat (length (mr_ticket r)) :: u32) @ mr_ticket r"
  by (auto simp: mat_encode_def MAX_TICKET_LEN_def u32_max_def)

lemma length_magic [simp]: "length MAT_MAGIC = 4"
  by (simp add: MAT_MAGIC_def ascii_def)

lemma mat_decode_parts:
  assumes "length m = 4" and "length st = 8" and "length ln = 4"
  shows "mat_decode (m @ st @ ln @ t) =
     (if m = MAT_MAGIC \<and> unat (word_of_be ln :: u32) \<le> MAX_TICKET_LEN \<and> unat (word_of_be ln :: u32) = length t
      then Inr \<lparr>mr_ticket = t, mr_stored_at_unix = word_of_be st\<rparr> else Inl BadRecord)"
  using assms
  by (auto simp: mat_decode_def get_range_def MAT_HEADER_LEN_def Let_def)

lemma mat_decode_short: "length bs < 16 \<Longrightarrow> mat_decode bs = Inl BadRecord"
  by (auto simp: mat_decode_def get_range_def)

lemma mat_split:
  assumes "16 \<le> length bs"
  obtains m st ln t where "bs = m @ st @ ln @ t" "length m = 4" "length st = 8" "length ln = 4"
proof
  show "bs = take 4 bs @ take 8 (drop 4 bs) @ take 4 (drop 12 bs) @ drop 16 bs"
    using append_take_drop_id [of 4 bs] append_take_drop_id [of 8 "drop 4 bs"] append_take_drop_id [of 4 "drop 12 bs"]
    by simp
qed (use assms in simp_all)

lemma word_of_nat_unat32: "(word_of_nat (unat (w :: u32)) :: u32) = w"
  by simp

lemma mat_decode_iff: "mat_decode bs = Inr r \<longleftrightarrow> mat_encode r = Inr bs"
proof (cases "16 \<le> length bs")
  case False
  then show ?thesis by (auto simp: mat_decode_short mat_encode_iff)
next
  case True
  then obtain m st ln t where b: "bs = m @ st @ ln @ t" "length m = 4" "length st = 8" "length ln = 4"
    by (rule mat_split)
  show ?thesis
  proof
    assume "mat_decode bs = Inr r"
    then have "m = MAT_MAGIC" "unat (word_of_be ln :: u32) = length t" "length t \<le> MAX_TICKET_LEN"
      "r = \<lparr>mr_ticket = t, mr_stored_at_unix = word_of_be st\<rparr>"
      using b by (auto simp: mat_decode_parts split: if_splits)
    moreover from this have "(word_of_nat (length t) :: u32) = word_of_be ln"
      using word_of_nat_unat32 [of "word_of_be ln"] by simp
    ultimately show "mat_encode r = Inr bs" using b by (simp add: mat_encode_iff)
  next
    assume "mat_encode r = Inr bs"
    then have "length (mr_ticket r) \<le> MAX_TICKET_LEN"
      "bs = MAT_MAGIC @ be_of_word 8 (mr_stored_at_unix r)
         @ be_of_word 4 (word_of_nat (length (mr_ticket r)) :: u32) @ mr_ticket r"
      by (simp_all add: mat_encode_iff)
    then show "mat_decode bs = Inr r" by (simp add: mat_decode_parts MAX_TICKET_LEN_def)
  qed
qed

lemma mat_decode_error: "mat_decode bs = Inl e \<Longrightarrow> e = BadRecord"
  by (auto simp: mat_decode_def Let_def split: option.splits if_splits)

section \<open>What a store promises\<close>

text \<open>
  \<open>holds s c\<close>: the store, while it is usable (\<open>ok\<close>), has the record \<open>c\<close>, or none. A save or clear that
  succeeds sets it, a load returns it or fails and leaves it. Nothing is said of a save that fails:
  it may have destroyed what was there.
\<close>

locale mat_store =
  fixes save :: "mat_record \<Rightarrow> 's \<Rightarrow> (pac_error + unit) \<times> 's"
    and load :: "'s \<Rightarrow> (pac_error + mat_record option) \<times> 's"
    and clear :: "'s \<Rightarrow> (pac_error + unit) \<times> 's"
    and ok :: "'s \<Rightarrow> bool"
    and holds :: "'s \<Rightarrow> mat_record option \<Rightarrow> bool"
  assumes save_holds: "ok s \<Longrightarrow> save r s = (x, s') \<Longrightarrow> ok s' \<and> (x = Inr () \<longrightarrow> holds s' (Some r))"
    and clear_holds: "ok s \<Longrightarrow> clear s = (x, s') \<Longrightarrow> ok s' \<and> (x = Inr () \<longrightarrow> holds s' None)"
    and load_holds: "ok s \<Longrightarrow> load s = (v, s') \<Longrightarrow>
      ok s' \<and> (\<forall>c. holds s c \<longrightarrow> holds s' c \<and> (\<forall>u. v = Inr u \<longrightarrow> u = c))"
begin

definition answer :: "mat_record option \<Rightarrow> u64 \<Rightarrow> u64 \<Rightarrow> bytes option" where
  "answer c now age = (case c of None \<Rightarrow> None | Some r \<Rightarrow> if is_fresh r now age then Some (mr_ticket r) else None)"

lemma fresh_holds:
  assumes "ok s" and "holds s c" and "fresh_ticket load now age s = (x, s')"
  shows "ok s' \<and> holds s' c \<and> (\<forall>v. x = Inr v \<longrightarrow> v = answer c now age)"
proof -
  obtain y s1 where l: "load s = (y, s1)" by fastforce
  from load_holds [OF assms(1) l] assms(2,3) l show ?thesis
    by (auto simp: fresh_ticket_def answer_def split: sum.splits option.splits)
qed

text \<open>Any number of attempts to read, failed ones included, do not change the answer.\<close>

lemma fresh_again:
  assumes "ok s" and "holds s c"
  shows "ok (((\<lambda>s. snd (fresh_ticket load now age s)) ^^ n) s) \<and> holds (((\<lambda>s. snd (fresh_ticket load now age s)) ^^ n) s) c"
proof (induction n)
  case (Suc n)
  define t where "t = ((\<lambda>s. snd (fresh_ticket load now age s)) ^^ n) s"
  obtain x t' where f: "fresh_ticket load now age t = (x, t')" by fastforce
  from fresh_holds [OF _ _ f, of c] Suc f show ?case by (simp add: t_def)
qed (simp add: assms)

end

definition mem_holds :: "mem_store \<Rightarrow> mat_record option \<Rightarrow> bool" where
  "mem_holds s c \<longleftrightarrow> (case c of None \<Rightarrow> ms_sealed s = None | Some r \<Rightarrow> \<exists>bs. mat_encode r = Inr bs \<and> ms_sealed s = Some bs)"

interpretation mstore: mat_store mem_save mem_load mem_clear "\<lambda>_. True" mem_holds
proof unfold_locales
  fix r s s' x
  show "mem_save r s = (x, s') \<Longrightarrow> True \<and> (x = Inr () \<longrightarrow> mem_holds s' (Some r))"
    by (auto simp: mem_save_def mem_holds_def split: sum.splits if_splits)
next
  fix s s' x
  show "mem_clear s = (x, s') \<Longrightarrow> True \<and> (x = Inr () \<longrightarrow> mem_holds s' None)"
    by (auto simp: mem_clear_def mem_holds_def split: if_splits)
next
  fix s s' v
  show "mem_load s = (v, s') \<Longrightarrow> True \<and> (\<forall>c. mem_holds s c \<longrightarrow> mem_holds s' c \<and> (\<forall>u. v = Inr u \<longrightarrow> u = c))"
    by (auto simp: mem_load_def mem_holds_def mat_decode_iff [THEN iffD2] split: option.splits if_splits)
qed

text \<open>A sealer that never unseals anything but what it sealed.\<close>

definition sealer_sound :: "'k sealer \<Rightarrow> bool" where
  "sealer_sound sl \<longleftrightarrow>
     (\<forall>x k c. fst (seal sl x k) = Inr c \<longrightarrow> (\<forall>k1 y. fst (unseal sl c k1) = Inr y \<longrightarrow> y = x))"

definition file_ok :: "'k file_store \<Rightarrow> bool" where
  "file_ok s \<longleftrightarrow> sealer_sound (fst_sealer s)"

definition file_holds :: "'k file_store \<Rightarrow> mat_record option \<Rightarrow> bool" where
  "file_holds s c \<longleftrightarrow>
     (case c of
        None \<Rightarrow> dk_files (fst_disk s) (fst_path s) = None
      | Some r \<Rightarrow> \<exists>plain sealed. mat_encode r = Inr plain \<and> dk_files (fst_disk s) (fst_path s) = Some sealed
          \<and> (\<forall>k y. fst (unseal (fst_sealer s) sealed k) = Inr y \<longrightarrow> y = plain))"

lemma file_save_holds:
  assumes "file_ok s" and "file_save r s = (x, s')"
  shows "file_ok s' \<and> (x = Inr () \<longrightarrow> file_holds s' (Some r))"
proof (cases "mat_encode r")
  case (Inl e)
  with assms show ?thesis by (auto simp: file_save_def)
next
  case (Inr plain)
  obtain c k where c: "seal (fst_sealer s) plain (fst_keys s) = (c, k)" by fastforce
  show ?thesis
  proof (cases c)
    case (Inl e)
    with Inr c assms show ?thesis by (auto simp: file_save_def file_ok_def)
  next
    case sealed: (Inr sealed)
    obtain w d where w: "fs_write (fst_path s) sealed (fst_disk s) = (w, d)" by fastforce
    have s': "s' = s\<lparr>fst_keys := k, fst_disk := d\<rparr>" and x: "x = Inr () \<longrightarrow> w = Inr ()"
      using assms(2) Inr c sealed w by (auto simp: file_save_def write_private_def split: sum.splits)
    have "y = plain" if "fst (unseal (fst_sealer s) sealed k1) = Inr y" for k1 y
    proof -
      have "fst (seal (fst_sealer s) plain (fst_keys s)) = Inr sealed" using c sealed by simp
      with assms(1) that show ?thesis unfolding file_ok_def sealer_sound_def by blast
    qed
    with fs_write_frame [OF w] Inr assms(1) s' x show ?thesis by (auto simp: file_holds_def file_ok_def)
  qed
qed

lemma file_load_holds:
  assumes "file_ok s" and "file_load s = (v, s')"
  shows "file_ok s' \<and> (\<forall>c. file_holds s c \<longrightarrow> file_holds s' c \<and> (\<forall>u. v = Inr u \<longrightarrow> u = c))"
proof -
  obtain q d where q: "fs_read (fst_path s) (fst_disk s) = (q, d)" by fastforce
  note f = fs_read_frame [OF q]
  show ?thesis
  proof (cases q)
    case (Inl k)
    with q f assms show ?thesis by (auto simp: file_load_def file_holds_def file_ok_def split: if_splits option.splits)
  next
    case (Inr sealed)
    obtain p k where u: "unseal (fst_sealer s) sealed (fst_keys s) = (p, k)" by fastforce
    have s': "s' = s\<lparr>fst_keys := k, fst_disk := d\<rparr>"
      and v: "v = (case p of Inl e \<Rightarrow> Inl e
        | Inr plain \<Rightarrow> (case mat_decode plain of Inl e \<Rightarrow> Inl e | Inr r \<Rightarrow> Inr (Some r)))"
      using assms(2) q Inr u by (auto simp: file_load_def split: sum.splits)
    have "u = c" if h: "file_holds s c" and i: "v = Inr u" for c u
    proof -
      obtain r where r: "c = Some r" using h f Inr by (cases c) (auto simp: file_holds_def)
      obtain plain where pl: "p = Inr plain" using v i by (auto split: sum.splits)
      with h r u f Inr have "mat_encode r = Inr plain" by (simp add: file_holds_def) (metis fst_conv u)
      then have "mat_decode plain = Inr r" by (simp add: mat_decode_iff)
      with v i pl r show ?thesis by simp
    qed
    moreover have "file_holds s' c" if "file_holds s c" for c
      using that s' f by (simp add: file_holds_def split: option.splits)
    ultimately show ?thesis using s' assms(1) by (simp add: file_ok_def)
  qed
qed

interpretation fstore: mat_store file_save file_load file_clear file_ok file_holds
proof unfold_locales
  fix r and s s' :: "'a file_store" and x
  show "file_ok s \<Longrightarrow> file_save r s = (x, s') \<Longrightarrow> file_ok s' \<and> (x = Inr () \<longrightarrow> file_holds s' (Some r))"
    by (rule file_save_holds)
next
  fix s s' :: "'a file_store" and x
  obtain q d where q: "fs_remove_file (fst_path s) (fst_disk s) = (q, d)" by fastforce
  assume "file_ok s" "file_clear s = (x, s')"
  with q fs_remove_frame [OF q] show "file_ok s' \<and> (x = Inr () \<longrightarrow> file_holds s' None)"
    by (auto simp: file_clear_def file_ok_def file_holds_def split: sum.splits if_splits)
next
  fix s s' :: "'a file_store" and v
  show "file_ok s \<Longrightarrow> file_load s = (v, s') \<Longrightarrow>
    file_ok s' \<and> (\<forall>c. file_holds s c \<longrightarrow> file_holds s' c \<and> (\<forall>u. v = Inr u \<longrightarrow> u = c))"
    by (rule file_load_holds)
qed

section \<open>Properties\<close>

text \<open>The framed record is canonical. Decoding accepts exactly the octets that encoding produces, for
  the record they encode (so a record that can be encoded survives, and no trailing octet, other
  magic or oversize length is accepted); everything else is the one error.\<close>

lemma mat_record_canonical:
  "(mat_decode bs = Inr r \<longleftrightarrow> mat_encode r = Inr bs)
    \<and> (mat_decode bs = Inl e \<longrightarrow> e = BadRecord \<and> (\<forall>r'. mat_encode r' \<noteq> Inr bs))
    \<and> (mat_encode r = Inr bs \<longrightarrow> length bs = 16 + length (mr_ticket r))"
proof -
  have "length bs = 16 + length (mr_ticket r)" if "mat_encode r = Inr bs"
    using that by (auto simp: mat_encode_iff)
  moreover have "e = BadRecord \<and> (\<forall>r'. mat_encode r' \<noteq> Inr bs)" if d: "mat_decode bs = Inl e"
    using mat_decode_error [OF d] d by (auto dest: mat_decode_iff [THEN iffD2])
  ultimately show ?thesis by (simp add: mat_decode_iff)
qed

lemma mat_record_canonical_witness:
  "\<exists>r. mat_decode (ascii ''MAT1'' @ [0,0,0,0,0,0,0,5, 0,0,0,2, 8,9]) = Inr r \<and> mr_ticket r = [8, 9]"
proof -
  have "be_of_word 8 (5 :: u64) = [0,0,0,0,0,0,0,5]" "be_of_word 4 (2 :: u32) = [0,0,0,2]" by code_simp+
  then have "mat_encode \<lparr>mr_ticket = [8, 9], mr_stored_at_unix = 5\<rparr> = Inr (ascii ''MAT1'' @ [0,0,0,0,0,0,0,5, 0,0,0,2, 8,9])"
    by (simp add: mat_encode_iff MAX_TICKET_LEN_def MAT_MAGIC_def ascii_def)
  then show ?thesis
    using mat_record_canonical [THEN conjunct1, THEN iffD2]
    by (intro exI [of _ "\<lparr>mr_ticket = [8, 9], mr_stored_at_unix = 5\<rparr>"]) simp
qed

text \<open>C27: the ticket presented at logon is the one saved, and only while it is fresh. After a save that
  succeeded, every later read of the file store, whatever reads failed before it, gives that ticket
  when it is at most \<open>age\<close> seconds old and was not saved in the future, and no ticket otherwise, or
  fails; after a clear that succeeded it gives none. The sealer may be any that never unseals to
  something else than was sealed.\<close>

theorem fresh_ticket_is_saved:
  assumes "sealer_sound (fst_sealer s)" and "file_save r s = (Inr (), s1)"
    and "s2 = ((\<lambda>t. snd (fresh_ticket file_load now' age' t)) ^^ n) s1"
    and "fresh_ticket file_load now age s2 = (Inr v, s3)"
  shows "v = (if mr_stored_at_unix r \<le> now \<and> now - mr_stored_at_unix r \<le> age then Some (mr_ticket r) else None)
    \<and> (file_clear s3 = (Inr (), s4) \<longrightarrow> fresh_ticket file_load now age s4 = (Inr w, s5) \<longrightarrow> w = None)"
proof -
  have o: "file_ok s" using assms(1) by (simp add: file_ok_def)
  have 1: "file_ok s1 \<and> file_holds s1 (Some r)" using fstore.save_holds [OF o assms(2)] by simp
  then have 2: "file_ok s2 \<and> file_holds s2 (Some r)" unfolding assms(3) by (intro fstore.fresh_again) auto
  then have 3: "file_ok s3 \<and> v = fstore.answer (Some r) now age" using fstore.fresh_holds [OF _ _ assms(4), of "Some r"] by blast
  have "w = None" if c: "file_clear s3 = (Inr (), s4)" and f: "fresh_ticket file_load now age s4 = (Inr w, s5)"
  proof -
    have "file_ok s4 \<and> file_holds s4 None" using fstore.clear_holds [OF _ c] 3 by simp
    then show ?thesis using fstore.fresh_holds [OF _ _ f, of None] by (simp add: fstore.answer_def)
  qed
  with 3 show ?thesis by (simp add: fstore.answer_def is_fresh_def)
qed

text \<open>A sealer of the concrete witness: it prepends an octet and takes it off again.\<close>

definition demo_sealer :: "unit sealer" where
  "demo_sealer = \<lparr>seal = (\<lambda>x k. (Inr (7 # x), k)),
     unseal = (\<lambda>c k. (case c of b # x \<Rightarrow> if b = 7 then Inr x else Inl (UnsealError 1) | [] \<Rightarrow> Inl (UnsealError 2), k))\<rparr>"

definition demo_store :: "unit file_store" where
  "demo_store = \<lparr>fst_path = ascii ''mat'', fst_sealer = demo_sealer, fst_keys = (),
     fst_disk = \<lparr>dk_files = (\<lambda>_. None), dk_faults = []\<rparr>\<rparr>"

theorem fresh_ticket_is_saved_witness:
  "\<exists>s1 s3. file_save \<lparr>mr_ticket = [8, 9], mr_stored_at_unix = 5\<rparr> demo_store = (Inr (), s1)
     \<and> fresh_ticket file_load 15 10 s1 = (Inr (Some [8, 9]), s3)"
proof -
  have sound: "sealer_sound (fst_sealer demo_store)"
    by (auto simp: sealer_sound_def demo_store_def demo_sealer_def split: list.splits if_splits)
  obtain s1 where s1: "file_save \<lparr>mr_ticket = [8, 9], mr_stored_at_unix = 5\<rparr> demo_store = (Inr (), s1)"
    by (simp add: file_save_def mat_encode_def demo_store_def demo_sealer_def write_private_def fs_defs
        MAX_TICKET_LEN_def u32_max_def)
  then obtain v s3 where f: "fresh_ticket file_load 15 10 s1 = (Inr v, s3)"
    by (auto simp: file_save_def mat_encode_def demo_store_def demo_sealer_def write_private_def fs_defs
        MAX_TICKET_LEN_def u32_max_def fresh_ticket_def file_load_def mat_decode_parts)
  have "v = Some [8, 9]"
    using fresh_ticket_is_saved [OF sound s1 _ f, where n = 0] by simp
  with s1 f show ?thesis by blast
qed

end
