(* ===== verification/Creds.thy ===== *)
theory Creds
  imports Text_Codec Fips_Tls
begin

text \<open>
  Credentials without the platform: crates/creds/src/error.rs, ecdsa.rs (signatures as DER), selection.rs
  (which certificate of a store), keyinfo.rs (which scheme its key signs with) and adapter.rs (the
  bridge into rustls), and the trait of crates/fips-tls/src/signer.rs. SHA-256 and the X.509 parser are
  parameters.
\<close>

datatype cred_error =
    NoMatchingCert
  | AmbiguousMatch nat
  | BadCertificate
  | NoSigningKey
  | StoreFailure "32 word"
  | BadSignature
  | UnsupportedKey

section \<open>ECDSA signatures\<close>

definition P256_COORD_LEN :: nat where "P256_COORD_LEN = 32"
definition P384_COORD_LEN :: nat where "P384_COORD_LEN = 48"

definition der_len :: "nat \<Rightarrow> bytes" where
  "der_len n =
     (if n < 0x80 then [word_of_nat n]
      else let be = be_of_word 8 (word_of_nat n :: u64);
               trimmed = dropWhile (\<lambda>b. b = 0) be
           in (0x80 OR word_of_nat (length trimmed)) # trimmed)"

definition der_integer :: "bytes \<Rightarrow> bytes" where
  "der_integer coord =
     (let mag = (case find (\<lambda>b. b \<noteq> 0) coord of Some _ \<Rightarrow> dropWhile (\<lambda>b. b = 0) coord | None \<Rightarrow> [0x00]) in
      [0x02]
      @ (if mag \<noteq> [] \<and> hd mag AND 0x80 \<noteq> 0 then der_len (sat_add (length mag) 1) @ [0x00]
         else der_len (length mag))
      @ mag)"

definition raw_to_der :: "bytes \<Rightarrow> nat \<Rightarrow> cred_error + bytes" where
  "raw_to_der raw coord_len =
     (if coord_len \<noteq> P256_COORD_LEN \<and> coord_len \<noteq> P384_COORD_LEN then Inl BadSignature
      else let expected = coord_len * 2 in
        if length raw \<noteq> expected then Inl BadSignature
        else (case get_to raw coord_len of
            None \<Rightarrow> Inl BadSignature
          | Some r \<Rightarrow>
              (case get_from raw coord_len of
                 None \<Rightarrow> Inl BadSignature
               | Some s \<Rightarrow>
                   let body = der_integer r @ der_integer s
                   in Inr ([0x30] @ der_len (length body) @ body))))"

section \<open>Selecting a certificate\<close>

text \<open>What the source reads of a parsed certificate.\<close>

datatype key_params = NoParams | ParamsNotOid | ParamsOid str

record x509 =
  x5_client_auth :: "bool option"  \<comment> \<open>the extended key usage, if there is one that parses\<close>
  x5_subject :: str
  x5_issuer :: str
  x5_key_alg :: str
  x5_rsa_bits :: "nat option"  \<comment> \<open>the size of the key, if it parses as an RSA key\<close>
  x5_params :: key_params

type_synonym x509_parser = "bytes \<Rightarrow> x509 option"
type_synonym sha256 = "bytes \<Rightarrow> bytes"

record cert_selector =
  cs_thumbprint_sha256 :: "bytes option"
  cs_require_client_auth_eku :: bool
  cs_subject_contains :: "str option"
  cs_issuer_contains :: "str option"

text \<open>\<open>str::contains\<close>.\<close>

fun str_contains :: "str \<Rightarrow> str \<Rightarrow> bool" where
  "str_contains [] sub = (sub = [])"
| "str_contains (c # s) sub = (take (length sub) (c # s) = sub \<or> str_contains s sub)"

definition cert_matches :: "sha256 \<Rightarrow> x509_parser \<Rightarrow> cert_selector \<Rightarrow> bytes \<Rightarrow> cred_error + bool" where
  "cert_matches sha parse sel der =
     (if (case cs_thumbprint_sha256 sel of Some want \<Rightarrow> sha der \<noteq> want | None \<Rightarrow> False) then Inr False
      else if \<not> (cs_require_client_auth_eku sel \<or> cs_subject_contains sel \<noteq> None \<or> cs_issuer_contains sel \<noteq> None)
        then Inr True
      else (case parse der of
          None \<Rightarrow> Inl BadCertificate
        | Some cert \<Rightarrow>
            if cs_require_client_auth_eku sel \<and> x5_client_auth cert \<noteq> Some True then Inr False
            else if (case cs_subject_contains sel of Some sub \<Rightarrow> \<not> str_contains (x5_subject cert) sub | None \<Rightarrow> False)
              then Inr False
            else if (case cs_issuer_contains sel of Some iss \<Rightarrow> \<not> str_contains (x5_issuer cert) iss | None \<Rightarrow> False)
              then Inr False
            else Inr True))"

fun select_loop ::
  "sha256 \<Rightarrow> x509_parser \<Rightarrow> cert_selector \<Rightarrow> bytes option \<Rightarrow> nat \<Rightarrow> bytes list \<Rightarrow> cred_error + (bytes option \<times> nat)" where
  "select_loop sha parse sel found count [] = Inr (found, count)"
| "select_loop sha parse sel found count (cert # certs) =
     (case cert_matches sha parse sel cert of
        Inl e \<Rightarrow> Inl e
      | Inr True \<Rightarrow> select_loop sha parse sel (Some cert) (sat_add count 1) certs
      | Inr False \<Rightarrow> select_loop sha parse sel found count certs)"

definition cert_select :: "sha256 \<Rightarrow> x509_parser \<Rightarrow> cert_selector \<Rightarrow> bytes list \<Rightarrow> cred_error + bytes" where
  "cert_select sha parse sel certs =
     (case select_loop sha parse sel None 0 certs of
        Inl e \<Rightarrow> Inl e
      | Inr (found, count) \<Rightarrow>
          (case found of
             Some cert \<Rightarrow>
               (if count = 1 then Inr cert else if count = 0 then Inl NoMatchingCert else Inl (AmbiguousMatch count))
           | None \<Rightarrow> if count = 0 then Inl NoMatchingCert else Inl (AmbiguousMatch count)))"

section \<open>The scheme of a key\<close>

datatype signature_scheme =
    RSA_PKCS1_SHA256 | RSA_PKCS1_SHA384 | RSA_PKCS1_SHA512
  | RSA_PSS_SHA256 | RSA_PSS_SHA384 | RSA_PSS_SHA512
  | ECDSA_NISTP256_SHA256 | ECDSA_NISTP384_SHA384 | ED25519
  | OtherScheme u16

definition OID_EC_PUBLIC_KEY :: str where "OID_EC_PUBLIC_KEY = ascii ''1.2.840.10045.2.1''"
definition OID_RSA_ENCRYPTION :: str where "OID_RSA_ENCRYPTION = ascii ''1.2.840.113549.1.1.1''"
definition OID_P256 :: str where "OID_P256 = ascii ''1.2.840.10045.3.1.7''"
definition OID_P384 :: str where "OID_P384 = ascii ''1.3.132.0.34''"
definition RSA_MIN_BITS :: nat where "RSA_MIN_BITS = 2048"

datatype cert_key = KeyEcdsa signature_scheme nat | KeyRsaPss signature_scheme nat

fun cert_key_scheme :: "cert_key \<Rightarrow> signature_scheme" where
  "cert_key_scheme (KeyEcdsa scheme _) = scheme"
| "cert_key_scheme (KeyRsaPss scheme _) = scheme"

definition scheme_for_cert :: "x509_parser \<Rightarrow> bytes \<Rightarrow> cred_error + cert_key" where
  "scheme_for_cert parse der =
     (case parse der of
        None \<Rightarrow> Inl BadCertificate
      | Some cert \<Rightarrow>
          if x5_key_alg cert = OID_RSA_ENCRYPTION then
            (case x5_rsa_bits cert of
               None \<Rightarrow> Inl UnsupportedKey
             | Some bits \<Rightarrow>
                 if bits < RSA_MIN_BITS then Inl UnsupportedKey else Inr (KeyRsaPss RSA_PSS_SHA256 32))
          else if x5_key_alg cert \<noteq> OID_EC_PUBLIC_KEY then Inl UnsupportedKey
          else (case x5_params cert of
              NoParams \<Rightarrow> Inl UnsupportedKey
            | ParamsNotOid \<Rightarrow> Inl UnsupportedKey
            | ParamsOid curve \<Rightarrow>
                if curve = OID_P256 then Inr (KeyEcdsa ECDSA_NISTP256_SHA256 P256_COORD_LEN)
                else if curve = OID_P384 then Inr (KeyEcdsa ECDSA_NISTP384_SHA384 P384_COORD_LEN)
                else Inl UnsupportedKey))"

section \<open>The bridge into rustls\<close>

datatype signer_error = SigningFailed | UnsupportedScheme

text \<open>The trait \<open>RemoteSigner\<close>; signing may change the state of the key store.\<close>

record 'k remote_signer =
  rs_cert_chain :: "bytes list"
  rs_scheme :: signature_scheme
  rs_sign :: "bytes \<Rightarrow> 'k \<Rightarrow> (signer_error + bytes) \<times> 'k"

datatype signature_algorithm = AlgRSA | AlgED25519 | AlgECDSA

definition scheme_algorithm :: "signature_scheme \<Rightarrow> signature_algorithm" where
  "scheme_algorithm scheme =
     (if scheme \<in> {RSA_PKCS1_SHA256, RSA_PKCS1_SHA384, RSA_PKCS1_SHA512, RSA_PSS_SHA256, RSA_PSS_SHA384,
         RSA_PSS_SHA512} then AlgRSA
      else if scheme = ED25519 then AlgED25519
      else AlgECDSA)"

record 'k remote_signing_key =
  sk_signer :: "'k remote_signer"

definition choose_scheme :: "'k remote_signing_key \<Rightarrow> signature_scheme list \<Rightarrow> 'k remote_signer option" where
  "choose_scheme key offered =
     (if rs_scheme (sk_signer key) \<in> set offered then Some (sk_signer key) else None)"

definition key_algorithm :: "'k remote_signing_key \<Rightarrow> signature_algorithm" where
  "key_algorithm key = scheme_algorithm (rs_scheme (sk_signer key))"

text \<open>The error of rustls that the bridge makes, \<open>General\<close>: a message.\<close>

datatype rustls_general = RustlsGeneral str

fun signer_error_display :: "signer_error \<Rightarrow> str" where
  "signer_error_display SigningFailed = ascii ''remote signing operation failed''"
| "signer_error_display UnsupportedScheme = ascii ''signature scheme not supported by this key''"

definition handle_sign :: "'k remote_signer \<Rightarrow> bytes \<Rightarrow> 'k \<Rightarrow> (rustls_general + bytes) \<times> 'k" where
  "handle_sign signer message k =
     (case rs_sign signer message k of
        (Inl e, k') \<Rightarrow> (Inl (RustlsGeneral (ascii ''remote signing failed: '' @ signer_error_display e)), k')
      | (Inr sg, k') \<Rightarrow> (Inr sg, k'))"

definition handle_scheme :: "'k remote_signer \<Rightarrow> signature_scheme" where
  "handle_scheme signer = rs_scheme signer"

record 'k cert_resolver =
  cres_chain :: "bytes list"
  cres_key :: "'k remote_signing_key"
  cres_scheme :: signature_scheme

definition resolver_new :: "'k remote_signer \<Rightarrow> 'k cert_resolver" where
  "resolver_new signer =
     \<lparr>cres_chain = rs_cert_chain signer, cres_key = \<lparr>sk_signer = signer\<rparr>, cres_scheme = rs_scheme signer\<rparr>"

definition resolve_cert ::
  "'k cert_resolver \<Rightarrow> signature_scheme list \<Rightarrow> (bytes list \<times> 'k remote_signing_key) option" where
  "resolve_cert r sigschemes =
     (if cres_scheme r \<in> set sigschemes then Some (cres_chain r, cres_key r) else None)"

definition has_certs :: "'k cert_resolver \<Rightarrow> bool" where
  "has_certs r = True"

definition into_client_auth :: "'k cert_resolver \<Rightarrow> 'k cert_resolver client_auth" where
  "into_client_auth r = Resolver r"

section \<open>Reading DER back\<close>

text \<open>
  A strict reader of the signatures TLS expects: a SEQUENCE of two INTEGERs that are not negative, all
  lengths in the short form, integers in the fewest octets, nothing after the end.
\<close>

definition be_value :: "bytes \<Rightarrow> nat" where
  "be_value bs = foldl (\<lambda>a b. a * 256 + unat b) 0 bs"

definition der_take :: "u8 \<Rightarrow> bytes \<Rightarrow> (bytes \<times> bytes) option" where
  "der_take tag bs =
     (case bs of
        t # l # rest \<Rightarrow>
          if t = tag \<and> l < 0x80 \<and> unat l \<le> length rest then Some (take (unat l) rest, drop (unat l) rest) else None
      | _ \<Rightarrow> None)"

definition minimal_uint :: "bytes \<Rightarrow> bool" where
  "minimal_uint c \<longleftrightarrow>
     (case c of
        [] \<Rightarrow> False
      | [b] \<Rightarrow> b AND 0x80 = 0
      | b # b' # _ \<Rightarrow> b AND 0x80 = 0 \<and> (b \<noteq> 0 \<or> b' AND 0x80 \<noteq> 0))"

definition der_uint :: "bytes \<Rightarrow> (nat \<times> bytes) option" where
  "der_uint bs =
     (case der_take 0x02 bs of
        None \<Rightarrow> None
      | Some (c, rest) \<Rightarrow> if minimal_uint c then Some (be_value c, rest) else None)"

definition der_signature :: "bytes \<Rightarrow> (nat \<times> nat) option" where
  "der_signature bs =
     (case der_take 0x30 bs of
        Some (body, []) \<Rightarrow>
          (case der_uint body of
             None \<Rightarrow> None
           | Some (r, rest) \<Rightarrow> (case der_uint rest of Some (s, []) \<Rightarrow> Some (r, s) | _ \<Rightarrow> None))
      | _ \<Rightarrow> None)"

lemma be_value_zero: "be_value (0 # bs) = be_value bs"
  by (simp add: be_value_def)

lemma be_value_strip: "be_value (dropWhile (\<lambda>b. b = 0) bs) = be_value bs"
  by (induction bs) (auto simp: be_value_zero)

lemma be_value_zeros: "\<forall>b\<in>set bs. b = 0 \<Longrightarrow> be_value bs = 0"
  by (induction bs) (auto simp: be_value_def)

lemma der_len_short: "n < 0x80 \<Longrightarrow> der_len n = [word_of_nat n]"
  by (simp add: der_len_def)

lemma len_octet: "n < 128 \<Longrightarrow> unat (word_of_nat n :: u8) = n"
  by (simp add: unsigned_of_nat take_bit_nat_eq_self)

lemma der_take_short: "length c < 0x80 \<Longrightarrow> der_take tag (tag # word_of_nat (length c) # c @ rest) = Some (c, rest)"
  by (simp add: der_take_def len_octet word_less_nat_alt)

text \<open>The octets of an INTEGER: the magnitude, with an octet in front when its top bit is set.\<close>

lemma der_integer_content:
  assumes "length coord \<le> 48"
  obtains c where "der_integer coord = 0x02 # word_of_nat (length c) # c" "length c \<le> length coord + 1"
    "0 < length c" "minimal_uint c" "be_value c = be_value coord"
proof (cases "\<forall>b\<in>set coord. b = 0")
  case True
  then have "find (\<lambda>b. b \<noteq> 0) coord = None" by (auto simp: find_None_iff)
  then have "der_integer coord = 0x02 # word_of_nat (length [0 :: u8]) # [0]"
    by (simp add: der_integer_def der_len_def)
  with that [of "[0]"] True show ?thesis by (simp add: minimal_uint_def be_value_zeros)
next
  case False
  define m where "m = dropWhile (\<lambda>b. b = 0) coord"
  have l: "length m \<le> length coord" unfolding m_def by (rule length_dropWhile_le)
  from False obtain b ms where m: "m = b # ms" "b \<noteq> 0"
  proof (cases m)
    case Nil
    with False show ?thesis by (auto simp: m_def dropWhile_eq_Nil_conv)
  next
    case (Cons b ms)
    moreover from this have "hd m \<noteq> 0" using hd_dropWhile [of "\<lambda>b. b = 0" coord, folded m_def] by simp
    ultimately show ?thesis using that by simp
  qed
  obtain x where "find (\<lambda>b. b \<noteq> 0) coord = Some x"
    using False by (cases "find (\<lambda>b. b \<noteq> 0) coord") (auto simp: find_None_iff)
  then have d: "der_integer coord = [0x02] @ (if b AND 0x80 \<noteq> 0 then der_len (sat_add (length m) 1) @ [0x00]
      else der_len (length m)) @ m"
    by (simp add: der_integer_def m flip: m_def)
  have v: "be_value m = be_value coord" by (simp add: m_def be_value_strip)
  show ?thesis
  proof (cases "b AND 0x80 = 0")
    case True
    with that [of m] d l m v assms show ?thesis
      by (auto simp: der_len_short minimal_uint_def split: list.splits)
  next
    case False
    have "sat_add (length m) 1 = length (0 # m)" using l assms by (simp add: sat_add_def usize_max_def)
    with that [of "0 # m"] False d l m v assms show ?thesis
      by (simp add: der_len_short minimal_uint_def be_value_zero)
  qed
qed

lemma der_uint_integer:
  "length coord \<le> 48 \<Longrightarrow> der_uint (der_integer coord @ rest) = Some (be_value coord, rest)"
proof -
  assume a: "length coord \<le> 48"
  then obtain c where c: "der_integer coord = 0x02 # word_of_nat (length c) # c" "length c \<le> length coord + 1"
    "minimal_uint c" "be_value c = be_value coord"
    by (rule der_integer_content)
  from a c(2) have "length c < 0x80" by simp
  with c show ?thesis by (simp add: der_uint_def der_take_short)
qed

lemma length_der_integer: "length coord \<le> 48 \<Longrightarrow> length (der_integer coord) \<le> length coord + 3"
  by (erule der_integer_content) simp

section \<open>What selection requires\<close>

definition meets :: "sha256 \<Rightarrow> x509_parser \<Rightarrow> cert_selector \<Rightarrow> bytes \<Rightarrow> bool" where
  "meets sha parse sel der \<longleftrightarrow>
     (\<forall>want. cs_thumbprint_sha256 sel = Some want \<longrightarrow> sha der = want)
     \<and> (cs_require_client_auth_eku sel \<longrightarrow> (\<exists>cert. parse der = Some cert \<and> x5_client_auth cert = Some True))
     \<and> (\<forall>sub. cs_subject_contains sel = Some sub \<longrightarrow> (\<exists>cert. parse der = Some cert \<and> str_contains (x5_subject cert) sub))
     \<and> (\<forall>iss. cs_issuer_contains sel = Some iss \<longrightarrow> (\<exists>cert. parse der = Some cert \<and> str_contains (x5_issuer cert) iss))"

lemma matches_meets: "cert_matches sha parse sel der = Inr b \<Longrightarrow> b = meets sha parse sel der"
  by (auto simp: cert_matches_def meets_def split: if_splits option.splits)

lemma matches_error: "cert_matches sha parse sel der = Inl e \<Longrightarrow> e = BadCertificate \<and> parse der = None"
  by (auto simp: cert_matches_def split: if_splits option.splits)

lemma contains_sublist: "str_contains s sub \<longleftrightarrow> (\<exists>a b. s = a @ sub @ b)"
proof (induction s)
  case (Cons c s)
  have "take (length sub) (c # s) = sub \<longleftrightarrow> (\<exists>b. c # s = sub @ b)"
    by (metis append_eq_conv_conj append_take_drop_id)
  with Cons show ?case by (auto simp: Cons_eq_append_conv)
qed simp

lemma select_loop_spec:
  "select_loop sha parse sel found count certs =
     (if \<forall>c\<in>set certs. \<exists>b. cert_matches sha parse sel c = Inr b
      then Inr (let ms = filter (meets sha parse sel) certs in
        (if ms = [] then found else Some (last ms), foldl (\<lambda>n _. sat_add n 1) count ms))
      else Inl BadCertificate)"
proof (induction certs arbitrary: found count)
  case (Cons c certs)
  show ?case
  proof (cases "cert_matches sha parse sel c")
    case (Inl e)
    with matches_error [OF Inl] show ?thesis by auto
  next
    case (Inr b)
    with matches_meets [OF Inr] Cons show ?thesis by (cases b) (auto simp: Let_def)
  qed
qed simp

lemma sat_count: "k \<le> usize_max \<Longrightarrow> foldl (\<lambda>n _. sat_add n 1) k xs = min (k + length xs) usize_max"
  by (induction xs arbitrary: k) (simp_all add: sat_add_def min_def)

lemma select_loop_all:
  "select_loop sha parse sel None 0 certs =
     (if \<forall>c\<in>set certs. \<exists>b. cert_matches sha parse sel c = Inr b
      then let ms = filter (meets sha parse sel) certs in
        Inr (if ms = [] then None else Some (last ms), min (length ms) usize_max)
      else Inl BadCertificate)"
  using sat_count [of 0 "filter (meets sha parse sel) certs"] by (simp add: select_loop_spec Let_def)

lemma select_spec:
  "cert_select sha parse sel certs =
     (if \<forall>c\<in>set certs. \<exists>b. cert_matches sha parse sel c = Inr b
      then (case filter (meets sha parse sel) certs of
          [] \<Rightarrow> Inl NoMatchingCert
        | [c] \<Rightarrow> Inr c
        | ms \<Rightarrow> Inl (AmbiguousMatch (min (length ms) usize_max)))
      else Inl BadCertificate)"
  by (auto simp: cert_select_def select_loop_all Let_def usize_max_def split: list.splits)

section \<open>Properties\<close>

text \<open>C28: a signature of the key store reaches TLS as its DER. For the two approved coordinate lengths and
  a signature of two coordinates, the conversion gives a SEQUENCE that a strict DER reader reads as
  exactly the two big-endian integers, in at most eight octets more; for every other input it is
  the error.\<close>

theorem ecdsa_der_reads_back:
  "if k \<in> {32, 48} \<and> length raw = 2 * k
   then \<exists>out. raw_to_der raw k = Inr out
     \<and> der_signature out = Some (be_value (take k raw), be_value (drop k raw)) \<and> length out \<le> 2 * k + 8
   else raw_to_der raw k = Inl BadSignature"
proof (cases "k \<in> {32, 48} \<and> length raw = 2 * k")
  case False
  then show ?thesis by (auto simp: raw_to_der_def Let_def P256_COORD_LEN_def P384_COORD_LEN_def)
next
  case True
  define r where "r = take k raw"
  define t where "t = drop k raw"
  define body where "body = der_integer r @ der_integer t"
  have l: "length r \<le> 48" "length t \<le> 48" "length r = k" "length t = k" using True by (auto simp: r_def t_def)
  have b: "length body \<le> 2 * k + 6"
    using length_der_integer [OF l(1)] length_der_integer [OF l(2)] l by (simp add: body_def)
  with True have s: "length body < 0x80" by auto
  have raw: "raw_to_der raw k = Inr ([0x30] @ der_len (length body) @ body)"
    using True by (auto simp: raw_to_der_def Let_def P256_COORD_LEN_def P384_COORD_LEN_def get_to_def get_from_def
        body_def r_def t_def)
  have "der_uint (der_integer t) = Some (be_value t, [])" using der_uint_integer [OF l(2), of "[]"] by simp
  then have "der_signature ([0x30] @ der_len (length body) @ body) = Some (be_value r, be_value t)"
    using der_take_short [OF s, of "0x30" "[]"]
    by (simp add: der_signature_def der_len_short [OF s]) (simp add: body_def der_uint_integer [OF l(1)])
  with True raw b show ?thesis by (simp add: r_def t_def der_len_short [OF s])
qed

text \<open>C29: the certificate used is the only one that qualifies. Selection returns a certificate exactly when
  every certificate of the store could be judged and it alone meets all the criteria; it fails with
  the number of candidates when there are several, and with one unreadable certificate it fails
  altogether. The resolver made for a key then presents it exactly to the servers that offer the
  one scheme the key signs with, so the scheme rustls asks for next is always found.\<close>

theorem certificate_selected_uniquely:
  "(cert_select sha parse sel certs = Inr c \<longleftrightarrow>
     (\<forall>x\<in>set certs. \<exists>b. cert_matches sha parse sel x = Inr b) \<and> filter (meets sha parse sel) certs = [c])
   \<and> (cert_select sha parse sel certs = Inl (AmbiguousMatch n) \<longrightarrow>
     1 < n \<and> n = min (length (filter (meets sha parse sel) certs)) usize_max)
   \<and> (case resolve_cert (resolver_new signer) offered of
        Some (chain, key) \<Rightarrow> chain = rs_cert_chain signer \<and> choose_scheme key offered = Some signer
      | None \<Rightarrow> rs_scheme signer \<notin> set offered)"
proof (intro conjI)
  show "cert_select sha parse sel certs = Inr c \<longleftrightarrow>
     (\<forall>x\<in>set certs. \<exists>b. cert_matches sha parse sel x = Inr b) \<and> filter (meets sha parse sel) certs = [c]"
    by (auto simp: select_spec split: list.splits)
  show "cert_select sha parse sel certs = Inl (AmbiguousMatch n) \<longrightarrow>
     1 < n \<and> n = min (length (filter (meets sha parse sel) certs)) usize_max"
    by (auto simp: select_spec usize_max_def split: list.splits if_splits)
qed (simp add: resolve_cert_def resolver_new_def choose_scheme_def)

text \<open>A parser that reads the subject of the certificate and nothing else.\<close>

definition demo_parse :: x509_parser where
  "demo_parse der = Some \<lparr>x5_client_auth = Some True, x5_subject = der, x5_issuer = [], x5_key_alg = [],
     x5_rsa_bits = None, x5_params = NoParams\<rparr>"

definition demo_selector :: cert_selector where
  "demo_selector = \<lparr>cs_thumbprint_sha256 = None, cs_require_client_auth_eku = True,
     cs_subject_contains = Some [5, 6], cs_issuer_contains = None\<rparr>"

theorem certificate_selected_uniquely_witness:
  "cert_select (\<lambda>_. []) demo_parse demo_selector [[1, 5], [4, 5, 6, 7]] = Inr [4, 5, 6, 7]"
proof -
  have "(\<forall>x\<in>set [[1, 5], [4, 5, 6, 7]]. \<exists>b. cert_matches (\<lambda>_. []) demo_parse demo_selector x = Inr b)
    \<and> filter (meets (\<lambda>_. []) demo_parse demo_selector) [[1, 5], [4, 5, 6, 7]] = [[4, 5, 6, 7]]"
    by (simp add: cert_matches_def meets_def demo_parse_def demo_selector_def) (metis (full_types))
  then show ?thesis using certificate_selected_uniquely [THEN conjunct1, THEN iffD2] by blast
qed

end
