(* ===== verification/Cng.thy ===== *)
theory Cng
  imports Creds
begin

text \<open>
  The Windows key-store signer: crates/creds/src/cng.rs. CryptoAPI and CNG are parameters: what the opened
  store enumerates, what acquiring a key and signing a hash return. The calls whose point is their
  effect on the system (opening, enumerating, duplicating, freeing, closing) are recorded in a trace,
  in order, so that the accounting of references is a statement about the calls the code makes.
\<close>

section \<open>The platform\<close>

datatype cred_kind = CredMachine | CredUser

datatype store_location = LocalMachine | CurrentUser

definition CERT_SYSTEM_STORE_CURRENT_USER_ID :: u32 where "CERT_SYSTEM_STORE_CURRENT_USER_ID = 1"
definition CERT_SYSTEM_STORE_LOCAL_MACHINE_ID :: u32 where "CERT_SYSTEM_STORE_LOCAL_MACHINE_ID = 2"
definition CERT_SYSTEM_STORE_LOCATION_SHIFT :: nat where "CERT_SYSTEM_STORE_LOCATION_SHIFT = 16"
definition CERT_STORE_READONLY_FLAG :: u32 where "CERT_STORE_READONLY_FLAG = 0x8000"

unbundle bit_operations_syntax

definition store_flags :: "store_location \<Rightarrow> u32" where
  "store_flags loc =
     push_bit CERT_SYSTEM_STORE_LOCATION_SHIFT
       (case loc of LocalMachine \<Rightarrow> CERT_SYSTEM_STORE_LOCAL_MACHINE_ID | CurrentUser \<Rightarrow> CERT_SYSTEM_STORE_CURRENT_USER_ID)
     OR CERT_STORE_READONLY_FLAG"

type_synonym hresult = "32 word"
type_synonym cert_ctx = nat  \<comment> \<open>the pointer, not null\<close>
type_synonym key_handle = nat  \<comment> \<open>an NCRYPT_KEY_HANDLE; 0 is none\<close>

datatype api_call =
    OpenStore u32
  | EnumCerts "cert_ctx option" "cert_ctx option"  \<comment> \<open>the previous context handed back, the one returned\<close>
  | DupCtx cert_ctx
  | FreeCtx cert_ctx
  | CloseStore
  | AcquireKey cert_ctx
  | FreeKey key_handle

text \<open>
  \<open>cp_open\<close> gives, for the flags, the certificates that successive calls of
  \<open>CertEnumCertificatesInStore\<close> return before the null that ends a finite store; \<open>cp_acquire\<close> the key
  handle of a context and whether the caller must free it.
\<close>

record cng_platform =
  cp_open :: "u32 \<Rightarrow> hresult + (cert_ctx \<times> bytes) list"
  cp_acquire :: "cert_ctx \<Rightarrow> hresult + (key_handle \<times> bool)"
  cp_sha256 :: sha256
  cp_sha384 :: sha256
  cp_parse :: x509_parser

record cng_signer =
  cg_kind :: cred_kind
  cg_cert_der :: bytes
  cg_sig :: cert_key
  cg_key :: key_handle
  cg_key_poisoned :: bool  \<comment> \<open>of the mutex around the handle\<close>
  cg_caller_free_key :: bool
  cg_cert_ctx :: "cert_ctx option"

section \<open>Opening and selecting\<close>

type_synonym chosen = "(bytes \<times> cert_ctx) option"

text \<open>
  The loop over the store. The result keeps \<open>prev\<close>, the context the iterator holds when it is dropped:
  after the last call of the enumeration it still is the context that call was given.
\<close>

fun enum_loop ::
  "cng_platform \<Rightarrow> cert_selector \<Rightarrow> cert_ctx option \<Rightarrow> chosen \<Rightarrow> nat \<Rightarrow> (cert_ctx \<times> bytes) list \<Rightarrow> api_call list
     \<Rightarrow> (cred_error + (chosen \<times> nat)) \<times> cert_ctx option \<times> api_call list" where
  "enum_loop cp sel prev chosen matches [] tr = (Inr (chosen, matches), prev, tr @ [EnumCerts prev None])"
| "enum_loop cp sel prev chosen matches ((ctx, der) # certs) tr =
     (let tr1 = tr @ [EnumCerts prev (Some ctx)] in
      (case cert_matches (cp_sha256 cp) (cp_parse cp) sel der of
         Inl e \<Rightarrow> (Inl e, Some ctx, tr1)
       | Inr True \<Rightarrow>
           let tr2 = (case chosen of Some (_, held) \<Rightarrow> tr1 @ [FreeCtx held] | None \<Rightarrow> tr1)
           in enum_loop cp sel (Some ctx) (Some (der, ctx)) (sat_add matches 1) certs (tr2 @ [DupCtx ctx])
       | Inr False \<Rightarrow> enum_loop cp sel (Some ctx) chosen matches certs tr1))"

definition drop_iter :: "cert_ctx option \<Rightarrow> api_call list \<Rightarrow> api_call list" where
  "drop_iter prev tr = (case prev of Some ctx \<Rightarrow> tr @ [FreeCtx ctx] | None \<Rightarrow> tr)"

definition acquire_key :: "cng_platform \<Rightarrow> cert_ctx \<Rightarrow> api_call list \<Rightarrow> (cred_error + (key_handle \<times> bool)) \<times> api_call list" where
  "acquire_key cp ctx tr =
     (case cp_acquire cp ctx of
        Inl code \<Rightarrow> (Inl (StoreFailure code), tr @ [AcquireKey ctx])
      | Inr r \<Rightarrow> (Inr r, tr @ [AcquireKey ctx]))"

definition build_signer ::
  "cng_platform \<Rightarrow> cred_kind \<Rightarrow> bytes \<Rightarrow> cert_ctx \<Rightarrow> api_call list \<Rightarrow> (cred_error + cng_signer) \<times> api_call list" where
  "build_signer cp kind der ctx tr =
     (case scheme_for_cert (cp_parse cp) der of
        Inl e \<Rightarrow> (Inl e, tr @ [FreeCtx ctx])
      | Inr sg \<Rightarrow>
          (case acquire_key cp ctx tr of
             (Inl e, tr1) \<Rightarrow> (Inl e, tr1 @ [FreeCtx ctx])
           | (Inr (key, caller_free), tr1) \<Rightarrow>
               (Inr \<lparr>cg_kind = kind, cg_cert_der = der, cg_sig = sg, cg_key = key, cg_key_poisoned = False,
                  cg_caller_free_key = caller_free, cg_cert_ctx = Some ctx\<rparr>, tr1)))"

definition pick_chosen ::
  "cng_platform \<Rightarrow> cred_kind \<Rightarrow> chosen \<Rightarrow> nat \<Rightarrow> api_call list \<Rightarrow> (cred_error + cng_signer) \<times> api_call list" where
  "pick_chosen cp kind chosen matches tr =
     (if matches \<noteq> 1 then
        (Inl (if matches = 0 then NoMatchingCert else AmbiguousMatch matches),
         case chosen of Some (_, dup) \<Rightarrow> tr @ [FreeCtx dup] | None \<Rightarrow> tr)
      else (case chosen of
          None \<Rightarrow> (Inl NoMatchingCert, tr)
        | Some (der, ctx) \<Rightarrow> build_signer cp kind der ctx tr))"

definition cert_store_open ::
  "cng_platform \<Rightarrow> store_location \<Rightarrow> api_call list \<Rightarrow> (cred_error + (cert_ctx \<times> bytes) list) \<times> api_call list" where
  "cert_store_open cp location tr =
     (case cp_open cp (store_flags location) of
        Inl code \<Rightarrow> (Inl (StoreFailure code), tr @ [OpenStore (store_flags location)])
      | Inr certs \<Rightarrow> (Inr certs, tr @ [OpenStore (store_flags location)]))"

definition drop_store :: "api_call list \<Rightarrow> api_call list" where
  "drop_store tr = tr @ [CloseStore]"

definition open_and_select ::
  "cng_platform \<Rightarrow> store_location \<Rightarrow> cred_kind \<Rightarrow> cert_selector \<Rightarrow> api_call list
     \<Rightarrow> (cred_error + cng_signer) \<times> api_call list" where
  "open_and_select cp location kind sel tr =
     (case cert_store_open cp location tr of
        (Inl e, tr0) \<Rightarrow> (Inl e, tr0)
      | (Inr certs, tr0) \<Rightarrow>
          (case enum_loop cp sel None None 0 certs tr0 of
             (Inl e, prev, tr1) \<Rightarrow> (Inl e, drop_store (drop_iter prev tr1))
           | (Inr (chosen, matches), prev, tr1) \<Rightarrow>
               (case pick_chosen cp kind chosen matches (drop_iter prev tr1) of
                  (r, tr2) \<Rightarrow> (r, drop_store tr2))))"

definition machine_signer :: "cng_platform \<Rightarrow> cert_selector \<Rightarrow> api_call list \<Rightarrow> (cred_error + cng_signer) \<times> api_call list" where
  "machine_signer cp sel = open_and_select cp LocalMachine CredMachine sel"

definition user_signer :: "cng_platform \<Rightarrow> cert_selector \<Rightarrow> api_call list \<Rightarrow> (cred_error + cng_signer) \<times> api_call list" where
  "user_signer cp sel = open_and_select cp CurrentUser CredUser sel"

definition drop_signer :: "cng_signer \<Rightarrow> api_call list \<Rightarrow> api_call list" where
  "drop_signer s tr =
     (let tr1 = (if cg_caller_free_key s \<and> \<not> cg_key_poisoned s \<and> cg_key s \<noteq> 0 then tr @ [FreeKey (cg_key s)] else tr)
      in (case cg_cert_ctx s of Some ctx \<Rightarrow> tr1 @ [FreeCtx ctx] | None \<Rightarrow> tr1))"

section \<open>Signing\<close>

datatype pss_digest = PssSha256 | PssSha384

record pss_padding =
  pp_alg :: pss_digest
  pp_salt :: nat

definition NCRYPT_SILENT_FLAG :: u32 where "NCRYPT_SILENT_FLAG = 0x40"
definition NCRYPT_PAD_PSS_FLAG :: u32 where "NCRYPT_PAD_PSS_FLAG = 8"

text \<open>
  \<open>NCryptSignHash\<close> over the state of the key store. Without a buffer it reports the size needed; with a
  buffer of that many octets it reports how many it wrote, and what the buffer then holds.
\<close>

record 'k ncrypt =
  nc_size :: "key_handle \<Rightarrow> pss_padding option \<Rightarrow> bytes \<Rightarrow> u32 \<Rightarrow> 'k \<Rightarrow> (hresult + u32) \<times> 'k"
  nc_sign :: "key_handle \<Rightarrow> pss_padding option \<Rightarrow> bytes \<Rightarrow> nat \<Rightarrow> u32 \<Rightarrow> 'k \<Rightarrow> (hresult + (bytes \<times> u32)) \<times> 'k"

definition scheme_digest :: "cng_platform \<Rightarrow> signature_scheme \<Rightarrow> cred_error + sha256" where
  "scheme_digest cp scheme =
     (if scheme = ECDSA_NISTP256_SHA256 \<or> scheme = RSA_PSS_SHA256 then Inr (cp_sha256 cp)
      else if scheme = ECDSA_NISTP384_SHA384 then Inr (cp_sha384 cp)
      else Inl UnsupportedKey)"

definition ncrypt_sign ::
  "'k ncrypt \<Rightarrow> cng_signer \<Rightarrow> bytes \<Rightarrow> pss_padding option \<Rightarrow> u32 \<Rightarrow> 'k \<Rightarrow> (cred_error + bytes) \<times> 'k" where
  "ncrypt_sign nc s digest padding pad_flags k =
     (if cg_key_poisoned s then (Inl NoSigningKey, k)
      else let flags = NCRYPT_SILENT_FLAG OR pad_flags in
        (case nc_size nc (cg_key s) padding digest flags k of
           (Inl code, k1) \<Rightarrow> (Inl (StoreFailure code), k1)
         | (Inr needed, k1) \<Rightarrow>
             (case nc_sign nc (cg_key s) padding digest (unat needed) flags k1 of
                (Inl code, k2) \<Rightarrow> (Inl (StoreFailure code), k2)
              | (Inr (sg, written), k2) \<Rightarrow> (Inr (take (unat written) sg), k2))))"

definition ncrypt_sign_pss :: "'k ncrypt \<Rightarrow> cng_signer \<Rightarrow> bytes \<Rightarrow> nat \<Rightarrow> 'k \<Rightarrow> (cred_error + bytes) \<times> 'k" where
  "ncrypt_sign_pss nc s digest salt_len k =
     (if u32_max < salt_len then (Inl BadSignature, k)
      else if salt_len = 32 then ncrypt_sign nc s digest (Some \<lparr>pp_alg = PssSha256, pp_salt = salt_len\<rparr>) NCRYPT_PAD_PSS_FLAG k
      else if salt_len = 48 then ncrypt_sign nc s digest (Some \<lparr>pp_alg = PssSha384, pp_salt = salt_len\<rparr>) NCRYPT_PAD_PSS_FLAG k
      else (Inl UnsupportedKey, k))"

definition sign_inner :: "cng_platform \<Rightarrow> 'k ncrypt \<Rightarrow> cng_signer \<Rightarrow> bytes \<Rightarrow> 'k \<Rightarrow> (cred_error + bytes) \<times> 'k" where
  "sign_inner cp nc s message k =
     (case scheme_digest cp (cert_key_scheme (cg_sig s)) of
        Inl e \<Rightarrow> (Inl e, k)
      | Inr hash \<Rightarrow>
          (case cg_sig s of
             KeyEcdsa _ coord_len \<Rightarrow>
               (case ncrypt_sign nc s (hash message) None 0 k of
                  (Inl e, k1) \<Rightarrow> (Inl e, k1)
                | (Inr raw, k1) \<Rightarrow> (raw_to_der raw coord_len, k1))
           | KeyRsaPss _ salt_len \<Rightarrow> ncrypt_sign_pss nc s (hash message) salt_len k))"

text \<open>The signer as the trait \<open>RemoteSigner\<close>.\<close>

definition cng_remote_signer :: "cng_platform \<Rightarrow> 'k ncrypt \<Rightarrow> cng_signer \<Rightarrow> 'k remote_signer" where
  "cng_remote_signer cp nc s =
     \<lparr>rs_cert_chain = [cg_cert_der s], rs_scheme = cert_key_scheme (cg_sig s),
      rs_sign = (\<lambda>message k. (case sign_inner cp nc s message k of
          (Inl _, k1) \<Rightarrow> (Inl SigningFailed, k1)
        | (Inr sg, k1) \<Rightarrow> (Inr sg, k1)))\<rparr>"

section \<open>References\<close>

text \<open>
  The references to certificate contexts the process owns after a trace, as CryptoAPI documents them: a
  context returned by the enumeration or by \<open>CertDuplicateCertificateContext\<close> is one; freeing it, or
  handing it to the enumeration as the previous context (which frees it in every case), gives one
  back. Below zero is a release of something not owned.
\<close>

fun ref_delta :: "cert_ctx \<Rightarrow> api_call \<Rightarrow> int" where
  "ref_delta c (EnumCerts prev next) = of_bool (next = Some c) - of_bool (prev = Some c)"
| "ref_delta c (DupCtx d) = of_bool (d = c)"
| "ref_delta c (FreeCtx d) = - of_bool (d = c)"
| "ref_delta c _ = 0"

definition refs :: "cert_ctx \<Rightarrow> api_call list \<Rightarrow> int" where
  "refs c tr = sum_list (map (ref_delta c) tr)"

fun store_delta :: "api_call \<Rightarrow> int" where
  "store_delta (OpenStore _) = 1"
| "store_delta CloseStore = -1"
| "store_delta _ = 0"

definition open_stores :: "api_call list \<Rightarrow> int" where
  "open_stores tr = sum_list (map store_delta tr)"

lemma refs_simps [simp]:
  "refs c [] = 0" "refs c (tr @ as) = refs c tr + refs c as" "refs c (a # as) = ref_delta c a + refs c as"
  by (simp_all add: refs_def)

lemma stores_simps [simp]:
  "open_stores [] = 0" "open_stores (tr @ as) = open_stores tr + open_stores as"
  "open_stores (a # as) = store_delta a + open_stores as"
  by (simp_all add: open_stores_def)

definition held :: "cert_ctx \<Rightarrow> cert_ctx option \<Rightarrow> int" where
  "held c p = of_bool (p = Some c)"

lemma held_simps [simp]: "held c None = 0" "held c (Some d) = of_bool (d = c)"
  by (simp_all add: held_def)

definition dup_of :: "chosen \<Rightarrow> cert_ctx option" where
  "dup_of ch = map_option snd ch"

text \<open>The certificates judged before the first unreadable one, and those of them that qualify.\<close>

definition judged :: "cng_platform \<Rightarrow> cert_selector \<Rightarrow> (cert_ctx \<times> bytes) list \<Rightarrow> (cert_ctx \<times> bytes) list" where
  "judged cp sel certs = takeWhile (\<lambda>x. \<not> isl (cert_matches (cp_sha256 cp) (cp_parse cp) sel (snd x))) certs"

definition qualifying :: "cng_platform \<Rightarrow> cert_selector \<Rightarrow> (cert_ctx \<times> bytes) list \<Rightarrow> (cert_ctx \<times> bytes) list" where
  "qualifying cp sel certs = filter (\<lambda>x. meets (cp_sha256 cp) (cp_parse cp) sel (snd x)) (judged cp sel certs)"

definition last_or :: "(cert_ctx \<times> bytes) list \<Rightarrow> chosen \<Rightarrow> chosen" where
  "last_or qs ch = (if qs = [] then ch else Some (snd (last qs), fst (last qs)))"

lemma judge_Cons:
  "cert_matches (cp_sha256 cp) (cp_parse cp) sel der = Inl e \<Longrightarrow>
     judged cp sel ((ctx, der) # certs) = [] \<and> qualifying cp sel ((ctx, der) # certs) = []"
  "cert_matches (cp_sha256 cp) (cp_parse cp) sel der = Inr b \<Longrightarrow>
     judged cp sel ((ctx, der) # certs) = (ctx, der) # judged cp sel certs
     \<and> qualifying cp sel ((ctx, der) # certs) = (if b then [(ctx, der)] else []) @ qualifying cp sel certs"
  using matches_meets by (fastforce simp: judged_def qualifying_def)+

lemma judge_Nil [simp]: "judged cp sel [] = []" "qualifying cp sel [] = []"
  by (simp_all add: judged_def qualifying_def)

lemma last_or_app: "last_or (xs @ qs) ch = last_or qs (last_or xs ch)"
  by (simp add: last_or_def)

lemma enum_refs:
  assumes "enum_loop cp sel prev chosen n certs tr = (r, prev', tr')"
  shows "open_stores tr' = open_stores tr
    \<and> (if judged cp sel certs = certs
       then r = Inr (last_or (qualifying cp sel certs) chosen, foldl (\<lambda>n _. sat_add n 1) n (qualifying cp sel certs))
         \<and> prev' = (if certs = [] then prev else Some (fst (last certs)))
         \<and> refs c tr' = refs c tr - held c prev - held c (dup_of chosen)
             + held c (dup_of (last_or (qualifying cp sel certs) chosen))
       else r = Inl BadCertificate
         \<and> refs c tr' = refs c tr - held c prev - held c (dup_of chosen) + held c prev'
             + held c (dup_of (last_or (qualifying cp sel certs) chosen)))"
  using assms
proof (induction certs arbitrary: prev chosen n tr)
  case Nil
  then show ?case by (auto simp: last_or_def held_def)
next
  case (Cons x certs)
  obtain ctx der where x: "x = (ctx, der)" by (cases x)
  show ?case
  proof (cases "cert_matches (cp_sha256 cp) (cp_parse cp) sel der")
    case (Inl e)
    with matches_error [OF Inl] judge_Cons(1) [OF Inl, of ctx certs] Cons.prems x show ?thesis
      by (auto simp: last_or_def held_def)
  next
    case (Inr b)
    note j = judge_Cons(2) [OF Inr, of ctx certs]
    show ?thesis
    proof (cases b)
      case True
      define tr2 where "tr2 = (case chosen of Some (_, h) \<Rightarrow> (tr @ [EnumCerts prev (Some ctx)]) @ [FreeCtx h]
        | None \<Rightarrow> tr @ [EnumCerts prev (Some ctx)]) @ [DupCtx ctx]"
      have t: "open_stores tr2 = open_stores tr"
        "refs c tr2 = refs c tr - held c prev - held c (dup_of chosen) + 2 * held c (Some ctx)"
        by (auto simp: tr2_def held_def dup_of_def split: option.splits)
      have "enum_loop cp sel (Some ctx) (Some (der, ctx)) (sat_add n 1) certs tr2 = (r, prev', tr')"
        using Cons.prems Inr True x by (simp add: Let_def tr2_def)
      from Cons.IH [OF this] j True x t show ?thesis
        by (simp add: last_or_app) (simp add: last_or_def dup_of_def)
    next
      case False
      have "enum_loop cp sel (Some ctx) chosen n certs (tr @ [EnumCerts prev (Some ctx)]) = (r, prev', tr')"
        using Cons.prems Inr False x by (simp add: Let_def)
      from Cons.IH [OF this] j False x show ?thesis by (simp add: held_def)
    qed
  qed
qed

lemma drop_iter_refs [simp]:
  "refs c (drop_iter prev tr) = refs c tr - held c prev" "open_stores (drop_iter prev tr) = open_stores tr"
  by (auto simp: drop_iter_def split: option.splits)

lemma build_refs:
  assumes "build_signer cp kind der ctx tr = (r, tr')"
  shows "open_stores tr' = open_stores tr
    \<and> refs c tr' = refs c tr - (case r of Inl _ \<Rightarrow> held c (Some ctx) | Inr _ \<Rightarrow> 0)
    \<and> (\<forall>s. r = Inr s \<longrightarrow> cg_cert_ctx s = Some ctx \<and> cg_cert_der s = der
         \<and> scheme_for_cert (cp_parse cp) der = Inr (cg_sig s)
         \<and> cp_acquire cp ctx = Inr (cg_key s, cg_caller_free_key s) \<and> \<not> cg_key_poisoned s)"
  using assms
  by (auto simp: build_signer_def acquire_key_def split: sum.splits prod.splits)

lemma pick_refs:
  assumes "pick_chosen cp kind chosen n tr = (r, tr')"
  shows "open_stores tr' = open_stores tr
    \<and> refs c tr' = refs c tr - held c (dup_of chosen) + (case r of Inl _ \<Rightarrow> 0 | Inr s \<Rightarrow> held c (cg_cert_ctx s))
    \<and> (\<forall>s. r = Inr s \<longrightarrow> n = 1 \<and> chosen \<noteq> None \<and> cg_cert_ctx s = dup_of chosen)"
proof (cases "n = 1")
  case False
  with assms show ?thesis by (auto simp: pick_chosen_def dup_of_def split: option.splits if_splits)
next
  case True
  show ?thesis
  proof (cases chosen)
    case None
    with True assms show ?thesis by (auto simp: pick_chosen_def dup_of_def)
  next
    case (Some y)
    obtain der ctx where y: "y = (der, ctx)" by (cases y)
    with True Some assms have "build_signer cp kind der ctx tr = (r, tr')" by (simp add: pick_chosen_def)
    from build_refs [OF this, of c] True Some y show ?thesis
      by (cases r) (auto simp: dup_of_def)
  qed
qed

lemma open_parts:
  assumes "open_and_select cp location kind sel tr = (r, tr')" and "cp_open cp (store_flags location) = Inr certs"
  obtains (readable) tr2 where "judged cp sel certs = certs"
      "pick_chosen cp kind (last_or (qualifying cp sel certs) None)
         (min (length (qualifying cp sel certs)) usize_max) tr2 = (r, butlast tr')"
      "tr' = butlast tr' @ [CloseStore]" "open_stores tr2 = open_stores tr + 1"
      "\<And>c. refs c tr2 = refs c tr + held c (dup_of (last_or (qualifying cp sel certs) None))
         - (if certs = [] then 0 else held c (Some (fst (last certs))))"
  | (unreadable) "judged cp sel certs \<noteq> certs" "r = Inl BadCertificate" "open_stores tr' = open_stores tr"
      "\<And>c. refs c tr' = refs c tr + held c (dup_of (last_or (qualifying cp sel certs) None))"
proof -
  obtain q prev tr1 where e: "enum_loop cp sel None None 0 certs (tr @ [OpenStore (store_flags location)]) = (q, prev, tr1)"
    using prod_cases3 by blast
  note er = enum_refs [OF e]
  show ?thesis
  proof (cases "judged cp sel certs = certs")
    case False
    with er have q: "q = Inl BadCertificate" by simp
    then have "r = Inl BadCertificate" "tr' = drop_iter prev tr1 @ [CloseStore]"
      using assms e by (simp_all add: open_and_select_def cert_store_open_def drop_store_def)
    with False er show ?thesis by (intro unreadable) (simp_all add: dup_of_def)
  next
    case True
    with er have q: "q = Inr (last_or (qualifying cp sel certs) None, min (length (qualifying cp sel certs)) usize_max)"
      and p: "prev = (if certs = [] then None else Some (fst (last certs)))"
      using sat_count [of 0 "qualifying cp sel certs"] by simp_all
    obtain t where t: "pick_chosen cp kind (last_or (qualifying cp sel certs) None)
        (min (length (qualifying cp sel certs)) usize_max) (drop_iter prev tr1) = (r, t)" "tr' = t @ [CloseStore]"
      using assms e q by (auto simp: open_and_select_def cert_store_open_def drop_store_def split: prod.splits)
    have "open_stores (drop_iter prev tr1) = open_stores tr + 1" using er by simp
    moreover have "refs c (drop_iter prev tr1) = refs c tr + held c (dup_of (last_or (qualifying cp sel certs) None))
         - (if certs = [] then 0 else held c (Some (fst (last certs))))" for c
      using enum_refs [OF e, of c] True p by (simp add: dup_of_def)
    ultimately show ?thesis using True t by (intro readable [of "drop_iter prev tr1"]) simp_all
  qed
qed

lemma judged_all: "judged cp sel certs = certs \<longleftrightarrow>
    (\<forall>d\<in>set (map snd certs). \<exists>b. cert_matches (cp_sha256 cp) (cp_parse cp) sel d = Inr b)"
proof -
  have "isl x \<longleftrightarrow> \<not> (\<exists>b. x = Inr b)" for x :: "cred_error + bool" by (cases x) auto
  then show ?thesis by (auto simp: judged_def takeWhile_eq_all_conv)
qed

lemma qualifying_snd: "judged cp sel certs = certs \<Longrightarrow>
    map snd (qualifying cp sel certs) = filter (meets (cp_sha256 cp) (cp_parse cp) sel) (map snd certs)"
  by (simp add: qualifying_def filter_map comp_def)

lemma select_store:
  "cert_select (cp_sha256 cp) (cp_parse cp) sel (map snd certs) =
     (if judged cp sel certs = certs
      then (case qualifying cp sel certs of
          [] \<Rightarrow> Inl NoMatchingCert
        | [x] \<Rightarrow> Inr (snd x)
        | qs \<Rightarrow> Inl (AmbiguousMatch (min (length qs) usize_max)))
      else Inl BadCertificate)"
proof (cases "judged cp sel certs = certs")
  case True
  with judged_all have a: "\<forall>d\<in>set (map snd certs). \<exists>b. cert_matches (cp_sha256 cp) (cp_parse cp) sel d = Inr b"
    by blast
  show ?thesis
    unfolding select_spec qualifying_snd [OF True, symmetric] using True a
    by (cases "qualifying cp sel certs" rule: remdups_adj.cases) simp_all
next
  case False
  with judged_all show ?thesis unfolding select_spec by (simp only: if_False)
qed

section \<open>Properties\<close>

text \<open>C30: the Windows signer is made for the certificate that the selector alone determines. With the
  store open, a signer is returned only when selection over the certificates of the store gives its
  certificate, with the scheme of that certificate's key and the key handle acquired for the context
  it was read from; every failure of selection is the failure of the call; and once a
  certificate is selected only its key can still be the reason to fail.\<close>

theorem cng_selects_as_selector:
  assumes "cp_open cp (store_flags location) = Inr certs" and "open_and_select cp location kind sel tr = (r, tr')"
  shows "(\<forall>s. r = Inr s \<longrightarrow> cert_select (cp_sha256 cp) (cp_parse cp) sel (map snd certs) = Inr (cg_cert_der s)
      \<and> scheme_for_cert (cp_parse cp) (cg_cert_der s) = Inr (cg_sig s)
      \<and> (\<exists>ctx. (ctx, cg_cert_der s) \<in> set certs \<and> cp_acquire cp ctx = Inr (cg_key s, cg_caller_free_key s)))
    \<and> (\<forall>e. cert_select (cp_sha256 cp) (cp_parse cp) sel (map snd certs) = Inl e \<longrightarrow> r = Inl e)
    \<and> (\<forall>der e. cert_select (cp_sha256 cp) (cp_parse cp) sel (map snd certs) = Inr der \<and> r = Inl e \<longrightarrow>
         scheme_for_cert (cp_parse cp) der = Inl e
         \<or> (\<exists>ctx code. (ctx, der) \<in> set certs \<and> cp_acquire cp ctx = Inl code \<and> e = StoreFailure code))"
  using assms(2,1)
proof (cases rule: open_parts)
  case (readable tr2)
  show ?thesis
  proof (cases "qualifying cp sel certs" rule: remdups_adj.cases)
    case (2 x)
    then have "x \<in> set (qualifying cp sel certs)" by simp
    then have x: "x \<in> set certs" using readable(1) by (simp add: qualifying_def)
    obtain ctx der where xd: "x = (ctx, der)" by (cases x)
    have b: "build_signer cp kind der ctx tr2 = (r, butlast tr')"
      using readable(2) 2 xd by (simp add: pick_chosen_def last_or_def usize_max_def)
    from build_refs [OF b] b x xd 2 readable(1) show ?thesis
      by (auto simp: select_store build_signer_def acquire_key_def split: sum.splits prod.splits)
  qed (use readable in \<open>auto simp: select_store pick_chosen_def last_or_def usize_max_def\<close>)
next
  case unreadable
  then show ?thesis by (simp add: select_store)
qed

text \<open>C31: where the references to certificates go. The store is closed on every path, and of each
  context the process ends up owning what the signer keeps (which dropping it releases) with two
  exceptions, exactly: when the enumeration came to its end, the last context of the store is
  released once more than it was obtained, since the last call already took it back; and when a
  certificate cannot be judged, the duplicate of the last qualifying one before it is never
  released.\<close>

theorem cng_reference_balance:
  assumes "cp_open cp (store_flags location) = Inr certs" and "open_and_select cp location kind sel [] = (r, tr)"
  shows "open_stores tr = 0
    \<and> refs c (case r of Inr s \<Rightarrow> drop_signer s tr | Inl _ \<Rightarrow> tr)
        = (if judged cp sel certs = certs then if certs = [] then 0 else - held c (Some (fst (last certs)))
           else held c (dup_of (last_or (qualifying cp sel certs) None)))"
  using assms(2,1)
proof (cases rule: open_parts)
  case (readable tr2)
  note p = pick_refs [OF readable(2), of c]
  have o: "open_stores tr = 0" using arg_cong [OF readable(3), of open_stores] readable(4) p by simp
  have "refs c tr = refs c (butlast tr)" using arg_cong [OF readable(3), of "refs c"] by simp
  with p readable(1,5) o show ?thesis
    by (auto simp: drop_signer_def Let_def split: sum.splits option.splits)
next
  case unreadable
  then show ?thesis by simp
qed

text \<open>A store of two certificates, of which the first qualifies, with an RSA key.\<close>

definition demo_rsa_parse :: x509_parser where
  "demo_rsa_parse der = Some \<lparr>x5_client_auth = Some True, x5_subject = der, x5_issuer = [],
     x5_key_alg = OID_RSA_ENCRYPTION, x5_rsa_bits = Some 2048, x5_params = NoParams\<rparr>"

definition demo_platform :: cng_platform where
  "demo_platform = \<lparr>cp_open = (\<lambda>_. Inr [(70, [4, 5, 6, 7]), (80, [1, 5])]), cp_acquire = (\<lambda>_. Inr (9, True)),
     cp_sha256 = (\<lambda>_. []), cp_sha384 = (\<lambda>_. []), cp_parse = demo_rsa_parse\<rparr>"

lemmas demo_cng = open_and_select_def cert_store_open_def drop_store_def demo_platform_def demo_selector_def demo_rsa_parse_def cert_matches_def
  pick_chosen_def build_signer_def acquire_key_def scheme_for_cert_def drop_iter_def sat_add_def usize_max_def
  RSA_MIN_BITS_def

theorem cng_selects_as_selector_witness:
  "\<exists>s tr. machine_signer demo_platform demo_selector [] = (Inr s, tr) \<and> cg_cert_der s = [4, 5, 6, 7]
     \<and> cert_select (\<lambda>_. []) demo_rsa_parse demo_selector [[4, 5, 6, 7], [1, 5]] = Inr [4, 5, 6, 7]"
proof -
  obtain s tr where o: "open_and_select demo_platform LocalMachine CredMachine demo_selector [] = (Inr s, tr)"
    "cg_cert_der s = [4, 5, 6, 7]"
    by (simp add: demo_cng)
  have "cp_open demo_platform (store_flags LocalMachine) = Inr [(70, [4, 5, 6, 7]), (80, [1, 5])]"
    by (simp add: demo_platform_def)
  from cng_selects_as_selector [OF this o(1)] o show ?thesis
    by (auto simp: machine_signer_def demo_platform_def)
qed

theorem cng_reference_balance_witness:
  "\<exists>s tr. user_signer demo_platform demo_selector [] = (Inr s, tr) \<and> refs 80 (drop_signer s tr) = - 1
     \<and> refs 70 (drop_signer s tr) = 0"
proof -
  obtain s tr where o: "open_and_select demo_platform CurrentUser CredUser demo_selector [] = (Inr s, tr)"
    by (simp add: demo_cng)
  have c: "cp_open demo_platform (store_flags CurrentUser) = Inr [(70, [4, 5, 6, 7]), (80, [1, 5])]"
    by (simp add: demo_platform_def)
  have j: "judged demo_platform demo_selector [(70, [4, 5, 6, 7]), (80, [1, 5])] = [(70, [4, 5, 6, 7]), (80, [1, 5])]"
    by (simp add: judged_def demo_platform_def demo_selector_def demo_rsa_parse_def cert_matches_def)
  from cng_reference_balance [OF c o, of 80] cng_reference_balance [OF c o, of 70] o j show ?thesis
    by (auto simp: user_signer_def)
qed

end
