(* ===== verification/Peer_Begin.thy ===== *)
theory Peer_Begin
  imports Peer_Session Config_Blob Status Cng
begin

text \<open>
  Beginning a session on Windows: the FIPS policy gate (crates/eaphost/src/os_fips.rs), the status directory
  (status_security.rs), the credential and driver of a session (builder.rs), and, of peer.rs, the state of
  the DLL, publishing the status and \<open>begin_session\<close>. What the operating system answers during a call
  is the argument \<open>os\<close>; a later call may get other answers.
\<close>

section \<open>The operating system\<close>

text \<open>What securing the status directory meets: whether the security descriptor could be built, what
  \<open>symlink_metadata\<close> says of the directory (is it one, is it a link), whether setting its security worked.\<close>

record dir_api =
  da_descriptor :: bool
  da_metadata :: "(bool \<times> bool) option"
  da_set_security :: bool

record os_answers =
  os_fips_value :: "u32 \<times> u32"  \<comment> \<open>\<open>RegGetValueW\<close>: status and value\<close>
  os_dir :: dir_api
  os_clock :: "u64 option"
  os_platform :: cng_platform
  os_alloc :: "nat \<Rightarrow> nat option"  \<comment> \<open>\<open>LocalAlloc\<close>: an error, or an address, which may be null\<close>

definition fips_policy_enabled :: "os_answers \<Rightarrow> eap_host_error + bool" where
  "fips_policy_enabled os =
     (case os_fips_value os of
        (status, value) \<Rightarrow> if status = 0 then Inr (value = 1) else Inl (Win32Error status))"

definition assert_fips_policy :: "os_answers \<Rightarrow> eap_host_error + unit" where
  "assert_fips_policy os =
     (case fips_policy_enabled os of
        Inr True \<Rightarrow> Inr ()
      | Inr False \<Rightarrow> Inl OsFipsDisabled
      | Inl e \<Rightarrow> Inl e)"

definition is_real_dir :: "dir_api \<Rightarrow> bool" where
  "is_real_dir da =
     (case da_metadata da of
        Some (is_dir, is_symlink) \<Rightarrow> is_dir \<and> \<not> is_symlink
      | None \<Rightarrow> False)"

definition apply_security :: "dir_api \<Rightarrow> bool" where
  "apply_security da = (if \<not> da_descriptor da then False else is_real_dir da \<and> da_set_security da)"

section \<open>The state of the DLL\<close>

record status_meta =
  sm_identity :: status_identity
  sm_cert_subject :: str
  sm_cert_thumbprint :: str
  sm_server_name :: str

record cert_info =
  ci_subject :: str
  ci_thumbprint :: str

record 'd peer_host =
  ph_registry :: "'d session_registry"
  ph_meta :: "session_handle \<rightharpoonup> status_meta"
  ph_certs :: "cert_info \<times> cert_info"  \<comment> \<open>machine, user\<close>
  ph_secured :: bool
  ph_status :: status_host
  ph_calls :: "api_call list"

definition peer_host_init :: "status_host \<Rightarrow> 'd peer_host" where
  "peer_host_init sh =
     \<lparr>ph_registry = registry_new, ph_meta = (\<lambda>_. None),
      ph_certs = (\<lparr>ci_subject = [], ci_thumbprint = []\<rparr>, \<lparr>ci_subject = [], ci_thumbprint = []\<rparr>),
      ph_secured = False, ph_status = sh, ph_calls = []\<rparr>"

definition secure_status_dir :: "os_answers \<Rightarrow> 'd peer_host \<Rightarrow> bool \<times> 'd peer_host" where
  "secure_status_dir os h =
     (if ph_secured h then (True, h)
      else if \<not> apply_security (os_dir os) then (False, h)
      else (case fs_remove_file (status_file_path (ph_status h)) (sh_disk (ph_status h)) of
          (_, d) \<Rightarrow> (True, h\<lparr>ph_status := (ph_status h)\<lparr>sh_disk := d\<rparr>, ph_secured := True\<rparr>)))"

text \<open>The fields of the published file that are not empty refresh what the process remembers.\<close>

definition refresh_certs :: "auth_status option \<Rightarrow> cert_info \<times> cert_info \<Rightarrow> cert_info \<times> cert_info" where
  "refresh_certs prev certs =
     (case prev of
        None \<Rightarrow> certs
      | Some p \<Rightarrow>
          (\<lparr>ci_subject = (if st_machine_cert p \<noteq> [] then st_machine_cert p else ci_subject (fst certs)),
            ci_thumbprint = (if st_machine_thumbprint p \<noteq> [] then st_machine_thumbprint p
              else ci_thumbprint (fst certs))\<rparr>,
           \<lparr>ci_subject = (if st_user_cert p \<noteq> [] then st_user_cert p else ci_subject (snd certs)),
            ci_thumbprint = (if st_user_thumbprint p \<noteq> [] then st_user_thumbprint p
              else ci_thumbprint (snd certs))\<rparr>))"

definition publish_status ::
  "os_answers \<Rightarrow> session_handle \<Rightarrow> auth_state \<Rightarrow> str \<Rightarrow> 'd peer_host \<Rightarrow> 'd peer_host" where
  "publish_status os handle state detail h =
     (case ph_meta h handle of
        None \<Rightarrow> h
      | Some meta \<Rightarrow>
          (case secure_status_dir os h of
             (False, h1) \<Rightarrow> h1
           | (True, h1) \<Rightarrow>
               (case read_status (ph_status h1) of
                  (prev, sh) \<Rightarrow>
                    let certs = refresh_certs prev (ph_certs h1);
                        active = \<lparr>ci_subject = sm_cert_subject meta, ci_thumbprint = sm_cert_thumbprint meta\<rparr>;
                        certs' = (case sm_identity meta of
                            StMachine \<Rightarrow> (active, snd certs)
                          | StUser \<Rightarrow> (fst certs, active));
                        status = \<lparr>st_state = state, st_identity = sm_identity meta,
                          st_cert_subject = sm_cert_subject meta,
                          st_machine_cert = ci_subject (fst certs'), st_user_cert = ci_subject (snd certs'),
                          st_machine_thumbprint = ci_thumbprint (fst certs'),
                          st_user_thumbprint = ci_thumbprint (snd certs'),
                          st_server_name = sm_server_name meta, st_detail = detail,
                          st_updated_unix = unix_now (os_clock os)\<rparr>
                    in h1\<lparr>ph_certs := certs', ph_status := snd (write_status status sh)\<rparr>)))"

section \<open>The driver of a session\<close>

text \<open>The source keeps the \<open>Debug\<close> text of the driver's error; the model keeps the error.\<close>

datatype 're build_error = BuildCredential cred_error | BuildDriver "'re driver_error"

definition hex_upper :: "bytes \<Rightarrow> str" where
  "hex_upper bs = concat (map (hex_octet 65) bs)"

definition build_driver ::
  "('r, 'k cert_resolver, 'b, 'cfg, 'name, 'c, 're) rustls_builder \<Rightarrow> 'k ncrypt \<Rightarrow> cng_platform \<Rightarrow> driver_config \<Rightarrow> 'r
     \<Rightarrow> cert_selector \<Rightarrow> api_call list
     \<Rightarrow> ('re build_error + (('c, 'c eap_tls_inner) teap_driver \<times> str)) \<times> api_call list" where
  "build_driver rb nc cp cfg roots selector calls =
     (case (case dc_identity cfg of
         Machine \<Rightarrow> machine_signer cp selector calls
       | User \<Rightarrow> user_signer cp selector calls) of
        (Inl e, calls1) \<Rightarrow> (Inl (BuildCredential e), calls1)
      | (Inr s, calls1) \<Rightarrow>
          let signer = cng_remote_signer cp nc s;
              thumbprint = (case rs_cert_chain signer of
                  [] \<Rightarrow> []
                | der # _ \<Rightarrow> hex_upper (cp_sha256 cp der));
              client_auth = into_client_auth (resolver_new signer)
          in (case assemble_driver rb cfg roots client_auth of
                Inl e \<Rightarrow> (Inl (BuildDriver e), drop_signer s calls1)
              | Inr driver \<Rightarrow> (Inr (driver, thumbprint), calls1)))"

section \<open>Beginning a session\<close>

text \<open>The trust-anchor store of rustls: \<open>add\<close> refuses what is not a certificate.\<close>

record 'r root_store =
  ra_empty :: 'r
  ra_add :: "'r \<Rightarrow> bytes \<Rightarrow> 'r option"
  ra_is_empty :: "'r \<Rightarrow> bool"

fun add_roots :: "'r root_store \<Rightarrow> 'r \<Rightarrow> bytes list \<Rightarrow> 'r option" where
  "add_roots ra roots [] = Some roots"
| "add_roots ra roots (der # ders) =
     (case ra_add ra roots der of
        None \<Rightarrow> None
      | Some roots' \<Rightarrow> add_roots ra roots' ders)"

definition session_selector :: "session_config_blob \<Rightarrow> cert_selector" where
  "session_selector cfg =
     \<lparr>cs_thumbprint_sha256 = None, cs_require_client_auth_eku = True,
      cs_subject_contains = Some (scb_selector_subject cfg), cs_issuer_contains = None\<rparr>"

definition session_driver_config :: "session_config_blob \<Rightarrow> driver_config" where
  "session_driver_config cfg =
     \<lparr>dc_identity = (if scb_machine cfg then Machine else User), dc_server_name = scb_server_name cfg,
      dc_mat_vendor_id = scb_mat_vendor_id cfg, dc_mat_to_present = scb_mat cfg,
      dc_max_fragment = unat (scb_max_fragment cfg)\<rparr>"

definition session_meta :: "session_config_blob \<Rightarrow> str \<Rightarrow> status_meta" where
  "session_meta cfg thumbprint =
     \<lparr>sm_identity = (if scb_machine cfg then StMachine else StUser), sm_cert_subject = scb_selector_subject cfg,
      sm_cert_thumbprint = thumbprint, sm_server_name = scb_server_name cfg\<rparr>"

type_synonym 'c host_driver = "('c, 'c eap_tls_inner) teap_driver"

definition begin_session ::
  "'r root_store \<Rightarrow> ('r, 'k cert_resolver, 'b, 'cfg, 'name, 'c, 're) rustls_builder \<Rightarrow> 'k ncrypt \<Rightarrow> os_answers
     \<Rightarrow> bytes \<Rightarrow> 'c host_driver peer_host \<Rightarrow> session_handle option \<times> 'c host_driver peer_host" where
  "begin_session ra rb nc os blob h =
     (case assert_fips_policy os of
        Inl _ \<Rightarrow> (None, h)
      | Inr _ \<Rightarrow>
          (case config_from_bytes blob of
             Some (Inr cfg) \<Rightarrow>
               (case add_roots ra (ra_empty ra) (scb_roots cfg) of
                  None \<Rightarrow> (None, h)
                | Some roots \<Rightarrow>
                    if ra_is_empty ra roots then (None, h)
                    else (case build_driver rb nc (os_platform os) (session_driver_config cfg) roots
                          (session_selector cfg) (ph_calls h) of
                        (Inl _, calls) \<Rightarrow> (None, h\<lparr>ph_calls := calls\<rparr>)
                      | (Inr (driver, thumbprint), calls) \<Rightarrow>
                          let kind = (if scb_machine cfg then MachineSession else UserSession) in
                          (case registry_begin (peer_new kind driver) (ph_registry h) of
                             (handle, r) \<Rightarrow>
                               (Some handle,
                                publish_status os handle StConnecting []
                                  (h\<lparr>ph_calls := calls, ph_registry := r,
                                     ph_meta := (ph_meta h)(handle \<mapsto> session_meta cfg thumbprint)\<rparr>)))))
           | _ \<Rightarrow> (None, h)))"

section \<open>The verdict as a status\<close>

text \<open>The derived \<open>Debug\<close> text of the reason of a failure.\<close>

definition debug_tuple :: "string \<Rightarrow> str \<Rightarrow> str" where
  "debug_tuple name v = ascii name @ ascii ''('' @ v @ ascii '')''"

fun join_commas :: "str list \<Rightarrow> str" where
  "join_commas [] = []"
| "join_commas [x] = x"
| "join_commas (x # y # xs) = x @ ascii '', '' @ join_commas (y # xs)"

definition debug_struct :: "string \<Rightarrow> (string \<times> str) list \<Rightarrow> str" where
  "debug_struct name fs =
     ascii name @ ascii '' { ''
     @ join_commas (map (\<lambda>(f, v). ascii f @ ascii '': '' @ v) fs) @ ascii '' }''"

fun len_req_debug :: "len_req \<Rightarrow> str" where
  "len_req_debug (Exact n) = debug_tuple ''Exact'' (decimal n)"
| "len_req_debug (AtLeast n) = debug_tuple ''AtLeast'' (decimal n)"
| "len_req_debug (EvenAtLeast mn base) = debug_struct ''EvenAtLeast'' [(''min'', decimal mn), (''base'', decimal base)]"

fun tlv_error_debug :: "tlv_error \<Rightarrow> str" where
  "tlv_error_debug (TruncatedHeader off av) =
     debug_struct ''TruncatedHeader'' [(''offset'', decimal off), (''available'', decimal av)]"
| "tlv_error_debug (TruncatedValue t d av) =
     debug_struct ''TruncatedValue'' [(''tlv_type'', decimal (unat t)), (''declared'', decimal d), (''available'', decimal av)]"
| "tlv_error_debug ReservedType = ascii ''ReservedType''"
| "tlv_error_debug (BadBodyLength t a want) =
     debug_struct ''BadBodyLength'' [(''tlv_type'', decimal (unat t)), (''actual'', decimal a), (''want'', len_req_debug want)]"
| "tlv_error_debug (ValueTooLong t n) =
     debug_struct ''ValueTooLong'' [(''tlv_type'', decimal (unat t)), (''len'', decimal n)]"
| "tlv_error_debug (TypeOutOfRange t) = debug_struct ''TypeOutOfRange'' [(''tlv_type'', decimal (unat t))]"
| "tlv_error_debug (FieldLengthMismatch t a b) =
     debug_struct ''FieldLengthMismatch'' [(''tlv_type'', decimal (unat t)), (''a'', decimal a), (''b'', decimal b)]"
| "tlv_error_debug (TooManyTlvs n) = debug_struct ''TooManyTlvs'' [(''limit'', decimal n)]"

fun crypto_bind_debug :: "crypto_bind_error \<Rightarrow> str" where
  "crypto_bind_debug (BadMacLen e a) = debug_struct ''BadMacLen'' [(''expected'', decimal e), (''actual'', decimal a)]"
| "crypto_bind_debug EmskMacNotZero = ascii ''EmskMacNotZero''"
| "crypto_bind_debug MacMismatch = ascii ''MacMismatch''"
| "crypto_bind_debug (CbEncode e) = debug_tuple ''Encode'' (tlv_error_debug e)"

fun key_schedule_debug :: "key_schedule_error \<Rightarrow> str" where
  "key_schedule_debug (BadSeedLen a) = debug_struct ''BadSeedLen'' [(''actual'', decimal a)]"
| "key_schedule_debug (BadImskLen a) = debug_struct ''BadImskLen'' [(''actual'', decimal a)]"
| "key_schedule_debug BadHashLen = ascii ''BadHashLen''"
| "key_schedule_debug (OutputTooLong r m) = debug_struct ''OutputTooLong'' [(''requested'', decimal r), (''max'', decimal m)]"
| "key_schedule_debug NoMethods = ascii ''NoMethods''"
| "key_schedule_debug KsInternal = ascii ''Internal''"

fun fail_reason_debug :: "fail_reason \<Rightarrow> str" where
  "fail_reason_debug IdentityMismatch = ascii ''IdentityMismatch''"
| "fail_reason_debug InnerFailed = ascii ''InnerFailed''"
| "fail_reason_debug MissingCryptoBinding = ascii ''MissingCryptoBinding''"
| "fail_reason_debug (FailCryptoBinding e) = debug_tuple ''CryptoBinding'' (crypto_bind_debug e)"
| "fail_reason_debug ServerFailure = ascii ''ServerFailure''"
| "fail_reason_debug (FailKeySchedule e) = debug_tuple ''KeySchedule'' (key_schedule_debug e)"
| "fail_reason_debug MalformedMessage = ascii ''MalformedMessage''"
| "fail_reason_debug BadImsk = ascii ''BadImsk''"
| "fail_reason_debug BadCryptoBindingFields = ascii ''BadCryptoBindingFields''"

definition terminal_status :: "auth_result option \<Rightarrow> auth_state \<times> str" where
  "terminal_status r =
     (case r of
        Some (AuthSuccess _ _) \<Rightarrow> (StAuthenticated, [])
      | Some (AuthFailure reason) \<Rightarrow> (StFailed, fail_reason_debug reason)
      | None \<Rightarrow> (StFailed, ascii ''no result''))"

section \<open>What publishing leaves alone\<close>

lemma publish_frame [simp]:
  "ph_registry (publish_status os handle st detail h) = ph_registry h"
  "ph_meta (publish_status os handle st detail h) = ph_meta h"
  "ph_calls (publish_status os handle st detail h) = ph_calls h"
  by (simp_all add: publish_status_def secure_status_dir_def Let_def split: option.split bool.split prod.split)

end
