(* ===== verification/Peer_Ffi.thy ===== *)
theory Peer_Ffi
  imports Peer_Begin
begin

text \<open>
  The exported routines of the peer-method DLL: crates/eaphost/src/peer.rs. A routine is an operation on
  the state of the DLL and the memory of the host: pointers are addresses, 0 is null, and an access
  the host does not allow (a null or wild pointer, octets past the end of a buffer) is \<open>None\<close>, as is
  a driver that does not return. \<open>Inr ()\<close> is ERROR_SUCCESS and \<open>Inl code\<close> any other status.
\<close>

section \<open>The memory of the host\<close>

datatype peer_action = ActionSend | ActionResult

text \<open>The routines a table can point to, and \<open>EAP_PEER_METHOD_ROUTINES\<close>, one slot per routine of the method.\<close>

datatype routine =
    RtInitialize
  | RtGetIdentity
  | RtBeginSession
  | RtSetCredentials
  | RtProcessRequestPacket
  | RtGetResponsePacket
  | RtGetResult
  | RtGetUIContext
  | RtSetUIContext
  | RtGetResponseAttributes
  | RtSetResponseAttributes
  | RtEndSession
  | RtShutdown

record method_routines =
  mrt_dwVersion :: u32
  mrt_pEapType :: u8
  mrt_EapPeerInitialize :: routine
  mrt_EapPeerGetIdentity :: routine
  mrt_EapPeerBeginSession :: routine
  mrt_EapPeerSetCredentials :: routine
  mrt_EapPeerProcessRequestPacket :: routine
  mrt_EapPeerGetResponsePacket :: routine
  mrt_EapPeerGetResult :: routine
  mrt_EapPeerGetUIContext :: routine
  mrt_EapPeerSetUIContext :: routine
  mrt_EapPeerGetResponseAttributes :: routine
  mrt_EapPeerSetResponseAttributes :: routine
  mrt_EapPeerEndSession :: routine
  mrt_EapPeerShutdown :: routine

datatype cell =
    CPtr nat
  | CU32 u32
  | CBool bool
  | COctets bytes
  | CWide "u16 list"
  | CEapType u8
  | CRoutines "method_routines option"  \<comment> \<open>\<open>None\<close> until the table is filled\<close>
  | COutput peer_action bool
  | CResult bool u32
  | CProperties u32 nat

record 'd ffi_state =
  ff_host :: "'d peer_host"
  ff_mem :: "nat \<rightharpoonup> cell"
  ff_heap :: "nat list"  \<comment> \<open>what \<open>LocalAlloc\<close> gave and \<open>LocalFree\<close> did not yet take back\<close>

type_synonym ('d, 'a) ffi = "('d ffi_state, u32, 'a) op"

definition crashO :: "('s, 'e, 'a) op" where
  "crashO s = None"

text \<open>Writing through a pointer, reading a word, reading \<open>n\<close> octets, copying octets into a buffer.\<close>

definition poke :: "nat \<Rightarrow> cell \<Rightarrow> ('d, unit) ffi" where
  "poke p c s =
     (if p = 0 \<or> ff_mem s p = None then None else Some (Inr (), s\<lparr>ff_mem := (ff_mem s)(p \<mapsto> c)\<rparr>))"

definition poke_opt :: "nat \<Rightarrow> cell \<Rightarrow> ('d, unit) ffi" where
  "poke_opt p c = (if p = 0 then returnO () else poke p c)"

definition peek_u32 :: "nat \<Rightarrow> ('d, u32) ffi" where
  "peek_u32 p s = (case ff_mem s p of Some (CU32 w) \<Rightarrow> if p = 0 then None else Some (Inr w, s) | _ \<Rightarrow> None)"

definition peek_type :: "nat \<Rightarrow> ('d, u8) ffi" where
  "peek_type p s = (case ff_mem s p of Some (CEapType t) \<Rightarrow> if p = 0 then None else Some (Inr t, s) | _ \<Rightarrow> None)"

definition slice_raw :: "nat \<Rightarrow> nat \<Rightarrow> ('d, bytes) ffi" where
  "slice_raw p n s =
     (case ff_mem s p of
        Some (COctets bs) \<Rightarrow> if p = 0 \<or> length bs < n then None else Some (Inr (take n bs), s)
      | _ \<Rightarrow> None)"

definition copy_out :: "nat \<Rightarrow> bytes \<Rightarrow> ('d, unit) ffi" where
  "copy_out p bs s =
     (if bs = [] then Some (Inr (), s)
      else (case ff_mem s p of
          Some (COctets buf) \<Rightarrow>
            if p = 0 \<or> length buf < length bs then None
            else Some (Inr (), s\<lparr>ff_mem := (ff_mem s)(p \<mapsto> COctets (bs @ drop (length bs) buf))\<rparr>)
        | _ \<Rightarrow> None))"

definition hostO :: "('d peer_host \<Rightarrow> 'a \<times> 'd peer_host) \<Rightarrow> ('d, 'a) ffi" where
  "hostO f s = (case f (ff_host s) of (x, h) \<Rightarrow> Some (Inr x, s\<lparr>ff_host := h\<rparr>))"

section \<open>Constants\<close>

definition EAP_TYPE_TEAP :: u8 where "EAP_TYPE_TEAP = 55"
definition ERROR_NOT_SUPPORTED :: u32 where "ERROR_NOT_SUPPORTED = 50"
definition E_FAIL :: u32 where "E_FAIL = 0x80004005"
definition FFI_EAP_HEADER_LEN :: u32 where "FFI_EAP_HEADER_LEN = 4"
definition MAX_EAP_PACKET :: u32 where "MAX_EAP_PACKET = 0xFFFF"
definition ANONYMOUS_IDENTITY :: str where "ANONYMOUS_IDENTITY = ascii ''anonymous''"

text \<open>\<open>handle_to_ptr\<close> and \<open>ptr_to_handle\<close> on a 64-bit target.\<close>

definition handle_to_ptr :: "session_handle \<Rightarrow> nat" where "handle_to_ptr h = unat h"
definition ptr_to_handle :: "nat \<Rightarrow> session_handle" where "ptr_to_handle p = word_of_nat p"

definition clear_error :: "nat \<Rightarrow> ('d, unit) ffi" where
  "clear_error pp_eap_error = poke_opt pp_eap_error (CPtr 0)"

section \<open>The routine table and the configuration routines\<close>

definition peer_routines :: method_routines where
  "peer_routines =
     \<lparr>mrt_dwVersion = 1, mrt_pEapType = EAP_TYPE_TEAP,
      mrt_EapPeerInitialize = RtInitialize, mrt_EapPeerGetIdentity = RtGetIdentity,
      mrt_EapPeerBeginSession = RtBeginSession, mrt_EapPeerSetCredentials = RtSetCredentials,
      mrt_EapPeerProcessRequestPacket = RtProcessRequestPacket, mrt_EapPeerGetResponsePacket = RtGetResponsePacket,
      mrt_EapPeerGetResult = RtGetResult, mrt_EapPeerGetUIContext = RtGetUIContext,
      mrt_EapPeerSetUIContext = RtSetUIContext, mrt_EapPeerGetResponseAttributes = RtGetResponseAttributes,
      mrt_EapPeerSetResponseAttributes = RtSetResponseAttributes, mrt_EapPeerEndSession = RtEndSession,
      mrt_EapPeerShutdown = RtShutdown\<rparr>"

definition EapPeerGetInfo :: "nat \<Rightarrow> nat \<Rightarrow> nat \<Rightarrow> ('d, unit) ffi" where
  "EapPeerGetInfo p_eap_type p_eap_info pp_eap_error =
     bindO (clear_error pp_eap_error) (\<lambda>_.
       if p_eap_info = 0 then throwO E_FAIL
       else
         bindO (if p_eap_type \<noteq> 0 then
             bindO (peek_type p_eap_type) (\<lambda>t. if t \<noteq> EAP_TYPE_TEAP then throwO ERROR_NOT_SUPPORTED else returnO ())
           else returnO ()) (\<lambda>_.
           poke p_eap_info (CRoutines (Some peer_routines))))"

definition EapPeerFreeErrorMemory :: "nat \<Rightarrow> ('d, unit) ffi" where
  "EapPeerFreeErrorMemory p_eap_error = returnO ()"

definition EapPeerGetMethodProperties :: "nat \<Rightarrow> nat \<Rightarrow> ('d, unit) ffi" where
  "EapPeerGetMethodProperties p_method_property_array pp_eap_error =
     bindO (clear_error pp_eap_error) (\<lambda>_.
       if p_method_property_array = 0 then throwO E_FAIL
       else poke p_method_property_array (CProperties 0 0))"

definition EapPeerGetConfigBlobAndUserBlob :: "nat \<Rightarrow> nat \<Rightarrow> nat \<Rightarrow> nat \<Rightarrow> nat \<Rightarrow> ('d, unit) ffi" where
  "EapPeerGetConfigBlobAndUserBlob pdw_config_blob_size pp_config_blob pdw_user_blob_size pp_user_blob pp_eap_error =
     bindO (clear_error pp_eap_error) (\<lambda>_.
     bindO (poke_opt pdw_config_blob_size (CU32 0)) (\<lambda>_.
     bindO (poke_opt pp_config_blob (CPtr 0)) (\<lambda>_.
     bindO (poke_opt pdw_user_blob_size (CU32 0)) (\<lambda>_.
       poke_opt pp_user_blob (CPtr 0)))))"

definition EapPeerFreeMemory :: "nat \<Rightarrow> ('d, unit) ffi" where
  "EapPeerFreeMemory p s =
     (if p = 0 then Some (Inr (), s)
      else if p \<notin> set (ff_heap s) then None
      else Some (Inr (), s\<lparr>ff_heap := remove1 p (ff_heap s), ff_mem := (ff_mem s)(p := None)\<rparr>))"

text \<open>\<open>LocalAlloc\<close> of a buffer with the given contents.\<close>

definition local_alloc :: "os_answers \<Rightarrow> nat \<Rightarrow> cell \<Rightarrow> ('d, nat option) ffi" where
  "local_alloc os n c s =
     (case os_alloc os n of
        None \<Rightarrow> Some (Inr None, s)
      | Some p \<Rightarrow>
          if p = 0 then Some (Inr None, s)
          else Some (Inr (Some p), s\<lparr>ff_heap := p # ff_heap s, ff_mem := (ff_mem s)(p \<mapsto> c)\<rparr>))"

definition local_alloc_bytes :: "os_answers \<Rightarrow> bytes \<Rightarrow> ('d, nat option) ffi" where
  "local_alloc_bytes os bs = local_alloc os (length bs) (COctets bs)"

text \<open>
  A NUL-terminated UTF-16 copy of an ASCII string, the only kind it is given; the size cannot
  overflow on such a string.
\<close>

definition wide_nul :: "str \<Rightarrow> u16 list" where
  "wide_nul s = map ucast s @ [0]"

definition local_alloc_wide :: "os_answers \<Rightarrow> str \<Rightarrow> ('d, nat option) ffi" where
  "local_alloc_wide os s = local_alloc os (2 * length (wide_nul s)) (CWide (wide_nul s))"

text \<open>
  MSXML: \<open>load_xml\<close> creates a document from a string and gives its address, or fails; \<open>doc_text\<close> is what
  the text of the node named by a query is, or of the whole document when no node matches.
\<close>

record msxml =
  mx_load :: "str \<Rightarrow> nat option"
  mx_select :: "nat \<Rightarrow> str \<Rightarrow> nat option"
  mx_text :: "nat \<Rightarrow> str option"

definition build_xml_doc :: "msxml \<Rightarrow> str \<Rightarrow> nat option" where
  "build_xml_doc mx xml = mx_load mx xml"

definition EapPeerConfigBlob2Xml :: "msxml \<Rightarrow> nat \<Rightarrow> u32 \<Rightarrow> nat \<Rightarrow> nat \<Rightarrow> ('d, unit) ffi" where
  "EapPeerConfigBlob2Xml mx p_config_in dw_size_of_config_in pp_config_doc pp_eap_error =
     bindO (clear_error pp_eap_error) (\<lambda>_.
       if pp_config_doc = 0 then throwO E_FAIL
       else
         bindO (poke pp_config_doc (CPtr 0)) (\<lambda>_.
         bindO (if p_config_in = 0 \<or> dw_size_of_config_in = 0 then returnO []
             else slice_raw p_config_in (unat dw_size_of_config_in)) (\<lambda>blob.
           case build_xml_doc mx (blob_to_xml blob) of
             Some doc \<Rightarrow> poke pp_config_doc (CPtr doc)
           | None \<Rightarrow> throwO E_FAIL)))"

definition EapPeerConfigXml2Blob :: "msxml \<Rightarrow> os_answers \<Rightarrow> nat \<Rightarrow> nat \<Rightarrow> nat \<Rightarrow> nat \<Rightarrow> ('d, unit) ffi" where
  "EapPeerConfigXml2Blob mx os p_config_doc pp_config_out pdw_size_of_config_out pp_eap_error =
     bindO (clear_error pp_eap_error) (\<lambda>_.
       if pp_config_out = 0 \<or> pdw_size_of_config_out = 0 then throwO E_FAIL
       else
         bindO (poke pp_config_out (CPtr 0)) (\<lambda>_.
         bindO (poke pdw_size_of_config_out (CU32 0)) (\<lambda>_.
           if p_config_doc = 0 then throwO E_FAIL
           else
             (case (case mx_select mx p_config_doc (ascii ''//'' @ BLOB_ELEMENT) of
                 Some node \<Rightarrow> mx_text mx node
               | None \<Rightarrow> mx_text mx p_config_doc) of
                None \<Rightarrow> throwO E_FAIL
              | Some txt \<Rightarrow>
                  (case xml_text_to_blob txt of
                     None \<Rightarrow> throwO E_FAIL
                   | Some blob \<Rightarrow>
                       if u32_max < length blob then throwO E_FAIL
                       else
                         bindO (local_alloc_bytes os blob) (\<lambda>q.
                           case q of
                             None \<Rightarrow> throwO E_FAIL
                           | Some p \<Rightarrow>
                               bindO (poke pp_config_out (CPtr p)) (\<lambda>_.
                                 poke pdw_size_of_config_out (CU32 (word_of_nat (length blob))))))))))"

section \<open>The session routines\<close>

definition EapPeerInitialize :: "os_answers \<Rightarrow> nat \<Rightarrow> ('d, unit) ffi" where
  "EapPeerInitialize os pp_eap_error =
     bindO (clear_error pp_eap_error) (\<lambda>_.
       case assert_fips_policy os of
         Inr _ \<Rightarrow> returnO ()
       | Inl _ \<Rightarrow> throwO E_FAIL)"

definition EapPeerShutdown :: "nat \<Rightarrow> ('d, unit) ffi" where
  "EapPeerShutdown pp_eap_error = clear_error pp_eap_error"

definition EapPeerBeginSession ::
  "'r root_store \<Rightarrow> ('r, 'k cert_resolver, 'b, 'cfg, 'name, 'c, 're) rustls_builder \<Rightarrow> 'k ncrypt \<Rightarrow> os_answers
     \<Rightarrow> u32 \<Rightarrow> nat \<Rightarrow> nat \<Rightarrow> nat \<Rightarrow> ('c host_driver, unit) ffi" where
  "EapPeerBeginSession ra rb nc os cb_connection_data p_connection_data p_session_handle pp_eap_error =
     bindO (clear_error pp_eap_error) (\<lambda>_.
       if p_session_handle = 0 \<or> p_connection_data = 0 then throwO E_FAIL
       else
         bindO (slice_raw p_connection_data (unat cb_connection_data)) (\<lambda>blob.
         bindO (hostO (begin_session ra rb nc os blob)) (\<lambda>begun.
           case begun of
             Some handle \<Rightarrow> poke p_session_handle (CPtr (handle_to_ptr handle))
           | None \<Rightarrow> throwO E_FAIL)))"

text \<open>\<open>registry().process\<close>, where the driver may not return.\<close>

definition registryO :: "('d session_registry \<Rightarrow> ('a \<times> 'd session_registry) option) \<Rightarrow> ('d, 'a) ffi" where
  "registryO f s =
     (case f (ph_registry (ff_host s)) of
        None \<Rightarrow> None
      | Some (x, r) \<Rightarrow> Some (Inr x, s\<lparr>ff_host := (ff_host s)\<lparr>ph_registry := r\<rparr>\<rparr>))"

definition EapPeerProcessRequestPacket ::
  "('d, 'e) teap_step \<Rightarrow> ('d \<Rightarrow> bool) \<Rightarrow> os_answers \<Rightarrow> nat \<Rightarrow> u32 \<Rightarrow> nat \<Rightarrow> nat \<Rightarrow> nat \<Rightarrow> ('d, unit) ffi" where
  "EapPeerProcessRequestPacket step established os session_handle cb_receive_packet p_receive_packet p_eap_output
     pp_eap_error =
     bindO (clear_error pp_eap_error) (\<lambda>_.
       if p_receive_packet = 0 \<or> p_eap_output = 0 then throwO E_FAIL
       else if \<not> (FFI_EAP_HEADER_LEN \<le> cb_receive_packet \<and> cb_receive_packet \<le> MAX_EAP_PACKET) then throwO E_FAIL
       else
         bindO (slice_raw p_receive_packet (unat cb_receive_packet)) (\<lambda>eap.
           let handle = ptr_to_handle session_handle in
           bindO (registryO (registry_process step handle eap)) (\<lambda>processed.
             case processed of
               None \<Rightarrow> throwO E_FAIL
             | Some action \<Rightarrow>
                 bindO (if action = ActRespond then
                     hostO (\<lambda>h. ((), publish_status os handle
                       (if registry_tunnel_established established handle (ph_registry h) = Some True
                        then StInnerInProgress else StConnecting) [] h))
                   else returnO ()) (\<lambda>_.
                   poke p_eap_output (COutput (case action of ActRespond \<Rightarrow> ActionSend | ActFinished \<Rightarrow> ActionResult)
                     False)))))"

definition EapPeerGetResponsePacket :: "nat \<Rightarrow> nat \<Rightarrow> nat \<Rightarrow> nat \<Rightarrow> ('d, unit) ffi" where
  "EapPeerGetResponsePacket session_handle pcb_send_packet p_send_packet pp_eap_error =
     bindO (clear_error pp_eap_error) (\<lambda>_.
       if pcb_send_packet = 0 then throwO E_FAIL
       else
         bindO (if p_send_packet = 0 then returnO 0 else bindO (peek_u32 pcb_send_packet) (\<lambda>w. returnO (unat w)))
           (\<lambda>avail.
           bindO (hostO (\<lambda>h. case registry_fetch_response (ptr_to_handle session_handle) avail (ph_registry h) of
               (f, r) \<Rightarrow> (f, h\<lparr>ph_registry := r\<rparr>))) (\<lambda>fetched.
             case fetched of
               FetchNone \<Rightarrow> throwO E_FAIL
             | TooSmall len \<Rightarrow>
                 bindO (poke pcb_send_packet (CU32 (word_of_nat (min len u32_max)))) (\<lambda>_. throwO E_FAIL)
             | Taken resp \<Rightarrow>
                 bindO (copy_out p_send_packet resp) (\<lambda>_.
                   poke pcb_send_packet (CU32 (word_of_nat (min (length resp) u32_max)))))))"

definition EapPeerGetResult :: "os_answers \<Rightarrow> nat \<Rightarrow> nat \<Rightarrow> nat \<Rightarrow> ('d, unit) ffi" where
  "EapPeerGetResult os session_handle p_result pp_eap_error =
     bindO (clear_error pp_eap_error) (\<lambda>_.
       if p_result = 0 then throwO E_FAIL
       else
         let handle = ptr_to_handle session_handle in
         bindO (getO (\<lambda>s. registry_result handle (ph_registry (ff_host s)))) (\<lambda>result.
           let success = (case result of Some (AuthSuccess _ _) \<Rightarrow> True | _ \<Rightarrow> False);
               (state, detail) = terminal_status result
           in bindO (hostO (\<lambda>h. ((), publish_status os handle state detail h))) (\<lambda>_.
                poke p_result (CResult success (if success then 0 else E_FAIL)))))"

text \<open>
  Ending drops the session and with it its driver. When the signer inside goes, and with it the key handle and
  the certificate context, is up to the library: the signer is shared with the configuration of the inner TLS
  connection, which rustls drops when its states no longer need it. So no release is entered in
  \<open>ph_calls\<close> here; what a release does is \<open>drop_signer\<close>.
\<close>

definition EapPeerEndSession :: "nat \<Rightarrow> nat \<Rightarrow> ('d, unit) ffi" where
  "EapPeerEndSession session_handle pp_eap_error =
     bindO (clear_error pp_eap_error) (\<lambda>_.
       hostO (\<lambda>h. ((), let handle = ptr_to_handle session_handle;
           h1 = h\<lparr>ph_registry := snd (registry_end handle (ph_registry h))\<rparr>
         in h1\<lparr>ph_meta := (ph_meta h1)(handle := None)\<rparr>)))"

definition EapPeerGetIdentity :: "os_answers \<Rightarrow> nat \<Rightarrow> nat \<Rightarrow> nat \<Rightarrow> nat \<Rightarrow> nat \<Rightarrow> ('d, unit) ffi" where
  "EapPeerGetIdentity os pf_invoke_ui pdw_user_data_out pp_user_data_out ppwsz_identity pp_eap_error =
     bindO (clear_error pp_eap_error) (\<lambda>_.
       if ppwsz_identity = 0 then throwO E_FAIL
       else
         bindO (poke ppwsz_identity (CPtr 0)) (\<lambda>_.
         bindO (poke_opt pf_invoke_ui (CBool False)) (\<lambda>_.
         bindO (poke_opt pdw_user_data_out (CU32 0)) (\<lambda>_.
         bindO (poke_opt pp_user_data_out (CPtr 0)) (\<lambda>_.
         bindO (local_alloc_wide os ANONYMOUS_IDENTITY) (\<lambda>q.
           case q of
             Some p \<Rightarrow> poke ppwsz_identity (CPtr p)
           | None \<Rightarrow> throwO E_FAIL))))))"

section \<open>Routines that are not supported\<close>

definition not_supported :: "nat \<Rightarrow> ('d, unit) ffi" where
  "not_supported pp_eap_error = bindO (clear_error pp_eap_error) (\<lambda>_. throwO ERROR_NOT_SUPPORTED)"

definition EapPeerSetCredentials :: "nat \<Rightarrow> ('d, unit) ffi" where
  "EapPeerSetCredentials pp_eap_error = not_supported pp_eap_error"

definition EapPeerGetUIContext :: "nat \<Rightarrow> ('d, unit) ffi" where
  "EapPeerGetUIContext pp_eap_error = not_supported pp_eap_error"

definition EapPeerSetUIContext :: "nat \<Rightarrow> ('d, unit) ffi" where
  "EapPeerSetUIContext pp_eap_error = not_supported pp_eap_error"

definition EapPeerGetResponseAttributes :: "nat \<Rightarrow> ('d, unit) ffi" where
  "EapPeerGetResponseAttributes pp_eap_error = not_supported pp_eap_error"

definition EapPeerSetResponseAttributes :: "nat \<Rightarrow> ('d, unit) ffi" where
  "EapPeerSetResponseAttributes pp_eap_error = not_supported pp_eap_error"

end
