(* ===== verification/Peer_Run.thy ===== *)
theory Peer_Run
  imports Peer_Ffi
begin

text \<open>
  The routines of the DLL in the order a host chooses: what beginning a session requires, the runs of the
  DLL, and what a verdict read at the end of one rests on.
\<close>

section \<open>What beginning a session requires\<close>

text \<open>The driver of a session: made under the policy, from a profile, trust anchors and a key, which a call of
  \<open>begin_session\<close> finds that starts after the calls \<open>calls\<close> to the key store and gets the answers \<open>os\<close>.\<close>

definition made_for ::
  "'r root_store \<Rightarrow> ('r, 'k cert_resolver, 'b, 'cfg, 'name, 'c, 're) rustls_builder \<Rightarrow> 'k ncrypt \<Rightarrow> os_answers
     \<Rightarrow> bytes \<Rightarrow> api_call list \<Rightarrow> session_config_blob \<Rightarrow> 'c host_driver \<Rightarrow> bool" where
  "made_for ra rb nc os blob calls cfg driver \<longleftrightarrow>
     os_fips_value os = (0, 1) \<and> config_from_bytes blob = Some (Inr cfg)
     \<and> (\<exists>roots s calls'. add_roots ra (ra_empty ra) (scb_roots cfg) = Some roots \<and> \<not> ra_is_empty ra roots
          \<and> (if scb_machine cfg then machine_signer else user_signer) (os_platform os) (session_selector cfg) calls
              = (Inr s, calls')
          \<and> assemble_driver rb (session_driver_config cfg) roots
              (into_client_auth (resolver_new (cng_remote_signer (os_platform os) nc s))) = Inr driver)"

lemma fips_iff: "assert_fips_policy os = Inr u \<longleftrightarrow> os_fips_value os = (0, 1)"
  by (auto simp: assert_fips_policy_def fips_policy_enabled_def split: prod.splits if_splits bool.splits)

lemma build_driver_made:
  assumes "build_driver rb nc (os_platform os) (session_driver_config cfg) roots (session_selector cfg) calls
      = (Inr (driver, thumbprint), calls')"
    and "os_fips_value os = (0, 1)" and "config_from_bytes blob = Some (Inr cfg)"
    and "add_roots ra (ra_empty ra) (scb_roots cfg) = Some roots" and "\<not> ra_is_empty ra roots"
  shows "made_for ra rb nc os blob calls cfg driver"
proof -
  let ?sig = "if scb_machine cfg then machine_signer else user_signer"
  obtain q c where q: "?sig (os_platform os) (session_selector cfg) calls = (q, c)" by fastforce
  have i: "(case dc_identity (session_driver_config cfg) of
      Machine \<Rightarrow> machine_signer (os_platform os) (session_selector cfg) calls
    | User \<Rightarrow> user_signer (os_platform os) (session_selector cfg) calls) = (q, c)"
    using q by (simp add: session_driver_config_def split: if_splits)
  obtain s where s: "q = Inr s"
    using assms(1) i by (cases q) (simp_all add: build_driver_def)
  have "assemble_driver rb (session_driver_config cfg) roots
      (into_client_auth (resolver_new (cng_remote_signer (os_platform os) nc s))) = Inr driver"
    using assms(1) i s by (auto simp: build_driver_def Let_def split: sum.splits)
  with q s assms(2-5) show ?thesis unfolding made_for_def by blast
qed

lemma begin_cases:
  assumes "begin_session ra rb nc os blob h = (r, h')"
  obtains (failed) "r = None" "ph_registry h' = ph_registry h" "ph_meta h' = ph_meta h" "ph_status h' = ph_status h"
      "ph_certs h' = ph_certs h"
  | (begun) handle cfg driver thumbprint where "r = Some handle" "made_for ra rb nc os blob (ph_calls h) cfg driver"
      "registry_begin (peer_new (if scb_machine cfg then MachineSession else UserSession) driver) (ph_registry h)
        = (handle, ph_registry h')"
      "ph_meta h' = (ph_meta h)(handle \<mapsto> session_meta cfg thumbprint)"
proof (cases "assert_fips_policy os")
  case (Inl e)
  with assms failed show ?thesis by (simp add: begin_session_def)
next
  case fips: (Inr u)
  show ?thesis
  proof (cases "\<exists>cfg. config_from_bytes blob = Some (Inr cfg)")
    case False
    with assms fips failed show ?thesis
      by (auto simp: begin_session_def split: option.splits sum.splits)
  next
    case True
    then obtain cfg where cfg: "config_from_bytes blob = Some (Inr cfg)" by blast
    show ?thesis
    proof (cases "add_roots ra (ra_empty ra) (scb_roots cfg)")
      case None
      with assms fips cfg failed show ?thesis by (simp add: begin_session_def)
    next
      case roots: (Some roots)
      show ?thesis
      proof (cases "ra_is_empty ra roots")
        case True
        with assms fips cfg roots failed show ?thesis by (simp add: begin_session_def)
      next
        case ne: False
        obtain q calls where q: "build_driver rb nc (os_platform os) (session_driver_config cfg) roots
            (session_selector cfg) (ph_calls h) = (q, calls)" by fastforce
        show ?thesis
        proof (cases q)
          case (Inl e)
          with assms fips cfg roots ne q have "r = None" "h' = h\<lparr>ph_calls := calls\<rparr>"
            by (simp_all add: begin_session_def)
          with failed show ?thesis by simp
        next
          case (Inr dt)
          obtain driver thumbprint where dt: "dt = (driver, thumbprint)" by (cases dt)
          have made: "made_for ra rb nc os blob (ph_calls h) cfg driver"
            using build_driver_made [OF q [unfolded Inr dt] _ cfg roots ne] fips by (simp add: fips_iff)
          obtain handle reg where reg: "registry_begin (peer_new (if scb_machine cfg then MachineSession else UserSession) driver)
              (ph_registry h) = (handle, reg)" by fastforce
          have "r = Some handle" "ph_registry h' = reg" "ph_meta h' = (ph_meta h)(handle \<mapsto> session_meta cfg thumbprint)"
            using assms fips cfg roots ne q Inr dt reg
            by (auto simp: begin_session_def Let_def split: if_splits)
          with made reg begun show ?thesis by blast
        qed
      qed
    qed
  qed
qed

section \<open>What a routine does to the sessions\<close>

text \<open>\<open>regs m R\<close>: however \<open>m\<close> ends, the table of sessions before and after are related by \<open>R\<close>.\<close>

definition regs :: "('d, 'a) ffi \<Rightarrow> ('d session_registry \<Rightarrow> 'd session_registry \<Rightarrow> bool) \<Rightarrow> bool" where
  "regs m R \<longleftrightarrow> (\<forall>s r s'. m s = Some (r, s') \<longrightarrow> R (ph_registry (ff_host s)) (ph_registry (ff_host s')))"

named_theorems keeps \<open>operations that leave the table of sessions alone\<close>

abbreviation same :: "('d, 'a) ffi \<Rightarrow> bool" where
  "same m \<equiv> regs m (=)"

lemma regsD: "regs m R \<Longrightarrow> m s = Some (r, s') \<Longrightarrow> R (ph_registry (ff_host s)) (ph_registry (ff_host s'))"
  by (simp add: regs_def)

lemma same_bind [keeps]: "same m \<Longrightarrow> (\<And>x. same (f x)) \<Longrightarrow> same (bindO m f)"
  by (auto simp: regs_def bindO_def split: option.splits sum.splits prod.splits)

lemma regs_bind: "same m \<Longrightarrow> (\<And>x. regs (f x) R) \<Longrightarrow> (\<And>a. R a a) \<Longrightarrow> regs (bindO m f) R"
  unfolding regs_def bindO_def by (fastforce split: option.splits sum.splits prod.splits)

lemma bind_regs: "regs m R \<Longrightarrow> (\<And>x. same (f x)) \<Longrightarrow> regs (bindO m f) R"
  unfolding regs_def bindO_def by (fastforce split: option.splits sum.splits prod.splits)

lemma same_prims [keeps]:
  "same (returnO x)" "same (throwO e)" "same (getO g)" "same (poke p c)" "same (poke_opt p c)" "same (peek_u32 p)"
  "same (peek_type p)" "same (slice_raw p n)" "same (copy_out p bs)" "same (local_alloc os n c)" "same (clear_error p)"
  "same (local_alloc_bytes os bs)" "same (local_alloc_wide os w)"
  by (auto simp: regs_def op_simps poke_def poke_opt_def peek_u32_def peek_type_def slice_raw_def copy_out_def
      local_alloc_def clear_error_def local_alloc_bytes_def local_alloc_wide_def
      split: if_splits option.splits cell.splits)

lemma same_host: "(\<And>h. ph_registry (snd (f h)) = ph_registry h) \<Longrightarrow> same (hostO f)"
  by (auto simp: regs_def hostO_def split: prod.splits) (metis snd_conv)

lemma same_free [keeps]: "same (EapPeerFreeMemory p)"
  by (auto simp: regs_def EapPeerFreeMemory_def)

lemma regs_refl: "same m \<Longrightarrow> (\<And>a. R a a) \<Longrightarrow> regs m R"
  by (simp add: regs_def)

lemma result_same: "same (EapPeerGetResult os ptr p pp)"
  unfolding EapPeerGetResult_def
  by (auto intro!: keeps same_host simp: Let_def split: prod.split)

lemma process_regs:
  "regs (EapPeerProcessRequestPacket step established os ptr cb p_receive p_output pp)
     (\<lambda>r r'. r' = r \<or> (\<exists>eap a. registry_process step (ptr_to_handle ptr) eap r = Some (a, r')))"
proof -
  let ?R = "\<lambda>r r'. r' = r \<or> (\<exists>eap a. registry_process step (ptr_to_handle ptr) eap r = Some (a, r'))"
  let ?fin = "\<lambda>processed. case processed of None \<Rightarrow> throwO E_FAIL
      | Some action \<Rightarrow> bindO (if action = ActRespond then hostO (\<lambda>h. ((), publish_status os (ptr_to_handle ptr)
            (if registry_tunnel_established established (ptr_to_handle ptr) (ph_registry h) = Some True
             then StInnerInProgress else StConnecting) [] h)) else returnO ())
          (\<lambda>_. poke p_output (COutput (case action of ActRespond \<Rightarrow> ActionSend | ActFinished \<Rightarrow> ActionResult) False))"
  have reg: "regs (registryO (registry_process step (ptr_to_handle ptr) eap)) ?R" for eap
    by (auto simp: regs_def registryO_def split: option.splits)
  have fin: "same (?fin processed)" for processed
    by (auto intro!: keeps same_host split: option.split)
  have core: "regs (bindO (registryO (registry_process step (ptr_to_handle ptr) eap)) ?fin) ?R" for eap
    by (rule bind_regs [OF reg fin])
  have "regs (bindO (slice_raw p_receive (unat cb)) (\<lambda>eap. bindO (registryO (registry_process step (ptr_to_handle ptr) eap)) ?fin)) ?R"
    by (rule regs_bind [OF _ core]) (simp_all add: keeps)
  then show ?thesis
    unfolding EapPeerProcessRequestPacket_def Let_def by (intro regs_bind) (auto intro: keeps regs_refl)
qed

lemma response_regs:
  "regs (EapPeerGetResponsePacket ptr pcb p pp)
     (\<lambda>r r'. r' = r \<or> (\<exists>n f. registry_fetch_response (ptr_to_handle ptr) n r = (f, r')))"
proof -
  let ?R = "\<lambda>r r'. r' = r \<or> (\<exists>n f. registry_fetch_response (ptr_to_handle ptr) n r = (f, r'))"
  let ?get = "\<lambda>avail. hostO (\<lambda>h. case registry_fetch_response (ptr_to_handle ptr) avail (ph_registry h) of
      (f, r) \<Rightarrow> (f, h\<lparr>ph_registry := r\<rparr>))"
  let ?fin = "\<lambda>fetched. case fetched of FetchNone \<Rightarrow> throwO E_FAIL
      | TooSmall len \<Rightarrow> bindO (poke pcb (CU32 (word_of_nat (min len u32_max)))) (\<lambda>_. throwO E_FAIL)
      | Taken resp \<Rightarrow> bindO (copy_out p resp) (\<lambda>_. poke pcb (CU32 (word_of_nat (min (length resp) u32_max))))"
  have reg: "regs (?get avail) ?R" for avail
    by (auto simp: regs_def hostO_def split: prod.splits)
  have fin: "same (?fin fetched)" for fetched
    by (auto intro!: keeps split: response_fetch.split)
  have core: "regs (bindO (?get avail) ?fin) ?R" for avail by (rule bind_regs [OF reg fin])
  have "regs (bindO (if p = 0 then returnO 0 else bindO (peek_u32 pcb) (\<lambda>w. returnO (unat w)))
      (\<lambda>avail. bindO (?get avail) ?fin)) ?R"
    by (rule regs_bind [OF _ core]) (auto intro: keeps)
  then show ?thesis
    unfolding EapPeerGetResponsePacket_def by (intro regs_bind) (auto intro: keeps regs_refl)
qed

lemma end_routine:
  assumes "EapPeerEndSession ptr pp s = Some (r, s')"
  shows "ph_registry (ff_host s') = snd (registry_end (ptr_to_handle ptr) (ph_registry (ff_host s)))"
  using assms
  by (auto simp: EapPeerEndSession_def bindO_def clear_error_def poke_opt_def poke_def returnO_def hostO_def Let_def
      split: if_splits)

section \<open>Runs of the DLL\<close>

text \<open>The calls of a host, each with what the operating system answers while it runs.\<close>

datatype ffi_call =
    CallGetInfo nat nat nat
  | CallInitialize os_answers nat
  | CallBegin os_answers u32 nat nat nat
  | CallProcess os_answers nat u32 nat nat nat
  | CallResponse nat nat nat nat
  | CallResult os_answers nat nat nat
  | CallEnd nat nat
  | CallIdentity os_answers nat nat nat nat nat
  | CallBlob2Xml nat u32 nat nat
  | CallXml2Blob os_answers nat nat nat nat
  | CallProperties nat nat
  | CallBlobs nat nat nat nat nat
  | CallFree nat
  | CallUnsupported nat
  | CallShutdown nat
  | CallFreeErrorMemory nat

definition ffi_exec ::
  "'r root_store \<Rightarrow> ('r, 'k cert_resolver, 'b, 'cfg, 'name, 'c, 're) rustls_builder \<Rightarrow> 'k ncrypt \<Rightarrow> msxml
     \<Rightarrow> ('c, 're) rustls \<Rightarrow> hmac_sign \<Rightarrow> ffi_call \<Rightarrow> ('c host_driver, unit) ffi" where
  "ffi_exec ra rb nc mx rl sign call =
     (case call of
        CallGetInfo a b pp \<Rightarrow> EapPeerGetInfo a b pp
      | CallInitialize os pp \<Rightarrow> EapPeerInitialize os pp
      | CallBegin os cb p q pp \<Rightarrow> EapPeerBeginSession ra rb nc os cb p q pp
      | CallProcess os ptr cb p q pp \<Rightarrow>
          EapPeerProcessRequestPacket (driver_step rl sign (inner_process_packet rl)) is_established os ptr cb p q pp
      | CallResponse ptr a b pp \<Rightarrow> EapPeerGetResponsePacket ptr a b pp
      | CallResult os ptr p pp \<Rightarrow> EapPeerGetResult os ptr p pp
      | CallEnd ptr pp \<Rightarrow> EapPeerEndSession ptr pp
      | CallIdentity os a b c d pp \<Rightarrow> EapPeerGetIdentity os a b c d pp
      | CallBlob2Xml a n b pp \<Rightarrow> EapPeerConfigBlob2Xml mx a n b pp
      | CallXml2Blob os a b c pp \<Rightarrow> EapPeerConfigXml2Blob mx os a b c pp
      | CallProperties a pp \<Rightarrow> EapPeerGetMethodProperties a pp
      | CallBlobs a b c d pp \<Rightarrow> EapPeerGetConfigBlobAndUserBlob a b c d pp
      | CallFree p \<Rightarrow> EapPeerFreeMemory p
      | CallUnsupported pp \<Rightarrow> not_supported pp
      | CallShutdown pp \<Rightarrow> EapPeerShutdown pp
      | CallFreeErrorMemory p \<Rightarrow> EapPeerFreeErrorMemory p)"

text \<open>
  A run starts as the DLL is loaded; between the calls the host may do anything to its memory. The run keeps
  its past: each call with the state it was made in, what it returned and the state it left.
\<close>

type_synonym 'd ffi_event = "ffi_call \<times> 'd ffi_state \<times> (u32 + unit) \<times> 'd ffi_state"

inductive ffi_run ::
  "'r root_store \<Rightarrow> ('r, 'k cert_resolver, 'b, 'cfg, 'name, 'c, 're) rustls_builder \<Rightarrow> 'k ncrypt \<Rightarrow> msxml
     \<Rightarrow> ('c, 're) rustls \<Rightarrow> hmac_sign \<Rightarrow> 'c host_driver ffi_event list \<Rightarrow> 'c host_driver ffi_state \<Rightarrow> bool"
  for ra rb nc mx rl sign where
  ffi_load: "ffi_run ra rb nc mx rl sign [] \<lparr>ff_host = peer_host_init sh, ff_mem = mem, ff_heap = []\<rparr>"
| ffi_step: "ffi_run ra rb nc mx rl sign evs s \<Longrightarrow> ffi_exec ra rb nc mx rl sign call s = Some (r, s')
    \<Longrightarrow> ffi_run ra rb nc mx rl sign (evs @ [(call, s, r, s')]) s'"
| ffi_host: "ffi_run ra rb nc mx rl sign evs s \<Longrightarrow> ffi_run ra rb nc mx rl sign evs (s\<lparr>ff_mem := mem\<rparr>)"

text \<open>A call that gave the host the handle of a new session, and one that ended a session.\<close>

fun opens :: "'d ffi_event \<Rightarrow> session_handle \<Rightarrow> bool" where
  "opens (CallBegin os cb p_data p_handle pp, s, Inr _, s') h \<longleftrightarrow> ff_mem s' p_handle = Some (CPtr (handle_to_ptr h))"
| "opens _ h \<longleftrightarrow> False"

fun closes :: "'d ffi_event \<Rightarrow> session_handle \<Rightarrow> bool" where
  "closes (CallEnd ptr pp, _) h \<longleftrightarrow> ptr_to_handle ptr = h"
| "closes _ h \<longleftrightarrow> False"

text \<open>
  The session under \<open>h\<close> was begun in this past: the last call that gave out \<open>h\<close>, since which none has ended
  the session, found the octets of a profile \<open>cfg\<close> in the memory and passed every gate, with the answers the
  operating system gave to that very call and the calls to the key store up to then; it made the driver \<open>d0\<close>.
\<close>

definition began ::
  "'r root_store \<Rightarrow> ('r, 'k cert_resolver, 'b, 'cfg, 'name, 'c, 're) rustls_builder \<Rightarrow> 'k ncrypt
     \<Rightarrow> 'c host_driver ffi_event list \<Rightarrow> session_handle \<Rightarrow> session_config_blob \<Rightarrow> 'c host_driver \<Rightarrow> bool" where
  "began ra rb nc evs h cfg d0 \<longleftrightarrow>
     (\<exists>pre os cb p_data p_handle pp s s' post d.
        evs = pre @ (CallBegin os cb p_data p_handle pp, s, Inr (), s') # post
      \<and> ff_mem s' p_handle = Some (CPtr (handle_to_ptr h))
      \<and> ff_mem s p_data = Some (COctets d)
      \<and> made_for ra rb nc os (take (unat cb) d) (ph_calls (ff_host s)) cfg d0
      \<and> (\<forall>e\<in>set post. \<not> opens e h \<and> \<not> closes e h))"

lemma other_calls_same:
  "same (EapPeerGetInfo a b pp)" "same (EapPeerInitialize os pp)" "same (EapPeerGetIdentity os a b c d pp)"
  "same (EapPeerConfigBlob2Xml mx a n b pp)" "same (EapPeerConfigXml2Blob mx os a b c pp)"
  "same (EapPeerGetMethodProperties a pp)" "same (EapPeerGetConfigBlobAndUserBlob a b c d pp)" "same (not_supported pp)"
  "same (EapPeerShutdown pp)" "same (EapPeerFreeErrorMemory p)"
  unfolding EapPeerGetInfo_def EapPeerInitialize_def EapPeerGetIdentity_def EapPeerConfigBlob2Xml_def
    EapPeerConfigXml2Blob_def EapPeerGetMethodProperties_def EapPeerGetConfigBlobAndUserBlob_def not_supported_def
    EapPeerShutdown_def EapPeerFreeErrorMemory_def
  by (auto intro!: keeps split: option.split sum.split)

text \<open>Every live session was begun in the past of the run, and has a verdict that the driver made then stands for.\<close>

definition session_bound ::
  "'r root_store \<Rightarrow> ('r, 'k cert_resolver, 'b, 'cfg, 'name, 'c, 're) rustls_builder \<Rightarrow> 'k ncrypt
     \<Rightarrow> ('c, 're) rustls \<Rightarrow> hmac_sign \<Rightarrow> 'c host_driver ffi_event list \<Rightarrow> session_handle
     \<Rightarrow> 'c host_driver peer_session \<Rightarrow> bool" where
  "session_bound ra rb nc rl sign evs h s \<longleftrightarrow>
     (\<exists>cfg d0. began ra rb nc evs h cfg d0
        \<and> teap_method.peer_ok TYPE('re) rl sign (inner_process_packet rl) (dr_tunnel d0) (session_driver_config cfg) s)"

definition all_bound ::
  "'r root_store \<Rightarrow> ('r, 'k cert_resolver, 'b, 'cfg, 'name, 'c, 're) rustls_builder \<Rightarrow> 'k ncrypt
     \<Rightarrow> ('c, 're) rustls \<Rightarrow> hmac_sign \<Rightarrow> 'c host_driver ffi_event list \<Rightarrow> 'c host_driver session_registry \<Rightarrow> bool" where
  "all_bound ra rb nc rl sign evs r \<longleftrightarrow> (\<forall>h s. live r h = Some s \<longrightarrow> session_bound ra rb nc rl sign evs h s)"

lemma bound_success_of:
  fixes rl :: "('c, 're) rustls"
  assumes "session_bound ra rb nc rl sign evs h sess" and "ps_result sess = Some (AuthSuccess msk mat)"
  shows "\<exists>cfg d0 emsk. began ra rb nc evs h cfg d0
    \<and> bound_success rl sign (inner_process_packet rl) (dr_tunnel d0) (session_driver_config cfg) msk emsk mat"
proof -
  obtain cfg d0 where m: "began ra rb nc evs h cfg d0"
    "teap_method.peer_ok TYPE('re) rl sign (inner_process_packet rl) (dr_tunnel d0) (session_driver_config cfg) sess"
    using assms(1) unfolding session_bound_def by blast
  from m(2) assms(2) obtain emsk where "outcome_ok rl sign (inner_process_packet rl) (dr_tunnel d0)
      (session_driver_config cfg) (Success msk emsk mat)"
    unfolding teap_method.peer_ok_def by blast
  with m(1) show ?thesis unfolding outcome_ok_def by (simp only: outcome.case) blast
qed

text \<open>A call that is neither the beginning nor the end of a session leaves its past as it is.\<close>

lemma began_snoc: "began ra rb nc evs h cfg d0 \<Longrightarrow> \<not> opens e h \<Longrightarrow> \<not> closes e h \<Longrightarrow> began ra rb nc (evs @ [e]) h cfg d0"
  unfolding began_def by (elim exE conjE, intro exI conjI, simp, assumption+) auto

lemma bound_snoc:
  "session_bound ra rb nc rl sign evs h s \<Longrightarrow> \<not> opens e h \<Longrightarrow> \<not> closes e h
     \<Longrightarrow> session_bound ra rb nc rl sign (evs @ [e]) h s"
  unfolding session_bound_def using began_snoc by blast

lemma all_snoc:
  "all_bound ra rb nc rl sign evs r \<Longrightarrow> (\<And>h. \<not> opens e h \<and> \<not> closes e h) \<Longrightarrow> all_bound ra rb nc rl sign (evs @ [e]) r"
  unfolding all_bound_def using bound_snoc by blast

lemma made_sound:
  assumes "made_for ra rb nc os blob calls cfg d0"
  shows "driver_sound rl sign proc (dr_tunnel d0) (session_driver_config cfg) d0"
proof -
  obtain roots auth where "assemble_driver rb (session_driver_config cfg) roots auth = Inr d0"
    using assms unfolding made_for_def by blast
  then obtain inner where "driver_new rb (session_driver_config cfg) roots inner = Inr d0"
    by (auto simp: assemble_driver_def split: sum.splits)
  then show ?thesis by (rule driver_new_sound)
qed

lemma process_bound:
  assumes "session_bound ra rb nc rl sign evs h s"
    and "peer_process (driver_step rl sign (inner_process_packet rl)) eap s = Some (a, s')"
  shows "session_bound ra rb nc rl sign evs h s'"
  using assms teap_method.process_ok unfolding session_bound_def by blast

lemma take_bound:
  "session_bound ra rb nc rl sign evs h s \<Longrightarrow> session_bound ra rb nc rl sign evs h (s\<lparr>ps_pending := None\<rparr>)"
  unfolding session_bound_def teap_method.peer_ok_def by simp

lemma registry_process_bound:
  assumes "all_bound ra rb nc rl sign evs r"
    and "registry_process (driver_step rl sign (inner_process_packet rl)) h eap r = Some (a, r')"
  shows "all_bound ra rb nc rl sign evs r'"
proof (cases "live r h")
  case None
  with assms show ?thesis by (simp add: registry_process_def with_session_def live_def)
next
  case (Some s)
  with assms(2) obtain x s' where p: "peer_process (driver_step rl sign (inner_process_packet rl)) eap s = Some (x, s')"
    and r': "live r' = (live r)(h \<mapsto> s')"
    by (auto simp: registry_process_def with_session_def live_def update_conv' split: option.splits)
  from assms(1) Some have "session_bound ra rb nc rl sign evs h s" by (simp add: all_bound_def)
  from process_bound [OF this p] assms(1) r' show ?thesis by (auto simp: all_bound_def)
qed

lemma fetch_bound:
  assumes "all_bound ra rb nc rl sign evs r" and "registry_fetch_response h n r = (f, r')"
  shows "all_bound ra rb nc rl sign evs r'"
proof -
  have "live r' = live r \<or> (\<exists>s. live r h = Some s \<and> live r' = (live r)(h \<mapsto> s\<lparr>ps_pending := None\<rparr>))"
    using assms(2)
    by (auto simp: registry_fetch_response_def peer_take_response_def live_def update_conv'
        split: option.splits if_splits)
  moreover have "session_bound ra rb nc rl sign evs h (s\<lparr>ps_pending := None\<rparr>)" if "live r h = Some s" for s
    by (rule take_bound) (use assms(1) that in \<open>simp add: all_bound_def\<close>)
  ultimately show ?thesis using assms(1) by (auto simp: all_bound_def split: if_splits)
qed

fun changes_sessions :: "ffi_call \<Rightarrow> bool" where
  "changes_sessions (CallBegin _ _ _ _ _) = True"
| "changes_sessions (CallProcess _ _ _ _ _ _) = True"
| "changes_sessions (CallResponse _ _ _ _) = True"
| "changes_sessions (CallEnd _ _) = True"
| "changes_sessions _ = False"

lemma exec_same: "\<not> changes_sessions call \<Longrightarrow> same (ffi_exec ra rb nc mx rl sign call)"
  by (cases call) (simp_all add: ffi_exec_def other_calls_same same_free result_same)

lemma opens_only_begin: "\<not> changes_sessions call \<Longrightarrow> \<not> opens (call, ev) h \<and> \<not> closes (call, ev) h"
  by (cases call) simp_all

section \<open>The cases of three routines\<close>

lemma clear_cases:
  assumes "clear_error pp s = Some (r, s')"
  obtains "r = Inr ()" "ff_host s' = ff_host s" "ff_heap s' = ff_heap s"
    "s' = (if pp = 0 then s else s\<lparr>ff_mem := (ff_mem s)(pp \<mapsto> CPtr 0)\<rparr>)"
  using assms by (auto simp: clear_error_def poke_opt_def poke_def returnO_def split: if_splits)

lemma begin_routine:
  assumes "EapPeerBeginSession ra rb nc os cb p_data p_handle pp s = Some (r, s')"
  obtains (refused) "r = Inl E_FAIL" "ff_host s' = ff_host s"
  | (failed) d h' where "r = Inl E_FAIL" "ff_mem s p_data = Some (COctets d)"
      "begin_session ra rb nc os (take (unat cb) d) (ff_host s) = (None, h')" "ff_host s' = h'"
  | (begun) d handle h' where "r = Inr ()" "ff_mem s p_data = Some (COctets d)" "unat cb \<le> length d"
      "begin_session ra rb nc os (take (unat cb) d) (ff_host s) = (Some handle, h')" "ff_host s' = h'"
      "ff_mem s' p_handle = Some (CPtr (handle_to_ptr handle))"
proof -
  obtain s1 where c: "clear_error pp s = Some (Inr (), s1)" "ff_host s1 = ff_host s"
    "s1 = (if pp = 0 then s else s\<lparr>ff_mem := (ff_mem s)(pp \<mapsto> CPtr 0)\<rparr>)"
    using assms by (auto simp: EapPeerBeginSession_def bindO_def clear_error_def poke_opt_def poke_def returnO_def
        split: if_splits)
  show ?thesis
  proof (cases "p_handle = 0 \<or> p_data = 0")
    case True
    with assms c have "r = Inl E_FAIL" "s' = s1" by (auto simp: EapPeerBeginSession_def bindO_def throwO_def)
    with c refused show ?thesis by simp
  next
    case False
    with assms c obtain d where d: "ff_mem s1 p_data = Some (COctets d)" "unat cb \<le> length d"
      by (auto simp: EapPeerBeginSession_def bindO_def slice_raw_def split: option.splits cell.splits if_splits)
    have ds: "ff_mem s p_data = Some (COctets d)" using c(3) d(1) by (auto split: if_splits)
    obtain x h' where b: "begin_session ra rb nc os (take (unat cb) d) (ff_host s) = (x, h')" by fastforce
    have st: "(case x of Some handle \<Rightarrow> poke p_handle (CPtr (handle_to_ptr handle)) | None \<Rightarrow> throwO E_FAIL)
        (s1\<lparr>ff_host := h'\<rparr>) = Some (r, s')"
      using assms False c(1,2) d b by (simp add: EapPeerBeginSession_def bindO_def slice_raw_def hostO_def)
    show ?thesis
    proof (cases x)
      case None
      with st b ds failed show ?thesis by (auto simp: throwO_def)
    next
      case (Some handle)
      with st have "r = Inr ()" "ff_host s' = h'" "ff_mem s' p_handle = Some (CPtr (handle_to_ptr handle))"
        by (auto simp: poke_def split: if_splits)
      with Some b ds d begun show ?thesis by blast
    qed
  qed
qed

lemma result_routine:
  assumes "EapPeerGetResult os ptr p pp s = Some (Inr (), s')"
  shows "\<exists>b. ff_mem s' p = Some (CResult b (if b then 0 else E_FAIL))
    \<and> (b \<longleftrightarrow> (\<exists>msk mat. registry_result (ptr_to_handle ptr) (ph_registry (ff_host s)) = Some (AuthSuccess msk mat)))"
proof -
  let ?res = "registry_result (ptr_to_handle ptr) (ph_registry (ff_host s))"
  obtain s1 where c: "clear_error pp s = Some (Inr (), s1)" "ff_host s1 = ff_host s"
    using assms by (auto simp: EapPeerGetResult_def bindO_def clear_error_def poke_opt_def poke_def returnO_def
        split: if_splits)
  define b where "b = (case ?res of Some (AuthSuccess _ _) \<Rightarrow> True | _ \<Rightarrow> False)"
  have "ff_mem s' p = Some (CResult b (if b then 0 else E_FAIL))"
    using assms c unfolding b_def
    by (auto simp: EapPeerGetResult_def bindO_def getO_def hostO_def throwO_def Let_def poke_def
        split: if_splits prod.splits)
  then show ?thesis by (auto simp: b_def split: option.splits auth_result.splits)
qed

section \<open>The past of the live sessions\<close>

lemma handle_to_ptr_inject [simp]: "handle_to_ptr h = handle_to_ptr h' \<longleftrightarrow> h = h'"
  by (simp add: handle_to_ptr_def word_unat_eq_iff)

lemma live_changes:
  "registry_begin x r = (h, r') \<Longrightarrow> live r' = (live r)(h \<mapsto> x)"
  "live (snd (registry_end h r)) = (live r)(h := None)"
  by (auto simp: registry_begin_def registry_end_def Let_def) (simp_all add: live_def)

lemma begin_bound:
  assumes b: "all_bound ra rb nc rl sign evs (ph_registry (ff_host s))"
    and ex: "EapPeerBeginSession ra rb nc os cb p q pp s = Some (r, s')"
  shows "all_bound ra rb nc rl sign (evs @ [(CallBegin os cb p q pp, s, r, s')]) (ph_registry (ff_host s'))"
  using ex
proof (cases rule: begin_routine)
  case refused
  with b show ?thesis by (simp add: all_snoc)
next
  case (failed d h')
  from failed(3) have "ph_registry h' = ph_registry (ff_host s)" by (cases rule: begin_cases) simp_all
  with failed b show ?thesis by (simp add: all_snoc)
next
  case (begun d handle h')
  let ?e = "(CallBegin os cb p q pp, s, r, s')"
  from begun(4) obtain cfg driver kind where made: "made_for ra rb nc os (take (unat cb) d) (ph_calls (ff_host s)) cfg driver"
    and reg: "registry_begin (peer_new kind driver) (ph_registry (ff_host s)) = (handle, ph_registry h')"
    by (cases rule: begin_cases) auto
  have l: "live (ph_registry (ff_host s')) = (live (ph_registry (ff_host s)))(handle \<mapsto> peer_new kind driver)"
    using live_changes(1) [OF reg] begun(5) by simp
  have "began ra rb nc (evs @ [?e]) handle cfg driver"
    unfolding began_def using begun made by (intro exI [of _ evs] exI conjI) auto
  then have new: "session_bound ra rb nc rl sign (evs @ [?e]) handle (peer_new kind driver)"
    unfolding session_bound_def using teap_method.new_ok [OF made_sound [OF made]] by blast
  have "session_bound ra rb nc rl sign (evs @ [?e]) h sess"
    if "h \<noteq> handle" "live (ph_registry (ff_host s)) h = Some sess" for h sess
    by (rule bound_snoc) (use b that begun in \<open>simp_all add: all_bound_def\<close>)
  with new l show ?thesis by (auto simp: all_bound_def)
qed

lemma exec_bound:
  assumes "all_bound ra rb nc rl sign evs (ph_registry (ff_host s))"
    and ex: "ffi_exec ra rb nc mx rl sign call s = Some (r, s')"
  shows "all_bound ra rb nc rl sign (evs @ [(call, s, r, s')]) (ph_registry (ff_host s'))"
proof (cases call)
  case (CallBegin os cb p q pp)
  with ex have "EapPeerBeginSession ra rb nc os cb p q pp s = Some (r, s')" by (simp add: ffi_exec_def)
  from begin_bound [OF assms(1) this] CallBegin show ?thesis by simp
next
  case (CallProcess os ptr cb p q pp)
  with ex have e: "EapPeerProcessRequestPacket (driver_step rl sign (inner_process_packet rl)) is_established os ptr cb p q pp s
      = Some (r, s')" by (simp add: ffi_exec_def)
  have "all_bound ra rb nc rl sign (evs @ [(call, s, r, s')]) (ph_registry (ff_host s))"
    by (rule all_snoc [OF assms(1)]) (simp add: CallProcess)
  with regsD [OF process_regs e] registry_process_bound show ?thesis by metis
next
  case (CallResponse ptr a b pp)
  with ex have e: "EapPeerGetResponsePacket ptr a b pp s = Some (r, s')" by (simp add: ffi_exec_def)
  have "all_bound ra rb nc rl sign (evs @ [(call, s, r, s')]) (ph_registry (ff_host s))"
    by (rule all_snoc [OF assms(1)]) (simp add: CallResponse)
  with regsD [OF response_regs e] fetch_bound show ?thesis by metis
next
  case (CallEnd ptr pp)
  with ex have e: "EapPeerEndSession ptr pp s = Some (r, s')" by (simp add: ffi_exec_def)
  have "session_bound ra rb nc rl sign (evs @ [(call, s, r, s')]) h sess"
    if "h \<noteq> ptr_to_handle ptr" "live (ph_registry (ff_host s)) h = Some sess" for h sess
    by (rule bound_snoc) (use assms(1) that CallEnd in \<open>auto simp: all_bound_def\<close>)
  with end_routine [OF e] show ?thesis by (auto simp: all_bound_def live_changes split: if_splits)
qed (use regsD [OF exec_same ex] all_snoc [OF assms(1)] in simp_all)

lemma run_bound: "ffi_run ra rb nc mx rl sign evs s \<Longrightarrow> all_bound ra rb nc rl sign evs (ph_registry (ff_host s))"
proof (induction rule: ffi_run.induct)
  case (ffi_load sh mem)
  show ?case by (simp add: all_bound_def peer_host_init_def registry_new_def live_def)
next
  case (ffi_step evs s call r s')
  show ?case by (rule exec_bound [OF ffi_step.IH ffi_step.hyps(2)])
qed simp

section \<open>A host that begins a session\<close>

definition demo_roots :: "bytes list root_store" where
  "demo_roots = \<lparr>ra_empty = [], ra_add = (\<lambda>rs der. if der = [] then None else Some (rs @ [der])),
     ra_is_empty = (\<lambda>rs. rs = [])\<rparr>"

definition demo_builder :: "(bytes list, unit cert_resolver, unit, unit, bytes, plain_conn, unit) rustls_builder" where
  "demo_builder =
     \<lparr>rb_builder = (\<lambda>_. Inr ()), rb_no_client_auth = (\<lambda>b. b), rb_client_auth_cert = (\<lambda>b chain key. Inr b),
      rb_resolver = (\<lambda>b r. b), rb_server_name = Some,
      rb_new_connection = (\<lambda>cfg name. Inr \<lparr>pc_script = [[20]], pc_out = [22], pc_in = []\<rparr>),
      rb_set_buffer_limit = (\<lambda>c n. c)\<rparr>"

definition demo_ncrypt :: "unit ncrypt" where
  "demo_ncrypt = \<lparr>nc_size = (\<lambda>_ _ _ _ k. (Inr 0, k)), nc_sign = (\<lambda>_ _ _ n _ k. (Inr (replicate n 0, 0), k))\<rparr>"

definition demo_xml :: msxml where
  "demo_xml = \<lparr>mx_load = (\<lambda>_. None), mx_select = (\<lambda>_ _. None), mx_text = (\<lambda>_. None)\<rparr>"

definition demo_os :: os_answers where
  "demo_os = \<lparr>os_fips_value = (0, 1), os_dir = \<lparr>da_descriptor = True, da_metadata = Some (True, False), da_set_security = True\<rparr>,
     os_clock = Some 77, os_platform = demo_platform\<lparr>cp_open := (\<lambda>_. Inr [(70, ascii ''cn''), (80, [1, 5])])\<rparr>,
     os_alloc = (\<lambda>_. Some 500)\<rparr>"

definition demo_ffi :: "plain_conn host_driver ffi_state" where
  "demo_ffi = \<lparr>ff_host = peer_host_init demo_host,
     ff_mem = [16 \<mapsto> COctets (config_to_bytes demo_blob), 32 \<mapsto> CPtr 0, 48 \<mapsto> CResult False 0], ff_heap = []\<rparr>"

lemma demo_signer:
  "\<exists>s c. user_signer (os_platform demo_os) (session_selector demo_blob) [] = (Inr s, c)"
  by (simp add: user_signer_def demo_cng demo_os_def session_selector_def demo_blob_def ascii_def)

lemma demo_assemble: "\<exists>d. assemble_driver demo_builder cfg roots auth = Inr d"
  by (simp add: assemble_driver_def client_config_def demo_builder_def inner_new_def tls_connect_def driver_new_def
      split: client_auth.split)

lemma demo_built: "\<exists>dt calls. build_driver demo_builder demo_ncrypt (os_platform demo_os) (session_driver_config demo_blob)
    roots (session_selector demo_blob) [] = (Inr dt, calls)"
proof -
  obtain s c where s: "user_signer (os_platform demo_os) (session_selector demo_blob) [] = (Inr s, c)"
    using demo_signer by blast
  obtain d where "assemble_driver demo_builder (session_driver_config demo_blob) roots
      (into_client_auth (resolver_new (cng_remote_signer (os_platform demo_os) demo_ncrypt s))) = Inr d"
    using demo_assemble by blast
  with s show ?thesis by (simp add: build_driver_def session_driver_config_def demo_blob_def Let_def)
qed

lemma demo_begins:
  "\<exists>h'. begin_session demo_roots demo_builder demo_ncrypt demo_os (config_to_bytes demo_blob) (peer_host_init demo_host)
    = (Some 1, h')"
proof -
  obtain dt calls where b: "build_driver demo_builder demo_ncrypt (os_platform demo_os) (session_driver_config demo_blob)
      [[1, 2]] (session_selector demo_blob) [] = (Inr dt, calls)"
    using demo_built by blast
  obtain d th where dt: "dt = (d, th)" by (cases dt)
  have "assert_fips_policy demo_os = Inr ()" by (simp add: fips_iff demo_os_def)
  moreover have "add_roots demo_roots (ra_empty demo_roots) (scb_roots demo_blob) = Some [[1, 2]]"
    "\<not> ra_is_empty demo_roots [[1, 2]]"
    by (simp_all add: demo_roots_def demo_blob_def)
  ultimately show ?thesis
    using b dt config_round [OF demo_blob_wf]
    by (simp add: begin_session_def peer_host_init_def registry_begin_def registry_new_def Let_def)
qed

lemma demo_length: "length (config_to_bytes demo_blob) < 2 ^ 32"
  by (simp add: config_to_bytes_def demo_blob_def put_u32_def put_bytes_def ascii_def BLOB_MAGIC_def)

lemma demo_begin_routine:
  "\<exists>s'. EapPeerBeginSession demo_roots demo_builder demo_ncrypt demo_os (word_of_nat (length (config_to_bytes demo_blob)))
     16 32 0 demo_ffi = Some (Inr (), s') \<and> begin_session demo_roots demo_builder demo_ncrypt demo_os
       (config_to_bytes demo_blob) (peer_host_init demo_host) = (Some 1, ff_host s')"
proof -
  obtain h' where h': "begin_session demo_roots demo_builder demo_ncrypt demo_os (config_to_bytes demo_blob)
      (peer_host_init demo_host) = (Some 1, h')"
    using demo_begins by blast
  have l: "unat (word_of_nat (length (config_to_bytes demo_blob)) :: u32) = length (config_to_bytes demo_blob)"
    using demo_length by simp
  show ?thesis
    by (simp add: EapPeerBeginSession_def bindO_def clear_error_def poke_opt_def returnO_def slice_raw_def l
        hostO_def h' poke_def demo_ffi_def)
qed

section \<open>Properties\<close>

text \<open>C11: a session begins behind every gate or not at all. \<open>EapPeerBeginSession\<close> reports success only when
  the FIPS policy was read as on, the connection data parsed as a profile whose trust anchors are all
  certificates and not none, a signer was found for the machine or the user as the profile says, and
  the driver was assembled from them; then exactly one session over that driver is added, under the
  handle the host gets. On every failure no session is added, none changes, and nothing is
  published.\<close>

theorem ffi_begin_gated:
  assumes "EapPeerBeginSession ra rb nc os cb p_data p_handle pp s = Some (r, s')"
  shows "(r = Inr () \<longrightarrow> (\<exists>d cfg driver handle. ff_mem s p_data = Some (COctets d)
      \<and> made_for ra rb nc os (take (unat cb) d) (ph_calls (ff_host s)) cfg driver
      \<and> registry_begin (peer_new (if scb_machine cfg then MachineSession else UserSession) driver)
          (ph_registry (ff_host s)) = (handle, ph_registry (ff_host s'))
      \<and> ff_mem s' p_handle = Some (CPtr (handle_to_ptr handle))))
    \<and> (\<forall>e. r = Inl e \<longrightarrow> e = E_FAIL \<and> ph_registry (ff_host s') = ph_registry (ff_host s)
         \<and> ph_meta (ff_host s') = ph_meta (ff_host s) \<and> ph_status (ff_host s') = ph_status (ff_host s))"
  using assms
proof (cases rule: begin_routine)
  case (failed d h')
  from failed(3) show ?thesis by (cases rule: begin_cases) (use failed in auto)
next
  case (begun d handle h')
  from begun(4) obtain cfg driver where "made_for ra rb nc os (take (unat cb) d) (ph_calls (ff_host s)) cfg driver"
    "registry_begin (peer_new (if scb_machine cfg then MachineSession else UserSession) driver)
       (ph_registry (ff_host s)) = (handle, ph_registry (ff_host s'))"
    by (cases rule: begin_cases) (use begun(5) in auto)
  with begun show ?thesis by blast
qed simp

theorem ffi_begin_gated_witness:
  "\<exists>s' cfg driver. EapPeerBeginSession demo_roots demo_builder demo_ncrypt demo_os
       (word_of_nat (length (config_to_bytes demo_blob))) 16 32 0 demo_ffi = Some (Inr (), s')
     \<and> made_for demo_roots demo_builder demo_ncrypt demo_os
         (take (unat (word_of_nat (length (config_to_bytes demo_blob)) :: u32)) (config_to_bytes demo_blob)) [] cfg driver"
proof -
  obtain s' where s': "EapPeerBeginSession demo_roots demo_builder demo_ncrypt demo_os
       (word_of_nat (length (config_to_bytes demo_blob))) 16 32 0 demo_ffi = Some (Inr (), s')"
    using demo_begin_routine by blast
  from ffi_begin_gated [OF s'] s' show ?thesis by (auto simp: demo_ffi_def peer_host_init_def)
qed

text \<open>C32: no octet goes past a buffer. A packet whose declared length is below the EAP header or above 65535 is
  refused before it is looked at. A response is written only into a buffer whose declared size holds
  all of it, leaving the octets behind it; a probe without a buffer and a buffer too small get the
  size, and the response stays for the next call; in each case nothing else of the memory or of the
  sessions changes.\<close>

theorem ffi_buffers_bounded:
  assumes "live (ph_registry (ff_host s)) (ptr_to_handle ptr) = Some sess" and "ps_pending sess = Some bs"
    and "ff_mem s pcb = Some (CU32 w)" and "ff_mem s p = Some (COctets buf)" and "unat w \<le> length buf"
    and "pcb \<noteq> 0" and "p \<noteq> 0" and "bs \<noteq> []" and "length bs \<le> u32_max"
  shows "(unat cb < 4 \<or> 65535 < unat cb \<longrightarrow>
      EapPeerProcessRequestPacket step established os ptr cb p_in p_out 0 s = Some (Inl E_FAIL, s))
    \<and> EapPeerGetResponsePacket ptr pcb 0 0 s
        = Some (Inl E_FAIL, s\<lparr>ff_mem := (ff_mem s)(pcb \<mapsto> CU32 (word_of_nat (length bs)))\<rparr>)
    \<and> (unat w < length bs \<longrightarrow> EapPeerGetResponsePacket ptr pcb p 0 s
        = Some (Inl E_FAIL, s\<lparr>ff_mem := (ff_mem s)(pcb \<mapsto> CU32 (word_of_nat (length bs)))\<rparr>))
    \<and> (length bs \<le> unat w \<longrightarrow> (\<exists>s'. EapPeerGetResponsePacket ptr pcb p 0 s = Some (Inr (), s')
        \<and> ff_mem s' = (ff_mem s)(p \<mapsto> COctets (bs @ drop (length bs) buf), pcb \<mapsto> CU32 (word_of_nat (length bs)))
        \<and> live (ph_registry (ff_host s')) = (live (ph_registry (ff_host s)))(ptr_to_handle ptr \<mapsto> sess\<lparr>ps_pending := None\<rparr>)))"
proof -
  let ?r = "ph_registry (ff_host s)" and ?h = "ptr_to_handle ptr"
  have small: "registry_fetch_response ?h n ?r = (TooSmall (length bs), ?r)" if "n < length bs" for n
    using assms(1,2) that by (simp add: registry_fetch_response_def live_def peer_response_len_def)
  have fits: "\<exists>r'. registry_fetch_response ?h n ?r = (Taken bs, r') \<and> live r' = (live ?r)(?h \<mapsto> sess\<lparr>ps_pending := None\<rparr>)"
    if "length bs \<le> n" for n
    using assms(1,2) that
    by (auto simp: registry_fetch_response_def live_def peer_response_len_def peer_take_response_def update_conv')
  have ne: "p \<noteq> pcb" using assms(3,4) by auto
  have m: "min (length bs) u32_max = length bs" using assms(9) by simp
  note g = EapPeerGetResponsePacket_def bindO_def clear_error_def poke_opt_def returnO_def throwO_def hostO_def
    peek_u32_def poke_def copy_out_def
  have 1: "EapPeerProcessRequestPacket step established os ptr cb p_in p_out 0 s = Some (Inl E_FAIL, s)"
    if "unat cb < 4 \<or> 65535 < unat cb"
    using that
    by (auto simp: EapPeerProcessRequestPacket_def bindO_def clear_error_def poke_opt_def returnO_def throwO_def
        FFI_EAP_HEADER_LEN_def MAX_EAP_PACKET_def word_le_nat_alt)
  have 2: "EapPeerGetResponsePacket ptr pcb 0 0 s
        = Some (Inl E_FAIL, s\<lparr>ff_mem := (ff_mem s)(pcb \<mapsto> CU32 (word_of_nat (length bs)))\<rparr>)"
    using small [of 0] assms(3,6,8) by (simp add: g m)
  have 3: "EapPeerGetResponsePacket ptr pcb p 0 s
        = Some (Inl E_FAIL, s\<lparr>ff_mem := (ff_mem s)(pcb \<mapsto> CU32 (word_of_nat (length bs)))\<rparr>)" if "unat w < length bs"
    using small [OF that] assms(3,6,7) by (simp add: g m)
  have 4: "\<exists>s'. EapPeerGetResponsePacket ptr pcb p 0 s = Some (Inr (), s')
        \<and> ff_mem s' = (ff_mem s)(p \<mapsto> COctets (bs @ drop (length bs) buf), pcb \<mapsto> CU32 (word_of_nat (length bs)))
        \<and> live (ph_registry (ff_host s')) = (live ?r)(?h \<mapsto> sess\<lparr>ps_pending := None\<rparr>)" if le: "length bs \<le> unat w"
  proof -
    obtain r' where r': "registry_fetch_response ?h (unat w) ?r = (Taken bs, r')"
      "live r' = (live ?r)(?h \<mapsto> sess\<lparr>ps_pending := None\<rparr>)"
      using fits [OF le] by blast
    have "length bs \<le> length buf" using le assms(5) by simp
    with r' assms(3,4,6,7,8) ne show ?thesis by (simp add: g m not_less)
  qed
  from 1 2 3 4 show ?thesis by blast
qed

definition demo_pending :: "unit ffi_state" where
  "demo_pending = \<lparr>ff_host = (peer_host_init demo_host)\<lparr>ph_registry :=
       \<lparr>rg_next = 2, rg_sessions = [(1, (peer_new UserSession ())\<lparr>ps_pending := Some [7, 8]\<rparr>)]\<rparr>\<rparr>,
     ff_mem = [16 \<mapsto> CU32 3, 32 \<mapsto> COctets [0, 0, 9, 9]], ff_heap = []\<rparr>"

theorem ffi_buffers_bounded_witness:
  "\<exists>s'. EapPeerGetResponsePacket 1 16 32 0 demo_pending = Some (Inr (), s')
     \<and> ff_mem s' 32 = Some (COctets [7, 8, 9, 9])"
proof -
  have l: "live (ph_registry (ff_host demo_pending)) (ptr_to_handle 1)
      = Some ((peer_new UserSession ())\<lparr>ps_pending := Some [7, 8]\<rparr>)"
    by (simp add: demo_pending_def live_def ptr_to_handle_def)
  have m: "ff_mem demo_pending 16 = Some (CU32 3)" "ff_mem demo_pending 32 = Some (COctets [0, 0, 9, 9])"
    by (simp_all add: demo_pending_def)
  have "unat (3 :: u32) \<le> length [0 :: u8, 0, 9, 9]" "length [7 :: u8, 8] \<le> u32_max" "length [7 :: u8, 8] \<le> unat (3 :: u32)"
    by (simp_all add: u32_max_def)
  from ffi_buffers_bounded [OF l _ m this(1) _ _ _ this(2)] this(3) show ?thesis by fastforce
qed

end
