(* ===== verification/Wide.thy ===== *)
theory Wide
  imports Text_Codec
begin

text \<open>
  Wide strings, in which Windows takes names and text: the characters of a Rust string, their UTF-16
  code units (\<open>str::encode_utf16\<close>), the terminated form that every crate of the repository builds in
  its helper \<open>wide\<close>, and what a routine that takes a \<open>PCWSTR\<close> reads.
\<close>

section \<open>Characters\<close>

text \<open>The Unicode scalar values of a well-formed string (\<open>chars()\<close>).\<close>

definition low6 :: "u8 \<Rightarrow> nat" where
  "low6 b = unat b - 0x80"

fun chars :: "str \<Rightarrow> nat list" where
  "chars [] = []"
| "chars (a # bs) =
     (if a < 0x80 then unat a # chars bs
      else if a \<le> 0xDF then
        (case bs of b # cs \<Rightarrow> ((unat a - 0xC0) * 64 + low6 b) # chars cs | _ \<Rightarrow> [])
      else if a \<le> 0xEF then
        (case bs of b # c # ds \<Rightarrow> ((unat a - 0xE0) * 4096 + low6 b * 64 + low6 c) # chars ds | _ \<Rightarrow> [])
      else
        (case bs of b # c # d # es \<Rightarrow>
             ((unat a - 0xF0) * 262144 + low6 b * 4096 + low6 c * 64 + low6 d) # chars es
         | _ \<Rightarrow> []))"

definition scalar :: "nat \<Rightarrow> bool" where
  "scalar c \<longleftrightarrow> c < 0xD800 \<or> 0xE000 \<le> c \<and> c < 0x110000"

section \<open>UTF-16\<close>

definition utf16_units :: "nat \<Rightarrow> u16 list" where
  "utf16_units c =
     (if c < 0x10000 then [word_of_nat c]
      else [word_of_nat (0xD800 + (c - 0x10000) div 1024), word_of_nat (0xDC00 + (c - 0x10000) mod 1024)])"

definition encode_utf16 :: "str \<Rightarrow> u16 list" where
  "encode_utf16 s = concat (map utf16_units (chars s))"

definition wide :: "str \<Rightarrow> u16 list" where
  "wide s = encode_utf16 s @ [0]"

definition pcwstr :: "u16 list \<Rightarrow> u16 list" where
  "pcwstr w = takeWhile (\<lambda>c. c \<noteq> 0) w"

text \<open>The octets of a slice of code units on a little-endian machine.\<close>

definition u16_bytes :: "u16 list \<Rightarrow> bytes" where
  "u16_bytes w = concat (map (le_of_word 2) w)"

section \<open>Nothing is lost\<close>

text \<open>A reader of UTF-16, to say what the code units stand for.\<close>

fun decode_utf16 :: "u16 list \<Rightarrow> nat list" where
  "decode_utf16 [] = []"
| "decode_utf16 (u # us) =
     (if 0xD800 \<le> unat u \<and> unat u < 0xDC00 then
        (case us of v # vs \<Rightarrow> ((unat u - 0xD800) * 1024 + (unat v - 0xDC00) + 0x10000) # decode_utf16 vs
         | [] \<Rightarrow> [])
      else unat u # decode_utf16 us)"

lemma decode_units: "scalar c \<Longrightarrow> decode_utf16 (utf16_units c @ us) = c # decode_utf16 us"
proof (cases "c < 0x10000")
  case True
  then show "scalar c \<Longrightarrow> ?thesis" by (auto simp: utf16_units_def scalar_def)
next
  case False
  assume "scalar c"
  define q r where "q = (c - 0x10000) div 1024" and "r = (c - 0x10000) mod 1024"
  define hi lo :: u16 where "hi = word_of_nat (0xD800 + q)" and "lo = word_of_nat (0xDC00 + r)"
  have "q < 1024" "r < 1024" using False \<open>scalar c\<close> by (auto simp: scalar_def q_def r_def)
  then have u: "unat hi = 0xD800 + q" "unat lo = 0xDC00 + r"
    unfolding hi_def lo_def by (simp_all only: unat_of_nat_u16)
  have "q * 1024 + r = c - 0x10000" unfolding q_def r_def by (rule div_mult_mod_eq)
  moreover have "utf16_units c = [hi, lo]"
    unfolding utf16_units_def hi_def lo_def q_def r_def using False by (simp only: if_False)
  ultimately show ?thesis using False u \<open>q < 1024\<close> by simp
qed

lemma decode_encode16: "list_all scalar cs \<Longrightarrow> decode_utf16 (concat (map utf16_units cs)) = cs"
  by (induction cs) (simp_all add: decode_units)

lemma scalar_two: "0xC2 \<le> (a :: u8) \<Longrightarrow> a \<le> 0xDF \<Longrightarrow> utf8_cont b \<Longrightarrow> scalar ((unat a - 0xC0) * 64 + low6 b)"
  by (auto simp: scalar_def low6_def utf8_cont_def word_le_nat_alt)

lemma scalar_three:
  assumes "0xE0 \<le> (a :: u8)" "a \<le> 0xEF" "utf8_cont b" "utf8_cont c" "a = 0xED \<longrightarrow> b \<le> 0x9F"
  shows "scalar ((unat a - 0xE0) * 4096 + low6 b * 64 + low6 c)"
proof -
  have b: "low6 b < 64" "low6 c < 64" using assms(3,4) by (auto simp: low6_def utf8_cont_def word_le_nat_alt)
  have a: "0xE0 \<le> unat a" "unat a \<le> 0xEF" using assms(1,2) by (simp_all add: word_le_nat_alt)
  consider "unat a < 0xED" | "unat a = 0xED" | "0xEE \<le> unat a" by linarith
  then show ?thesis
  proof cases
    case 2
    then have "a = 0xED" by (simp add: word_unat_eq_iff)
    then have "low6 b < 32" using assms(5) by (simp add: low6_def word_le_nat_alt)
    with 2 b show ?thesis by (simp add: scalar_def)
  next
    case 1
    then have "(unat a - 0xE0) * 4096 + low6 b * 64 + low6 c < 0xD800" using a b by linarith
    then show ?thesis by (simp add: scalar_def)
  next
    case 3
    then have "0xE000 \<le> (unat a - 0xE0) * 4096 + low6 b * 64 + low6 c"
      "(unat a - 0xE0) * 4096 + low6 b * 64 + low6 c < 0x110000" using a b by linarith+
    then show ?thesis by (simp add: scalar_def)
  qed
qed

lemma scalar_four:
  assumes "0xF0 \<le> (a :: u8)" "a \<le> 0xF4" "utf8_cont b" "utf8_cont c" "utf8_cont d" "a = 0xF0 \<longrightarrow> 0x90 \<le> b"
    "a = 0xF4 \<longrightarrow> b \<le> 0x8F"
  shows "scalar ((unat a - 0xF0) * 262144 + low6 b * 4096 + low6 c * 64 + low6 d)"
proof -
  have b: "low6 b < 64" "low6 c < 64" "low6 d < 64"
    using assms(3-5) by (auto simp: low6_def utf8_cont_def word_le_nat_alt)
  have a: "0xF0 \<le> unat a" "unat a \<le> 0xF4" using assms(1,2) by (simp_all add: word_le_nat_alt)
  consider "unat a = 0xF0" | "0xF1 \<le> unat a" "unat a < 0xF4" | "unat a = 0xF4" using a by linarith
  then show ?thesis
  proof cases
    case 1
    then have "a = 0xF0" by (simp add: word_unat_eq_iff)
    then have "16 \<le> low6 b" using assms(6) by (simp add: low6_def word_le_nat_alt)
    with 1 b show ?thesis by (simp add: scalar_def)
  next
    case 3
    then have "a = 0xF4" by (simp add: word_unat_eq_iff)
    then have "low6 b < 16" using assms(7) by (simp add: low6_def word_le_nat_alt)
    with 3 b show ?thesis by (simp add: scalar_def)
  next
    case 2
    then have "0xE000 \<le> (unat a - 0xF0) * 262144 + low6 b * 4096 + low6 c * 64 + low6 d"
      "(unat a - 0xF0) * 262144 + low6 b * 4096 + low6 c * 64 + low6 d < 0x110000" using b by linarith+
    then show ?thesis by (simp add: scalar_def)
  qed
qed

lemma scalar_one: "(a :: u8) < 0x80 \<Longrightarrow> scalar (unat a)"
  by (simp add: scalar_def word_less_nat_alt)

lemma chars_scalar: "utf8_valid s \<Longrightarrow> list_all scalar (chars s)"
proof (induction s rule: chars.induct)
  case (2 a bs)
  note v = "2.prems" [unfolded utf8_valid.simps(2)]
  consider "a < 0x80" | "\<not> a < 0x80" "0xC2 \<le> a" "a \<le> 0xDF"
    | "\<not> a < 0x80" "\<not> a \<le> 0xDF" "0xE0 \<le> a" "a \<le> 0xEF"
    | "\<not> a < 0x80" "\<not> a \<le> 0xDF" "\<not> a \<le> 0xEF" "0xF0 \<le> a" "a \<le> 0xF4"
    using v by (auto simp: word_le_nat_alt word_less_nat_alt split: if_splits)
  then show ?case
  proof cases
    case 1
    with v "2.IH"(1) show ?thesis by (simp add: scalar_one)
  next
    case 2
    with v obtain b cs where "bs = b # cs" "utf8_cont b" "utf8_valid cs" by (auto split: list.splits)
    with 2 "2.IH"(2) show ?thesis by (simp add: scalar_two)
  next
    case 3
    with v obtain b c ds where "bs = b # c # ds" "utf8_cont b" "utf8_cont c" "a = 0xED \<longrightarrow> b \<le> 0x9F" "utf8_valid ds"
      by (auto split: list.splits)
    with 3 "2.IH"(3) show ?thesis by (simp add: scalar_three)
  next
    case 4
    with v obtain b c d es where "bs = b # c # d # es" "utf8_cont b" "utf8_cont c" "utf8_cont d"
      "a = 0xF0 \<longrightarrow> 0x90 \<le> b" "a = 0xF4 \<longrightarrow> b \<le> 0x8F" "utf8_valid es"
      by (auto split: list.splits)
    with 4 "2.IH"(4) show ?thesis by (simp add: scalar_four)
  qed
qed simp

lemma wide_reads_back: "utf8_valid s \<Longrightarrow> decode_utf16 (encode_utf16 s) = chars s"
  by (simp add: encode_utf16_def decode_encode16 chars_scalar)

end
