(* ===== verification/Registration.thy ===== *)
theory Registration
  imports Wide Config_Blob "HOL-Library.Sublist"
begin

text \<open>
  Registering the peer method: crates/eaphost/src/register.rs. The Windows registry is an explicit state with
  the failures of its routines still to come, like the disk of \<open>Files\<close>; a failing routine may have
  done part of its work.
\<close>

section \<open>The registry\<close>

type_synonym hkey = nat
type_synonym reg_path = "u16 list list"

datatype reg_value = RegSz bytes | RegDword bytes  \<comment> \<open>the type and the data\<close>

text \<open>
  One routine call to come: its status, and which keys it has created or deleted although it failed.
  After the list every call succeeds.
\<close>

record win_registry =
  wr_keys :: "hkey \<times> reg_path \<rightharpoonup> (u16 list \<rightharpoonup> reg_value)"
  wr_faults :: "(u32 \<times> reg_path list) list"
  wr_open :: "(hkey \<times> reg_path) list"  \<comment> \<open>the handles not yet closed\<close>

definition wr_next :: "win_registry \<Rightarrow> (u32 \<times> reg_path list) \<times> win_registry" where
  "wr_next w =
     (case wr_faults w of
        [] \<Rightarrow> ((0, []), w)
      | f # fs \<Rightarrow> (f, w\<lparr>wr_faults := fs\<rparr>))"

text \<open>Names are compared without case; the names in this program are ASCII. A path is split at
  backslashes.\<close>

definition reg_fold :: "u16 list \<Rightarrow> u16 list" where
  "reg_fold w = map (\<lambda>c. if 97 \<le> c \<and> c \<le> 122 then c - 32 else c) w"

fun split_at :: "'a \<Rightarrow> 'a list \<Rightarrow> 'a list list" where
  "split_at c [] = [[]]"
| "split_at c (x # xs) =
     (if x = c then [] # split_at c xs
      else (case split_at c xs of [] \<Rightarrow> [[x]] | w # ws \<Rightarrow> (x # w) # ws))"

definition reg_path :: "u16 list \<Rightarrow> reg_path" where
  "reg_path w = split_at 92 (reg_fold (pcwstr w))"

definition make_keys :: "hkey \<Rightarrow> (reg_path \<Rightarrow> bool) \<Rightarrow> win_registry \<Rightarrow> win_registry" where
  "make_keys root P w =
     w\<lparr>wr_keys := (\<lambda>k. if wr_keys w k = None \<and> fst k = root \<and> P (snd k) then Some Map.empty else wr_keys w k)\<rparr>"

definition drop_keys :: "hkey \<Rightarrow> (reg_path \<Rightarrow> bool) \<Rightarrow> win_registry \<Rightarrow> win_registry" where
  "drop_keys root P w = w\<lparr>wr_keys := (\<lambda>k. if fst k = root \<and> P (snd k) then None else wr_keys w k)\<rparr>"

text \<open>\<open>RegCreateKeyExW\<close> creates the key and those above it that are missing; a failure stops below the
  key itself.\<close>

definition reg_create_key :: "hkey \<Rightarrow> u16 list \<Rightarrow> win_registry \<Rightarrow> (u32 + (hkey \<times> reg_path)) \<times> win_registry" where
  "reg_create_key root subkey w =
     (case wr_next w of
        ((status, made), w1) \<Rightarrow>
          if status \<noteq> 0 then
            (Inl status, make_keys root (\<lambda>p. p \<in> set made \<and> strict_prefix p (reg_path subkey)) w1)
          else
            (Inr (root, reg_path subkey),
             (make_keys root (\<lambda>p. prefix p (reg_path subkey)) w1)
               \<lparr>wr_open := (root, reg_path subkey) # wr_open w1\<rparr>))"

definition reg_set_value :: "hkey \<times> reg_path \<Rightarrow> u16 list \<Rightarrow> reg_value \<Rightarrow> win_registry \<Rightarrow> u32 \<times> win_registry" where
  "reg_set_value h name v w =
     (case wr_next w of
        ((status, _), w1) \<Rightarrow>
          if status \<noteq> 0 then (status, w1)
          else (0, w1\<lparr>wr_keys := (wr_keys w1)
                 (h \<mapsto> (unwrap_or (wr_keys w1 h) Map.empty)(reg_fold (pcwstr name) \<mapsto> v))\<rparr>))"

definition reg_close_key :: "hkey \<times> reg_path \<Rightarrow> win_registry \<Rightarrow> win_registry" where
  "reg_close_key h w = w\<lparr>wr_open := remove1 h (wr_open w)\<rparr>"

text \<open>\<open>RegDeleteTreeW\<close> with a subkey deletes it and everything under it; status 2 is
  \<open>ERROR_FILE_NOT_FOUND\<close>.\<close>

definition reg_delete_tree :: "hkey \<Rightarrow> u16 list \<Rightarrow> win_registry \<Rightarrow> u32 \<times> win_registry" where
  "reg_delete_tree root subkey w =
     (case wr_next w of
        ((status, gone), w1) \<Rightarrow>
          if status \<noteq> 0 then
            (status, drop_keys root (\<lambda>p. p \<in> set gone \<and> prefix (reg_path subkey) p) w1)
          else if wr_keys w1 (root, reg_path subkey) = None then (2, w1)
          else (0, drop_keys root (\<lambda>p. prefix (reg_path subkey) p) w1))"

section \<open>The registration\<close>

definition HKEY_LOCAL_MACHINE :: hkey where "HKEY_LOCAL_MACHINE = 0x80000002"

definition EAPHOST_METHODS_KEY :: str where
  "EAPHOST_METHODS_KEY = ascii ''SYSTEM'' @ [92] @ ascii ''CurrentControlSet'' @ [92] @ ascii ''Services''
     @ [92] @ ascii ''EapHost'' @ [92] @ ascii ''Methods''"

definition FRIENDLY_NAME :: str where "FRIENDLY_NAME = ascii ''usg-TEAP/1.3''"

definition METHOD_PROPERTIES :: u32 where
  "METHOD_PROPERTIES = 0x00080000 OR 0x00100000 OR 0x00200000 OR 0x01000000 OR 0x02000000 OR 0x04000000"

definition method_subkey :: "str \<Rightarrow> str" where
  "method_subkey base = base @ [92] @ decimal USG_AUTHOR_ID @ [92] @ decimal USG_TYPE_ID"

type_synonym 'a reg_op = "(win_registry, eap_host_error, 'a) op"

definition win32 :: "u32 \<Rightarrow> eap_host_error + unit" where
  "win32 code = (if code = 0 then Inr () else Inl (Win32Error code))"

definition set_sz :: "hkey \<times> reg_path \<Rightarrow> string \<Rightarrow> str \<Rightarrow> unit reg_op" where
  "set_sz h name value w =
     (case reg_set_value h (wide (ascii name)) (RegSz (u16_bytes (wide value))) w of
        (status, w1) \<Rightarrow> Some (win32 status, w1))"

definition set_dword :: "hkey \<times> reg_path \<Rightarrow> string \<Rightarrow> u32 \<Rightarrow> unit reg_op" where
  "set_dword h name value w =
     (case reg_set_value h (wide (ascii name)) (RegDword (le_of_word 4 value)) w of
        (status, w1) \<Rightarrow> Some (win32 status, w1))"

definition register_values :: "hkey \<times> reg_path \<Rightarrow> str \<Rightarrow> unit reg_op" where
  "register_values h dll_path =
     bindO (set_sz h ''PeerDllPath'' dll_path) (\<lambda>_.
     bindO (set_sz h ''PeerIdentityPath'' dll_path) (\<lambda>_.
     bindO (set_sz h ''PeerConfigUIPath'' dll_path) (\<lambda>_.
     bindO (set_sz h ''PeerFriendlyName'' FRIENDLY_NAME) (\<lambda>_.
     bindO (set_dword h ''PeerInvokeUsernameDialog'' 0) (\<lambda>_.
     bindO (set_dword h ''PeerInvokePasswordDialog'' 0) (\<lambda>_.
     bindO (set_dword h ''Properties'' METHOD_PROPERTIES) (\<lambda>_. returnO ())))))))"

definition register_under :: "hkey \<Rightarrow> str \<Rightarrow> str \<Rightarrow> unit reg_op" where
  "register_under root base dll_path w =
     (case reg_create_key root (wide (method_subkey base)) w of
        (Inl status, w1) \<Rightarrow> Some (Inl (Win32Error status), w1)
      | (Inr h, w1) \<Rightarrow>
          (case register_values h dll_path w1 of
             None \<Rightarrow> None
           | Some (result, w2) \<Rightarrow> Some (result, reg_close_key h w2)))"

definition unregister_under :: "hkey \<Rightarrow> str \<Rightarrow> unit reg_op" where
  "unregister_under root base w =
     (case reg_delete_tree root (wide (method_subkey base)) w of
        (status, w1) \<Rightarrow> Some (if status = 0 then Inr () else Inl (Win32Error status), w1))"

definition register :: "str \<Rightarrow> unit reg_op" where
  "register dll_path = register_under HKEY_LOCAL_MACHINE EAPHOST_METHODS_KEY dll_path"

definition unregister :: "unit reg_op" where
  "unregister = unregister_under HKEY_LOCAL_MACHINE EAPHOST_METHODS_KEY"


section \<open>What a registration does\<close>

text \<open>The values of the method key, in the order they are written.\<close>

definition reg_name :: "string \<Rightarrow> u16 list" where
  "reg_name s = reg_fold (pcwstr (wide (ascii s)))"

definition method_values :: "str \<Rightarrow> (u16 list \<times> reg_value) list" where
  "method_values dll =
     map (\<lambda>(n, v). (reg_name n, RegSz (u16_bytes (wide v))))
       [(''PeerDllPath'', dll), (''PeerIdentityPath'', dll), (''PeerConfigUIPath'', dll),
        (''PeerFriendlyName'', FRIENDLY_NAME)]
     @ map (\<lambda>(n, v). (reg_name n, RegDword (le_of_word 4 v)))
       [(''PeerInvokeUsernameDialog'', 0), (''PeerInvokePasswordDialog'', 0), (''Properties'', METHOD_PROPERTIES)]"

definition method_path :: "str \<Rightarrow> reg_path" where
  "method_path base = reg_path (wide (method_subkey base))"

lemma method_names: "distinct (map fst (method_values dll))"
  by (simp add: method_values_def reg_name_def) (simp add: wide_def encode_utf16_def utf16_units_def ascii_def reg_fold_def pcwstr_def)

lemma length_method_values: "length (method_values dll) = 7"
  by (simp add: method_values_def)

text \<open>Writing values one by one, up to the first that fails.\<close>

fun set_all :: "hkey \<times> reg_path \<Rightarrow> (u16 list \<times> reg_value) list \<Rightarrow> unit reg_op" where
  "set_all h [] w = Some (Inr (), w)"
| "set_all h ((n, v) # vs) w =
     (case wr_next w of
        ((status, _), w1) \<Rightarrow>
          if status \<noteq> 0 then Some (Inl (Win32Error status), w1)
          else set_all h vs (w1\<lparr>wr_keys := (wr_keys w1)
            (h \<mapsto> (unwrap_or (wr_keys w1 h) Map.empty)(n \<mapsto> v))\<rparr>))"

lemma set_sz_all: "set_sz h n v = set_all h [(reg_name n, RegSz (u16_bytes (wide v)))]"
  by (rule ext) (simp add: set_sz_def reg_set_value_def reg_name_def win32_def split: prod.split)

lemma set_dword_all: "set_dword h n v = set_all h [(reg_name n, RegDword (le_of_word 4 v))]"
  by (rule ext) (simp add: set_dword_def reg_set_value_def reg_name_def win32_def split: prod.split)

lemma set_all_app: "bindO (set_all h vs) (\<lambda>_. set_all h us) = set_all h (vs @ us)"
proof
  show "bindO (set_all h vs) (\<lambda>_. set_all h us) w = set_all h (vs @ us) w" for w
    by (induction h vs w rule: set_all.induct) (simp_all add: bindO_def split: prod.split)
qed

lemma register_values_all: "register_values h dll = set_all h (method_values dll)"
proof -
  have "returnO () = set_all h []" by (rule ext) (simp add: returnO_def)
  then show ?thesis
    by (simp only: register_values_def set_sz_all set_dword_all set_all_app method_values_def list.map prod.case append.simps)
qed

lemma wr_next_frame [simp]:
  "wr_keys (snd (wr_next w)) = wr_keys w" "wr_open (snd (wr_next w)) = wr_open w"
  by (simp_all add: wr_next_def split: list.split)

lemma set_all_effect:
  assumes "set_all h vs w = Some (r, w')" and "distinct (map fst vs)" and "wr_keys w h = Some m"
  shows "wr_open w' = wr_open w \<and> (\<forall>k. k \<noteq> h \<longrightarrow> wr_keys w' k = wr_keys w k)
    \<and> (case r of
         Inr _ \<Rightarrow> wr_keys w' h = Some (m ++ map_of vs)
       | Inl e \<Rightarrow> \<exists>n status. n < length vs \<and> status \<noteq> 0 \<and> e = Win32Error status
           \<and> wr_keys w' h = Some (m ++ map_of (take n vs)))"
  using assms
proof (induction h vs w arbitrary: m rule: set_all.induct)
  case (2 h n v vs w)
  obtain f w1 where f: "wr_next w = (f, w1)" by (cases "wr_next w")
  then have w1: "wr_keys w1 = wr_keys w" "wr_open w1 = wr_open w" using wr_next_frame [of w] by simp_all
  obtain status ps where s: "f = (status, ps)" by (cases f)
  show ?case
  proof (cases "status = 0")
    case False
    with 2(2) f s have "r = Inl (Win32Error status)" "w' = w1" by auto
    with w1 2(4) False show ?thesis by (auto intro!: exI [of _ 0])
  next
    case True
    let ?w2 = "w1\<lparr>wr_keys := (wr_keys w1)(h \<mapsto> (unwrap_or (wr_keys w1 h) Map.empty)(n \<mapsto> v))\<rparr>"
    from True 2(2) f s have r: "set_all h vs ?w2 = Some (r, w')" by simp
    have k: "wr_keys ?w2 h = Some (m(n \<mapsto> v))" using w1 2(4) by simp
    have ih: "wr_open w' = wr_open ?w2 \<and> (\<forall>k. k \<noteq> h \<longrightarrow> wr_keys w' k = wr_keys ?w2 k)
      \<and> (case r of
         Inr _ \<Rightarrow> wr_keys w' h = Some (m(n \<mapsto> v) ++ map_of vs)
       | Inl e \<Rightarrow> \<exists>i status. i < length vs \<and> status \<noteq> 0 \<and> e = Win32Error status
           \<and> wr_keys w' h = Some (m(n \<mapsto> v) ++ map_of (take i vs)))"
      by (rule 2(1) [OF f [symmetric] s [symmetric] _ r _ k]) (use True 2(3) in simp_all)
    have over: "m(n \<mapsto> v) ++ map_of us = m ++ map_of ((n, v) # us)" if "set us \<subseteq> set vs" for us
    proof -
      have "n \<notin> fst ` set us" using 2(3) that by auto
      then have "n \<notin> dom (map_of us)" by (simp add: dom_map_of_conv_image_fst)
      then show ?thesis by (simp add: map_add_upd_left)
    qed
    have o: "m(n \<mapsto> v) ++ map_of vs = m ++ map_of ((n, v) # vs)" by (rule over) simp
    have t: "m(n \<mapsto> v) ++ map_of (take i vs) = m ++ map_of (take (Suc i) ((n, v) # vs))" for i
      using over [of "take i vs"] by (simp add: set_take_subset)
    show ?thesis
    proof (cases r)
      case (Inl e)
      with ih obtain i st where i: "i < length vs" "st \<noteq> 0" "e = Win32Error st"
        "wr_keys w' h = Some (m ++ map_of (take (Suc i) ((n, v) # vs)))" unfolding t by auto
      show ?thesis
        using ih Inl i w1 by (auto intro!: exI [of _ "Suc i"] simp del: take_Suc_Cons)
    next
      case (Inr u)
      with ih w1 show ?thesis unfolding o by simp
    qed
  qed
qed auto


lemma create_effect:
  assumes "reg_create_key root sk w = (r, w1)"
  shows "(\<forall>k. k \<noteq> (root, reg_path sk) \<longrightarrow> wr_keys w1 k = wr_keys w k
      \<or> wr_keys w k = None \<and> wr_keys w1 k = Some Map.empty \<and> fst k = root \<and> strict_prefix (snd k) (reg_path sk))
    \<and> (case r of
         Inr h \<Rightarrow> h = (root, reg_path sk) \<and> wr_open w1 = h # wr_open w
           \<and> wr_keys w1 h = Some (unwrap_or (wr_keys w h) Map.empty)
       | Inl status \<Rightarrow> status \<noteq> 0 \<and> wr_open w1 = wr_open w
           \<and> wr_keys w1 (root, reg_path sk) = wr_keys w (root, reg_path sk))"
proof -
  obtain f w0 where f: "wr_next w = (f, w0)" by (cases "wr_next w")
  then have w0: "wr_keys w0 = wr_keys w" "wr_open w0 = wr_open w" using wr_next_frame [of w] by simp_all
  obtain status made where s: "f = (status, made)" by (cases f)
  show ?thesis
    using assms f s w0 by (auto simp: reg_create_key_def make_keys_def strict_prefix_def unwrap_or_def split: if_splits option.split)
qed

lemma register_effect:
  assumes "register_under root base dll w = Some (r, w')"
  shows "wr_open w' = wr_open w
    \<and> (\<forall>k. k \<noteq> (root, method_path base) \<longrightarrow> wr_keys w' k = wr_keys w k
        \<or> wr_keys w k = None \<and> wr_keys w' k = Some Map.empty \<and> fst k = root
          \<and> strict_prefix (snd k) (method_path base))
    \<and> (let before = unwrap_or (wr_keys w (root, method_path base)) Map.empty; after = wr_keys w' (root, method_path base)
       in case r of
         Inr _ \<Rightarrow> after = Some (before ++ map_of (method_values dll))
       | Inl e \<Rightarrow> \<exists>status. status \<noteq> 0 \<and> e = Win32Error status
           \<and> (after = wr_keys w (root, method_path base)
              \<or> (\<exists>n < 7. after = Some (before ++ map_of (take n (method_values dll))))))"
proof -
  obtain c w1 where c: "reg_create_key root (wide (method_subkey base)) w = (c, w1)"
    by (cases "reg_create_key root (wide (method_subkey base)) w")
  note e = create_effect [OF c, folded method_path_def]
  show ?thesis
  proof (cases c)
    case (Inl status)
    with assms c have "r = Inl (Win32Error status)" "w' = w1" by (simp_all add: register_under_def)
    with e Inl show ?thesis by simp
  next
    case (Inr h)
    with e have h: "h = (root, method_path base)" "wr_open w1 = h # wr_open w"
      "wr_keys w1 h = Some (unwrap_or (wr_keys w h) Map.empty)" by auto
    from assms c Inr obtain w2 where s: "set_all h (method_values dll) w1 = Some (r, w2)" "w' = reg_close_key h w2"
      by (auto simp: register_under_def register_values_all split: option.splits)
    note a = set_all_effect [OF s(1) method_names h(3), unfolded length_method_values]
    have w': "wr_open w' = wr_open w" "wr_keys w' = wr_keys w2"
      using s(2) a h(2) by (simp_all add: reg_close_key_def)
    from a have fr: "wr_keys w2 k = wr_keys w1 k" if "k \<noteq> h" for k using that by blast
    show ?thesis
    proof (intro conjI allI impI)
      show "wr_open w' = wr_open w" by (rule w')
      show "wr_keys w' k = wr_keys w k \<or> wr_keys w k = None \<and> wr_keys w' k = Some Map.empty \<and> fst k = root
          \<and> strict_prefix (snd k) (method_path base)" if "k \<noteq> (root, method_path base)" for k
        using conjunct1 [OF e, rule_format, OF that] that fr [of k] h(1) w'(2) by simp
      show "let before = unwrap_or (wr_keys w (root, method_path base)) Map.empty; after = wr_keys w' (root, method_path base)
       in case r of
         Inr _ \<Rightarrow> after = Some (before ++ map_of (method_values dll))
       | Inl e \<Rightarrow> \<exists>status. status \<noteq> 0 \<and> e = Win32Error status
           \<and> (after = wr_keys w (root, method_path base)
              \<or> (\<exists>n < 7. after = Some (before ++ map_of (take n (method_values dll)))))"
        using a w' h(1) by (cases r) (auto simp: Let_def)
    qed
  qed
qed

lemma set_all_total: "set_all h vs w \<noteq> None"
  by (induction h vs w rule: set_all.induct) (auto split: prod.split)

lemma register_total: "\<exists>r w'. register_under root base dll w = Some (r, w')"
proof -
  have "register_under root base dll w \<noteq> None"
    by (auto simp: register_under_def register_values_all set_all_total split: prod.split sum.split option.split)
  then show ?thesis by auto
qed

lemma unregister_effect:
  assumes "wr_faults w = []" and "wr_keys w (root, method_path base) \<noteq> None"
  shows "\<exists>w'. unregister_under root base w = Some (Inr (), w') \<and> wr_faults w' = []
    \<and> (\<forall>k. wr_keys w' k = (if fst k = root \<and> prefix (method_path base) (snd k) then None else wr_keys w k))"
  using assms
  by (simp add: unregister_under_def reg_delete_tree_def wr_next_def drop_keys_def method_path_def)

lemma unregister_missing:
  assumes "wr_faults w = []" and "wr_keys w (root, method_path base) = None"
  shows "unregister_under root base w = Some (Inl (Win32Error 2), w)"
  using assms by (simp add: unregister_under_def reg_delete_tree_def wr_next_def method_path_def)

section \<open>Properties\<close>

definition demo_registry :: win_registry where
  "demo_registry = \<lparr>wr_keys = Map.empty, wr_faults = [(0, []), (0, []), (5, [])], wr_open = []\<rparr>"

text \<open>C33: registering the method, whatever the registry refuses and when, returns, leaves no key handle open,
  and touches no key but the method's own, except for creating missing keys above it; on success the
  method key has its seven values and keeps any other, on an error it is as it was or has the first
  few of the seven. Unregistering then removes exactly the method key and what is under it, and a
  second time reports that there is nothing to remove.\<close>

theorem registration_exact:
  "\<exists>r w'. register_under root base dll w = Some (r, w') \<and> wr_open w' = wr_open w
    \<and> (\<forall>k. k \<noteq> (root, method_path base) \<longrightarrow> wr_keys w' k = wr_keys w k
        \<or> wr_keys w k = None \<and> wr_keys w' k = Some Map.empty \<and> fst k = root
          \<and> strict_prefix (snd k) (method_path base))
    \<and> (let before = unwrap_or (wr_keys w (root, method_path base)) Map.empty; after = wr_keys w' (root, method_path base)
       in case r of
         Inr _ \<Rightarrow> after = Some (before ++ map_of (method_values dll))
       | Inl e \<Rightarrow> \<exists>status. status \<noteq> 0 \<and> e = Win32Error status
           \<and> (after = wr_keys w (root, method_path base)
              \<or> (\<exists>n < 7. after = Some (before ++ map_of (take n (method_values dll))))))
    \<and> (r = Inr () \<and> wr_faults w' = [] \<longrightarrow>
        (\<exists>w2. unregister_under root base w' = Some (Inr (), w2)
          \<and> (\<forall>k. wr_keys w2 k = (if fst k = root \<and> prefix (method_path base) (snd k) then None else wr_keys w' k))
          \<and> unregister_under root base w2 = Some (Inl (Win32Error 2), w2)))"
proof -
  obtain r w' where r: "register_under root base dll w = Some (r, w')" using register_total by blast
  have u: "\<exists>w2. unregister_under root base w' = Some (Inr (), w2)
      \<and> (\<forall>k. wr_keys w2 k = (if fst k = root \<and> prefix (method_path base) (snd k) then None else wr_keys w' k))
      \<and> unregister_under root base w2 = Some (Inl (Win32Error 2), w2)"
    if "r = Inr ()" "wr_faults w' = []"
  proof -
    have "wr_keys w' (root, method_path base) \<noteq> None" using register_effect [OF r] that(1) by (auto simp: Let_def)
    from unregister_effect [OF that(2) this] obtain w2 where w2: "unregister_under root base w' = Some (Inr (), w2)"
      "wr_faults w2 = []"
      "\<forall>k. wr_keys w2 k = (if fst k = root \<and> prefix (method_path base) (snd k) then None else wr_keys w' k)"
      by blast
    then have "wr_keys w2 (root, method_path base) = None" by simp
    with unregister_missing [OF w2(2) this] w2 show ?thesis by blast
  qed
  show ?thesis
    using r register_effect [OF r] u by (intro exI [of _ r] exI [of _ w']) blast
qed

theorem registration_exact_witness:
  "\<exists>w'. register (ascii ''C:/usg.dll'') demo_registry = Some (Inl (Win32Error 5), w')
    \<and> wr_open w' = []
    \<and> wr_keys w' (HKEY_LOCAL_MACHINE, method_path EAPHOST_METHODS_KEY)
        = Some (map_of (take 1 (method_values (ascii ''C:/usg.dll''))))"
proof -
  let ?dll = "ascii ''C:/usg.dll''" and ?h = "(HKEY_LOCAL_MACHINE, method_path EAPHOST_METHODS_KEY)"
  obtain n v m u vs where vs: "method_values ?dll = (n, v) # (m, u) # vs" by (simp add: method_values_def)
  obtain w' where w': "register ?dll demo_registry = Some (Inl (Win32Error 5), w')" "wr_keys w' ?h = Some [n \<mapsto> v]"
    unfolding register_def register_under_def register_values_all vs
    by (simp add: reg_create_key_def wr_next_def demo_registry_def make_keys_def reg_close_key_def method_path_def)
  with registration_exact [of HKEY_LOCAL_MACHINE EAPHOST_METHODS_KEY ?dll demo_registry] have "wr_open w' = []"
    unfolding register_def by (simp add: demo_registry_def) 
  with w' vs show ?thesis by simp
qed

end
