(* ===== verification/Cli.thy ===== *)
theory Cli
  imports Registration Files
begin

text \<open>
  The provisioning command line: crates/eaphost-cli/src/main.rs, with both variants of what exists on
  Windows only. The error strings of the source are constructors that carry what the string shows;
  the disk, the registry, what is printed and the runs of netsh are explicit state.
\<close>

section \<open>The host\<close>

record cli_env =
  ce_windows :: bool
  ce_absolute :: "str \<Rightarrow> io_kind + bytes"  \<comment> \<open>\<open>std::path::absolute\<close>; the path may be no valid string\<close>
  ce_temp_dir :: path
  ce_pid :: nat
  ce_netsh :: "str list \<Rightarrow> disk \<Rightarrow> io_kind + int option"  \<comment> \<open>its exit code, if it has one\<close>

record cli_host =
  ch_disk :: disk
  ch_stdout :: str
  ch_stderr :: str
  ch_registry :: win_registry
  ch_runs :: "(str list \<times> (path \<rightharpoonup> bytes)) list"  \<comment> \<open>the netsh runs: arguments and the files each found\<close>

datatype cli_error =
    UnknownCommand str
  | MissingOption string
  | ExclusiveOptions
  | BadMatVendorId str
  | BadMaxFragment str
  | ReadRoot path io_kind
  | WriteOut path io_kind
  | ResolveDll str io_kind
  | DllNotUnicode bytes
  | RegisterFailed eap_host_error
  | UnregisterFailed eap_host_error
  | WriteProfile io_kind
  | RunNetsh io_kind
  | NetshFailed "int option" path
  | OnlyOnWindows string

type_synonym 'a cli_op = "(cli_host, cli_error, 'a) op"

definition on_disk :: "(io_kind \<Rightarrow> cli_error) \<Rightarrow> (disk \<Rightarrow> (io_kind + 'a) \<times> disk) \<Rightarrow> 'a cli_op" where
  "on_disk err f = zoomO ch_disk (\<lambda>d h. h\<lparr>ch_disk := d\<rparr>) err (pureO f)"

definition println :: "str \<Rightarrow> unit cli_op" where
  "println s = modifyO (\<lambda>h. h\<lparr>ch_stdout := ch_stdout h @ s @ [10]\<rparr>)"

definition eprintln :: "str \<Rightarrow> unit cli_op" where
  "eprintln s = modifyO (\<lambda>h. h\<lparr>ch_stderr := ch_stderr h @ s @ [10]\<rparr>)"

section \<open>Options\<close>

definition starts_with :: "str \<Rightarrow> str \<Rightarrow> bool" where
  "starts_with s p \<longleftrightarrow> take (length p) s = p"

definition looks_like_flag :: "str \<Rightarrow> bool" where
  "looks_like_flag v \<longleftrightarrow> starts_with v (ascii ''--'')"

fun position :: "('a \<Rightarrow> bool) \<Rightarrow> 'a list \<Rightarrow> nat option" where
  "position P [] = None"
| "position P (x # xs) = (if P x then Some 0 else map_option Suc (position P xs))"

definition flag :: "str list \<Rightarrow> string \<Rightarrow> str option" where
  "flag args name =
     (case position (\<lambda>a. a = ascii name) args of
        None \<Rightarrow> None
      | Some i \<Rightarrow>
          (case get_at args (i + 1) of
             None \<Rightarrow> None
           | Some v \<Rightarrow> if looks_like_flag v then None else Some v))"

text \<open>The loop of \<open>repeated\<close>, on the arguments from the index on.\<close>

fun repeated_from :: "str list \<Rightarrow> string \<Rightarrow> str list" where
  "repeated_from [] name = []"
| "repeated_from (a # args) name =
     (if a = ascii name then
        (case args of
           [] \<Rightarrow> []
         | v # rest \<Rightarrow> (if looks_like_flag v then [] else [v]) @ repeated_from rest name)
      else repeated_from args name)"

definition repeated :: "str list \<Rightarrow> string \<Rightarrow> str list" where
  "repeated args name = repeated_from args name"

definition present :: "str list \<Rightarrow> string \<Rightarrow> bool" where
  "present args name \<longleftrightarrow> list_ex (\<lambda>a. a = ascii name) args"

definition required :: "str list \<Rightarrow> string \<Rightarrow> cli_error + str" where
  "required args name = (case flag args name of Some v \<Rightarrow> Inr v | None \<Rightarrow> Inl (MissingOption name))"

text \<open>\<open>u32::from_str_radix\<close>: an optional plus sign, at least one digit, no overflow.\<close>

definition digit_val :: "nat \<Rightarrow> u8 \<Rightarrow> nat option" where
  "digit_val radix b =
     (case hex_val b of Some v \<Rightarrow> if unat v < radix then Some (unat v) else None | None \<Rightarrow> None)"

fun radix_digits :: "nat \<Rightarrow> nat \<Rightarrow> str \<Rightarrow> nat option" where
  "radix_digits radix acc [] = Some acc"
| "radix_digits radix acc (b # bs) =
     (case digit_val radix b of
        None \<Rightarrow> None
      | Some v \<Rightarrow> if acc * radix + v < 2 ^ 32 then radix_digits radix (acc * radix + v) bs else None)"

definition u32_from_str_radix :: "str \<Rightarrow> nat \<Rightarrow> u32 option" where
  "u32_from_str_radix s radix =
     (let d = (case s of b # bs \<Rightarrow> if b = 43 then bs else s | [] \<Rightarrow> [])
      in if d = [] then None else map_option word_of_nat (radix_digits radix 0 d))"

definition strip_prefix :: "str \<Rightarrow> string \<Rightarrow> str option" where
  "strip_prefix s p = (if starts_with s (ascii p) then Some (drop (length (ascii p)) s) else None)"

definition mat_vendor_option :: "str list \<Rightarrow> cli_error + u32" where
  "mat_vendor_option args =
     (case flag args ''--mat-vendor-id'' of
        Some s \<Rightarrow>
          let hex = (case strip_prefix s ''0x'' of
                Some t \<Rightarrow> t
              | None \<Rightarrow> unwrap_or (strip_prefix s ''0X'') s)
          in (case u32_from_str_radix hex 16 of Some n \<Rightarrow> Inr n | None \<Rightarrow> Inl (BadMatVendorId s))
      | None \<Rightarrow> Inr 0x9999)"

definition max_fragment_option :: "str list \<Rightarrow> cli_error + u32" where
  "max_fragment_option args =
     (case flag args ''--max-fragment'' of
        Some s \<Rightarrow> (case u32_from_str_radix s 10 of Some n \<Rightarrow> Inr n | None \<Rightarrow> Inl (BadMaxFragment s))
      | None \<Rightarrow> Inr 1400)"

fun read_roots :: "path list \<Rightarrow> bytes list cli_op" where
  "read_roots [] = returnO []"
| "read_roots (p # ps) =
     bindO (on_disk (ReadRoot p) (fs_read p)) (\<lambda>der. bindO (read_roots ps) (\<lambda>ders. returnO (der # ders)))"

definition build_blob :: "str list \<Rightarrow> session_config_blob cli_op" where
  "build_blob args =
     bindO (liftO id (required args ''--server-name'')) (\<lambda>server_name.
     bindO (liftO id (required args ''--cert-subject'')) (\<lambda>selector_subject.
     if present args ''--machine'' \<and> present args ''--user'' then throwO ExclusiveOptions
     else
       bindO (liftO id (mat_vendor_option args)) (\<lambda>mat_vendor_id.
       bindO (liftO id (max_fragment_option args)) (\<lambda>max_fragment.
       bindO (read_roots (repeated args ''--root'')) (\<lambda>roots.
         returnO \<lparr>scb_machine = (\<not> present args ''--user''), scb_server_name = server_name,
           scb_mat_vendor_id = mat_vendor_id, scb_max_fragment = max_fragment,
           scb_selector_subject = selector_subject, scb_roots = roots, scb_mat = None\<rparr>)))))"

definition write_out :: "str list \<Rightarrow> str \<Rightarrow> unit cli_op" where
  "write_out args xml =
     (case flag args ''--out'' of
        Some p \<Rightarrow> on_disk (WriteOut p) (fs_write p xml)
      | None \<Rightarrow> println xml)"

section \<open>The commands\<close>

definition on_registry :: "(eap_host_error \<Rightarrow> cli_error) \<Rightarrow> unit reg_op \<Rightarrow> unit cli_op" where
  "on_registry err m = zoomO ch_registry (\<lambda>w h. h\<lparr>ch_registry := w\<rparr>) err m"

definition register_cmd :: "cli_env \<Rightarrow> str list \<Rightarrow> unit cli_op" where
  "register_cmd env args =
     (if \<not> ce_windows env then throwO (OnlyOnWindows ''register'')
      else
        bindO (liftO id (required args ''--dll'')) (\<lambda>dll.
        bindO (liftO (ResolveDll dll) (ce_absolute env dll)) (\<lambda>dll_abs.
          if \<not> utf8_valid dll_abs then throwO (DllNotUnicode dll_abs)
          else
            bindO (on_registry RegisterFailed (register dll_abs)) (\<lambda>_.
              eprintln (ascii ''registered the usg-TEAP method (PeerDllPath = '' @ dll_abs @ ascii '')'')))))"

definition unregister_cmd :: "cli_env \<Rightarrow> unit cli_op" where
  "unregister_cmd env =
     (if \<not> ce_windows env then throwO (OnlyOnWindows ''unregister'')
      else
        bindO (on_registry UnregisterFailed unregister) (\<lambda>_.
          eprintln (ascii ''unregistered the usg-TEAP method'')))"

definition profile_path :: "cli_env \<Rightarrow> path" where
  "profile_path env =
     path_join (ce_temp_dir env) (ascii ''usg-teap-lanprofile-'' @ decimal (ce_pid env) @ ascii ''.xml'')"

definition netsh_args :: "path \<Rightarrow> str \<Rightarrow> str list" where
  "netsh_args p interface =
     [ascii ''lan'', ascii ''add'', ascii ''profile'', ascii ''filename='' @ p, ascii ''interface='' @ interface]"

definition run_netsh :: "cli_env \<Rightarrow> str list \<Rightarrow> int option cli_op" where
  "run_netsh env args =
     bindO (getO ch_disk) (\<lambda>d.
       case ce_netsh env args d of
         Inl k \<Rightarrow> throwO (RunNetsh k)
       | Inr code \<Rightarrow>
           bindO (modifyO (\<lambda>h. h\<lparr>ch_runs := ch_runs h @ [(args, dk_files d)]\<rparr>)) (\<lambda>_. returnO code))"

text \<open>The result of \<open>remove_file\<close> is ignored.\<close>

definition discard_file :: "path \<Rightarrow> unit cli_op" where
  "discard_file p = modifyO (\<lambda>h. h\<lparr>ch_disk := snd (fs_remove_file p (ch_disk h))\<rparr>)"

definition install_profile_cmd :: "cli_env \<Rightarrow> str list \<Rightarrow> unit cli_op" where
  "install_profile_cmd env args =
     (if \<not> ce_windows env then throwO (OnlyOnWindows ''install-profile'')
      else
        bindO (liftO id (required args ''--interface'')) (\<lambda>interface.
        bindO (build_blob args) (\<lambda>blob.
        bindO (on_disk WriteProfile (fs_write (profile_path env) (lan_profile_xml (config_to_bytes blob)))) (\<lambda>_.
        bindO (run_netsh env (netsh_args (profile_path env) interface)) (\<lambda>code.
          if code \<noteq> Some 0 then throwO (NetshFailed code (profile_path env))
          else
            bindO (discard_file (profile_path env)) (\<lambda>_.
              eprintln (ascii ''installed the LAN profile on '' @ [39] @ interface @ [39]
                @ ascii '' (from a temp file)'')))))))"


definition EM_DASH_UTF8 :: str where "EM_DASH_UTF8 = [0xE2, 0x80, 0x94]"

definition USAGE :: str where
  "USAGE = concat (map (\<lambda>l. l @ [10])
     [ascii ''usg-eaphost '' @ EM_DASH_UTF8 @ ascii '' provision the usg-TEAP EAPHost peer method'',
      [],
      ascii ''USAGE:'',
      ascii ''    usg-eaphost <command> [options]'',
      [],
      ascii ''COMMANDS:'',
      ascii ''    emit-config        Print the EapHostConfig XML (method + config blob)'',
      ascii ''    emit-profile       Print the dot3svc wired LAN profile XML'',
      ascii ''    register           [Windows] Register the method DLL in HKLM'',
      ascii ''    unregister         [Windows] Remove the method registration'',
      ascii ''    install-profile    [Windows] Install the LAN profile on an interface (netsh)'',
      ascii ''    help               Show this help'',
      [],
      ascii ''CONFIG OPTIONS (emit-config / emit-profile / install-profile):'',
      ascii ''    --server-name <name>     Expected EAP server name (required)'',
      ascii ''    --cert-subject <substr>  Client-cert subject substring to select (required)'',
      ascii ''    --machine                Machine session (default)'',
      ascii ''    --user                   User session'',
      ascii ''    --mat-vendor-id <hex>    MAT Vendor SMI PEN, hex digits, 0x optional (default 9999 = 0x9999)'',
      ascii ''    --max-fragment <n>       Max TLS fragment per TEAP message (default 1400)'',
      ascii ''    --root <file.der>        Server trust-anchor DER, repeatable'',
      ascii ''    --out <file>             Write XML here instead of stdout (emit-* only)'',
      [],
      ascii ''OTHER OPTIONS:'',
      ascii ''    --dll <path>             PeerDllPath to register (register)'',
      ascii ''    --interface <name>       Network interface name (install-profile)''])"

definition print :: "str \<Rightarrow> unit cli_op" where
  "print s = modifyO (\<lambda>h. h\<lparr>ch_stdout := ch_stdout h @ s\<rparr>)"

definition run :: "cli_env \<Rightarrow> str list \<Rightarrow> unit cli_op" where
  "run env args =
     (let cmd = (case args of a # _ \<Rightarrow> a | [] \<Rightarrow> ascii ''help'');
          rest = (case args of _ # as \<Rightarrow> as | [] \<Rightarrow> [])
      in if cmd = ascii ''emit-config'' then
           bindO (build_blob rest) (\<lambda>b. write_out rest (eap_host_config_xml (config_to_bytes b)))
         else if cmd = ascii ''emit-profile'' then
           bindO (build_blob rest) (\<lambda>b. write_out rest (lan_profile_xml (config_to_bytes b)))
         else if cmd = ascii ''register'' then register_cmd env rest
         else if cmd = ascii ''unregister'' then unregister_cmd env
         else if cmd = ascii ''install-profile'' then install_profile_cmd env rest
         else if cmd = ascii ''help'' \<or> cmd = ascii ''-h'' \<or> cmd = ascii ''--help'' then print USAGE
         else throwO (UnknownCommand cmd))"

text \<open>The exit status; the text of the error is printed by a formatter and not kept.\<close>

definition cli_main :: "cli_env \<Rightarrow> str list \<Rightarrow> cli_host \<Rightarrow> (nat \<times> cli_host) option" where
  "cli_main env args h =
     (case run env args h of
        None \<Rightarrow> None
      | Some (Inr _, h1) \<Rightarrow> Some (0, h1)
      | Some (Inl _, h1) \<Rightarrow> Some (1, h1))"


section \<open>Every profile can be asked for\<close>

text \<open>The digits of a number, for the other direction of \<open>u32_from_str_radix\<close>.\<close>

fun render :: "nat \<Rightarrow> nat \<Rightarrow> str" where
  "render radix n =
     (if n < radix \<or> radix < 2 then [hex_digit 97 (word_of_nat n)]
      else render radix (n div radix) @ [hex_digit 97 (word_of_nat (n mod radix))])"

declare render.simps [simp del]

lemma digit_render:
  assumes "n < 16"
  shows "hex_val (hex_digit 97 (word_of_nat n)) = Some (word_of_nat n)" and "unat (word_of_nat n :: u8) = n"
    and "hex_digit 97 (word_of_nat n) \<notin> {43, 45}"
proof -
  show u: "unat (word_of_nat n :: u8) = n" using assms by (simp add: unat_of_nat take_bit_eq_mod)
  then have "(word_of_nat n :: u8) < 16" using assms by (simp add: word_less_nat_alt)
  then show "hex_val (hex_digit 97 (word_of_nat n)) = Some (word_of_nat n)" by (rule hex_val_digit)
  then show "hex_digit 97 (word_of_nat n) \<notin> {43, 45}" by (auto simp: hex_val_def is_digit_def)
qed

lemma digit_val_render: "v < radix \<Longrightarrow> radix \<le> 16 \<Longrightarrow> digit_val radix (hex_digit 97 (word_of_nat v)) = Some v"
  using digit_render [of v] by (simp add: digit_val_def)

lemma radix_snoc:
  "radix_digits radix acc (ds @ [d]) =
     (case radix_digits radix acc ds of
        None \<Rightarrow> None
      | Some n \<Rightarrow> (case digit_val radix d of
            None \<Rightarrow> None
          | Some v \<Rightarrow> if n * radix + v < 2 ^ 32 then Some (n * radix + v) else None))"
  by (induction ds arbitrary: acc) (auto split: option.split)

lemma radix_render:
  assumes "2 \<le> radix" "radix \<le> 16" "n < 2 ^ 32"
  shows "radix_digits radix 0 (render radix n) = Some n"
  using assms(3)
proof (induction n rule: less_induct)
  case (less n)
  show ?case
  proof (cases "n < radix")
    case True
    with less.prems assms(2) show ?thesis by (simp add: render.simps [of radix n] digit_val_render)
  next
    case False
    with assms(1) have "n div radix < n" by simp
    moreover have "n mod radix < radix" using assms(1) by simp
    ultimately show ?thesis
      using less assms False by (simp add: render.simps [of radix n] radix_snoc digit_val_render)
  qed
qed

lemma render_chars:
  "2 \<le> radix \<Longrightarrow> radix \<le> 16 \<Longrightarrow> render radix n \<noteq> [] \<and> set (render radix n) \<inter> {43, 45} = {}"
proof (induction n rule: less_induct)
  case (less n)
  have d: "hex_digit 97 (word_of_nat m) \<notin> {43, 45}" if "m < radix" for m
    using digit_render(3) [of m] that less.prems by simp
  show ?case
  proof (cases "n < radix")
    case True
    with d show ?thesis by (simp add: render.simps [of radix n])
  next
    case False
    with less.prems have "n div radix < n" "n mod radix < radix" by simp_all
    with less d False show ?thesis by (simp add: render.simps [of radix n])
  qed
qed

lemma u32_render: "2 \<le> radix \<Longrightarrow> radix \<le> 16 \<Longrightarrow> u32_from_str_radix (render radix (unat (w :: u32))) radix = Some w"
proof -
  assume r: "2 \<le> radix" "radix \<le> 16"
  obtain b bs where b: "render radix (unat w) = b # bs" using render_chars [OF r, of "unat w"] by (cases "render radix (unat w)") auto
  then have "b \<noteq> 43" using render_chars [OF r, of "unat w"] by auto
  moreover have "radix_digits radix 0 (render radix (unat w)) = Some (unat w)"
    by (rule radix_render) (use r unsigned_less [of w, where ?'a = nat] in simp_all)
  ultimately show ?thesis using b by (simp add: u32_from_str_radix_def)
qed


text \<open>The options of a profile, in the order of the usage text.\<close>

definition cli_options :: "session_config_blob \<Rightarrow> path list \<Rightarrow> path \<Rightarrow> str list" where
  "cli_options c ps out =
     [ascii ''--server-name'', scb_server_name c, ascii ''--cert-subject'', scb_selector_subject c,
      (if scb_machine c then ascii ''--machine'' else ascii ''--user''),
      ascii ''--mat-vendor-id'', ascii ''0x'' @ render 16 (unat (scb_mat_vendor_id c)),
      ascii ''--max-fragment'', render 10 (unat (scb_max_fragment c)), ascii ''--out'', out]
     @ concat (map (\<lambda>p. [ascii ''--root'', p]) ps)"

lemma flag_step:
  "flag (a # args) n =
     (if a = ascii n then (case args of [] \<Rightarrow> None | v # _ \<Rightarrow> if looks_like_flag v then None else Some v)
      else flag args n)"
  by (auto simp: flag_def get_at_def split: option.splits list.splits)

lemma no_flag: "\<not> looks_like_flag v \<Longrightarrow> looks_like_flag f \<Longrightarrow> v \<noteq> f \<and> f \<noteq> v"
  by auto

lemma option_names [simp]:
  "looks_like_flag (ascii ''--server-name'')" "looks_like_flag (ascii ''--cert-subject'')"
  "looks_like_flag (ascii ''--machine'')" "looks_like_flag (ascii ''--user'')"
  "looks_like_flag (ascii ''--mat-vendor-id'')" "looks_like_flag (ascii ''--max-fragment'')"
  "looks_like_flag (ascii ''--out'')" "looks_like_flag (ascii ''--root'')" "looks_like_flag (ascii ''--interface'')"
  by (simp_all add: looks_like_flag_def starts_with_def ascii_def)

lemma values_no_flag:
  "\<not> looks_like_flag (ascii ''0x'' @ s)" "2 \<le> radix \<Longrightarrow> radix \<le> 16 \<Longrightarrow> \<not> looks_like_flag (render radix n)"
  using render_chars [of radix n]
  by (cases "render radix n"; simp add: looks_like_flag_def starts_with_def ascii_def)+

lemma repeated_roots:
  "list_all (\<lambda>p. \<not> looks_like_flag p) ps \<Longrightarrow>
     repeated_from (concat (map (\<lambda>p. [ascii ''--root'', p]) ps)) ''--root'' = ps"
  by (induction ps) simp_all

lemma present_roots:
  "list_all (\<lambda>p. \<not> looks_like_flag p) ps \<Longrightarrow> looks_like_flag (ascii n) \<Longrightarrow> ascii n \<noteq> ascii ''--root'' \<Longrightarrow>
     \<not> present (concat (map (\<lambda>p. [ascii ''--root'', p]) ps)) n"
  by (induction ps) (auto simp: present_def no_flag)

definition option_values_ok :: "session_config_blob \<Rightarrow> path list \<Rightarrow> path \<Rightarrow> bool" where
  "option_values_ok c ps out \<longleftrightarrow> list_all (\<lambda>v. \<not> looks_like_flag v) (scb_server_name c # scb_selector_subject c # out # ps)"

lemma options_read:
  assumes "option_values_ok c ps out"
  shows "flag (cli_options c ps out) ''--server-name'' = Some (scb_server_name c)"
    and "flag (cli_options c ps out) ''--cert-subject'' = Some (scb_selector_subject c)"
    and "flag (cli_options c ps out) ''--out'' = Some out"
    and "mat_vendor_option (cli_options c ps out) = Inr (scb_mat_vendor_id c)"
    and "max_fragment_option (cli_options c ps out) = Inr (scb_max_fragment c)"
    and "repeated (cli_options c ps out) ''--root'' = ps"
    and "present (cli_options c ps out) ''--user'' = (\<not> scb_machine c)"
    and "present (cli_options c ps out) ''--machine'' = scb_machine c"
proof -
  note v = assms [unfolded option_values_ok_def]
  note n = no_flag [OF _ option_names(1)] no_flag [OF _ option_names(2)] no_flag [OF _ option_names(3)]
    no_flag [OF _ option_names(4)] no_flag [OF _ option_names(5)] no_flag [OF _ option_names(6)]
    no_flag [OF _ option_names(7)] no_flag [OF _ option_names(8)]
  have d: "ascii a = ascii b \<longleftrightarrow> map (of_char :: char \<Rightarrow> u8) a = map of_char b" for a b by (simp add: ascii_def)
  note nf = values_no_flag(1) values_no_flag(2) [of 16, simplified] values_no_flag(2) [of 10, simplified]
  show "flag (cli_options c ps out) ''--server-name'' = Some (scb_server_name c)"
    using v by (simp add: cli_options_def flag_step)
  show "flag (cli_options c ps out) ''--cert-subject'' = Some (scb_selector_subject c)"
    using v n by (simp add: cli_options_def flag_step d)
  show "flag (cli_options c ps out) ''--out'' = Some out"
    using v n nf by (simp add: cli_options_def flag_step d)
  have x: "flag (cli_options c ps out) ''--mat-vendor-id'' = Some (ascii ''0x'' @ render 16 (unat (scb_mat_vendor_id c)))"
    using v n nf by (simp add: cli_options_def flag_step d)
  have p: "strip_prefix (ascii ''0x'' @ s) ''0x'' = Some s" for s
    by (simp add: strip_prefix_def starts_with_def)
  show "mat_vendor_option (cli_options c ps out) = Inr (scb_mat_vendor_id c)"
    using u32_render [of 16 "scb_mat_vendor_id c"] by (simp add: mat_vendor_option_def x p)
  have m: "flag (cli_options c ps out) ''--max-fragment'' = Some (render 10 (unat (scb_max_fragment c)))"
    using v n nf by (simp add: cli_options_def flag_step d)
  show "max_fragment_option (cli_options c ps out) = Inr (scb_max_fragment c)"
    using u32_render [of 10 "scb_max_fragment c"] by (simp add: max_fragment_option_def m)
  show "repeated (cli_options c ps out) ''--root'' = ps"
    using v n nf repeated_roots [of ps] by (simp add: repeated_def cli_options_def d)
  show "present (cli_options c ps out) ''--user'' = (\<not> scb_machine c)"
    "present (cli_options c ps out) ''--machine'' = scb_machine c"
    using v n nf present_roots [of ps "''--user''"] present_roots [of ps "''--machine''"]
    by (simp_all add: present_def cli_options_def d)
qed


lemma on_disk_simps:
  "on_disk err f h = (case f (ch_disk h) of
      (Inl k, d) \<Rightarrow> Some (Inl (err k), h\<lparr>ch_disk := d\<rparr>)
    | (Inr x, d) \<Rightarrow> Some (Inr x, h\<lparr>ch_disk := d\<rparr>))"
  by (simp add: on_disk_def zoomO_def pureO_def split: prod.split sum.split)

lemma read_roots_calm:
  assumes "calm (ch_disk h)" and "list_all2 (\<lambda>p der. dk_files (ch_disk h) p = Some der) ps ders"
  shows "read_roots ps h = Some (Inr ders, h)"
  using assms(2)
proof (induction rule: list_all2_induct)
  case (Cons p ps der ders)
  then show ?case
    using calm_fs(3) [OF assms(1), of p] by (simp add: bindO_def on_disk_simps returnO_def)
qed (simp add: returnO_def)

lemma build_blob_options:
  assumes "option_values_ok c ps out" and "scb_mat c = None" and "calm (ch_disk h)"
    and "list_all2 (\<lambda>p der. dk_files (ch_disk h) p = Some der) ps (scb_roots c)"
  shows "build_blob (cli_options c ps out) h = Some (Inr c, h)"
  using options_read [OF assms(1)] read_roots_calm [OF assms(3,4)] assms(2)
  by (simp add: build_blob_def required_def bindO_def liftO_def returnO_def)

text \<open>Where the documents carry the blob: the text of an element, up to the next tag.\<close>

fun after_first :: "str \<Rightarrow> str \<Rightarrow> str option" where
  "after_first pat xs =
     (if starts_with xs pat then Some (drop (length pat) xs)
      else (case xs of [] \<Rightarrow> None | _ # ys \<Rightarrow> after_first pat ys))"

declare after_first.simps [simp del]

definition element_text :: "str \<Rightarrow> str \<Rightarrow> str option" where
  "element_text element doc =
     map_option (takeWhile (\<lambda>b. b \<noteq> 60)) (after_first (ascii ''<'' @ element @ ascii ''>'') doc)"

definition blob_tag :: str where
  "blob_tag = ascii ''<'' @ BLOB_ELEMENT @ ascii ''>''"

definition config_head :: str where
  "config_head =
     xmlns_open ''EapHostConfig'' (ascii ''http://www.microsoft.com/provisioning/EapHostConfig'')
     @ ascii ''<EapMethod>''
     @ xmlns_open ''Type'' PROFILE_COMMON @ decimal USG_TYPE_ID @ ascii ''</Type>''
     @ xmlns_open ''VendorId'' PROFILE_COMMON @ ascii ''0</VendorId>''
     @ xmlns_open ''VendorType'' PROFILE_COMMON @ ascii ''0</VendorType>''
     @ xmlns_open ''AuthorId'' PROFILE_COMMON @ decimal USG_AUTHOR_ID @ ascii ''</AuthorId>''
     @ ascii ''</EapMethod><Config>''"

definition profile_head :: str where
  "profile_head =
     ascii ''<?xml version='' @ [34] @ ascii ''1.0'' @ [34] @ ascii ''?>''
     @ xmlns_open ''LANProfile'' (ascii ''http://www.microsoft.com/networking/LAN/profile/v1'')
     @ ascii ''<MSM><security><OneXEnforced>false</OneXEnforced><OneXEnabled>true</OneXEnabled>''
     @ xmlns_open ''OneX'' (ascii ''http://www.microsoft.com/networking/OneX/v1'')
     @ ascii ''<EAPConfig>'' @ config_head"

lemma after_first_pre: "85 \<notin> set pre \<Longrightarrow> after_first blob_tag (pre @ blob_tag @ rest) = Some rest"
proof (induction pre)
  case Nil
  then show ?case by (simp add: after_first.simps [of blob_tag "blob_tag @ rest"] starts_with_def)
next
  case (Cons b pre)
  obtain t where t: "blob_tag = 60 # 85 # t" by (simp add: blob_tag_def BLOB_ELEMENT_def ascii_def)
  have "\<not> starts_with (b # pre @ blob_tag @ rest) blob_tag"
    using Cons.prems by (cases pre) (auto simp: starts_with_def t)
  with Cons show ?case by (simp add: after_first.simps [of blob_tag "b # pre @ blob_tag @ rest"])
qed

lemma ascii_U: "85 \<in> set (ascii s) \<longleftrightarrow> CHR ''U'' \<in> set s"
proof -
  have "of_char c = (85 :: u8) \<longleftrightarrow> c = CHR ''U''" for c
  proof
    assume "of_char c = (85 :: u8)"
    then have "unat (word_of_nat (of_char c) :: u8) = 85" by (simp only: of_nat_of_char) simp
    then have "(of_char c :: nat) = of_char CHR ''U''"
      using nat_of_char_less_256 [of c] by (simp only: unat_of_nat) (simp add: take_bit_eq_mod)
    then show "c = CHR ''U''" by (simp only: of_char_eq_iff)
  qed simp
  then show ?thesis by (force simp: ascii_def)
qed

lemma decimal_U: "85 \<notin> set (decimal n)"
  using set_decimal [of n] by (auto simp: is_digit_def)

lemma heads_free: "85 \<notin> set config_head" "85 \<notin> set profile_head"
  by (simp_all add: profile_head_def config_head_def xmlns_open_def PROFILE_COMMON_def ascii_U decimal_U)

lemma document_parts:
  "eap_host_config_xml blob = config_head @ blob_tag @ to_hex blob @ 60 # drop 1 (ascii ''</'') @ BLOB_ELEMENT
     @ ascii ''>'' @ ascii ''</Config></EapHostConfig>''"
  "\<exists>t. lan_profile_xml blob = profile_head @ blob_tag @ to_hex blob @ 60 # t"
  by (simp_all add: eap_host_config_xml_def lan_profile_xml_def profile_head_def config_head_def blob_tag_def blob_to_xml_def
      ascii_def)

lemma to_hex_no_tag: "60 \<notin> set (to_hex bs)"
proof -
  have "hex_digit 97 n \<noteq> 60" if "n < 16" for n using hex_val_digit [OF that] by (auto simp: hex_val_def is_digit_def)
  then show ?thesis by (induction bs) (auto simp: to_hex_def hex_octet_def nibble_bound)
qed

lemma document_blob:
  "element_text BLOB_ELEMENT (eap_host_config_xml blob) = Some (to_hex blob)"
  "element_text BLOB_ELEMENT (lan_profile_xml blob) = Some (to_hex blob)"
proof -
  have t: "takeWhile (\<lambda>b. b \<noteq> 60) (to_hex blob @ 60 # t) = to_hex blob" for t
    using to_hex_no_tag [of blob] by (induction "to_hex blob" rule: rev_induct) (auto simp: takeWhile_append)
  show "element_text BLOB_ELEMENT (eap_host_config_xml blob) = Some (to_hex blob)"
    by (simp only: element_text_def document_parts(1) after_first_pre [OF heads_free(1)] blob_tag_def [symmetric]
        option.map t)
  obtain t where "lan_profile_xml blob = profile_head @ blob_tag @ to_hex blob @ 60 # t" using document_parts(2) by blast
  then show "element_text BLOB_ELEMENT (lan_profile_xml blob) = Some (to_hex blob)"
    using t by (simp only: element_text_def after_first_pre [OF heads_free(2)] blob_tag_def [symmetric] option.map)
qed


lemma run_emit:
  assumes "(cmd, doc) \<in> {(''emit-config'', eap_host_config_xml), (''emit-profile'', lan_profile_xml)}"
  shows "run env (ascii cmd # rest) = bindO (build_blob rest) (\<lambda>b. write_out rest (doc (config_to_bytes b)))"
  using assms by (auto simp: run_def Let_def ascii_def)

text \<open>A token of the form of an option takes the place of the missing value, and the option it is goes
  with it.\<close>

lemma repeated_loses_option:
  "repeated [ascii ''--root'', ascii ''--root'', ascii ''a.der''] ''--root'' = []"
  by code_simp

section \<open>Installing a profile\<close>

lemma read_roots_frame:
  "read_roots ps h = Some (r, h') \<Longrightarrow> \<exists>d. h' = h\<lparr>ch_disk := d\<rparr> \<and> dk_files d = dk_files (ch_disk h)"
proof (induction ps arbitrary: h r h')
  case Nil
  then have "h' = h\<lparr>ch_disk := ch_disk h\<rparr>" by (simp add: returnO_def)
  then show ?case by blast
next
  case (Cons p ps)
  obtain x d1 where x: "fs_read p (ch_disk h) = (x, d1)" by (cases "fs_read p (ch_disk h)")
  then have d1: "dk_files d1 = dk_files (ch_disk h)" using fs_read_frame by blast
  show ?case
  proof (cases x)
    case (Inl k)
    with Cons.prems x d1 show ?thesis by (auto simp: bindO_def on_disk_simps)
  next
    case (Inr der)
    with Cons.prems x obtain r1 h1 where h1: "read_roots ps (h\<lparr>ch_disk := d1\<rparr>) = Some (r1, h1)" "h' = h1"
      by (auto simp: bindO_def on_disk_simps returnO_def split: option.splits sum.splits)
    from Cons.IH [OF h1(1)] d1 h1(2) show ?thesis by auto
  qed
qed

lemma build_blob_frame:
  assumes "build_blob args h = Some (r, h')"
  shows "\<exists>d. h' = h\<lparr>ch_disk := d\<rparr> \<and> dk_files d = dk_files (ch_disk h)"
proof -
  have "h' = h \<or> (\<exists>r1. read_roots (repeated args ''--root'') h = Some (r1, h'))"
    using assms by (auto simp: build_blob_def bindO_def liftO_def throwO_def returnO_def split: sum.splits if_splits option.splits)
  moreover have "h = h\<lparr>ch_disk := ch_disk h\<rparr>" by simp
  ultimately show ?thesis using read_roots_frame by metis
qed


lemma build_blob_errors: "build_blob args h = Some (Inl e, h') \<Longrightarrow> e \<noteq> NetshFailed code p"
proof -
  have r: "read_roots ps h \<noteq> Some (Inl (NetshFailed code p), h')" for ps h h'
  proof (induction ps arbitrary: h h')
    case (Cons q ps)
    then show ?case
      by (auto simp: bindO_def on_disk_simps returnO_def split: prod.splits sum.splits option.splits)
  qed (simp add: returnO_def)
  assume "build_blob args h = Some (Inl e, h')"
  then show ?thesis
    by (auto simp: build_blob_def bindO_def liftO_def throwO_def returnO_def required_def mat_vendor_option_def
        max_fragment_option_def Let_def r split: sum.splits if_splits option.splits)
qed

lemma install_effect:
  assumes win: "ce_windows env" and run: "install_profile_cmd env args h = Some (r, h')"
  defines "p \<equiv> profile_path env"
  shows "ch_registry h' = ch_registry h \<and> ch_stdout h' = ch_stdout h
    \<and> (\<forall>q. q \<noteq> p \<longrightarrow> dk_files (ch_disk h') q = dk_files (ch_disk h) q)
    \<and> (ch_runs h' = ch_runs h \<and> (\<exists>e. r = Inl e \<and> (\<forall>code p. e \<noteq> NetshFailed code p))
       \<or> (\<exists>interface c h0 d code. flag args ''--interface'' = Some interface \<and> build_blob args h = Some (Inr c, h0)
            \<and> dk_files d p = Some (lan_profile_xml (config_to_bytes c))
            \<and> ce_netsh env (netsh_args p interface) d = Inr code
            \<and> ch_runs h' = ch_runs h @ [(netsh_args p interface, dk_files d)]
            \<and> (if code = Some 0 then r = Inr ()
               else r = Inl (NetshFailed code p) \<and> dk_files (ch_disk h') p = dk_files d p)))"
proof (cases "flag args ''--interface''")
  case None
  with win run show ?thesis by (auto simp: install_profile_cmd_def bindO_def liftO_def required_def)
next
  case (Some interface)
  note install = run [unfolded install_profile_cmd_def]
  obtain x h0 where b: "build_blob args h = Some (x, h0)"
    using install win Some by (auto simp: bindO_def liftO_def required_def split: option.splits)
  obtain d0 where d0: "h0 = h\<lparr>ch_disk := d0\<rparr>" "dk_files d0 = dk_files (ch_disk h)"
    using build_blob_frame [OF b] by blast
  show ?thesis
  proof (cases x)
    case (Inl e)
    with build_blob_errors b have "e \<noteq> NetshFailed code q" for code q by blast
    with install win Some b Inl d0 show ?thesis by (auto simp: bindO_def liftO_def required_def)
  next
    case (Inr c)
    let ?xml = "lan_profile_xml (config_to_bytes c)"
    obtain y d1 where y: "fs_write p ?xml d0 = (y, d1)" by (cases "fs_write p ?xml d0")
    note w = fs_write_frame [OF y]
    show ?thesis
    proof (cases y)
      case (Inl k)
      with install win Some b \<open>x = Inr c\<close> d0 w y show ?thesis
        by (auto simp: bindO_def liftO_def required_def on_disk_simps p_def)
    next
      case (Inr u)
      show ?thesis
      proof (cases "ce_netsh env (netsh_args p interface) d1")
        case (Inl k)
        with install win Some b \<open>x = Inr c\<close> d0 w y \<open>y = Inr u\<close> show ?thesis
          by (auto simp: bindO_def liftO_def required_def on_disk_simps p_def run_netsh_def getO_def throwO_def)
      next
        case (Inr code)
        have rm: "\<forall>q. q \<noteq> p \<longrightarrow> dk_files (snd (fs_remove_file p d1)) q = dk_files d1 q"
          using fs_remove_frame [of p d1] by (metis prod.collapse)
        from install win Some b \<open>x = Inr c\<close> d0 y \<open>y = Inr u\<close> Inr
        have "ch_registry h' = ch_registry h" "ch_stdout h' = ch_stdout h"
          "ch_runs h' = ch_runs h @ [(netsh_args p interface, dk_files d1)]"
          "if code = Some 0 then r = Inr () \<and> ch_disk h' = snd (fs_remove_file p d1)
           else r = Inl (NetshFailed code p) \<and> ch_disk h' = d1"
          by (auto simp: bindO_def liftO_def required_def on_disk_simps p_def run_netsh_def getO_def throwO_def
              modifyO_def returnO_def discard_file_def eprintln_def split: if_splits)
        moreover have "dk_files d1 p = Some ?xml" "\<forall>q. q \<noteq> p \<longrightarrow> dk_files d1 q = dk_files (ch_disk h) q"
          using w \<open>y = Inr u\<close> d0 by simp_all
        moreover from calculation(4) rm this(2)
        have "\<forall>q. q \<noteq> p \<longrightarrow> dk_files (ch_disk h') q = dk_files (ch_disk h) q"
          by (auto split: if_splits)
        moreover have "if code = Some 0 then r = Inr ()
            else r = Inl (NetshFailed code p) \<and> dk_files (ch_disk h') p = dk_files d1 p"
          using calculation(4) by (auto split: if_splits)
        ultimately show ?thesis using Some b \<open>x = Inr c\<close> Inr by blast
      qed
    qed
  qed
qed


section \<open>Properties\<close>

definition demo_cli_env :: cli_env where
  "demo_cli_env = \<lparr>ce_windows = True, ce_absolute = Inr, ce_temp_dir = ascii ''C:/tmp'', ce_pid = 7,
     ce_netsh = (\<lambda>_ _. Inr (Some 1))\<rparr>"

definition demo_cli_host :: cli_host where
  "demo_cli_host = \<lparr>ch_disk = \<lparr>dk_files = [ascii ''a.der'' \<mapsto> [48, 3]], dk_faults = []\<rparr>, ch_stdout = [], ch_stderr = [],
     ch_registry = \<lparr>wr_keys = Map.empty, wr_faults = [], wr_open = []\<rparr>, ch_runs = []\<rparr>"

definition demo_cli_blob :: session_config_blob where
  "demo_cli_blob = \<lparr>scb_machine = False, scb_server_name = ascii ''srv'', scb_mat_vendor_id = 0x9999,
     scb_max_fragment = 1400, scb_selector_subject = ascii ''cn'', scb_roots = [[48, 3]], scb_mat = None\<rparr>"

lemma demo_cli_ok:
  "blob_wf demo_cli_blob" "option_values_ok demo_cli_blob [ascii ''a.der''] (ascii ''o.xml'')"
  "scb_mat demo_cli_blob = None" "calm (ch_disk demo_cli_host)"
  "list_all2 (\<lambda>p der. dk_files (ch_disk demo_cli_host) p = Some der) [ascii ''a.der''] (scb_roots demo_cli_blob)"
  by (simp_all add: blob_wf_def demo_cli_blob_def fits32_def ascii_def utf8_ascii option_values_ok_def
      looks_like_flag_def starts_with_def calm_def demo_cli_host_def)

text \<open>C34: every profile without a stored ticket can be asked for on the command line: with its options spelled
  out and the trust anchors on the disk, either emit command writes its document to the output file and
  nothing else, and the blob element of the document is read back to exactly that profile, by the
  decoder of the peer method.\<close>

theorem cli_provisions:
  assumes "blob_wf c" and "scb_mat c = None" and "option_values_ok c ps out" and "calm (ch_disk h)"
    and "list_all2 (\<lambda>p der. dk_files (ch_disk h) p = Some der) ps (scb_roots c)"
    and "(cmd, doc) \<in> {(''emit-config'', eap_host_config_xml), (''emit-profile'', lan_profile_xml)}"
  shows "\<exists>d text blob. run env (ascii cmd # cli_options c ps out) h = Some (Inr (), h\<lparr>ch_disk := d\<rparr>)
    \<and> dk_files d = (dk_files (ch_disk h))(out \<mapsto> doc (config_to_bytes c))
    \<and> element_text BLOB_ELEMENT (doc (config_to_bytes c)) = Some text
    \<and> xml_text_to_blob text = Some blob \<and> config_from_bytes blob = Some (Inr c)"
proof -
  have "run env (ascii cmd # cli_options c ps out) h
      = on_disk (WriteOut out) (fs_write out (doc (config_to_bytes c))) h"
    using build_blob_options [OF assms(3,2,4,5)] options_read(3) [OF assms(3)]
    by (simp add: run_emit [OF assms(6)] bindO_def write_out_def)
  then have "run env (ascii cmd # cli_options c ps out) h
      = Some (Inr (), h\<lparr>ch_disk := (ch_disk h)\<lparr>dk_files := (dk_files (ch_disk h))(out \<mapsto> doc (config_to_bytes c))\<rparr>\<rparr>)"
    by (simp add: on_disk_simps calm_fs(2) [OF assms(4)])
  moreover have "element_text BLOB_ELEMENT (doc (config_to_bytes c)) = Some (to_hex (config_to_bytes c))"
    using assms(6) document_blob by auto
  moreover have "xml_text_to_blob (to_hex (config_to_bytes c)) = Some (config_to_bytes c)"
    using xml_text_round [of "[]" "[]" "config_to_bytes c"] by (simp add: config_to_bytes_def)
  ultimately show ?thesis using config_round [OF assms(1)] by fastforce
qed

theorem cli_provisions_witness:
  "\<exists>d. run demo_cli_env (ascii ''emit-profile'' # cli_options demo_cli_blob [ascii ''a.der''] (ascii ''o.xml'')) demo_cli_host
        = Some (Inr (), demo_cli_host\<lparr>ch_disk := d\<rparr>)
     \<and> dk_files d (ascii ''o.xml'') = Some (lan_profile_xml (config_to_bytes demo_cli_blob))"
  using cli_provisions [OF demo_cli_ok(1,3,2,4,5), of "''emit-profile''" lan_profile_xml demo_cli_env] by force

lemma build_blob_interface:
  assumes "\<not> looks_like_flag v"
  shows "build_blob (ascii ''--interface'' # v # args) = build_blob args"
proof -
  have d: "ascii a = ascii b \<longleftrightarrow> map (of_char :: char \<Rightarrow> u8) a = map of_char b" for a b by (simp add: ascii_def)
  have ne: "ascii ''--interface'' = ascii ''--server-name'' \<longleftrightarrow> False" "ascii ''--interface'' = ascii ''--cert-subject'' \<longleftrightarrow> False"
    "ascii ''--interface'' = ascii ''--mat-vendor-id'' \<longleftrightarrow> False" "ascii ''--interface'' = ascii ''--max-fragment'' \<longleftrightarrow> False"
    "ascii ''--interface'' = ascii ''--machine'' \<longleftrightarrow> False" "ascii ''--interface'' = ascii ''--user'' \<longleftrightarrow> False"
    by (simp_all add: d)
  have f: "flag (ascii ''--interface'' # v # args) n = flag args n" if "looks_like_flag (ascii n)" "ascii ''--interface'' \<noteq> ascii n" for n
    using that no_flag [OF assms that(1)] by (simp add: flag_step)
  have p: "present (ascii ''--interface'' # v # args) n = present args n" if "looks_like_flag (ascii n)" "ascii ''--interface'' \<noteq> ascii n" for n
    using that no_flag [OF assms that(1)] by (simp add: present_def)
  have r: "repeated (ascii ''--interface'' # v # args) ''--root'' = repeated args ''--root''"
    using no_flag [OF assms option_names(8)] by (simp add: repeated_def d)
  show ?thesis
    unfolding build_blob_def required_def mat_vendor_option_def max_fragment_option_def r
    by (simp only: f [OF option_names(1)] f [OF option_names(2)] f [OF option_names(5)] f [OF option_names(6)]
        p [OF option_names(3)] p [OF option_names(4)] ne not_False_eq_True)
qed

text \<open>C35: install-profile, whatever fails: it touches only its temporary file and runs netsh at most once, after
  the whole document of the requested profile is in that file; it succeeds exactly when netsh ran and
  returned 0, and when netsh refuses, the file is left as netsh found it.\<close>

theorem cli_install_profile:
  assumes "ce_windows env" and "install_profile_cmd env args h = Some (r, h')"
  shows "ch_registry h' = ch_registry h \<and> ch_stdout h' = ch_stdout h
    \<and> (\<forall>q. q \<noteq> profile_path env \<longrightarrow> dk_files (ch_disk h') q = dk_files (ch_disk h) q)
    \<and> (ch_runs h' = ch_runs h \<and> (\<exists>e. r = Inl e \<and> (\<forall>code p. e \<noteq> NetshFailed code p))
       \<or> (\<exists>interface c h0 d code. flag args ''--interface'' = Some interface \<and> build_blob args h = Some (Inr c, h0)
            \<and> dk_files d (profile_path env) = Some (lan_profile_xml (config_to_bytes c))
            \<and> ce_netsh env (netsh_args (profile_path env) interface) d = Inr code
            \<and> ch_runs h' = ch_runs h @ [(netsh_args (profile_path env) interface, dk_files d)]
            \<and> (if code = Some 0 then r = Inr ()
               else r = Inl (NetshFailed code (profile_path env))
                 \<and> dk_files (ch_disk h') (profile_path env) = dk_files d (profile_path env))))"
  by (rule install_effect [OF assms])

theorem cli_install_profile_witness:
  "\<exists>h'. install_profile_cmd demo_cli_env
          ([ascii ''--interface'', ascii ''eth''] @ cli_options demo_cli_blob [ascii ''a.der''] (ascii ''o.xml'')) demo_cli_host
        = Some (Inl (NetshFailed (Some 1) (profile_path demo_cli_env)), h')
     \<and> dk_files (ch_disk h') (profile_path demo_cli_env) = Some (lan_profile_xml (config_to_bytes demo_cli_blob))"
proof -
  let ?opts = "cli_options demo_cli_blob [ascii ''a.der''] (ascii ''o.xml'')"
  let ?args = "ascii ''--interface'' # ascii ''eth'' # ?opts"
  have nf: "\<not> looks_like_flag (ascii ''eth'')" by (simp add: looks_like_flag_def starts_with_def ascii_def)
  have b: "build_blob ?args demo_cli_host = Some (Inr demo_cli_blob, demo_cli_host)"
    unfolding build_blob_interface [OF nf] by (rule build_blob_options [OF demo_cli_ok(2-5)])
  have i: "flag ?args ''--interface'' = Some (ascii ''eth'')" using nf by (simp add: flag_step)
  obtain h' where h': "install_profile_cmd demo_cli_env ?args demo_cli_host
      = Some (Inl (NetshFailed (Some 1) (profile_path demo_cli_env)), h')"
    using calm_fs(2) [OF demo_cli_ok(4)] i b
    by (simp add: install_profile_cmd_def demo_cli_env_def bindO_def liftO_def required_def on_disk_simps run_netsh_def
        getO_def modifyO_def returnO_def throwO_def)
  have "ce_windows demo_cli_env" by (simp add: demo_cli_env_def)
  from cli_install_profile [OF this h'] b
  have "dk_files (ch_disk h') (profile_path demo_cli_env) = Some (lan_profile_xml (config_to_bytes demo_cli_blob))"
    by (auto split: if_splits)
  with h' show ?thesis by simp
qed

end
