(* ===== verification/Gfx.thy ===== *)
theory Gfx
  imports Wide Status
begin

text \<open>
  Drawing: crates/usg-tray/src/gfx.rs. GDI and GDI+ are an explicit state: the objects that exist, which of
  the creations to come fail, and the drawing calls made. A pen or a brush is the colour and width it
  was created with. The \<open>f32\<close> values of the source are all whole numbers below 2 to the 24, which
  the type represents exactly, and are written as numbers.
\<close>

section \<open>Objects\<close>

datatype gdi_kind = GpToken | GpBrush | GpPen | GpGfx | GpBitmap | HIcon | HBrush | HBitmap | MemDc

type_synonym argb = u32

datatype draw_call =
    FillRectangle nat argb int int int int
  | FillEllipse nat argb int int int int
  | DrawLine nat argb nat int int int int
  | DrawArc nat argb nat int int int int nat nat
  | DrawImage nat nat int int int int
  | FillCard u32
  | DrawLabel u32 "u16 list" int int
  | Blit

record gdi =
  gd_fails :: "bool list"  \<comment> \<open>of the creations to come; none fails after the list\<close>
  gd_next :: nat
  gd_live :: "(gdi_kind \<times> nat) list"
  gd_calls :: "draw_call list"
  gd_token :: "nat option"  \<comment> \<open>the thread's \<open>TOKEN\<close>; none is 0\<close>
  gd_seal :: "nat option"  \<comment> \<open>the thread's \<open>SEAL\<close>; none is null\<close>

definition gdi_create :: "gdi_kind \<Rightarrow> gdi \<Rightarrow> nat option \<times> gdi" where
  "gdi_create k s =
     (let s1 = s\<lparr>gd_fails := tl (gd_fails s)\<rparr>
      in if gd_fails s \<noteq> [] \<and> hd (gd_fails s) then (None, s1)
         else (Some (gd_next s), s1\<lparr>gd_next := gd_next s + 1, gd_live := (k, gd_next s) # gd_live s\<rparr>))"

definition gdi_delete :: "gdi_kind \<Rightarrow> nat \<Rightarrow> gdi \<Rightarrow> gdi" where
  "gdi_delete k i s = s\<lparr>gd_live := remove1 (k, i) (gd_live s)\<rparr>"

definition gdi_draw :: "draw_call \<Rightarrow> gdi \<Rightarrow> gdi" where
  "gdi_draw c s = s\<lparr>gd_calls := gd_calls s @ [c]\<rparr>"

text \<open>Create an object, use it if that worked, delete it.\<close>

definition with_object :: "gdi_kind \<Rightarrow> (nat \<Rightarrow> gdi \<Rightarrow> gdi) \<Rightarrow> gdi \<Rightarrow> gdi" where
  "with_object k f s =
     (case gdi_create k s of
        (None, s1) \<Rightarrow> s1
      | (Some i, s1) \<Rightarrow> gdi_delete k i (f i s1))"

section \<open>Shapes\<close>

definition fill_rect :: "nat \<Rightarrow> argb \<Rightarrow> int \<Rightarrow> int \<Rightarrow> int \<Rightarrow> int \<Rightarrow> gdi \<Rightarrow> gdi" where
  "fill_rect g argb x y w h = with_object GpBrush (\<lambda>_. gdi_draw (FillRectangle g argb x y w h))"

definition stroke_line :: "nat \<Rightarrow> argb \<Rightarrow> int \<Rightarrow> int \<Rightarrow> int \<Rightarrow> int \<Rightarrow> nat \<Rightarrow> gdi \<Rightarrow> gdi" where
  "stroke_line g argb x1 y1 x2 y2 w = with_object GpPen (\<lambda>_. gdi_draw (DrawLine g argb w x1 y1 x2 y2))"

definition stroke_arc :: "nat \<Rightarrow> argb \<Rightarrow> int \<Rightarrow> int \<Rightarrow> int \<Rightarrow> int \<Rightarrow> nat \<Rightarrow> nat \<Rightarrow> nat \<Rightarrow> gdi \<Rightarrow> gdi" where
  "stroke_arc g argb x y w h start sweep pen_w =
     with_object GpPen (\<lambda>_. gdi_draw (DrawArc g argb pen_w x y w h start sweep))"

definition stroke_ellipse :: "nat \<Rightarrow> argb \<Rightarrow> int \<Rightarrow> int \<Rightarrow> int \<Rightarrow> int \<Rightarrow> nat \<Rightarrow> gdi \<Rightarrow> gdi" where
  "stroke_ellipse g argb x y w h pen_w = with_object GpPen (\<lambda>_. gdi_draw (DrawArc g argb pen_w x y w h 0 360))"

definition fill_circle :: "nat \<Rightarrow> argb \<Rightarrow> int \<Rightarrow> int \<Rightarrow> int \<Rightarrow> gdi \<Rightarrow> gdi" where
  "fill_circle g argb x y d = with_object GpBrush (\<lambda>_. gdi_draw (FillEllipse g argb x y d d))"

definition spinner :: "nat \<Rightarrow> u32 \<Rightarrow> int \<Rightarrow> int \<Rightarrow> int \<Rightarrow> gdi \<Rightarrow> gdi" where
  "spinner g frame x y d s =
     (let s1 = with_object GpPen (\<lambda>_. gdi_draw (DrawArc g 0x3FFFFFFF 4 x y d d 0 360)) s;
          start = unat (frame * 20) mod 360
      in with_object GpPen (\<lambda>_. gdi_draw (DrawArc g 0xFF42A5F5 4 x y d d start 90)) s1)"

definition draw_indicator :: "nat \<Rightarrow> auth_state \<Rightarrow> u32 \<Rightarrow> int \<Rightarrow> int \<Rightarrow> int \<Rightarrow> gdi \<Rightarrow> gdi" where
  "draw_indicator g state frame x y d =
     (case state of
        StAuthenticated \<Rightarrow> fill_circle g 0xFF43A047 x y d
      | StFailed \<Rightarrow> fill_circle g 0xFFE53935 x y d
      | StIdle \<Rightarrow> fill_circle g 0xFF9E9E9E x y d
      | _ \<Rightarrow> spinner g frame x y d)"

section \<open>The tray icon\<close>

definition draw_lock_and_key :: "nat \<Rightarrow> argb \<Rightarrow> argb \<Rightarrow> argb \<Rightarrow> gdi \<Rightarrow> gdi" where
  "draw_lock_and_key g body metal hole s =
     (let s = stroke_arc g metal 4 4 11 13 180 180 3 s;
          s = stroke_line g metal 4 10 4 15 3 s;
          s = stroke_line g metal 15 10 15 15 3 s;
          s = fill_rect g body 2 14 15 15 s;
          s = fill_circle g hole 7 18 5 s;
          s = fill_rect g hole 9 21 2 5 s;
          s = stroke_ellipse g metal 21 3 9 9 3 s;
          s = stroke_line g metal 25 12 25 29 3 s;
          s = stroke_line g metal 25 23 30 23 3 s
      in stroke_line g metal 25 28 29 28 3 s)"

definition icon_body :: "auth_state \<Rightarrow> argb" where
  "icon_body state =
     (case state of
        StAuthenticated \<Rightarrow> 0xFF43A047
      | StFailed \<Rightarrow> 0xFFE53935
      | StIdle \<Rightarrow> 0xFF90A4AE
      | _ \<Rightarrow> 0xFFFBC02D)"

definition METAL :: argb where "METAL = 0xFFCFD8DC"
definition HOLE :: argb where "HOLE = 0xFF263238"

definition make_tray_icon :: "auth_state \<Rightarrow> gdi \<Rightarrow> nat option \<times> gdi" where
  "make_tray_icon state s =
     (case gdi_create GpBitmap s of
        (None, s1) \<Rightarrow> (None, s1)
      | (Some bmp, s1) \<Rightarrow>
          let s2 = with_object GpGfx (\<lambda>g. draw_lock_and_key g (icon_body state) METAL HOLE) s1
          in (case gdi_create HIcon s2 of
                (icon, s3) \<Rightarrow> (icon, gdi_delete GpBitmap bmp s3)))"

section \<open>The seal\<close>

text \<open>What the process can look up: the published status, the directory of its executable, and whether GDI+
  opens a bitmap from a file.\<close>

record gfx_env =
  ge_status :: status_host
  ge_exe_dir :: "path option"
  ge_opens :: "u16 list \<Rightarrow> bool"

text \<open>\<open>PathBuf::pop\<close>.\<close>

definition path_pop :: "path \<Rightarrow> path" where
  "path_pop p = (let d = take (length p - length (file_name p)) p in if d = [] then [] else butlast d)"

definition seal_candidates :: "gfx_env \<Rightarrow> path list" where
  "seal_candidates env =
     (let dir = path_pop (status_file_path (ge_status env))
      in [path_join dir (ascii ''seal.png''), path_join dir (ascii ''DOW-Seal.png'')]
         @ (case ge_exe_dir env of
              Some d \<Rightarrow> [path_join (path_join d (ascii ''icons'')) (ascii ''DOW-Seal.png'')]
            | None \<Rightarrow> [])
         @ [path_join (ascii ''icons'') (ascii ''DOW-Seal.png'')])"

fun load_first :: "gfx_env \<Rightarrow> path list \<Rightarrow> gdi \<Rightarrow> nat option \<times> gdi" where
  "load_first env [] s = (None, s)"
| "load_first env (p # ps) s =
     (if ge_opens env (pcwstr (wide p)) then
        (case gdi_create GpBitmap s of
           (Some img, s1) \<Rightarrow> (Some img, s1)
         | (None, s1) \<Rightarrow> load_first env ps s1)
      else load_first env ps s)"

definition load_seal :: "gfx_env \<Rightarrow> gdi \<Rightarrow> nat option \<times> gdi" where
  "load_seal env = load_first env (seal_candidates env)"

definition gfx_startup :: "gfx_env \<Rightarrow> gdi \<Rightarrow> gdi" where
  "gfx_startup env s =
     (case gdi_create GpToken s of
        (token, s1) \<Rightarrow>
          (case load_seal env (s1\<lparr>gd_token := token\<rparr>) of
             (img, s2) \<Rightarrow> s2\<lparr>gd_seal := img\<rparr>))"

definition gfx_shutdown :: "gdi \<Rightarrow> gdi" where
  "gfx_shutdown s =
     (let s1 = (case gd_seal s of Some img \<Rightarrow> gdi_delete GpBitmap img (s\<lparr>gd_seal := None\<rparr>) | None \<Rightarrow> s)
      in (case gd_token s1 of Some token \<Rightarrow> gdi_delete GpToken token (s1\<lparr>gd_token := None\<rparr>) | None \<Rightarrow> s1))"

definition gfx_seal :: "gdi \<Rightarrow> nat option" where
  "gfx_seal s = gd_seal s"

definition draw_seal :: "nat \<Rightarrow> int \<Rightarrow> int \<Rightarrow> int \<Rightarrow> gdi \<Rightarrow> bool \<times> gdi" where
  "draw_seal g x y d s =
     (case gfx_seal s of
        None \<Rightarrow> (False, s)
      | Some img \<Rightarrow> (True, gdi_draw (DrawImage g img x y d d) s))"

section \<open>What drawing leaves behind\<close>

text \<open>Nothing: the live objects are those from before, and the thread's token and seal are untouched.\<close>

definition tidy :: "(gdi \<Rightarrow> gdi) \<Rightarrow> bool" where
  "tidy f \<longleftrightarrow> (\<forall>s. gd_live (f s) = gd_live s \<and> gd_token (f s) = gd_token s \<and> gd_seal (f s) = gd_seal s)"

named_theorems tidies \<open>operations that leave no object behind\<close>

lemma tidyD: "tidy f \<Longrightarrow> gd_live (f s) = gd_live s" "tidy f \<Longrightarrow> gd_token (f s) = gd_token s"
  "tidy f \<Longrightarrow> gd_seal (f s) = gd_seal s"
  by (simp_all add: tidy_def)

lemma tidy_draw [tidies]: "tidy (gdi_draw c)"
  by (simp add: tidy_def gdi_draw_def)

lemma tidy_comp: "tidy f \<Longrightarrow> tidy g \<Longrightarrow> tidy (\<lambda>s. f (g s))"
  by (simp add: tidy_def)

lemma create_live:
  "gdi_create k s = (r, s') \<Longrightarrow> gd_live s' = (case r of None \<Rightarrow> gd_live s | Some i \<Rightarrow> (k, i) # gd_live s)
     \<and> gd_token s' = gd_token s \<and> gd_seal s' = gd_seal s"
  by (auto simp: gdi_create_def Let_def split: if_splits)

lemma tidy_with [tidies]: "(\<And>i. tidy (f i)) \<Longrightarrow> tidy (with_object k f)"
  unfolding tidy_def with_object_def
  by (auto simp: gdi_delete_def dest!: create_live split: prod.split option.split option.splits)

lemma tidy_shapes [tidies]:
  "tidy (fill_rect g c x y w h)" "tidy (stroke_line g c x y w h l)" "tidy (stroke_arc g c x y w h m n l)"
  "tidy (stroke_ellipse g c x y w h l)" "tidy (fill_circle g c x y d)"
  unfolding fill_rect_def stroke_line_def stroke_arc_def stroke_ellipse_def fill_circle_def
  by (intro tidies)+

lemma tidy_spinner [tidies]: "tidy (spinner g frame x y d)"
  using tidyD [OF tidy_with [OF tidy_draw]] by (simp add: tidy_def spinner_def Let_def)

lemma tidy_indicator [tidies]: "tidy (draw_indicator g state frame x y d)"
  unfolding draw_indicator_def by (cases state) (simp_all add: tidies)

lemma tidy_lock [tidies]: "tidy (draw_lock_and_key g b m h)"
proof -
  note t = tidyD [OF tidy_shapes(1)] tidyD [OF tidy_shapes(2)] tidyD [OF tidy_shapes(3)] tidyD [OF tidy_shapes(4)]
    tidyD [OF tidy_shapes(5)]
  show ?thesis by (simp add: tidy_def draw_lock_and_key_def Let_def t)
qed

lemma make_icon_live:
  assumes "make_tray_icon state s = (r, s')"
  shows "gd_live s' = (case r of None \<Rightarrow> gd_live s | Some i \<Rightarrow> (HIcon, i) # gd_live s)
    \<and> gd_token s' = gd_token s \<and> gd_seal s' = gd_seal s"
proof -
  note t = tidyD [OF tidy_with [OF tidy_lock]]
  show ?thesis
    using assms t by (auto simp: make_tray_icon_def Let_def gdi_delete_def dest!: create_live split: prod.splits option.splits)
qed

lemma load_first_live:
  "load_first env ps s = (r, s') \<Longrightarrow> gd_live s' = (case r of None \<Rightarrow> gd_live s | Some i \<Rightarrow> (GpBitmap, i) # gd_live s)
     \<and> gd_token s' = gd_token s \<and> gd_seal s' = gd_seal s"
  by (induction ps arbitrary: s) (auto dest!: create_live split: if_splits prod.splits option.splits)

lemma startup_live:
  "gd_live (gfx_startup env s) =
     (case gd_seal (gfx_startup env s) of None \<Rightarrow> [] | Some i \<Rightarrow> [(GpBitmap, i)])
     @ (case gd_token (gfx_startup env s) of None \<Rightarrow> [] | Some i \<Rightarrow> [(GpToken, i)]) @ gd_live s"
proof -
  obtain token s1 where c: "gdi_create GpToken s = (token, s1)" by (cases "gdi_create GpToken s")
  obtain img s2 where l: "load_seal env (s1\<lparr>gd_token := token\<rparr>) = (img, s2)"
    by (cases "load_seal env (s1\<lparr>gd_token := token\<rparr>)")
  from load_first_live [OF l [unfolded load_seal_def]] create_live [OF c] show ?thesis
    by (auto simp: gfx_startup_def c l split: option.splits)
qed

end
