(* ===== verification/Toast.thy ===== *)
theory Toast
  imports Gfx
begin

text \<open>
  The state of the tray process and its popup: crates/usg-tray/src/toast.rs. What Windows and the disk answer
  while one message is handled is the argument \<open>env\<close>; what the process has asked Windows to show is the
  list of calls.
\<close>

section \<open>The process\<close>

datatype hicon = IconOwn nat | IconStock | IconNull

datatype nim = NimAdd | NimModify | NimDelete

datatype menu_item = MenuText "u16 list" | MenuSeparator | MenuCommand nat "u16 list"

datatype ui_call =
    ShowToast auth_state int int  \<comment> \<open>what it shows and where\<close>
  | HideToast
  | Repaint
  | Notify nim hicon "u16 list"
  | ShowMenu "menu_item list"
  | Spawn path

record tray_env =
  te_status :: status_host  \<comment> \<open>what \<open>read_status\<close> finds\<close>
  te_window :: "nat option"  \<comment> \<open>\<open>CreateWindowExW\<close>\<close>
  te_work :: "(int \<times> int) option"  \<comment> \<open>right and bottom of the work area\<close>
  te_stock :: bool  \<comment> \<open>whether the stock icon loads\<close>
  te_menu :: bool  \<comment> \<open>whether a menu can be created\<close>
  te_exe_dir :: "path option"
  te_is_file :: "path \<Rightarrow> bool"
  te_opens :: "u16 list \<Rightarrow> bool"
  te_try_wait :: "nat \<Rightarrow> io_kind + int option"
  te_spawn :: "path \<Rightarrow> nat option"

record toast_ctx =
  tc_hwnd :: nat
  tc_state :: auth_state
  tc_frame :: u32
  tc_ticks :: u32

record desktop =
  dt_gdi :: gdi
  dt_toast :: "toast_ctx option"  \<comment> \<open>\<open>CTX\<close>\<close>
  dt_timer :: bool  \<comment> \<open>the popup's animation timer\<close>
  dt_shown :: bool
  dt_calls :: "ui_call list"
  dt_last :: "auth_state option"  \<comment> \<open>\<open>LAST_STATE\<close>\<close>
  dt_child :: "nat option"  \<comment> \<open>\<open>STATUS_WIN\<close>\<close>
  dt_icon :: "(auth_state option \<times> hicon) option"  \<comment> \<open>\<open>CURRENT_ICON\<close>\<close>
  dt_quit :: bool

definition ui :: "ui_call \<Rightarrow> desktop \<Rightarrow> desktop" where
  "ui c d = d\<lparr>dt_calls := dt_calls d @ [c]\<rparr>"

definition seen_status :: "tray_env \<Rightarrow> auth_status option" where
  "seen_status env = fst (read_status (te_status env))"

section \<open>The popup\<close>

definition TOAST_W :: int where "TOAST_W = 360"
definition TOAST_H :: int where "TOAST_H = 104"
definition ANIM_MS :: u32 where "ANIM_MS = 60"
definition AUTO_HIDE_TICKS :: u32 where "AUTO_HIDE_TICKS = 8000 div ANIM_MS"

definition ensure_window :: "tray_env \<Rightarrow> desktop \<Rightarrow> nat option \<times> desktop" where
  "ensure_window env d =
     (case dt_toast d of
        Some c \<Rightarrow> (Some (tc_hwnd c), d)
      | None \<Rightarrow>
          (case te_window env of
             None \<Rightarrow> (None, d)
           | Some hwnd \<Rightarrow>
               (Some hwnd, d\<lparr>dt_toast := Some \<lparr>tc_hwnd = hwnd, tc_state = StIdle, tc_frame = 0, tc_ticks = 0\<rparr>\<rparr>)))"

definition notify :: "tray_env \<Rightarrow> auth_state \<Rightarrow> desktop \<Rightarrow> desktop" where
  "notify env state d =
     (case ensure_window env d of
        (None, d1) \<Rightarrow> d1
      | (Some hwnd, d1) \<Rightarrow>
          let d2 = d1\<lparr>dt_toast := map_option (\<lambda>c. c\<lparr>tc_state := state, tc_frame := 0, tc_ticks := 0\<rparr>) (dt_toast d1)\<rparr>;
              work = unwrap_or (te_work env) (0, 0);
              x = fst work - TOAST_W - 16;
              y = snd work - TOAST_H - 16
          in (ui Repaint (ui (ShowToast state x y) d2))\<lparr>dt_shown := True, dt_timer := True\<rparr>)"

definition in_progress :: "auth_state \<Rightarrow> bool" where
  "in_progress state \<longleftrightarrow> state \<in> {StConnecting, StOuterEstablished, StInnerInProgress}"

definition sat_add32 :: "u32 \<Rightarrow> u32 \<Rightarrow> u32" where
  "sat_add32 a b = (if u32_max < unat a + unat b then word_of_nat u32_max else a + b)"

text \<open>\<open>WM_TIMER\<close> of the popup's window.\<close>

definition toast_timer :: "desktop \<Rightarrow> desktop" where
  "toast_timer d =
     (case dt_toast d of
        None \<Rightarrow> d
      | Some c \<Rightarrow>
          let c1 = c\<lparr>tc_frame := tc_frame c + 1, tc_ticks := sat_add32 (tc_ticks c) 1\<rparr>;
              d1 = d\<lparr>dt_toast := Some c1\<rparr>
          in if AUTO_HIDE_TICKS < tc_ticks c1 then (ui HideToast d1)\<lparr>dt_timer := False, dt_shown := False\<rparr>
             else if in_progress (tc_state c1) then ui Repaint d1
             else d1)"

definition MIDDLE_DOT :: str where "MIDDLE_DOT = [0xC2, 0xB7]"

definition detail_lines :: "auth_status option \<Rightarrow> str list" where
  "detail_lines status =
     (case status of
        None \<Rightarrow> [ascii ''No active session'']
      | Some s \<Rightarrow>
          [identity_display_name (st_identity s) @ [32] @ MIDDLE_DOT @ [32] @ dash (st_cert_subject s),
           ascii ''Server: '' @ st_server_name s])"

definition draw_line :: "u32 \<Rightarrow> str \<Rightarrow> int \<Rightarrow> int \<Rightarrow> gdi \<Rightarrow> gdi" where
  "draw_line colour text x y s =
     (let buf = encode_utf16 text in if buf = [] then s else gdi_draw (DrawLabel colour buf x y) s)"

fun draw_details :: "int \<Rightarrow> str list \<Rightarrow> gdi \<Rightarrow> gdi" where
  "draw_details i [] s = s"
| "draw_details i (l # ls) s = draw_details (i + 1) ls (draw_line 0x00C8C8C8 l 104 (44 + 20 * i) s)"

text \<open>A GDI object that is used even when it could not be created: the calls then fail.\<close>

definition with_handle :: "gdi_kind \<Rightarrow> (gdi \<Rightarrow> gdi) \<Rightarrow> gdi \<Rightarrow> gdi" where
  "with_handle k f s =
     (case gdi_create k s of
        (None, s1) \<Rightarrow> f s1
      | (Some i, s1) \<Rightarrow> gdi_delete k i (f s1))"

definition draw_emblems :: "auth_state \<Rightarrow> u32 \<Rightarrow> nat \<Rightarrow> gdi \<Rightarrow> gdi" where
  "draw_emblems state frame g s =
     (case draw_seal g 14 14 76 s of
        (ok, s1) \<Rightarrow>
          draw_indicator g state frame (TOAST_W - 52) 18 30
            (if ok then s1 else draw_indicator g StIdle 0 14 14 76 s1))"

definition toast_paint :: "tray_env \<Rightarrow> desktop \<Rightarrow> desktop" where
  "toast_paint env d =
     (let (state, frame) = (case dt_toast d of None \<Rightarrow> (StIdle, 0) | Some c \<Rightarrow> (tc_state c, tc_frame c));
          card = (\<lambda>s.
            let s1 = with_handle HBrush (gdi_draw (FillCard 0x00935E35)) s;
                s2 = draw_line 0x00FFFFFF (state_headline state) 104 16 s1;
                s3 = draw_details 0 (detail_lines (seen_status env)) s2;
                s4 = with_object GpGfx (draw_emblems state frame) s3
            in gdi_draw Blit s4)
      in d\<lparr>dt_gdi := with_handle MemDc (with_handle HBitmap card) (dt_gdi d)\<rparr>)"

section \<open>Messages\<close>

definition WM_DESTROY :: u32 where "WM_DESTROY = 0x0002"
definition WM_PAINT :: u32 where "WM_PAINT = 0x000F"
definition WM_ERASEBKGND :: u32 where "WM_ERASEBKGND = 0x0014"
definition WM_COMMAND :: u32 where "WM_COMMAND = 0x0111"
definition WM_TIMER :: u32 where "WM_TIMER = 0x0113"

text \<open>The answer 1 tells that the background is done; every other message goes to \<open>DefWindowProcW\<close>, whose
  answer is not the program's.\<close>

definition toast_proc :: "tray_env \<Rightarrow> u32 \<Rightarrow> desktop \<Rightarrow> int option \<times> desktop" where
  "toast_proc env msg d =
     (if msg = WM_ERASEBKGND then (Some 1, d)
      else if msg = WM_PAINT then (Some 0, toast_paint env d)
      else if msg = WM_TIMER then (Some 0, toast_timer d)
      else (None, d))"

section \<open>The popup leaves no object behind\<close>

lemma tidy_handle [tidies]: "tidy f \<Longrightarrow> tidy (with_handle k f)"
  unfolding tidy_def with_handle_def
  by (auto simp: gdi_delete_def dest!: create_live split: prod.split option.split option.splits)

lemma tidy_draw_line [tidies]: "tidy (draw_line c t x y)"
  using tidyD [OF tidy_draw] by (simp add: tidy_def draw_line_def Let_def)

lemma tidy_details [tidies]: "tidy (draw_details i ls)"
proof -
  have "gd_live (draw_details i ls s) = gd_live s \<and> gd_token (draw_details i ls s) = gd_token s
      \<and> gd_seal (draw_details i ls s) = gd_seal s" for s
    by (induction ls arbitrary: i s) (simp_all add: tidyD [OF tidy_draw_line])
  then show ?thesis by (simp add: tidy_def)
qed

lemma tidy_seal: "draw_seal g x y w s = (ok, s') \<Longrightarrow> gd_live s' = gd_live s \<and> gd_token s' = gd_token s \<and> gd_seal s' = gd_seal s"
  using tidyD [OF tidy_draw] by (auto simp: draw_seal_def split: option.splits)

lemma tidy_emblems [tidies]: "tidy (draw_emblems state frame g)"
  using tidyD [OF tidy_indicator] tidy_seal
  by (auto simp: tidy_def draw_emblems_def split: prod.split)

lemma toast_paint_tidy:
  "gd_live (dt_gdi (toast_paint env d)) = gd_live (dt_gdi d) \<and> gd_token (dt_gdi (toast_paint env d)) = gd_token (dt_gdi d)
     \<and> gd_seal (dt_gdi (toast_paint env d)) = gd_seal (dt_gdi d)"
proof -
  define state frame where "state = (case dt_toast d of None \<Rightarrow> StIdle | Some c \<Rightarrow> tc_state c)"
    and "frame = (case dt_toast d of None \<Rightarrow> 0 | Some c \<Rightarrow> tc_frame c)"
  define card where "card = (\<lambda>s. gdi_draw Blit (with_object GpGfx (draw_emblems state frame)
      (draw_details 0 (detail_lines (seen_status env)) (draw_line 0x00FFFFFF (state_headline state) 104 16
        (with_handle HBrush (gdi_draw (FillCard 0x00935E35)) s)))))"
  have p: "dt_gdi (toast_paint env d) = with_handle MemDc (with_handle HBitmap card) (dt_gdi d)"
    by (cases "dt_toast d") (simp_all add: toast_paint_def card_def state_def frame_def Let_def)
  have "tidy card"
    using tidyD [OF tidy_draw] tidyD [OF tidy_with [OF tidy_emblems]] tidyD [OF tidy_details] tidyD [OF tidy_draw_line]
      tidyD [OF tidy_handle [OF tidy_draw]]
    by (simp add: tidy_def card_def)
  then have "tidy (with_handle MemDc (with_handle HBitmap card))" by (intro tidy_handle)
  then show ?thesis unfolding p by (simp add: tidy_def)
qed


section \<open>How long a popup stays\<close>

lemma auto_hide: "unat AUTO_HIDE_TICKS = 133"
  by (simp add: AUTO_HIDE_TICKS_def ANIM_MS_def unat_div)

lemma sat_add32_one: "unat (sat_add32 w 1) = min (Suc (unat w)) u32_max"
proof -
  have "unat w < 2 ^ 32" using unsigned_less [of w, where ?'a = nat] by simp
  then have le: "unat w \<le> u32_max" by (simp add: u32_max_def)
  show ?thesis
  proof (cases "u32_max < unat w + 1")
    case True
    moreover have "unat (word_of_nat u32_max :: u32) = u32_max"
      by (rule unat_of_nat_u32) (simp add: u32_max_def)
    ultimately show ?thesis using le by (simp add: sat_add32_def)
  next
    case False
    then have "Suc (unat w) < 2 ^ 32" by (simp add: u32_max_def)
    then have "unat (w + 1) = Suc (unat w)" by (simp add: unat_word_ariths)
    with False show ?thesis by (simp add: sat_add32_def)
  qed
qed

lemma ticks_after:
  assumes "dt_toast d = Some c" and "tc_ticks c = 0" and "dt_shown d" and "dt_timer d"
  shows "\<exists>c'. dt_toast ((toast_timer ^^ n) d) = Some c' \<and> tc_state c' = tc_state c \<and> unat (tc_ticks c') = min n u32_max
    \<and> dt_shown ((toast_timer ^^ n) d) = (n \<le> 133) \<and> dt_timer ((toast_timer ^^ n) d) = (n \<le> 133)
    \<and> dt_calls ((toast_timer ^^ n) d)
      = dt_calls d @ (if in_progress (tc_state c) then replicate (min n 133) Repaint else []) @ replicate (n - 133) HideToast"
proof (induction n)
  case 0
  with assms show ?case by simp
next
  case (Suc n)
  define e where "e = (toast_timer ^^ n) d"
  then have e: "(toast_timer ^^ Suc n) d = toast_timer e" by simp
  from Suc obtain c' where c': "dt_toast e = Some c'" "tc_state c' = tc_state c" "unat (tc_ticks c') = min n u32_max"
    and sh: "dt_shown e = (n \<le> 133)" "dt_timer e = (n \<le> 133)"
    and calls: "dt_calls e = dt_calls d @ (if in_progress (tc_state c) then replicate (min n 133) Repaint else [])
        @ replicate (n - 133) HideToast" unfolding e_def by blast
  have t: "unat (sat_add32 (tc_ticks c') 1) = min (Suc n) u32_max"
    using c'(3) by (simp add: sat_add32_one)
  have lim: "AUTO_HIDE_TICKS < sat_add32 (tc_ticks c') 1 \<longleftrightarrow> 133 < Suc n"
    by (simp add: word_less_nat_alt auto_hide t) (simp add: u32_max_def)
  show ?case
  proof (cases "133 < Suc n")
    case True
    then have "Suc n - 133 = Suc (n - 133)" by simp
    then have "replicate (Suc n - 133) HideToast = replicate (n - 133) HideToast @ [HideToast]"
      by (simp only: replicate_Suc replicate_append_same)
    moreover have "min (Suc n) 133 = min n 133" using True by simp
    ultimately show ?thesis
      unfolding e using True c' sh calls t lim by (simp add: toast_timer_def [of e] Let_def ui_def)
  next
    case False
    then have "replicate (min (Suc n) 133) Repaint = replicate (min n 133) Repaint @ [Repaint]"
      by (simp add: min_def replicate_append_same)
    with False show ?thesis
      unfolding e using c' sh calls t lim by (simp add: toast_timer_def [of e] Let_def ui_def)
  qed
qed

lemma notify_effect:
  assumes "dt_toast d \<noteq> None \<or> te_window env \<noteq> None"
  shows "\<exists>w x y. notify env s d = d\<lparr>dt_toast := Some \<lparr>tc_hwnd = w, tc_state = s, tc_frame = 0, tc_ticks = 0\<rparr>,
      dt_calls := dt_calls d @ [ShowToast s x y, Repaint], dt_shown := True, dt_timer := True\<rparr>"
proof (cases "dt_toast d")
  case (Some c)
  then show ?thesis by (simp add: notify_def ensure_window_def ui_def Let_def) (cases c, simp, blast)
next
  case None
  with assms obtain w where "te_window env = Some w" by blast
  with None show ?thesis
    by (intro exI [of _ w] exI [of _ "fst (unwrap_or (te_work env) (0, 0)) - TOAST_W - 16"]
        exI [of _ "snd (unwrap_or (te_work env) (0, 0)) - TOAST_H - 16"])
      (simp add: notify_def ensure_window_def ui_def Let_def)
qed

lemma notify_no_window:
  "dt_toast d = None \<Longrightarrow> te_window env = None \<Longrightarrow> notify env s d = d"
  by (simp add: notify_def ensure_window_def)

section \<open>Properties\<close>

definition demo_desktop :: desktop where
  "demo_desktop = \<lparr>dt_gdi = \<lparr>gd_fails = [], gd_next = 1, gd_live = [], gd_calls = [], gd_token = None, gd_seal = None\<rparr>,
     dt_toast = None, dt_timer = False, dt_shown = False, dt_calls = [], dt_last = None, dt_child = None,
     dt_icon = None, dt_quit = False\<rparr>"

definition demo_tray_env :: tray_env where
  "demo_tray_env = \<lparr>te_status = \<lparr>sh_program_data = None, sh_pid = 1, sh_seq = 0,
       sh_disk = \<lparr>dk_files = Map.empty, dk_faults = []\<rparr>\<rparr>,
     te_window = Some 5, te_work = Some (1920, 1040), te_stock = True, te_menu = True, te_exe_dir = None,
     te_is_file = (\<lambda>_. False), te_opens = (\<lambda>_. False), te_try_wait = (\<lambda>_. Inr None), te_spawn = (\<lambda>_. None)\<rparr>"

text \<open>A popup is shown at once, for exactly 133 ticks of its 60 ms timer; the next tick hides it and stops the
  timer, and no later tick brings it back. It is repainted at every tick while it stands for an
  authentication in progress, and once otherwise.\<close>

lemma toast_lifetime:
  assumes "dt_toast d \<noteq> None \<or> te_window env \<noteq> None"
  shows "dt_shown ((toast_timer ^^ n) (notify env s d)) = (n \<le> 133)
    \<and> dt_timer ((toast_timer ^^ n) (notify env s d)) = (n \<le> 133)
    \<and> (\<exists>x y. dt_calls ((toast_timer ^^ n) (notify env s d)) = dt_calls d @ [ShowToast s x y, Repaint]
         @ (if in_progress s then replicate (min n 133) Repaint else []) @ replicate (n - 133) HideToast)"
proof -
  obtain w x y where n: "notify env s d = d\<lparr>dt_toast := Some \<lparr>tc_hwnd = w, tc_state = s, tc_frame = 0, tc_ticks = 0\<rparr>,
      dt_calls := dt_calls d @ [ShowToast s x y, Repaint], dt_shown := True, dt_timer := True\<rparr>"
    using notify_effect [OF assms] by blast
  show ?thesis
    using ticks_after [where d = "notify env s d" and n = n] unfolding n by auto
qed

lemma toast_lifetime_witness:
  "dt_shown ((toast_timer ^^ 133) (notify demo_tray_env StFailed demo_desktop))
    \<and> \<not> dt_shown ((toast_timer ^^ 134) (notify demo_tray_env StFailed demo_desktop))"
  using toast_lifetime [of demo_desktop demo_tray_env 133 StFailed] toast_lifetime [of demo_desktop demo_tray_env 134 StFailed]
  by (simp add: demo_tray_env_def)

end
