(* ===== verification/Tray.thy ===== *)
theory Tray
  imports Toast
begin

text \<open>
  The status tray: crates/usg-tray/src/tray.rs. The window procedure is a step from a message to the state
  after it; the message loop folds it over what \<open>GetMessageW\<close> returns.
\<close>

section \<open>Icon and tooltip\<close>

definition build_icon :: "tray_env \<Rightarrow> auth_state option \<Rightarrow> gdi \<Rightarrow> hicon \<times> gdi" where
  "build_icon env state s =
     (case make_tray_icon (unwrap_or state StIdle) s of
        (Some i, s1) \<Rightarrow> (IconOwn i, s1)
      | (None, s1) \<Rightarrow> (if te_stock env then IconStock else IconNull, s1))"

text \<open>\<open>DestroyIcon\<close> does nothing to the shared stock icon, nor to a null handle.\<close>

fun destroy_icon :: "hicon \<Rightarrow> gdi \<Rightarrow> gdi" where
  "destroy_icon (IconOwn i) s = gdi_delete HIcon i s"
| "destroy_icon IconStock s = s"
| "destroy_icon IconNull s = s"

definition icon_for :: "tray_env \<Rightarrow> auth_state option \<Rightarrow> desktop \<Rightarrow> hicon \<times> desktop" where
  "icon_for env state d =
     (case dt_icon d of
        Some (cached, icon) \<Rightarrow>
          if cached = state then (icon, d)
          else (case build_icon env state (dt_gdi d) of
              (next, g) \<Rightarrow> (next, d\<lparr>dt_gdi := destroy_icon icon g, dt_icon := Some (state, next)\<rparr>))
      | None \<Rightarrow>
          (case build_icon env state (dt_gdi d) of
             (next, g) \<Rightarrow> (next, d\<lparr>dt_gdi := g, dt_icon := Some (state, next)\<rparr>)))"

definition destroy_current_icon :: "desktop \<Rightarrow> desktop" where
  "destroy_current_icon d =
     (case dt_icon d of
        Some (_, icon) \<Rightarrow> d\<lparr>dt_icon := None, dt_gdi := destroy_icon icon (dt_gdi d)\<rparr>
      | None \<Rightarrow> d)"

definition tooltip :: "auth_status option \<Rightarrow> str" where
  "tooltip status =
     (case status of
        None \<Rightarrow> ascii ''usg-TEAP: no status yet''
      | Some s \<Rightarrow>
          ascii ''usg-TEAP '' @ EM_DASH @ [32] @ state_label (st_state s)
            @ ascii '' ('' @ identity_display_name (st_identity s) @ ascii '')'')"

text \<open>The fixed buffer of 128 units, zeroed first.\<close>

definition set_tip :: "str \<Rightarrow> u16 list" where
  "set_tip tip = (let w = take 127 (encode_utf16 tip) in w @ replicate (128 - length w) 0)"

definition refresh :: "tray_env \<Rightarrow> auth_status option \<Rightarrow> desktop \<Rightarrow> (hicon \<times> u16 list) \<times> desktop" where
  "refresh env status d =
     (case icon_for env (map_option st_state status) d of
        (icon, d1) \<Rightarrow> ((icon, set_tip (tooltip status)), d1))"

section \<open>Menu and status window\<close>

definition menu_lines :: "auth_status option \<Rightarrow> str list" where
  "menu_lines status =
     (case status of
        None \<Rightarrow> [ascii ''No authentication status yet'']
      | Some s \<Rightarrow>
          [ascii ''Session: '' @ identity_display_name (st_identity s),
           ascii ''Outer (TEAP tunnel): '' @ fst (outer_inner (st_state s)),
           ascii ''Inner (EAP-TLS): '' @ snd (outer_inner (st_state s)),
           ascii ''Certificate: '' @ dash (st_cert_subject s),
           ascii ''Server: '' @ dash (st_server_name s)]
          @ (if st_detail s \<noteq> [] then [ascii ''Detail: '' @ st_detail s] else []))"

definition ID_STATUS :: nat where "ID_STATUS = 0xE71C"
definition ID_EXIT :: nat where "ID_EXIT = 0xE71D"

definition show_menu :: "tray_env \<Rightarrow> desktop \<Rightarrow> desktop" where
  "show_menu env d =
     (if \<not> te_menu env then d
      else ui (ShowMenu (map (\<lambda>l. MenuText (pcwstr (wide l))) (menu_lines (seen_status env))
          @ [MenuSeparator, MenuCommand ID_STATUS (pcwstr (wide (ascii ''Status window'' @ ELLIPSIS))),
             MenuCommand ID_EXIT (pcwstr (wide (ascii ''Exit'')))])) d)"

definition status_window_path :: "tray_env \<Rightarrow> path option" where
  "status_window_path env =
     (case te_exe_dir env of
        None \<Rightarrow> None
      | Some dir \<Rightarrow>
          let cand = path_join dir (ascii ''usg-status-window.exe'')
          in if te_is_file env cand then Some cand else None)"

definition open_status_window :: "tray_env \<Rightarrow> desktop \<Rightarrow> desktop" where
  "open_status_window env d =
     (let spawn = (\<lambda>d. case status_window_path env of
            None \<Rightarrow> d
          | Some p \<Rightarrow> (case te_spawn env p of
                None \<Rightarrow> d
              | Some child \<Rightarrow> (ui (Spawn p) d)\<lparr>dt_child := Some child\<rparr>))
      in (case dt_child d of
            Some child \<Rightarrow>
              (case te_try_wait env child of
                 Inr None \<Rightarrow> d
               | _ \<Rightarrow> spawn (d\<lparr>dt_child := None\<rparr>))
          | None \<Rightarrow> spawn d))"

section \<open>The window procedure\<close>

definition WM_TRAY :: u32 where "WM_TRAY = 0x8000 + 1"
definition WM_LBUTTONUP :: u32 where "WM_LBUTTONUP = 0x0202"
definition WM_RBUTTONUP :: u32 where "WM_RBUTTONUP = 0x0205"

definition tray_click :: "tray_env \<Rightarrow> u64 \<Rightarrow> desktop \<Rightarrow> desktop" where
  "tray_click env lparam d =
     (let event = (ucast lparam :: u32) AND 0xFFFF
      in if event = WM_LBUTTONUP then
           notify env (case seen_status env of None \<Rightarrow> StIdle | Some s \<Rightarrow> st_state s) d
         else if event = WM_RBUTTONUP then show_menu env d
         else d)"

definition tray_poll :: "tray_env \<Rightarrow> desktop \<Rightarrow> desktop" where
  "tray_poll env d =
     (let status = seen_status env in
      (case refresh env status d of
         ((icon, tip), d1) \<Rightarrow>
           let d2 = ui (Notify NimModify icon tip) d1;
               cur = map_option st_state status
           in (case cur of
                 Some state \<Rightarrow> if cur \<noteq> dt_last d2 then (notify env state d2)\<lparr>dt_last := cur\<rparr> else d2
               | None \<Rightarrow> d2)))"

text \<open>\<open>DestroyWindow\<close> sends \<open>WM_DESTROY\<close> before it returns.\<close>

definition tray_command :: "tray_env \<Rightarrow> u64 \<Rightarrow> desktop \<Rightarrow> desktop" where
  "tray_command env wparam d =
     (let command = unat (wparam AND 0xFFFF)
      in if command = ID_STATUS then open_status_window env d
         else if command = ID_EXIT then (ui (Notify NimDelete IconNull (replicate 128 0)) d)\<lparr>dt_quit := True\<rparr>
         else d)"

definition wndproc :: "tray_env \<Rightarrow> u32 \<Rightarrow> u64 \<Rightarrow> u64 \<Rightarrow> desktop \<Rightarrow> int option \<times> desktop" where
  "wndproc env msg wparam lparam d =
     (if msg = WM_TRAY then (Some 0, tray_click env lparam d)
      else if msg = WM_TIMER then (Some 0, tray_poll env d)
      else if msg = WM_COMMAND then (Some 0, tray_command env wparam d)
      else if msg = WM_DESTROY then (Some 0, d\<lparr>dt_quit := True\<rparr>)
      else (None, d))"

section \<open>The message loop\<close>

text \<open>What \<open>GetMessageW\<close> returns: 0, -1, or a message for one of the two windows.\<close>

datatype tray_event =
    QuitMessage
  | MessageError
  | TrayMessage tray_env u32 u64 u64
  | ToastMessage tray_env u32

fun tray_loop :: "tray_event list \<Rightarrow> desktop \<Rightarrow> bool \<times> desktop" where
  "tray_loop [] d = (False, d)"
| "tray_loop (QuitMessage # evs) d = (True, d)"
| "tray_loop (MessageError # evs) d = (True, d)"
| "tray_loop (TrayMessage env msg wparam lparam # evs) d = tray_loop evs (snd (wndproc env msg wparam lparam d))"
| "tray_loop (ToastMessage env msg # evs) d = tray_loop evs (snd (toast_proc env msg d))"

definition tray_gfx :: "tray_env \<Rightarrow> gfx_env" where
  "tray_gfx env = \<lparr>ge_status = te_status env, ge_exe_dir = te_exe_dir env, ge_opens = te_opens env\<rparr>"

definition tray_start :: "tray_env \<Rightarrow> desktop \<Rightarrow> desktop" where
  "tray_start env d =
     (let d1 = d\<lparr>dt_gdi := gfx_startup (tray_gfx env) (dt_gdi d)\<rparr>;
          status = seen_status env
      in (case refresh env status d1 of
            ((icon, tip), d2) \<Rightarrow> (ui (Notify NimAdd icon tip) d2)\<lparr>dt_last := map_option st_state status\<rparr>))"

definition tray_stop :: "desktop \<Rightarrow> desktop" where
  "tray_stop d = (let d1 = destroy_current_icon d in d1\<lparr>dt_gdi := gfx_shutdown (dt_gdi d1)\<rparr>)"

definition tray_run :: "tray_env \<Rightarrow> bool \<Rightarrow> tray_event list \<Rightarrow> desktop \<Rightarrow> bool \<times> desktop" where
  "tray_run env window evs d =
     (if \<not> window then (True, d)
      else (case tray_loop evs (tray_start env d) of
          (False, d1) \<Rightarrow> (False, d1)
        | (True, d1) \<Rightarrow> (True, tray_stop d1)))"


section \<open>Objects are balanced\<close>

text \<open>The objects the process holds: the generated icon it shows, the seal and the GDI+ session.\<close>

definition icon_objects :: "desktop \<Rightarrow> (gdi_kind \<times> nat) list" where
  "icon_objects d = (case dt_icon d of Some (_, IconOwn i) \<Rightarrow> [(HIcon, i)] | _ \<Rightarrow> [])"

definition session_objects :: "gdi \<Rightarrow> (gdi_kind \<times> nat) list" where
  "session_objects s =
     (case gd_seal s of None \<Rightarrow> [] | Some i \<Rightarrow> [(GpBitmap, i)])
     @ (case gd_token s of None \<Rightarrow> [] | Some i \<Rightarrow> [(GpToken, i)])"

definition holds_only :: "(gdi_kind \<times> nat) list \<Rightarrow> desktop \<Rightarrow> bool" where
  "holds_only base d \<longleftrightarrow> gd_live (dt_gdi d) = icon_objects d @ session_objects (dt_gdi d) @ base"

text \<open>Most handlers leave both the drawing state and the icon alone.\<close>

definition same_objects :: "desktop \<Rightarrow> desktop \<Rightarrow> bool" where
  "same_objects d d' \<longleftrightarrow> dt_icon d' = dt_icon d \<and> gd_live (dt_gdi d') = gd_live (dt_gdi d)
     \<and> gd_token (dt_gdi d') = gd_token (dt_gdi d) \<and> gd_seal (dt_gdi d') = gd_seal (dt_gdi d)"

lemma same_holds: "same_objects d d' \<Longrightarrow> holds_only base d' = holds_only base d"
  by (simp add: same_objects_def holds_only_def icon_objects_def session_objects_def)

lemma notify_same: "dt_icon (notify env s d) = dt_icon d \<and> dt_gdi (notify env s d) = dt_gdi d
    \<and> dt_last (notify env s d) = dt_last d"
proof (cases "dt_toast d \<noteq> None \<or> te_window env \<noteq> None")
  case True
  from notify_effect [OF this, of s] show ?thesis by force
next
  case False
  then show ?thesis by (simp add: notify_no_window)
qed

lemma toast_proc_same: "same_objects d (snd (toast_proc env msg d))"
proof -
  have "same_objects d (toast_timer d)"
    by (auto simp: same_objects_def toast_timer_def ui_def Let_def split: option.split)
  moreover have "same_objects d (toast_paint env d)"
    using toast_paint_tidy [of env d] by (simp add: same_objects_def) (simp add: toast_paint_def Let_def split: prod.split)
  moreover have "same_objects d d" by (simp add: same_objects_def)
  ultimately show ?thesis by (simp add: toast_proc_def)
qed

lemma icon_for_holds:
  assumes "holds_only base d" and "icon_for env state d = (icon, d')"
  shows "holds_only base d' \<and> dt_calls d' = dt_calls d \<and> dt_last d' = dt_last d \<and> dt_toast d' = dt_toast d
    \<and> dt_icon d' = Some (state, icon)"
proof (cases "\<exists>i. dt_icon d = Some (state, i)")
  case True
  with assms show ?thesis by (auto simp: icon_for_def)
next
  case False
  obtain x s1 where m: "make_tray_icon (unwrap_or state StIdle) (dt_gdi d) = (x, s1)"
    by (cases "make_tray_icon (unwrap_or state StIdle) (dt_gdi d)")
  note live = make_icon_live [OF m]
  show ?thesis
  proof (cases "dt_icon d")
    case None
    with assms m live show ?thesis
      by (cases x) (auto simp: icon_for_def build_icon_def holds_only_def icon_objects_def session_objects_def)
  next
    case (Some c)
    obtain st i where c: "c = (st, i)" by (cases c)
    with Some False have "st \<noteq> state" by blast
    with assms m live Some c show ?thesis
      by (cases x; cases i)
        (auto simp: icon_for_def build_icon_def holds_only_def icon_objects_def session_objects_def gdi_delete_def)
  qed
qed

lemma poll_holds:
  assumes "holds_only base d"
  shows "holds_only base (tray_poll env d)"
proof -
  let ?st = "seen_status env"
  obtain icon d1 where i: "icon_for env (map_option st_state ?st) d = (icon, d1)"
    by (cases "icon_for env (map_option st_state ?st) d")
  from icon_for_holds [OF assms i] have h: "holds_only base d1" by simp
  have n: "same_objects d1 ((notify env s (ui c d1))\<lparr>dt_last := l\<rparr>)" "same_objects d1 (ui c d1)" for s c l
    using notify_same [of env s "ui c d1"] by (simp_all add: same_objects_def ui_def)
  show ?thesis
    using h same_holds [OF n(1)] same_holds [OF n(2)]
    by (auto simp: tray_poll_def refresh_def i Let_def split: option.split)
qed

lemma wndproc_holds:
  assumes "holds_only base d"
  shows "holds_only base (snd (wndproc env msg wparam lparam d))"
proof -
  have click: "same_objects d (tray_click env lparam d)"
    using notify_same [of env _ d] by (auto simp: tray_click_def show_menu_def same_objects_def ui_def Let_def)
  have command: "same_objects d (tray_command env wparam d)"
    by (auto simp: tray_command_def open_status_window_def same_objects_def ui_def Let_def
        split: option.split sum.split)
  have quit: "same_objects d (d\<lparr>dt_quit := True\<rparr>)" by (simp add: same_objects_def)
  show ?thesis
    using assms poll_holds [OF assms] same_holds [OF click] same_holds [OF command] same_holds [OF quit]
    by (simp add: wndproc_def)
qed

lemma loop_holds: "holds_only base d \<Longrightarrow> holds_only base (snd (tray_loop evs d))"
  by (induction evs d rule: tray_loop.induct)
    (simp_all add: wndproc_holds same_holds [OF toast_proc_same])

lemma start_holds:
  assumes "dt_icon d = None"
  shows "holds_only (gd_live (dt_gdi d)) (tray_start env d)"
proof -
  let ?d1 = "d\<lparr>dt_gdi := gfx_startup (tray_gfx env) (dt_gdi d)\<rparr>"
  have "holds_only (gd_live (dt_gdi d)) ?d1"
    using assms startup_live [of "tray_gfx env" "dt_gdi d"] by (simp add: holds_only_def icon_objects_def session_objects_def)
  moreover obtain icon d2 where i: "icon_for env (map_option st_state (seen_status env)) ?d1 = (icon, d2)"
    by (cases "icon_for env (map_option st_state (seen_status env)) ?d1")
  ultimately have "holds_only (gd_live (dt_gdi d)) d2" using icon_for_holds by blast
  then show ?thesis
    by (simp add: tray_start_def refresh_def i Let_def) (simp add: holds_only_def icon_objects_def ui_def)
qed

lemma stop_live: "holds_only base d \<Longrightarrow> gd_live (dt_gdi (tray_stop d)) = base"
proof -
  assume h: "holds_only base d"
  have "gd_live (gfx_shutdown s) = b" if "gd_live s = session_objects s @ b" for s b
    using that by (auto simp: gfx_shutdown_def session_objects_def gdi_delete_def split: option.splits)
  moreover have "gd_live (dt_gdi (destroy_current_icon d)) = session_objects (dt_gdi (destroy_current_icon d)) @ base"
    using h by (auto simp: destroy_current_icon_def holds_only_def icon_objects_def session_objects_def gdi_delete_def
        split: option.splits hicon.splits)
  ultimately show ?thesis by (simp add: tray_stop_def Let_def)
qed


section \<open>When a popup is shown\<close>

definition popups :: "desktop \<Rightarrow> auth_state list" where
  "popups d = concat (map (\<lambda>c. case c of ShowToast s _ _ \<Rightarrow> [s] | _ \<Rightarrow> []) (dt_calls d))"

text \<open>The states found by the polls of a run, up to its end; a poll that finds none counts for nothing.\<close>

fun polled :: "tray_event list \<Rightarrow> auth_state list" where
  "polled [] = []"
| "polled (QuitMessage # evs) = []"
| "polled (MessageError # evs) = []"
| "polled (TrayMessage env msg wparam lparam # evs) =
     (if msg = WM_TIMER then (case seen_status env of None \<Rightarrow> [] | Some s \<Rightarrow> [st_state s]) else []) @ polled evs"
| "polled (ToastMessage env msg # evs) = polled evs"

text \<open>The changes in a sequence of states, after the state known before it.\<close>

definition changes :: "auth_state option \<Rightarrow> auth_state list \<Rightarrow> auth_state list" where
  "changes known ss = (case known of None \<Rightarrow> remdups_adj ss | Some s \<Rightarrow> tl (remdups_adj (s # ss)))"

lemma changes_Nil [simp]: "changes known [] = []"
  by (simp add: changes_def split: option.split)

lemma changes_Cons: "changes known (s # ss) = (if known = Some s then [] else [s]) @ changes (Some s) ss"
proof -
  have h: "remdups_adj (s # ss) = s # tl (remdups_adj (s # ss))"
    by (metis list.collapse hd_remdups_adj list.sel(1) list.distinct(1) remdups_adj_Nil_iff)
  show ?thesis
  proof (cases known)
    case None
    with h show ?thesis by (simp add: changes_def)
  next
    case (Some k)
    have "remdups_adj (k # s # ss) = (if k = s then remdups_adj (s # ss) else k # remdups_adj (s # ss))" by simp
    with Some h show ?thesis by (simp add: changes_def)
  qed
qed

text \<open>Messages without a left click on the icon, which shows the popup on demand.\<close>

fun no_click :: "tray_event \<Rightarrow> bool" where
  "no_click (TrayMessage env msg wparam lparam) =
     ((msg = WM_TRAY \<longrightarrow> (ucast lparam :: u32) AND 0xFFFF \<noteq> WM_LBUTTONUP) \<and> te_window env \<noteq> None)"
| "no_click (ToastMessage env msg) = True"
| "no_click QuitMessage = True"
| "no_click MessageError = True"

lemma popups_simps: "popups (ui c d) = popups d @ (case c of ShowToast s _ _ \<Rightarrow> [s] | _ \<Rightarrow> [])"
  by (simp add: popups_def ui_def)

lemma popups_last: "popups (d\<lparr>dt_last := l\<rparr>) = popups d"
  by (simp add: popups_def)

lemma popups_notify: "te_window env \<noteq> None \<Longrightarrow> popups (notify env s d) = popups d @ [s]"
proof -
  assume "te_window env \<noteq> None"
  then have "dt_toast d \<noteq> None \<or> te_window env \<noteq> None" by simp
  from notify_effect [OF this, of s] obtain w x y where
    "notify env s d = d\<lparr>dt_toast := Some \<lparr>tc_hwnd = w, tc_state = s, tc_frame = 0, tc_ticks = 0\<rparr>,
      dt_calls := dt_calls d @ [ShowToast s x y, Repaint], dt_shown := True, dt_timer := True\<rparr>" by blast
  then show ?thesis by (simp add: popups_def)
qed

lemma popups_calls: "dt_calls d' = dt_calls d \<Longrightarrow> popups d' = popups d"
  by (simp add: popups_def)

lemma icon_for_calls: "icon_for env state d = (icon, d') \<Longrightarrow> dt_calls d' = dt_calls d \<and> dt_last d' = dt_last d"
  by (auto simp: icon_for_def split: option.splits prod.splits if_splits)

lemma poll_popups:
  assumes "te_window env \<noteq> None"
  shows "popups (tray_poll env d) = popups d @ changes (dt_last d) (case seen_status env of None \<Rightarrow> [] | Some s \<Rightarrow> [st_state s])
    \<and> dt_last (tray_poll env d) = (case seen_status env of None \<Rightarrow> dt_last d | Some s \<Rightarrow> Some (st_state s))"
proof -
  obtain icon d1 where i: "icon_for env (map_option st_state (seen_status env)) d = (icon, d1)"
    by (cases "icon_for env (map_option st_state (seen_status env)) d")
  have d1: "popups d1 = popups d" "dt_last d1 = dt_last d" using icon_for_calls [OF i] popups_calls by blast+
  have p: "popups ((notify env s (ui (Notify m x y) d1))\<lparr>dt_last := l\<rparr>) = popups d @ [s]" for s m x y l
    using popups_notify [OF assms, of s "ui (Notify m x y) d1"] d1 by (simp add: popups_simps popups_last)
  have l: "dt_last (ui c e) = dt_last e" for c e by (simp add: ui_def)
  show ?thesis
    using d1 p by (auto simp: tray_poll_def refresh_def i Let_def popups_simps changes_Cons l split: option.split)
qed

lemma changes_app:
  "changes known (xs @ ys) = changes known xs @ changes (if xs = [] then known else Some (last xs)) ys"
proof (induction xs arbitrary: known)
qed (simp_all add: changes_Cons)

lemma other_messages:
  assumes "no_click (TrayMessage env msg wparam lparam)" and "msg \<noteq> WM_TIMER"
  shows "popups (snd (wndproc env msg wparam lparam d)) = popups d
    \<and> dt_last (snd (wndproc env msg wparam lparam d)) = dt_last d"
  using assms
  by (auto simp: wndproc_def tray_click_def show_menu_def tray_command_def open_status_window_def popups_def ui_def Let_def
      split: option.split sum.split)

lemma toast_messages:
  "popups (snd (toast_proc env msg d)) = popups d \<and> dt_last (snd (toast_proc env msg d)) = dt_last d"
  by (auto simp: toast_proc_def toast_timer_def toast_paint_def popups_def ui_def Let_def split: option.split prod.split)

lemma loop_popups:
  "list_all no_click evs \<Longrightarrow> popups (snd (tray_loop evs d)) = popups d @ changes (dt_last d) (polled evs)"
proof (induction evs d rule: tray_loop.induct)
  case (4 env msg wparam lparam evs d)
  let ?d = "snd (wndproc env msg wparam lparam d)"
  have ih: "popups (snd (tray_loop evs ?d)) = popups ?d @ changes (dt_last ?d) (polled evs)" using 4 by simp
  show ?case
  proof (cases "msg = WM_TIMER")
    case True
    have "te_window env \<noteq> None" using 4(2) by simp
    moreover have "?d = tray_poll env d" using True by (simp add: wndproc_def WM_TIMER_def WM_TRAY_def)
    ultimately show ?thesis
      using ih poll_popups [of env d] True by (cases "seen_status env") (simp_all add: changes_Cons)
  next
    case False
    have nc: "no_click (TrayMessage env msg wparam lparam)" using 4(2) by simp
    show ?thesis using ih other_messages [OF nc False, of d] False by simp
  qed
next
  case (5 env msg evs d)
  then show ?case using toast_messages [of env msg d] by simp
qed simp_all

section \<open>Properties\<close>

text \<open>A run in which the second of two polls finds a new state.\<close>

definition demo_status_env :: "auth_state \<Rightarrow> tray_env" where
  "demo_status_env s = demo_tray_env\<lparr>te_status := \<lparr>sh_program_data = None, sh_pid = 1, sh_seq = 0,
     sh_disk = \<lparr>dk_files = (\<lambda>_. Some (status_encode \<lparr>st_state = s, st_identity = StUser, st_cert_subject = [],
       st_machine_cert = [], st_user_cert = [], st_machine_thumbprint = [], st_user_thumbprint = [],
       st_server_name = [], st_detail = [], st_updated_unix = 0\<rparr>)), dk_faults = []\<rparr>\<rparr>\<rparr>"

lemma demo_seen: "map_option st_state (seen_status (demo_status_env s)) = Some s"
proof -
  let ?a = "\<lparr>st_state = s, st_identity = StUser, st_cert_subject = [], st_machine_cert = [], st_user_cert = [],
      st_machine_thumbprint = [], st_user_thumbprint = [], st_server_name = [], st_detail = [], st_updated_unix = 0\<rparr>"
  have "utf8_valid (status_encode ?a)" by (rule encode_utf8) (simp add: status_utf8_def)
  then show ?thesis
    using decode_encode [of ?a]
    by (simp add: seen_status_def demo_status_env_def read_status_def fs_read_def next_fault_def flatten_status_def)
qed

definition demo_polls :: "tray_event list" where
  "demo_polls = [TrayMessage (demo_status_env StConnecting) WM_TIMER 0 0,
     TrayMessage (demo_status_env StFailed) WM_TIMER 0 0, QuitMessage]"

text \<open>C36: the tray shows its popup of its own accord exactly when a poll finds a state other than the last one
  found: over any run in which nobody clicks the icon and the popup window exists or can be created, the popups are the changes in the sequence of the
  states polled, after the state found at the start; a status that is missing or cannot be read for a
  while shows nothing and does not count as a change.\<close>

theorem tray_popups_on_change:
  assumes "list_all no_click evs" and "dt_calls d = []"
  shows "popups (snd (tray_run env True evs d)) = changes (map_option st_state (seen_status env)) (polled evs)"
proof -
  obtain icon d2 where i: "icon_for env (map_option st_state (seen_status env))
      (d\<lparr>dt_gdi := gfx_startup (tray_gfx env) (dt_gdi d)\<rparr>) = (icon, d2)"
    by (cases "icon_for env (map_option st_state (seen_status env)) (d\<lparr>dt_gdi := gfx_startup (tray_gfx env) (dt_gdi d)\<rparr>)")
  have s: "popups (tray_start env d) = []" "dt_last (tray_start env d) = map_option st_state (seen_status env)"
    using icon_for_calls [OF i] assms(2) by (simp_all add: tray_start_def refresh_def i Let_def popups_def ui_def)
  have st: "popups (tray_stop e) = popups e" for e
    by (simp add: tray_stop_def destroy_current_icon_def popups_def Let_def split: option.split prod.split)
  obtain b d1 where l: "tray_loop evs (tray_start env d) = (b, d1)" by (cases "tray_loop evs (tray_start env d)")
  then have "popups (snd (tray_run env True evs d)) = popups d1" using st by (simp add: tray_run_def split: bool.split)
  also have "\<dots> = changes (map_option st_state (seen_status env)) (polled evs)"
    using loop_popups [OF assms(1), of "tray_start env d"] l s by simp
  finally show ?thesis .
qed

theorem tray_popups_on_change_witness:
  "popups (snd (tray_run (demo_status_env StConnecting) True demo_polls demo_desktop)) = [StFailed]"
proof -
  have n: "list_all no_click demo_polls"
    by (simp add: demo_polls_def demo_status_env_def demo_tray_env_def WM_TIMER_def WM_TRAY_def)
  have "polled demo_polls = [StConnecting, StFailed]"
    using demo_seen [of StConnecting] demo_seen [of StFailed]
    by (auto simp: demo_polls_def split: option.splits)
  then show ?thesis
    using tray_popups_on_change [OF n, of demo_desktop "demo_status_env StConnecting"]
    by (simp add: demo_seen changes_def demo_desktop_def)
qed

text \<open>C37: the tray leaks no drawing object, whatever creations fail: while it runs, what it holds beyond what
  there was is at most one generated icon, the seal and the GDI+ session, however often it was painted,
  polled or clicked; when the message loop has ended, nothing of it is left.\<close>

theorem tray_objects_balanced:
  assumes "dt_icon d = None"
  shows "(case tray_run env window evs d of
      (False, d') \<Rightarrow> gd_live (dt_gdi d') = icon_objects d' @ session_objects (dt_gdi d') @ gd_live (dt_gdi d)
    | (True, d') \<Rightarrow> gd_live (dt_gdi d') = gd_live (dt_gdi d))"
proof -
  obtain b d1 where l: "tray_loop evs (tray_start env d) = (b, d1)" by (cases "tray_loop evs (tray_start env d)")
  then have "holds_only (gd_live (dt_gdi d)) d1"
    using loop_holds [OF start_holds [OF assms, of env], of evs] by simp
  with stop_live [OF this] l show ?thesis
    by (cases b) (auto simp: tray_run_def holds_only_def)
qed

theorem tray_objects_balanced_witness:
  "gd_live (dt_gdi (snd (tray_run demo_tray_env True [TrayMessage demo_tray_env WM_TIMER 0 0, QuitMessage] demo_desktop))) = []"
  using tray_objects_balanced [of demo_desktop demo_tray_env True "[TrayMessage demo_tray_env WM_TIMER 0 0, QuitMessage]"]
  by (simp add: tray_run_def demo_desktop_def)

end
