(* ===== verification/Viewer.thy ===== *)
theory Viewer
  imports Cng Gfx
begin

text \<open>
  The status window: crates/usg-status-window/src/main.rs and cert.rs. What the window shows is a record of the
  properties it sets; opening a certificate is a run over CryptoAPI (the trace and the accounting of
  \<open>Cng\<close>), the disk and the shell.
\<close>

section \<open>The system\<close>

text \<open>
  \<open>vp_open\<close> gives for the flags of a store its certificates, as a context and its encoding (empty when the
  context has none). \<open>vp_hash\<close> is \<open>CertGetCertificateContextProperty\<close> for the SHA-256 property, into
  a buffer of 32 octets: what it wrote, if it worked. \<open>vp_subject\<close> tells which subjects contain a string.
\<close>

record viewer_platform =
  vp_open :: "u32 \<Rightarrow> hresult + (cert_ctx \<times> bytes) list"
  vp_hash :: "cert_ctx \<Rightarrow> bytes option"
  vp_subject :: "u16 list \<Rightarrow> cert_ctx \<Rightarrow> bool"
  vp_temp_dir :: path

record viewer =
  vw_disk :: disk
  vw_calls :: "api_call list"
  vw_shell :: "u16 list list"  \<comment> \<open>what was opened by \<open>ShellExecuteW\<close>\<close>

definition vcall :: "api_call list \<Rightarrow> viewer \<Rightarrow> viewer" where
  "vcall cs v = v\<lparr>vw_calls := vw_calls v @ cs\<rparr>"

definition shell_execute :: "u16 list \<Rightarrow> viewer \<Rightarrow> viewer" where
  "shell_execute w v = v\<lparr>vw_shell := vw_shell v @ [pcwstr w]\<rparr>"

section \<open>Finding and opening a certificate\<close>

definition view_location :: "status_identity \<Rightarrow> store_location" where
  "view_location identity = (case identity of StMachine \<Rightarrow> LocalMachine | StUser \<Rightarrow> CurrentUser)"

definition open_store :: "viewer_platform \<Rightarrow> status_identity \<Rightarrow> viewer \<Rightarrow> (cert_ctx \<times> bytes) list option \<times> viewer" where
  "open_store vp identity v =
     (let flags = store_flags (view_location identity)
      in (case vp_open vp flags of
            Inl _ \<Rightarrow> (None, v)
          | Inr certs \<Rightarrow> (Some certs, vcall [OpenStore flags] v)))"

definition cert_der :: "bytes \<Rightarrow> bytes option" where
  "cert_der der = (if der = [] then None else Some der)"

definition cert_sha256_hex :: "viewer_platform \<Rightarrow> cert_ctx \<Rightarrow> str" where
  "cert_sha256_hex vp ctx =
     (case vp_hash vp ctx of
        Some hash \<Rightarrow> if length hash = 32 then concat (map (hex_octet 65) hash) else []
      | None \<Rightarrow> [])"

definition shell_open :: "path \<Rightarrow> viewer \<Rightarrow> viewer" where
  "shell_open p = shell_execute (wide p)"

definition view_file :: "viewer_platform \<Rightarrow> status_identity \<Rightarrow> path" where
  "view_file vp identity = path_join (vp_temp_dir vp)
     (case identity of
        StMachine \<Rightarrow> ascii ''usg-supplicant-view-machine.cer''
      | StUser \<Rightarrow> ascii ''usg-supplicant-view-user.cer'')"

definition write_and_open :: "viewer_platform \<Rightarrow> status_identity \<Rightarrow> bytes \<Rightarrow> viewer \<Rightarrow> unit option \<times> viewer" where
  "write_and_open vp identity der v =
     (case fs_write (view_file vp identity) der (vw_disk v) of
        (Inl _, d) \<Rightarrow> (None, v\<lparr>vw_disk := d\<rparr>)
      | (Inr _, d) \<Rightarrow> (Some (), shell_open (view_file vp identity) (v\<lparr>vw_disk := d\<rparr>)))"

definition ascii_upper :: "str \<Rightarrow> str" where
  "ascii_upper s = map (\<lambda>c. if 97 \<le> c \<and> c \<le> 122 then c - 32 else c) s"

definition ascii_lower :: "str \<Rightarrow> str" where
  "ascii_lower s = map (\<lambda>c. if 65 \<le> c \<and> c \<le> 90 then c + 32 else c) s"

text \<open>The enumeration with \<open>CERT_FIND_ANY\<close>, which frees the context it is given, in every case.\<close>

fun thumbprint_loop ::
  "viewer_platform \<Rightarrow> status_identity \<Rightarrow> str \<Rightarrow> cert_ctx option \<Rightarrow> (cert_ctx \<times> bytes) list \<Rightarrow> viewer
     \<Rightarrow> unit option \<times> viewer" where
  "thumbprint_loop vp identity want prev [] v = (None, vcall [EnumCerts prev None] v)"
| "thumbprint_loop vp identity want prev ((ctx, der) # certs) v =
     (let v1 = vcall [EnumCerts prev (Some ctx)] v in
      if cert_sha256_hex vp ctx = want then
        (case (case cert_der der of Some d \<Rightarrow> write_and_open vp identity d v1 | None \<Rightarrow> (None, v1)) of
           (found, v2) \<Rightarrow> (found, vcall [FreeCtx ctx] v2))
      else thumbprint_loop vp identity want (Some ctx) certs v1)"

definition try_view_by_thumbprint ::
  "viewer_platform \<Rightarrow> status_identity \<Rightarrow> str \<Rightarrow> viewer \<Rightarrow> unit option \<times> viewer" where
  "try_view_by_thumbprint vp identity thumbprint v =
     (if thumbprint = [] then (None, v)
      else (case open_store vp identity v of
          (None, v1) \<Rightarrow> (None, v1)
        | (Some certs, v1) \<Rightarrow>
            (case thumbprint_loop vp identity (ascii_upper thumbprint) None certs v1 of
               (found, v2) \<Rightarrow> (found, vcall [CloseStore] v2))))"

text \<open>\<open>str::find\<close> of a string.\<close>

fun find_str :: "str \<Rightarrow> str \<Rightarrow> nat option" where
  "find_str pat s =
     (if take (length pat) s = pat then Some 0
      else (case s of [] \<Rightarrow> None | _ # s' \<Rightarrow> map_option Suc (find_str pat s')))"

definition common_name :: "str \<Rightarrow> str" where
  "common_name subject =
     (case find_str (ascii ''cn='') (ascii_lower subject) of
        Some pos \<Rightarrow>
          let rest = drop (pos + 3) subject;
              stop = unwrap_or (find_str [44] rest) (length rest)
          in trim (unwrap_or (get_to rest stop) rest)
      | None \<Rightarrow> trim subject)"

definition try_view_by_subject ::
  "viewer_platform \<Rightarrow> status_identity \<Rightarrow> str \<Rightarrow> viewer \<Rightarrow> unit option \<times> viewer" where
  "try_view_by_subject vp identity subject v =
     (let cn = common_name subject in
      if cn = [] then (None, v)
      else (case open_store vp identity v of
          (None, v1) \<Rightarrow> (None, v1)
        | (Some certs, v1) \<Rightarrow>
            (case find (\<lambda>c. vp_subject vp (pcwstr (wide cn)) (fst c)) certs of
               None \<Rightarrow> (None, vcall [EnumCerts None None, CloseStore] v1)
             | Some (ctx, der) \<Rightarrow>
                 (case (case cert_der der of
                     Some d \<Rightarrow> write_and_open vp identity d (vcall [EnumCerts None (Some ctx)] v1)
                   | None \<Rightarrow> (None, vcall [EnumCerts None (Some ctx)] v1)) of
                   (opened, v2) \<Rightarrow> (opened, vcall [FreeCtx ctx, CloseStore] v2)))))"

definition open_cert_manager :: "status_identity \<Rightarrow> viewer \<Rightarrow> viewer" where
  "open_cert_manager identity =
     shell_execute (wide (case identity of StMachine \<Rightarrow> ascii ''certlm.msc'' | StUser \<Rightarrow> ascii ''certmgr.msc''))"

definition view :: "viewer_platform \<Rightarrow> status_identity \<Rightarrow> str \<Rightarrow> str \<Rightarrow> viewer \<Rightarrow> viewer" where
  "view vp identity subject thumbprint v =
     (case try_view_by_thumbprint vp identity thumbprint v of
        (Some _, v1) \<Rightarrow> v1
      | (None, v1) \<Rightarrow>
          (case try_view_by_subject vp identity subject v1 of
             (Some _, v2) \<Rightarrow> v2
           | (None, v2) \<Rightarrow> open_cert_manager identity v2))"

section \<open>The window\<close>

record window_props =
  wp_headline :: str
  wp_session :: str
  wp_outer :: str
  wp_inner :: str
  wp_machine_cert :: str
  wp_user_cert :: str
  wp_server :: str
  wp_detail :: str
  wp_updated :: str
  wp_indicator :: int
  wp_has_machine_cert :: bool
  wp_has_user_cert :: bool

definition indicator :: "auth_state \<Rightarrow> int" where
  "indicator state =
     (case state of
        StAuthenticated \<Rightarrow> 2
      | StFailed \<Rightarrow> 3
      | StConnecting \<Rightarrow> 1
      | StOuterEstablished \<Rightarrow> 1
      | StInnerInProgress \<Rightarrow> 1
      | StIdle \<Rightarrow> 0)"

definition updated_label :: "u64 \<Rightarrow> u64 \<Rightarrow> str" where
  "updated_label now updated_unix =
     (if updated_unix = 0 \<or> now < updated_unix then EM_DASH
      else
        let secs = now - updated_unix in
        if secs < 60 then decimal (unat secs) @ ascii '' s ago''
        else if secs < 3600 then decimal (unat (secs div 60)) @ ascii '' min ago''
        else decimal (unat (secs div 3600)) @ ascii '' h ago'')"

definition apply_status :: "u64 option \<Rightarrow> auth_status option \<Rightarrow> window_props" where
  "apply_status clock status =
     (case status of
        None \<Rightarrow>
          \<lparr>wp_headline = ascii ''No active session'', wp_session = EM_DASH, wp_outer = EM_DASH, wp_inner = EM_DASH,
           wp_machine_cert = EM_DASH, wp_user_cert = EM_DASH, wp_server = EM_DASH, wp_detail = [],
           wp_updated = EM_DASH, wp_indicator = 0, wp_has_machine_cert = False, wp_has_user_cert = False\<rparr>
      | Some s \<Rightarrow>
          \<lparr>wp_headline = state_headline (st_state s), wp_session = identity_display_name (st_identity s),
           wp_outer = fst (outer_inner (st_state s)), wp_inner = snd (outer_inner (st_state s)),
           wp_machine_cert = dash (st_machine_cert s), wp_user_cert = dash (st_user_cert s),
           wp_server = dash (st_server_name s), wp_detail = st_detail s,
           wp_updated = updated_label (unix_now clock) (st_updated_unix s), wp_indicator = indicator (st_state s),
           wp_has_machine_cert = (st_machine_cert s \<noteq> []), wp_has_user_cert = (st_user_cert s \<noteq> [])\<rparr>)"

definition view_computer_cert :: "viewer_platform \<Rightarrow> auth_status option \<Rightarrow> viewer \<Rightarrow> viewer" where
  "view_computer_cert vp status v =
     (case status of
        Some s \<Rightarrow> view vp StMachine (st_machine_cert s) (st_machine_thumbprint s) v
      | None \<Rightarrow> v)"

definition view_user_cert :: "viewer_platform \<Rightarrow> auth_status option \<Rightarrow> viewer \<Rightarrow> viewer" where
  "view_user_cert vp status v =
     (case status of
        Some s \<Rightarrow> view vp StUser (st_user_cert s) (st_user_thumbprint s) v
      | None \<Rightarrow> v)"

definition image_candidates :: "str option \<Rightarrow> path option \<Rightarrow> string \<Rightarrow> string \<Rightarrow> path list" where
  "image_candidates program_data exe_dir plain branded =
     (case program_data of
        Some pd \<Rightarrow>
          [path_join (path_join pd (ascii ''usg-supplicant'')) (ascii plain),
           path_join (path_join pd (ascii ''usg-supplicant'')) (ascii branded)]
      | None \<Rightarrow> [])
     @ (case exe_dir of
          Some dir \<Rightarrow> [path_join (path_join dir (ascii ''icons'')) (ascii branded)]
        | None \<Rightarrow> [])
     @ [path_join (ascii ''icons'') (ascii branded)]"

definition logo_candidates :: "str option \<Rightarrow> path option \<Rightarrow> path list" where
  "logo_candidates program_data exe_dir = image_candidates program_data exe_dir ''logo.png'' ''DOW-Logo-Light.png''"

definition window_seal_candidates :: "str option \<Rightarrow> path option \<Rightarrow> path list" where
  "window_seal_candidates program_data exe_dir = image_candidates program_data exe_dir ''seal.png'' ''DOW-Seal.png''"

definition logo_path :: "(path \<Rightarrow> bool) \<Rightarrow> str option \<Rightarrow> path option \<Rightarrow> path option" where
  "logo_path is_file program_data exe_dir = find is_file (logo_candidates program_data exe_dir)"

definition seal_path :: "(path \<Rightarrow> bool) \<Rightarrow> str option \<Rightarrow> path option \<Rightarrow> path option" where
  "seal_path is_file program_data exe_dir = find is_file (window_seal_candidates program_data exe_dir)"


section \<open>References and effects\<close>

text \<open>What opening a file may change: the temporary file of the session's kind, and the shell.\<close>

definition view_frame :: "viewer_platform \<Rightarrow> status_identity \<Rightarrow> unit option \<Rightarrow> viewer \<Rightarrow> viewer \<Rightarrow> bool" where
  "view_frame vp identity r v v' \<longleftrightarrow>
     (\<forall>q. q \<noteq> view_file vp identity \<longrightarrow> dk_files (vw_disk v') q = dk_files (vw_disk v) q)
     \<and> (case r of
          None \<Rightarrow> vw_shell v' = vw_shell v
        | Some _ \<Rightarrow> vw_shell v' = vw_shell v @ [pcwstr (wide (view_file vp identity))])"

definition released :: "viewer \<Rightarrow> viewer \<Rightarrow> bool" where
  "released v v' \<longleftrightarrow> (\<forall>c. refs c (vw_calls v') = refs c (vw_calls v)) \<and> open_stores (vw_calls v') = open_stores (vw_calls v)"

lemma write_open_frame:
  "write_and_open vp identity der v = (r, v') \<Longrightarrow> view_frame vp identity r v v' \<and> vw_calls v' = vw_calls v"
  by (auto simp: write_and_open_def view_frame_def shell_open_def shell_execute_def dest!: fs_write_frame
      split: prod.splits sum.splits)

lemma frame_vcall: "view_frame vp identity r (vcall cs v) v' = view_frame vp identity r v v'"
  "view_frame vp identity r v (vcall cs v') = view_frame vp identity r v v'"
  by (cases r; simp add: view_frame_def vcall_def)+

lemma frame_refl: "view_frame vp identity None v v"
  by (simp add: view_frame_def)

lemma frame_trans: "view_frame vp identity None v v1 \<Longrightarrow> view_frame vp identity r v1 v2 \<Longrightarrow> view_frame vp identity r v v2"
  by (cases r) (auto simp: view_frame_def)

lemma calls_vcall: "vw_calls (vcall cs v) = vw_calls v @ cs"
  by (simp add: vcall_def)

text \<open>The part between finding a context and giving it back.\<close>

lemma der_frame:
  assumes "(case cert_der der of Some d \<Rightarrow> write_and_open vp identity d v | None \<Rightarrow> (None, v)) = (r, v')"
  shows "view_frame vp identity r v v' \<and> vw_calls v' = vw_calls v"
proof (cases "cert_der der")
  case None
  with assms frame_refl show ?thesis by auto
next
  case (Some d)
  with assms show ?thesis using write_open_frame [of vp identity d v r v'] by simp
qed

lemma thumbprint_frame:
  assumes "thumbprint_loop vp identity want prev certs v = (r, v')"
  shows "view_frame vp identity r v v' \<and> refs c (vw_calls v') = refs c (vw_calls v) - held c prev
    \<and> open_stores (vw_calls v') = open_stores (vw_calls v)"
  using assms
proof (induction certs arbitrary: prev v)
  case Nil
  then show ?case by (auto simp: frame_vcall frame_refl calls_vcall held_def)
next
  case (Cons x certs)
  obtain ctx der where x: "x = (ctx, der)" by (cases x)
  let ?v1 = "vcall [EnumCerts prev (Some ctx)] v"
  show ?case
  proof (cases "cert_sha256_hex vp ctx = want")
    case True
    obtain r2 v2 where w: "(case cert_der der of Some d \<Rightarrow> write_and_open vp identity d ?v1 | None \<Rightarrow> (None, ?v1)) = (r2, v2)"
      by (meson surj_pair)
    with Cons.prems x True have "r = r2" "v' = vcall [FreeCtx ctx] v2" by (simp_all add: Let_def)
    with der_frame [OF w] show ?thesis by (auto simp: frame_vcall calls_vcall held_def)
  next
    case False
    with Cons.prems x have "thumbprint_loop vp identity want (Some ctx) certs ?v1 = (r, v')" by (simp add: Let_def)
    from Cons.IH [OF this] show ?thesis by (auto simp: frame_vcall calls_vcall held_def)
  qed
qed

lemma by_thumbprint_frame:
  assumes "try_view_by_thumbprint vp identity thumbprint v = (r, v')"
  shows "view_frame vp identity r v v' \<and> released v v'"
proof (cases "thumbprint = []")
  case True
  with assms frame_refl show ?thesis by (auto simp: try_view_by_thumbprint_def released_def)
next
  case False
  note a = assms [unfolded try_view_by_thumbprint_def open_store_def]
  show ?thesis
  proof (cases "vp_open vp (store_flags (view_location identity))")
    case (Inl e)
    with a False frame_refl show ?thesis by (auto simp: released_def)
  next
    case (Inr certs)
    let ?v1 = "vcall [OpenStore (store_flags (view_location identity))] v"
    obtain r2 v2 where l: "thumbprint_loop vp identity (ascii_upper thumbprint) None certs ?v1 = (r2, v2)"
      by (meson surj_pair)
    with a False Inr have "r = r2" "v' = vcall [CloseStore] v2" by simp_all
    with thumbprint_frame [OF l] show ?thesis by (simp add: frame_vcall calls_vcall released_def)
  qed
qed

lemma by_subject_frame:
  assumes "try_view_by_subject vp identity subject v = (r, v')"
  shows "view_frame vp identity r v v' \<and> released v v'"
proof (cases "common_name subject = []")
  case True
  with assms frame_refl show ?thesis by (auto simp: try_view_by_subject_def released_def)
next
  case False
  note a = assms [unfolded try_view_by_subject_def open_store_def]
  show ?thesis
  proof (cases "vp_open vp (store_flags (view_location identity))")
    case (Inl e)
    with a False frame_refl show ?thesis by (auto simp: released_def)
  next
    case (Inr certs)
    let ?v1 = "vcall [OpenStore (store_flags (view_location identity))] v"
    show ?thesis
    proof (cases "find (\<lambda>c. vp_subject vp (pcwstr (wide (common_name subject))) (fst c)) certs")
      case None
      with a False Inr have "r = None" "v' = vcall [EnumCerts None None, CloseStore] ?v1" by (simp_all add: Let_def)
      then show ?thesis by (simp add: frame_vcall frame_refl calls_vcall released_def)
    next
      case (Some x)
      obtain ctx der where x: "x = (ctx, der)" by (cases x)
      let ?v2 = "vcall [EnumCerts None (Some ctx)] ?v1"
      obtain r2 v2 where w: "(case cert_der der of Some d \<Rightarrow> write_and_open vp identity d ?v2 | None \<Rightarrow> (None, ?v2)) = (r2, v2)"
        by (meson surj_pair)
      with a False Inr Some x have "r = r2" "v' = vcall [FreeCtx ctx, CloseStore] v2" by (simp_all add: Let_def)
      with der_frame [OF w] show ?thesis by (auto simp: frame_vcall calls_vcall released_def)
    qed
  qed
qed

lemma thumbprint_hit:
  assumes "find (\<lambda>c. cert_sha256_hex vp (fst c) = want) certs = Some (ctx, der)" and "der \<noteq> []" and "calm (vw_disk v)"
  shows "\<exists>v'. thumbprint_loop vp identity want prev certs v = (Some (), v')
    \<and> dk_files (vw_disk v') (view_file vp identity) = Some der"
  using assms(1,3)
proof (induction certs arbitrary: prev v)
  case (Cons x certs)
  obtain ctx2 der2 where x: "x = (ctx2, der2)" by (cases x)
  let ?v1 = "vcall [EnumCerts prev (Some ctx2)] v"
  have calm: "calm (vw_disk ?v1)" using Cons.prems(2) by (simp add: vcall_def)
  show ?case
  proof (cases "cert_sha256_hex vp ctx2 = want")
    case True
    with Cons.prems(1) x have "ctx = ctx2" "der = der2" by simp_all
    with True assms(2) calm_fs(2) [OF calm] show ?thesis
      by (simp add: x Let_def cert_der_def write_and_open_def shell_open_def shell_execute_def vcall_def)
  next
    case False
    then show ?thesis using Cons.IH [OF _ calm] Cons.prems(1) x by (simp add: Let_def)
  qed
qed simp

section \<open>Properties\<close>

definition demo_viewer_platform :: viewer_platform where
  "demo_viewer_platform = \<lparr>vp_open = (\<lambda>_. Inr [(1, [48]), (2, [49])]), vp_hash = (\<lambda>c. Some (replicate 32 (word_of_nat c))),
     vp_subject = (\<lambda>_ _. False), vp_temp_dir = ascii ''C:/tmp''\<rparr>"

definition demo_viewer :: viewer where
  "demo_viewer = \<lparr>vw_disk = \<lparr>dk_files = Map.empty, dk_faults = []\<rparr>, vw_calls = [], vw_shell = []\<rparr>"

text \<open>C38: viewing a certificate gives back every certificate context and closes every store it opened, on every
  path, opens exactly one thing, writes to no file but the temporary one of the session's kind, and when
  the store has a certificate with the published thumbprint and the file can be written, that file holds
  the first such certificate and is what is opened.\<close>

theorem viewer_exact:
  assumes "view vp identity subject thumbprint v = v'"
  shows "(\<forall>c. refs c (vw_calls v') = refs c (vw_calls v)) \<and> open_stores (vw_calls v') = open_stores (vw_calls v)
    \<and> (\<exists>w. vw_shell v' = vw_shell v @ [w])
    \<and> (\<forall>q. q \<noteq> view_file vp identity \<longrightarrow> dk_files (vw_disk v') q = dk_files (vw_disk v) q)
    \<and> (\<forall>certs ctx der. thumbprint \<noteq> [] \<and> vp_open vp (store_flags (view_location identity)) = Inr certs
         \<and> find (\<lambda>c. cert_sha256_hex vp (fst c) = ascii_upper thumbprint) certs = Some (ctx, der)
         \<and> der \<noteq> [] \<and> calm (vw_disk v)
         \<longrightarrow> dk_files (vw_disk v') (view_file vp identity) = Some der
           \<and> vw_shell v' = vw_shell v @ [pcwstr (wide (view_file vp identity))])"
proof -
  obtain r1 v1 where t: "try_view_by_thumbprint vp identity thumbprint v = (r1, v1)" by (meson surj_pair)
  obtain r2 v2 where s: "try_view_by_subject vp identity subject v1 = (r2, v2)" by (meson surj_pair)
  note tf = by_thumbprint_frame [OF t] and sf = by_subject_frame [OF s]
  have hit: "r1 = Some () \<and> dk_files (vw_disk v1) (view_file vp identity) = Some der"
    if h: "thumbprint \<noteq> []" "vp_open vp (store_flags (view_location identity)) = Inr certs"
      "find (\<lambda>c. cert_sha256_hex vp (fst c) = ascii_upper thumbprint) certs = Some (ctx, der)"
      "der \<noteq> []" "calm (vw_disk v)" for certs ctx der
  proof -
    let ?w = "vcall [OpenStore (store_flags (view_location identity))] v"
    have "calm (vw_disk ?w)" using h(5) by (simp add: vcall_def)
    from thumbprint_hit [OF h(3,4) this, of identity None] obtain v3 where
      "thumbprint_loop vp identity (ascii_upper thumbprint) None certs ?w = (Some (), v3)"
      "dk_files (vw_disk v3) (view_file vp identity) = Some der" by blast
    with t h(1,2) show ?thesis by (auto simp: try_view_by_thumbprint_def open_store_def vcall_def)
  qed
  show ?thesis
  proof (cases r1)
    case (Some u)
    with assms t have "v' = v1" by (simp add: view_def)
    with tf hit Some show ?thesis by (auto simp: view_frame_def released_def)
  next
    case None
    have v': "v' = (case r2 of Some _ \<Rightarrow> v2 | None \<Rightarrow> open_cert_manager identity v2)"
      using assms t s None by (auto simp: view_def split: option.split)
    have f: "view_frame vp identity r2 v v2" using frame_trans tf sf None by blast
    have "released v v'" "\<exists>w. vw_shell v' = vw_shell v @ [w]"
      "\<forall>q. q \<noteq> view_file vp identity \<longrightarrow> dk_files (vw_disk v') q = dk_files (vw_disk v) q"
      using f tf sf unfolding v'
      by (cases r2; auto simp: view_frame_def released_def open_cert_manager_def shell_execute_def)+
    with hit None show ?thesis by (auto simp: released_def)
  qed
qed

theorem viewer_exact_witness:
  "dk_files (vw_disk (view demo_viewer_platform StUser [] (concat (replicate 32 (ascii ''02''))) demo_viewer))
      (view_file demo_viewer_platform StUser) = Some [49]"
proof -
  have h: "cert_sha256_hex demo_viewer_platform c = concat (replicate 32 (hex_octet 65 (word_of_nat c)))" for c
    by (simp add: cert_sha256_hex_def demo_viewer_platform_def)
  have u: "ascii_upper (concat (replicate 32 (ascii ''02''))) = concat (replicate 32 (hex_octet 65 2))"
    "concat (replicate 32 (hex_octet 65 1)) \<noteq> concat (replicate 32 (hex_octet 65 (2 :: u8)))"
    by code_simp+
  define thumb where "thumb = concat (replicate 32 (ascii ''02''))"
  let ?certs = "[(1, [48]), (2, [49])] :: (cert_ctx \<times> bytes) list"
  have "find (\<lambda>c. cert_sha256_hex demo_viewer_platform (fst c) = ascii_upper thumb) ?certs = Some (2, [49])"
    using u unfolding thumb_def by (simp add: h)
  moreover have "thumb \<noteq> []" by (simp add: thumb_def ascii_def)
  moreover have "vp_open demo_viewer_platform (store_flags (view_location StUser)) = Inr ?certs" by (simp add: demo_viewer_platform_def)
  moreover have "calm (vw_disk demo_viewer)" by (simp add: demo_viewer_def calm_def)
  ultimately show ?thesis
    using viewer_exact [OF refl, of demo_viewer_platform StUser "[]" thumb demo_viewer] unfolding thumb_def [symmetric] by blast
qed

end
