(* ===== verification/Desktop.thy ===== *)
theory Desktop
  imports Viewer Tray
begin

text \<open>
  The process of the status window (\<open>app::run\<close> of crates/usg-status-window/src/main.rs) over what \<open>Viewer\<close>
  computes for it, and what the two processes that watch the status file, tray and window, show of what is
  published. Slint is the library: that the window can be created, that an image loads, and which of its
  events happen when are arguments.
\<close>

section \<open>The process of the window\<close>

definition POLL_MS :: nat where "POLL_MS = 750"

record 'img window =
  wd_props :: "window_props option"
  wd_logo :: "'img option"
  wd_seal :: "'img option"
  wd_poll :: "nat option"  \<comment> \<open>the period of the running timer\<close>
  wd_viewer :: viewer

record 'img window_env =
  we_program_data :: "str option"
  we_exe_dir :: "path option"
  we_is_file :: "path \<Rightarrow> bool"
  we_load :: "path \<Rightarrow> 'img option"

text \<open>\<open>if let Some(path) = .. && let Ok(img) = Image::load_from_path(&path)\<close>.\<close>

definition load_first_image :: "(path \<Rightarrow> 'img option) \<Rightarrow> path option \<Rightarrow> 'img option" where
  "load_first_image load p = (case p of None \<Rightarrow> None | Some f \<Rightarrow> load f)"

text \<open>What \<open>read_status\<close> gives a process whose view of the system is \<open>h\<close>.\<close>

definition status_seen :: "status_host \<Rightarrow> auth_status option" where
  "status_seen h = fst (read_status h)"

definition window_open :: "'img window_env \<Rightarrow> u64 option \<Rightarrow> status_host \<Rightarrow> viewer \<Rightarrow> 'img window" where
  "window_open we clock h v =
     \<lparr>wd_props = Some (apply_status clock (status_seen h)),
      wd_logo = load_first_image (we_load we) (logo_path (we_is_file we) (we_program_data we) (we_exe_dir we)),
      wd_seal = load_first_image (we_load we) (seal_path (we_is_file we) (we_program_data we) (we_exe_dir we)),
      wd_poll = Some POLL_MS, wd_viewer = v\<rparr>"

text \<open>The callbacks: the timer, and the two buttons. Each reads the status anew.\<close>

datatype window_event =
    WinPoll "u64 option" status_host
  | WinViewComputer viewer_platform status_host
  | WinViewUser viewer_platform status_host

fun window_callback :: "window_event \<Rightarrow> 'img window \<Rightarrow> 'img window" where
  "window_callback (WinPoll clock h) w = w\<lparr>wd_props := Some (apply_status clock (status_seen h))\<rparr>"
| "window_callback (WinViewComputer vp h) w =
     w\<lparr>wd_viewer := view_computer_cert vp (status_seen h) (wd_viewer w)\<rparr>"
| "window_callback (WinViewUser vp h) w =
     w\<lparr>wd_viewer := view_user_cert vp (status_seen h) (wd_viewer w)\<rparr>"

text \<open>\<open>MainWindow::new()?\<close>, the callbacks while the event loop runs, and how \<open>ui.run()\<close> ended.\<close>

definition window_run ::
  "'e option \<Rightarrow> 'img window_env \<Rightarrow> u64 option \<Rightarrow> status_host \<Rightarrow> window_event list \<Rightarrow> 'e + unit \<Rightarrow> viewer
     \<Rightarrow> ('e + unit) \<times> 'img window option" where
  "window_run refused we clock h evs ended v =
     (case refused of
        Some e \<Rightarrow> (Inl e, None)
      | None \<Rightarrow> (ended, Some (fold window_callback evs (window_open we clock h v))))"

section \<open>What the screens show of what is published\<close>

text \<open>The view that another process has of the disk after \<open>h\<close>: the same files, at a moment without faults.\<close>

definition sees :: "status_host \<Rightarrow> status_host \<Rightarrow> bool" where
  "sees rd h \<longleftrightarrow> sh_program_data rd = sh_program_data h \<and> dk_files (sh_disk rd) = dk_files (sh_disk h) \<and> calm (sh_disk rd)"

lemma sees_path: "sees rd h \<Longrightarrow> status_file_path rd = status_file_path h"
  by (simp add: sees_def status_file_path_def status_dir_def)

lemma seen_calm:
  "sees rd h \<Longrightarrow> status_seen rd =
     (case dk_files (sh_disk h) (status_file_path h) of
        None \<Rightarrow> None
      | Some text \<Rightarrow> if utf8_valid text then status_decode text else None)"
  using sees_path [of rd h] by (simp add: status_seen_def read_status_def sees_def calm_fs split: option.split)

lemma poll_status: "status_seen (te_status env) = status_seen (te_status env') \<Longrightarrow> env' = env\<lparr>te_status := te_status env'\<rparr> \<Longrightarrow>
    tray_poll env' d = tray_poll env d"
proof -
  assume s: "status_seen (te_status env) = status_seen (te_status env')" and e: "env' = env\<lparr>te_status := te_status env'\<rparr>"
  have eq: "te_window env' = te_window env" "te_work env' = te_work env" "te_stock env' = te_stock env"
    "seen_status env' = seen_status env"
    using s by (subst e, simp add: seen_status_def status_seen_def)+
  have n: "notify env' s = notify env s" for s unfolding notify_def ensure_window_def eq ..
  have r: "refresh env' s = refresh env s" for s unfolding refresh_def icon_for_def build_icon_def eq ..
  show ?thesis unfolding tray_poll_def eq n r ..
qed


text \<open>Every poll of the tray sets its tooltip.\<close>

lemma notify_calls: "set (dt_calls d) \<subseteq> set (dt_calls (notify env s d))"
  by (auto simp: notify_def ensure_window_def ui_def Let_def split: option.split)

lemma poll_tooltip:
  "\<exists>icon. Notify NimModify icon (set_tip (tooltip (seen_status env))) \<in> set (dt_calls (tray_poll env d))"
proof -
  obtain icon d1 where i: "icon_for env (map_option st_state (seen_status env)) d = (icon, d1)"
    by (cases "icon_for env (map_option st_state (seen_status env)) d")
  let ?c = "Notify NimModify icon (set_tip (tooltip (seen_status env)))"
  have "?c \<in> set (dt_calls (ui ?c d1))" by (simp add: ui_def)
  then have "?c \<in> set (dt_calls (notify env s (ui ?c d1)))" for s using notify_calls by blast
  with \<open>?c \<in> set (dt_calls (ui ?c d1))\<close> have "?c \<in> set (dt_calls (tray_poll env d))"
    using i by (cases "seen_status env") (simp_all add: tray_poll_def refresh_def Let_def)
  then show ?thesis by blast
qed

section \<open>Properties\<close>

text \<open>C39: the screens follow what is published, and nothing else. When a snapshot has been published, the next
  poll of the window shows exactly that snapshot (its line breaks as spaces) and the next poll of the tray
  takes its state as the last one known, shows it in the tooltip and pops it up if it is a change; when
  publishing failed at whatever file operation, both show what they would have shown had it not been
  tried.\<close>

theorem screens_follow_publication:
  assumes "write_status s h = (r, h')" and "status_utf8 s" and "sees rd h'" and "sees rd0 h"
    and "te_window env \<noteq> None"
  shows "case r of
      Inr _ \<Rightarrow>
        wd_props (window_callback (WinPoll clock rd) w) = Some (apply_status clock (Some (flatten_status s)))
        \<and> dt_last (tray_poll (env\<lparr>te_status := rd\<rparr>) d) = Some (st_state s)
        \<and> popups (tray_poll (env\<lparr>te_status := rd\<rparr>) d)
            = popups d @ (if dt_last d = Some (st_state s) then [] else [st_state s])
        \<and> (\<exists>icon. Notify NimModify icon (set_tip (tooltip (Some s))) \<in> set (dt_calls (tray_poll (env\<lparr>te_status := rd\<rparr>) d)))
    | Inl _ \<Rightarrow>
        window_callback (WinPoll clock rd) w = window_callback (WinPoll clock rd0) w
        \<and> tray_poll (env\<lparr>te_status := rd\<rparr>) d = tray_poll (env\<lparr>te_status := rd0\<rparr>) d"
proof (cases r)
  case (Inl k)
  have "status_file_path h' = status_file_path h"
    using write_status_files [OF assms(1)] by (intro same_status_path) blast
  moreover have "dk_files (sh_disk h') (status_file_path h) = dk_files (sh_disk h) (status_file_path h)"
    using write_status_files [OF assms(1)] Inl by simp
  ultimately have s: "status_seen rd = status_seen rd0"
    unfolding seen_calm [OF assms(3)] seen_calm [OF assms(4)] by simp
  have "tray_poll (env\<lparr>te_status := rd\<rparr>) d = tray_poll (env\<lparr>te_status := rd0\<rparr>) d"
    by (rule poll_status) (simp_all add: s)
  moreover have "window_callback (WinPoll clock rd) w = window_callback (WinPoll clock rd0) w" by (simp add: s)
  ultimately show ?thesis unfolding Inl sum.case by blast
next
  case (Inr u)
  have "status_file_path h' = status_file_path h"
    using write_status_files [OF assms(1)] by (intro same_status_path) blast
  moreover have "dk_files (sh_disk h') (status_file_path h) = Some (status_encode s)"
    using write_status_files [OF assms(1)] Inr by simp
  ultimately have seen: "status_seen rd = Some (flatten_status s)"
    using seen_calm [OF assms(3)] encode_utf8 [OF assms(2)] by (simp add: decode_encode)
  let ?env = "env\<lparr>te_status := rd\<rparr>"
  have t: "seen_status ?env = Some (flatten_status s)" using seen by (simp add: seen_status_def status_seen_def)
  have f: "st_state (flatten_status s) = st_state s" "tooltip (Some (flatten_status s)) = tooltip (Some s)"
    by (simp_all add: flatten_status_def tooltip_def)
  have e: "te_window ?env \<noteq> None" using assms(5) by simp
  have "popups (tray_poll ?env d) = popups d @ changes (dt_last d) [st_state s]"
    and l: "dt_last (tray_poll ?env d) = Some (st_state s)"
    using poll_popups [OF e, of d] unfolding t by (simp_all add: f)
  then have "popups (tray_poll ?env d) = popups d @ (if dt_last d = Some (st_state s) then [] else [st_state s])"
    by (auto simp: changes_def split: option.split)
  moreover have "\<exists>icon. Notify NimModify icon (set_tip (tooltip (Some s))) \<in> set (dt_calls (tray_poll ?env d))"
    using poll_tooltip [of ?env d] unfolding t f .
  moreover have "wd_props (window_callback (WinPoll clock rd) w) = Some (apply_status clock (Some (flatten_status s)))"
    by (simp add: seen)
  ultimately show ?thesis using l Inr by simp
qed


text \<open>The host of \<open>Status\<close> whose first publication fails, as the tray finds it before and after.\<close>

theorem screens_follow_publication_witness:
  "\<exists>k h1 h2. write_status demo_status demo_host = (Inl k, h1) \<and> write_status demo_status h1 = (Inr (), h2)
     \<and> (\<forall>rd. sees rd h1 \<longrightarrow> tray_poll (demo_tray_env\<lparr>te_status := rd\<rparr>) demo_desktop
          = tray_poll (demo_tray_env\<lparr>te_status := demo_host\<lparr>sh_disk := (sh_disk demo_host)\<lparr>dk_faults := []\<rparr>\<rparr>\<rparr>) demo_desktop)
     \<and> popups (tray_poll (demo_tray_env\<lparr>te_status := h2\<rparr>) demo_desktop) = [StFailed]"
proof -
  obtain h1 where 1: "write_status demo_status demo_host = (Inl (OtherKind 28), h1)" "calm (sh_disk h1)"
    by (simp add: write_status_def demo_host_def fs_defs calm_def unique_tmp_def)
  then obtain h2 where 2: "write_status demo_status h1 = (Inr (), h2)" "calm (sh_disk h2)"
    by (auto simp: write_status_def calm_fs unique_tmp_def)
  have u: "status_utf8 demo_status" by (simp add: status_utf8_def demo_status_def ascii_def utf8_ascii)
  have w: "te_window demo_tray_env \<noteq> None" by (simp add: demo_tray_env_def)
  let ?h0 = "demo_host\<lparr>sh_disk := (sh_disk demo_host)\<lparr>dk_faults := []\<rparr>\<rparr>"
  have s: "sees h1 h1" "sees h2 h2" "sees ?h0 demo_host" using 1(2) 2(2) by (simp_all add: sees_def calm_def)
  from screens_follow_publication [OF 1(1) u _ s(3) w] have
    "\<forall>rd. sees rd h1 \<longrightarrow> tray_poll (demo_tray_env\<lparr>te_status := rd\<rparr>) demo_desktop
      = tray_poll (demo_tray_env\<lparr>te_status := ?h0\<rparr>) demo_desktop"
    unfolding sum.case by blast
  moreover have "popups (tray_poll (demo_tray_env\<lparr>te_status := h2\<rparr>) demo_desktop) = [StFailed]"
    using screens_follow_publication [OF 2(1) u s(2,1) w]
    by (simp add: demo_desktop_def popups_def demo_status_def)
  ultimately show ?thesis using 1(1) 2(1) by blast
qed

end
