(* ===== verification/Harness.thy ===== *)
theory Harness
  imports Driver_Run
begin

text \<open>
  The server half of an authentication: crates/teap-test-harness/src/lib.rs. rustls' \<open>ServerConnection\<close> has
  the methods of the record \<open>rustls\<close>; its construction is the record \<open>server_builder\<close>. The source panics
  where anything is wrong: a panic is an error value here. The last section lets the server and the
  driver of \<open>Driver\<close> talk to each other, as crates/supplicant/tests/full_session.rs does.
\<close>

section \<open>The connection of the server\<close>

datatype panic =
    PnUnwrap  \<comment> \<open>\<open>unwrap\<close> of an error or of nothing\<close>
  | PnAssert  \<comment> \<open>\<open>assert_eq!\<close>\<close>
  | PnExpect string
  | PnPanic string
  | PnRange  \<comment> \<open>a slice index out of range\<close>

type_synonym ('c, 'a) conn_op = "('c, panic, 'a) op"

function srv_feed_loop :: "('c, 're) rustls \<Rightarrow> bytes \<Rightarrow> 'c \<Rightarrow> (panic + unit) \<times> 'c" where
  "srv_feed_loop sl rest c =
     (if rest = [] then (Inr (), c)
      else (case rl_read_tls sl c rest of
          (Inl e, c1) \<Rightarrow> (Inl PnUnwrap, c1)
        | (Inr n, c1) \<Rightarrow>
            if n = 0 then (Inr (), c1)
            else (case rl_process_new_packets sl c1 of
                (Inl e, c2) \<Rightarrow> (Inl PnUnwrap, c2)
              | (Inr _, c2) \<Rightarrow>
                  if length rest < n then (Inl PnRange, c2) else srv_feed_loop sl (drop n rest) c2)))"
  by pat_completeness auto
termination
  by (relation "measure (\<lambda>(sl, rest, c). length rest)") auto

declare srv_feed_loop.simps [simp del]

definition srv_feed :: "('c, 're) rustls \<Rightarrow> bytes \<Rightarrow> ('c, unit) conn_op" where
  "srv_feed sl records = pureO (srv_feed_loop sl records)"

partial_function (option) srv_drain_loop ::
  "('c, 're) rustls \<Rightarrow> bytes \<Rightarrow> 'c \<Rightarrow> ((panic + bytes) \<times> 'c) option" where
  "srv_drain_loop sl out c =
     (if rl_wants_write sl c then
        (case rl_write_tls sl c of
           (Inl e, c1) \<Rightarrow> Some (Inl PnUnwrap, c1)
         | (Inr bs, c1) \<Rightarrow> srv_drain_loop sl (out @ bs) c1)
      else Some (Inr out, c))"

definition srv_take :: "('c, 're) rustls \<Rightarrow> ('c, bytes) conn_op" where
  "srv_take sl = srv_drain_loop sl []"

partial_function (option) srv_read_loop ::
  "('c, 're) rustls \<Rightarrow> bytes \<Rightarrow> bytes \<Rightarrow> 'c \<Rightarrow> ((panic + bytes) \<times> 'c) option" where
  "srv_read_loop sl buf tmp c =
     (case rl_read sl c tmp of
        (Inl e, tmp1, c1) \<Rightarrow>
          if read_ended e then Some (Inr buf, c1) else Some (Inl (PnPanic ''server read''), c1)
      | (Inr n, tmp1, c1) \<Rightarrow>
          if n = 0 then Some (Inr buf, c1)
          else if length tmp1 < n then Some (Inl PnRange, c1)
          else srv_read_loop sl (buf @ take n tmp1) tmp1 c1)"

definition srv_read_plain :: "('c, 're) rustls \<Rightarrow> ('c, bytes) conn_op" where
  "srv_read_plain sl = srv_read_loop sl [] (replicate 4096 0)"

text \<open>\<open>conn.writer().write_all(..).unwrap()\<close>.\<close>

definition srv_write_all :: "('c, 're) rustls \<Rightarrow> bytes \<Rightarrow> ('c, unit) conn_op" where
  "srv_write_all sl bs c =
     (case rl_write_all sl c bs of
        (Inl e, c1) \<Rightarrow> Some (Inl PnUnwrap, c1)
      | (Inr _, c1) \<Rightarrow> Some (Inr (), c1))"

section \<open>Packets\<close>

definition unwrapE :: "'e + 'a \<Rightarrow> panic + 'a" where
  "unwrapE r = (case r of Inl _ \<Rightarrow> Inl PnUnwrap | Inr x \<Rightarrow> Inr x)"

definition srv_eap :: "eap_code \<Rightarrow> u8 \<Rightarrow> u8 option \<Rightarrow> bytes \<Rightarrow> panic + bytes" where
  "srv_eap code i ty d = unwrapE (eap_encode \<lparr>ep_code = code, ep_id = i, ep_type = ty, ep_data = d\<rparr>)"

definition teap_req :: "u8 \<Rightarrow> teap_outer \<Rightarrow> panic + bytes" where
  "teap_req i outer = srv_eap Request i (Some TEAP_EAP_TYPE) (outer_build outer)"

definition teap_msg :: "bytes \<Rightarrow> teap_outer" where
  "teap_msg d = \<lparr>to_more = False, to_start = False, to_version = 1, to_length = None, to_data = d\<rparr>"

definition srv_find :: "raw_tlv list \<Rightarrow> u16 \<Rightarrow> raw_tlv option" where
  "srv_find tlvs t = find (\<lambda>x. rt_type x = t) tlvs"

definition SRV_EAP_TLS_TYPE :: u8 where [simp]: "SRV_EAP_TLS_TYPE = 13"

definition SRV_EAP_TLS_LABEL :: bytes where
  "SRV_EAP_TLS_LABEL = ascii ''EXPORTER_EAP_TLS_Key_Material''"

definition outer_records :: "bytes \<Rightarrow> panic + bytes" where
  "outer_records resp =
     (case eap_decode resp of
        Inl _ \<Rightarrow> Inl PnUnwrap
      | Inr pkt \<Rightarrow>
          if ep_type pkt \<noteq> Some TEAP_EAP_TYPE then Inl PnAssert
          else (case outer_parse (ep_data pkt) of
              Inl _ \<Rightarrow> Inl PnUnwrap
            | Inr outer \<Rightarrow> Inr (to_data outer)))"

section \<open>The server\<close>

datatype server_phase =
    SvOuterHs
  | SvInnerHs
  | SvAfterCommit
  | SvAwaitClientCb
  | SvAwaitClientResult
  | SvDone

record 'c teap_server =
  sv_outer :: 'c
  sv_inner :: 'c
  sv_phase :: server_phase
  sv_id :: u8
  sv_inner_id :: u8
  sv_mac :: aws_lc_mac
  sv_identity :: identity_type

type_synonym ('c, 'a) server_op = "('c teap_server, panic, 'a) op"

record ('cert, 'key, 'b, 'v, 'cfg, 'c, 're) server_builder =
  sb_builder :: "'re + 'b"  \<comment> \<open>\<open>builder_with_provider\<close> and \<open>with_protocol_versions\<close>\<close>
  sb_no_client_auth :: "'b \<Rightarrow> 'b"
  sb_add_root :: "'cert \<Rightarrow> 're + 'cert"
  sb_verifier :: "'cert list \<Rightarrow> 're + 'v"
  sb_client_verifier :: "'b \<Rightarrow> 'v \<Rightarrow> 'b"
  sb_single_cert :: "'b \<Rightarrow> 'cert list \<Rightarrow> 'key \<Rightarrow> 're + 'cfg"
  sb_connection :: "'cfg \<Rightarrow> 're + 'c"

definition bindE :: "panic + 'a \<Rightarrow> ('a \<Rightarrow> panic + 'b) \<Rightarrow> panic + 'b" where
  "bindE r f = (case r of Inl e \<Rightarrow> Inl e | Inr x \<Rightarrow> f x)"

definition server_new ::
  "('cert, 'key, 'b, 'v, 'cfg, 'c, 're) server_builder \<Rightarrow> 'cert \<times> 'key \<Rightarrow> 'cert \<Rightarrow> identity
     \<Rightarrow> panic + 'c teap_server" where
  "server_new sb server_id client_cert ident =
     bindE (unwrapE (sb_builder sb)) (\<lambda>b.
     bindE (unwrapE (sb_single_cert sb (sb_no_client_auth sb b) [fst server_id] (snd server_id))) (\<lambda>cfg.
     bindE (unwrapE (sb_connection sb cfg)) (\<lambda>outer.
     bindE (unwrapE (sb_add_root sb client_cert)) (\<lambda>root.
     bindE (unwrapE (sb_verifier sb [root])) (\<lambda>verifier.
     bindE (unwrapE (sb_builder sb)) (\<lambda>b2.
     bindE (unwrapE (sb_single_cert sb (sb_client_verifier sb b2 verifier) [fst server_id] (snd server_id)))
       (\<lambda>cfg2.
     bindE (unwrapE (sb_connection sb cfg2)) (\<lambda>inner.
       Inr \<lparr>sv_outer = outer, sv_inner = inner, sv_phase = SvOuterHs, sv_id = 1, sv_inner_id = 1,
         sv_mac = aws_sha384,
         sv_identity = (case ident of Machine \<Rightarrow> ItMachine | User \<Rightarrow> ItUser)\<rparr>))))))))"

definition srv_is_done :: "'c teap_server \<Rightarrow> bool" where
  "srv_is_done sv \<longleftrightarrow> sv_phase sv = SvDone"

abbreviation at_outer :: "('c, 'a) conn_op \<Rightarrow> ('c, 'a) server_op" where
  "at_outer m \<equiv> zoomO sv_outer (\<lambda>c. sv_outer_update (\<lambda>_. c)) (\<lambda>e. e) m"

abbreviation at_inner :: "('c, 'a) conn_op \<Rightarrow> ('c, 'a) server_op" where
  "at_inner m \<equiv> zoomO sv_inner (\<lambda>c. sv_inner_update (\<lambda>_. c)) (\<lambda>e. e) m"

abbreviation mustO :: "panic + 'a \<Rightarrow> ('c, 'a) server_op" where
  "mustO r \<equiv> liftO (\<lambda>e. e) r"

definition srv_start :: "('c, bytes) server_op" where
  "srv_start =
     bindO (getO sv_id) (\<lambda>i.
       mustO (teap_req i \<lparr>to_more = False, to_start = True, to_version = 1, to_length = None, to_data = []\<rparr>))"

definition next_id :: "('c, u8) server_op" where
  "next_id = bindO (modifyO (\<lambda>sv. sv\<lparr>sv_id := sv_id sv + 1\<rparr>)) (\<lambda>_. getO sv_id)"

definition next_inner_id :: "('c, u8) server_op" where
  "next_inner_id = bindO (modifyO (\<lambda>sv. sv\<lparr>sv_inner_id := sv_inner_id sv + 1\<rparr>)) (\<lambda>_. getO sv_inner_id)"

definition send_tlvs :: "('c, 're) rustls \<Rightarrow> raw_tlv list \<Rightarrow> ('c, bytes) server_op" where
  "send_tlvs sl tlvs =
     bindO (mustO (unwrapE (encode_all tlvs))) (\<lambda>bs.
     bindO (at_outer (srv_write_all sl bs)) (\<lambda>_.
     bindO (at_outer (srv_take sl)) (\<lambda>records.
     bindO next_id (\<lambda>i. mustO (teap_req i (teap_msg records))))))"

definition recv_tlvs :: "('c, 're) rustls \<Rightarrow> bytes \<Rightarrow> ('c, raw_tlv list) server_op" where
  "recv_tlvs sl resp =
     bindO (mustO (outer_records resp)) (\<lambda>records.
     bindO (at_outer (srv_feed sl records)) (\<lambda>_.
     bindO (at_outer (srv_read_plain sl)) (\<lambda>plain. mustO (unwrapE (parse_all plain)))))"

definition inner_payload :: "teap_outer \<Rightarrow> bool \<Rightarrow> ('c, raw_tlv) server_op" where
  "inner_payload inner_data start =
     bindO next_inner_id (\<lambda>i.
     bindO (mustO (srv_eap Request i (Some SRV_EAP_TLS_TYPE)
         (outer_build (inner_data\<lparr>to_version := 0, to_start := start\<rparr>)))) (\<lambda>inner_eap.
       returnO (ep_to_tlv inner_eap True)))"

definition build_crypto_binding ::
  "('c, 're) rustls \<Rightarrow> hmac_sign \<Rightarrow> 'c teap_server \<Rightarrow> panic + crypto_binding_tlv" where
  "build_crypto_binding sl sign sv =
     bindE (unwrapE (rl_export sl (sv_outer sv) S_IMCK_LEN EXPORTER_LABEL_SESSION_KEY_SEED)) (\<lambda>seed.
     bindE (unwrapE (rl_export sl (sv_inner sv) 64 SRV_EAP_TLS_LABEL)) (\<lambda>imsk.
     bindE (unwrapE (ks_new seed)) (\<lambda>ks.
     bindE (unwrapE (fst (absorb_inner (aws_dyn_mac sign (sv_mac sv)) (take IMSK_LEN imsk) ks))) (\<lambda>cmk.
       case cb_seal (aws_dyn_mac sign (sv_mac sv)) cmk
           \<lparr>cb_version = 1, cb_received_version = 1, cb_sub_type = CB_SUBTYPE_REQUEST,
             cb_nonce = replicate 32 0x55, cb_emsk_mac = [], cb_msk_mac = []\<rparr> of
         (Inl _, _) \<Rightarrow> Inl PnUnwrap
       | (Inr _, cb) \<Rightarrow> Inr cb))))"

section \<open>The phases of \<open>handle\<close>\<close>

definition handle_outer_hs :: "('c, 're) rustls \<Rightarrow> bytes \<Rightarrow> ('c, bytes) server_op" where
  "handle_outer_hs sl resp =
     bindO (mustO (outer_records resp)) (\<lambda>records.
     bindO (at_outer (srv_feed sl records)) (\<lambda>_.
     bindO (getO (\<lambda>sv. rl_is_handshaking sl (sv_outer sv))) (\<lambda>handshaking.
       if handshaking then
         bindO (at_outer (srv_take sl)) (\<lambda>flight.
         bindO next_id (\<lambda>i. mustO (teap_req i (teap_msg flight))))
       else
         bindO (modifyO (sv_phase_update (\<lambda>_. SvInnerHs))) (\<lambda>_.
         bindO (getO (\<lambda>sv. it_to_tlv (sv_identity sv) True)) (\<lambda>id_type.
         bindO (inner_payload \<lparr>to_more = False, to_start = False, to_version = 0, to_length = None,
             to_data = []\<rparr> True) (\<lambda>inner_start.
           send_tlvs sl [id_type, inner_start]))))))"

definition handle_inner_hs :: "('c, 're) rustls \<Rightarrow> bytes \<Rightarrow> ('c, bytes) server_op" where
  "handle_inner_hs sl resp =
     bindO (recv_tlvs sl resp) (\<lambda>tlvs.
     bindO (mustO (case srv_find tlvs EAP_PAYLOAD of
         None \<Rightarrow> Inl (PnExpect ''inner EAP-Payload'')
       | Some t \<Rightarrow> Inr (ep_from_value (rt_value t)))) (\<lambda>payload.
     bindO (mustO (unwrapE (eap_decode payload))) (\<lambda>inner_pkt.
     bindO (mustO (unwrapE (outer_parse (ep_data inner_pkt)))) (\<lambda>inner_outer.
     bindO (at_inner (srv_feed sl (to_data inner_outer))) (\<lambda>_.
     bindO (getO (\<lambda>sv. rl_is_handshaking sl (sv_inner sv))) (\<lambda>handshaking.
       if handshaking then
         bindO (at_inner (srv_take sl)) (\<lambda>flight.
         bindO (inner_payload (teap_msg flight) False) (\<lambda>tlv. send_tlvs sl [tlv]))
       else
         bindO (at_inner (srv_write_all sl [0x00])) (\<lambda>_.
         bindO (at_inner (srv_take sl)) (\<lambda>commit.
         bindO (inner_payload (teap_msg commit) False) (\<lambda>tlv.
         bindO (modifyO (sv_phase_update (\<lambda>_. SvAfterCommit))) (\<lambda>_. send_tlvs sl [tlv]))))))))))"

definition handle_after_commit :: "('c, 're) rustls \<Rightarrow> hmac_sign \<Rightarrow> bytes \<Rightarrow> ('c, bytes) server_op" where
  "handle_after_commit sl sign resp =
     bindO (recv_tlvs sl resp) (\<lambda>_.
     bindO (getO (build_crypto_binding sl sign)) (\<lambda>r.
     bindO (mustO r) (\<lambda>cb.
     bindO (mustO (unwrapE (cb_to_tlv cb True))) (\<lambda>cb_tlv.
     bindO (mustO (unwrapE (ir_to_tlv \<lparr>ir_status = RsSuccess, ir_tlvs = [cb_tlv]\<rparr> True))) (\<lambda>ir.
     bindO (modifyO (sv_phase_update (\<lambda>_. SvAwaitClientCb))) (\<lambda>_. send_tlvs sl [ir]))))))"

definition handle_await_cb :: "('c, 're) rustls \<Rightarrow> bytes \<Rightarrow> ('c, bytes) server_op" where
  "handle_await_cb sl resp =
     bindO (recv_tlvs sl resp) (\<lambda>_.
     bindO (modifyO (sv_phase_update (\<lambda>_. SvAwaitClientResult))) (\<lambda>_.
       send_tlvs sl [rt_to_tlv RsSuccess True]))"

definition handle_await_result :: "('c, 're) rustls \<Rightarrow> bytes \<Rightarrow> ('c, bytes) server_op" where
  "handle_await_result sl resp =
     bindO (recv_tlvs sl resp) (\<lambda>_.
     bindO (modifyO (sv_phase_update (\<lambda>_. SvDone))) (\<lambda>_.
     bindO next_id (\<lambda>i. mustO (srv_eap EapSuccess i None []))))"

definition srv_handle :: "('c, 're) rustls \<Rightarrow> hmac_sign \<Rightarrow> bytes \<Rightarrow> ('c, bytes) server_op" where
  "srv_handle sl sign resp =
     bindO (getO sv_phase) (\<lambda>phase.
       case phase of
         SvOuterHs \<Rightarrow> handle_outer_hs sl resp
       | SvInnerHs \<Rightarrow> handle_inner_hs sl resp
       | SvAfterCommit \<Rightarrow> handle_after_commit sl sign resp
       | SvAwaitClientCb \<Rightarrow> handle_await_cb sl resp
       | SvAwaitClientResult \<Rightarrow> handle_await_result sl resp
       | SvDone \<Rightarrow> throwO (PnPanic ''server stepped after done''))"

end
