(* ===== verification/Harness_Run.thy ===== *)
theory Harness_Run
  imports Harness
begin

text \<open>
  The two halves of an authentication talking to each other: the server of \<open>Harness\<close> and the driver of
  \<open>Driver\<close>, in the loop of crates/supplicant/tests/full_session.rs. What the two TLS connections promise
  is the predicate \<open>secure_channel\<close>.
\<close>

section \<open>The exchange\<close>

text \<open>One end drives, the other answers, until the driver is finished or \<open>n\<close> rounds are over.\<close>

fun converse ::
  "('s, 'se) rustls \<Rightarrow> ('c, 're) rustls \<Rightarrow> hmac_sign \<Rightarrow> 'i inner_process \<Rightarrow> nat \<Rightarrow> bytes \<Rightarrow> 's teap_server
     \<Rightarrow> ('c, 'i) teap_driver \<Rightarrow> (outcome \<times> 's teap_server \<times> ('c, 'i) teap_driver) option" where
  "converse sl rl sign proc 0 inbound sv d = None"
| "converse sl rl sign proc (Suc n) inbound sv d =
     (case driver_step rl sign proc inbound d of
        Some (Inr (DrvRespond resp), d') \<Rightarrow>
          (case srv_handle sl sign resp sv of
             Some (Inr inbound', sv') \<Rightarrow> converse sl rl sign proc n inbound' sv' d'
           | _ \<Rightarrow> None)
      | Some (Inr (Finished _ outcome), d') \<Rightarrow> Some (outcome, sv, d')
      | _ \<Rightarrow> None)"

text \<open>
  The two ends \<open>c\<close> and \<open>t\<close> of a TLS connection whose handshake is over, related by \<open>L\<close>: what one end
  writes, the other reads from the records, whole and unchanged; both stay the ends of one connection,
  and its exporter gives \<open>seed\<close>. Plaintexts of at most \<open>n\<close> octets make at most \<open>m\<close> octets of records.
\<close>

definition secure_channel ::
  "('s, 'se) rustls \<Rightarrow> ('c, 're) rustls \<Rightarrow> nat \<Rightarrow> nat \<Rightarrow> bytes \<Rightarrow> ('s \<Rightarrow> 'c tls_client \<Rightarrow> bool) \<Rightarrow> bool" where
  "secure_channel sl rl n m seed L \<longleftrightarrow> (\<forall>c t. L c t \<longrightarrow>
     rl_export sl c S_IMCK_LEN EXPORTER_LABEL_SESSION_KEY_SEED = Inr seed
     \<and> (\<forall>p. p \<noteq> [] \<and> length p \<le> n \<longrightarrow>
          (\<exists>c1 records c' t'. srv_write_all sl p c = Some (Inr (), c1) \<and> srv_take sl c1 = Some (Inr records, c')
             \<and> records \<noteq> [] \<and> length records \<le> m \<and> unprotect rl records t = Some (Inr p, t') \<and> L c' t'))
     \<and> (\<forall>p. length p \<le> n \<longrightarrow>
          (\<exists>records t' c1 c'. protect rl p t = Some (Inr records, t') \<and> length records \<le> m
             \<and> srv_feed sl records c = Some (Inr (), c1) \<and> srv_read_plain sl c1 = Some (Inr p, c') \<and> L c' t')))"

lemma channel_seed:
  "secure_channel sl rl n m seed L \<Longrightarrow> L c t \<Longrightarrow> rl_export sl c S_IMCK_LEN EXPORTER_LABEL_SESSION_KEY_SEED = Inr seed"
  by (simp add: secure_channel_def)

lemma channel_down:
  assumes "secure_channel sl rl n m seed L" "L c t" "p \<noteq> []" "length p \<le> n"
  obtains c1 records c' t' where "srv_write_all sl p c = Some (Inr (), c1)" "srv_take sl c1 = Some (Inr records, c')"
    "records \<noteq> []" "length records \<le> m" "unprotect rl records t = Some (Inr p, t')" "L c' t'"
  using assms unfolding secure_channel_def by blast

lemma channel_up:
  assumes "secure_channel sl rl n m seed L" "L c t" "length p \<le> n"
  obtains records t' c1 c' where "protect rl p t = Some (Inr records, t')" "length records \<le> m"
    "srv_feed sl records c = Some (Inr (), c1)" "srv_read_plain sl c1 = Some (Inr p, c')" "L c' t'"
  using assms unfolding secure_channel_def by blast

section \<open>The server's half of a round\<close>

lemma teap_msg_whole: "teap_msg d = whole d"
  by (simp add: teap_msg_def whole_def)

lemma teap_req_packet:
  "teap_req i outer = unwrapE (eap_encode (teap_packet Request i (outer_build outer)))"
  by (simp add: teap_req_def srv_eap_def teap_packet_def)

lemma server_sends:
  assumes "secure_channel sl rl n m seed L" "m \<le> 65500" "L (sv_outer sv) t"
    and e: "encode_all tlvs = Inr p" and p: "p \<noteq> []" "length p \<le> n"
  obtains req records c' t' where "send_tlvs sl tlvs sv = Some (Inr req, sv\<lparr>sv_outer := c', sv_id := sv_id sv + 1\<rparr>)"
    "eap_encode (teap_packet Request (sv_id sv + 1) (outer_build (whole records))) = Inr req"
    "records \<noteq> []" "length records \<le> m" "unprotect rl records t = Some (Inr p, t')" "L c' t'"
proof -
  obtain c1 records c' t' where w: "srv_write_all sl p (sv_outer sv) = Some (Inr (), c1)"
    "srv_take sl c1 = Some (Inr records, c')"
    and r: "records \<noteq> []" "length records \<le> m" "unprotect rl records t = Some (Inr p, t')" "L c' t'"
    using channel_down [OF assms(1,3) p] by blast
  obtain req where q: "eap_encode (teap_packet Request (sv_id sv + 1) (outer_build (whole records))) = Inr req"
    using teap_encodes [of "whole records" Request "sv_id sv + 1"] r(2) assms(2) by (auto simp: whole_def)
  have "send_tlvs sl tlvs sv = Some (Inr req, sv\<lparr>sv_outer := c', sv_id := sv_id sv + 1\<rparr>)"
    by (simp add: send_tlvs_def next_id_def teap_req_packet teap_msg_whole e w q unwrapE_def op_simps)
  with q r show ?thesis using that by blast
qed

lemma records_of:
  assumes "eap_encode (teap_packet Response i (outer_build (whole records))) = Inr resp"
  shows "outer_records resp = Inr records"
proof -
  have "eap_wf (teap_packet Response i (outer_build (whole records)))"
    by (simp add: eap_wf_def eap_code_wf_def teap_packet_def)
  then show ?thesis
    using assms
    by (simp add: outer_records_def eap_decode_encode teap_packet_def outer_parse_build whole_def outer_wf_def
        del: TEAP_EAP_TYPE_def)
qed

lemma server_receives:
  assumes "eap_encode (teap_packet Response i (outer_build (whole records))) = Inr resp"
    and "srv_feed sl records (sv_outer sv) = Some (Inr (), c1)" "srv_read_plain sl c1 = Some (Inr p, c')"
    and "parse_all p = Inr tlvs"
  shows "recv_tlvs sl resp sv = Some (Inr tlvs, sv\<lparr>sv_outer := c'\<rparr>)"
  using records_of [OF assms(1)] assms(2-4) by (simp add: recv_tlvs_def unwrapE_def op_simps)

section \<open>The driver's half of a round\<close>

lemma send_whole:
  fixes d :: "('c, 'i) teap_driver"
  assumes "length msg \<le> dc_max_fragment (dr_cfg d)" "length msg \<le> 65500"
  obtains bs where "(send_tls_message msg :: ('c, 're, 'i, driver_reply) driver_op) d
      = Some (Inr (DrvRespond bs), d\<lparr>dr_queue := []\<rparr>)"
    "eap_encode (teap_packet Response (dr_last_id d) (outer_build (whole msg))) = Inr bs"
proof -
  have "fragment msg (dc_max_fragment (dr_cfg d)) TEAP_VERSION = [whole msg]"
    using assms(1) by (simp add: fragment_def whole_def Let_def le_max_iff_disj)
  moreover obtain bs where "eap_encode (teap_packet Response (dr_last_id d) (outer_build (whole msg))) = Inr bs"
    using teap_encodes [of "whole msg" Response "dr_last_id d"] assms by (auto simp: whole_def)
  ultimately show ?thesis
    using that [of bs]
    by (simp add: send_tls_message_def respond_def teap_packet_def op_simps del: TEAP_EAP_TYPE_def TEAP_VERSION_def)
qed

fun settle :: "step \<Rightarrow> ('c, 'i) teap_driver \<Rightarrow> ('c, 'i) teap_driver" where
  "settle (Continue out) d = d"
| "settle (Done out oc) d = d\<lparr>dr_phase := Terminated, dr_pending := Some oc\<rparr>"

lemma settle_sel [simp]:
  "dr_cfg (settle st d) = dr_cfg d" "dr_last_id (settle st d) = dr_last_id d"
  by (cases st; simp)+

lemma driver_round:
  fixes rl :: "('c, 're) rustls" and d :: "('c, 'i) teap_driver"
  assumes req: "eap_encode (teap_packet Request i (outer_build (whole records))) = Inr req"
    and w: "awaits d s records" and u: "unprotect rl records (dr_tunnel d) = Some (Inr p, t)"
    and p: "parse_all p = Inr tlvs" and s: "session_step proc tlvs s = Some (Inr st, s')"
    and e: "encode_all (sent st) = Inr bs" and c: "protect rl bs t = Some (Inr ct, t')"
    and l: "length ct \<le> dc_max_fragment (dr_cfg d)" "length ct \<le> 65500"
  obtains reply where "driver_step rl sign proc req d = Some (Inr (DrvRespond reply),
      (settle st (d\<lparr>dr_last_id := i, dr_rounds := Suc (dr_rounds d), dr_tunnel := t', dr_session := Some s'\<rparr>))\<lparr>dr_queue := []\<rparr>)"
    "eap_encode (teap_packet Response i (outer_build (whole ct))) = Inr reply"
proof -
  let ?d = "d\<lparr>dr_last_id := i\<rparr>"
  let ?e = "settle st (?d\<lparr>dr_rounds := Suc (dr_rounds d), dr_tunnel := t', dr_session := Some s'\<rparr>)"
  have w': "awaits ?d s records" using w by (simp add: awaits_def)
  have "on_outer rl sign proc (whole records) ?d
      = phase2_records rl proc records (?d\<lparr>dr_rounds := Suc (dr_rounds d)\<rparr>)"
    using phase2_enters [OF w', of rl sign proc] by simp
  also have "\<dots> = send_tls_message ct ?e"
    using phase2_session [of rl records "?d\<lparr>dr_rounds := Suc (dr_rounds d)\<rparr>" p t tlvs s proc, OF _ p _ s] u w
      protects [OF e, of rl "?d\<lparr>dr_rounds := Suc (dr_rounds d), dr_tunnel := t, dr_session := Some s'\<rparr>" ct t'] c
    by (cases st) (simp_all add: awaits_def bindO_def modifyO_def tunnel_session_order)
  finally have o: "driver_step rl sign proc req d = send_tls_message ct ?e"
    unfolding request_handled [OF req whole_wf(1)] .
  from l have "length ct \<le> dc_max_fragment (dr_cfg ?e)" "length ct \<le> 65500" by simp_all
  from send_whole [OF this, where ?'re = 're] o that show ?thesis by auto
qed

section \<open>The messages of the session\<close>

definition harness_nonce :: bytes where
  "harness_nonce = replicate 32 0x55"

definition binding_tlv :: "teap_mac \<Rightarrow> cmk \<Rightarrow> bytes \<Rightarrow> raw_tlv" where
  "binding_tlv mac c nonce = raw_tlv_new True CRYPTO_BINDING (cb_octets 0 (sealed mac c (binding_request nonce)))"

lemma binding_tlv_ok:
  assumes "mac_lawful mac" "mac_hash_len mac \<le> 64" "length nonce = 32"
  shows "cb_to_tlv (sealed mac c (binding_request nonce)) True = Inr (binding_tlv mac c nonce)"
    "\<exists>ir. ir_to_tlv \<lparr>ir_status = RsSuccess, ir_tlvs = [binding_tlv mac c nonce]\<rparr> True = Inr ir
      \<and> rt_type ir = INTERMEDIATE_RESULT \<and> rt_mandatory ir \<and> tlv_ok ir \<and> length (rt_value ir) \<le> 170
      \<and> ir_from_value (rt_value ir) = Inr \<lparr>ir_status = RsSuccess, ir_tlvs = [binding_tlv mac c nonce]\<rparr>"
proof -
  have "length (cb_nonce (binding_request nonce)) = 32" by (simp add: binding_request_def assms(3))
  note sealed = sealed_ok [OF assms(1,2) this, of c]
  show "cb_to_tlv (sealed mac c (binding_request nonce)) True = Inr (binding_tlv mac c nonce)"
    "\<exists>ir. ir_to_tlv \<lparr>ir_status = RsSuccess, ir_tlvs = [binding_tlv mac c nonce]\<rparr> True = Inr ir
      \<and> rt_type ir = INTERMEDIATE_RESULT \<and> rt_mandatory ir \<and> tlv_ok ir \<and> length (rt_value ir) \<le> 170
      \<and> ir_from_value (rt_value ir) = Inr \<lparr>ir_status = RsSuccess, ir_tlvs = [binding_tlv mac c nonce]\<rparr>"
    using cb_in_ir [OF sealed(2,8)] by (simp_all add: binding_tlv_def)
qed

text \<open>The Intermediate-Result with the Binding Request inside: absorbed, verified, answered.\<close>

lemma binding_message_step:
  assumes r: "ready k s" and a: "absorb_inner (ss_mac s) k (ss_ks s) = (Inr c, ks)" and n: "length nonce = 32"
    and ir: "rt_type ir = INTERMEDIATE_RESULT" "rt_mandatory ir"
      "ir_from_value (rt_value ir) = Inr \<lparr>ir_status = RsSuccess, ir_tlvs = [binding_tlv (ss_mac s) c nonce]\<rparr>"
  shows "\<exists>ans. session_step proc [ir] s = Some (Inr (Continue [ans]), s\<lparr>ss_ks := ks, ss_cmk := Some c\<rparr>)
    \<and> tlv_ok ans \<and> length (rt_value ans) \<le> 170"
proof -
  let ?mac = "ss_mac s" and ?cb = "sealed (ss_mac s) c (binding_request nonce)"
    and ?ir = "\<lparr>ir_status = RsSuccess, ir_tlvs = [binding_tlv (ss_mac s) c nonce]\<rparr>"
  let ?s = "s\<lparr>ss_ks := ks, ss_cmk := Some c\<rparr>"
  from r have mac: "mac_lawful ?mac" "mac_hash_len ?mac \<le> 64" by (simp_all add: ready_def)
  have bn: "length (cb_nonce (binding_request nonce)) = 32" by (simp add: binding_request_def n)
  note cb = sealed_ok [OF mac bn, of c]
  have fields: "cb_fields_ok ?cb" unfolding cb_fields_ok_def cb(4-6) by (simp add: binding_request_def)
  obtain ans where resp: "binding_response ?mac c ?cb [] ?s = Some (Inr (Inr [ans]), ?s)"
    and ok: "tlv_ok ans" "length (rt_value ans) \<le> 170"
    using binding_response_ok [OF mac, of ?cb c "[]" ?s] cb(7) bn by auto
  have nocb: "find_tlv [ir] CRYPTO_BINDING = None" "find_tlv [ir] IDENTITY_TYPE = None" "find_tlv [ir] EAP_PAYLOAD = None"
    "find_tlv [ir] RESULT = None" "find_tlv [ir] INTERMEDIATE_RESULT = Some ir" "\<not> malformed [ir]"
    using ir(1,2) by (simp_all add: find_tlv_def malformed_def CRITICAL_TYPES_def)
  have found: "find_crypto_binding [ir] ?ir = Inr (Some ?cb)"
    using cb(2) nocb(1) by (simp add: find_crypto_binding_def cb_from_octets find_tlv_def binding_tlv_def)
  have v: "verify_binding ?cb [] ?s = Some (Inr (Inr [ans]), ?s)"
    using fields cb(3) resp by (simp add: verify_binding_def op_simps)
  have "absorb_once k [] s = Some (Inr (Inr []), ?s)"
    using a r by (simp add: absorb_once_def ready_def)
  then have "handle_inner_success [ir] ?ir [] s = Some (Inr (Inr [ans]), ?s)"
    using r found v by (simp add: handle_inner_success_def ready_def continue_with_def op_simps)
  then have "intermediate_phase [ir] [] s = Some (Inr (Inr [ans]), ?s)"
    using ir(3) nocb(5) by (simp add: intermediate_phase_def op_simps del: INTERMEDIATE_RESULT_def)
  then have "body_phases proc [ir] s = Some (Inr (Inr [ans]), ?s)"
    using nocb(2,3)
    by (simp add: body_phases_def continue_with_def identity_phase_def inner_phase_def op_simps
        del: IDENTITY_TYPE_def EAP_PAYLOAD_def)
  moreover have "result_phase [ir] [ans] ?s = Some (Inr (Continue [ans]), ?s)"
    using nocb(4) by (simp add: result_phase_def op_simps del: RESULT_def)
  ultimately have "session_step proc [ir] s = Some (Inr (Continue [ans]), ?s)"
    using r nocb(6) by (simp add: session_step_def body_phases_def [symmetric] ready_def op_simps)
  with ok show ?thesis by blast
qed

lemma result_message_step:
  assumes "\<not> ss_terminated s" "ss_cmk s = Some c" "derive_session_keys (ss_mac s) (ss_ks s) = Inr (msk, emsk)"
  shows "session_step proc [rt_to_tlv RsSuccess True] s
    = Some (Inr (Done [rt_to_tlv RsSuccess True] (Success msk emsk None)), s\<lparr>ss_terminated := True\<rparr>)"
proof -
  let ?m = "[rt_to_tlv RsSuccess True]"
  have f: "find_tlv ?m IDENTITY_TYPE = None" "find_tlv ?m EAP_PAYLOAD = None" "find_tlv ?m INTERMEDIATE_RESULT = None"
    "find_tlv ?m RESULT = Some (rt_to_tlv RsSuccess True)" "\<not> malformed ?m" "find_mat ?m v = Inr None" for v
    by (simp_all add: find_tlv_def rt_to_tlv_def malformed_def CRITICAL_TYPES_def find_mat_def)
  have "body_phases proc ?m s = Some (Inr (Inr []), s)"
    using f(1-3) by (simp add: body_phases_def continue_with_def identity_phase_def inner_phase_def
        intermediate_phase_def op_simps del: IDENTITY_TYPE_def EAP_PAYLOAD_def INTERMEDIATE_RESULT_def)
  moreover have "result_phase ?m [] s
      = Some (Inr (Done ?m (Success msk emsk None)), s\<lparr>ss_terminated := True\<rparr>)"
    using assms f(4,6) by (simp add: result_phase_def handle_result_def rt_round status_wf_def op_simps del: RESULT_def)
  ultimately show ?thesis
    using assms(1) f(5) by (simp add: session_step_def body_phases_def [symmetric] op_simps)
qed

section \<open>The rounds of the server after the commitment\<close>

abbreviation harness_mac :: "hmac_sign \<Rightarrow> teap_mac" where
  "harness_mac sign \<equiv> aws_dyn_mac sign aws_sha384"

lemma harness_mac_ok:
  assumes "aws_documented sign aws_sha384"
  shows "mac_lawful (harness_mac sign)" "mac_hash_len (harness_mac sign) \<le> 64"
  using aws_lawful [OF assms] by (simp_all add: aws_dyn_mac_def aws_sha384_def)

lemma build_binding:
  assumes m: "aws_documented sign aws_sha384" "sv_mac sv = aws_sha384"
    and e: "rl_export sl (sv_outer sv) S_IMCK_LEN EXPORTER_LABEL_SESSION_KEY_SEED = Inr seed" "length seed = S_IMCK_LEN"
    and i: "rl_export sl (sv_inner sv) 64 SRV_EAP_TLS_LABEL = Inr imsk"
    and a: "absorb_inner (harness_mac sign) (take IMSK_LEN imsk) \<lparr>ks_s_imck = seed, ks_methods = 0\<rparr> = (Inr c, ks)"
  shows "build_crypto_binding sl sign sv = Inr (sealed (harness_mac sign) c (binding_request harness_nonce))"
proof -
  have "length (cb_nonce (binding_request harness_nonce)) = 32"
    by (simp add: binding_request_def harness_nonce_def)
  from sealed_ok(1) [OF harness_mac_ok [OF m(1)] this, of c] show ?thesis
    using m(2) e i a
    by (simp add: build_crypto_binding_def bindE_def unwrapE_def ks_new_def binding_request_def harness_nonce_def
        split: prod.split)
qed

lemma handle_recv:
  assumes "recv_tlvs sl resp sv = Some (Inr tlvs, sv1)"
  shows "sv_phase sv = SvAwaitClientCb \<Longrightarrow> send_tlvs sl [rt_to_tlv RsSuccess True] (sv1\<lparr>sv_phase := SvAwaitClientResult\<rparr>) = r \<Longrightarrow>
      srv_handle sl sign resp sv = r"
    "sv_phase sv = SvAwaitClientResult \<Longrightarrow>
      srv_eap EapSuccess (sv_id sv1 + 1) None [] = Inr req \<Longrightarrow>
      srv_handle sl sign resp sv = Some (Inr req, sv1\<lparr>sv_phase := SvDone, sv_id := sv_id sv1 + 1\<rparr>)"
    "sv_phase sv = SvAfterCommit \<Longrightarrow> build_crypto_binding sl sign sv1 = Inr cb \<Longrightarrow> cb_to_tlv cb True = Inr t \<Longrightarrow>
      ir_to_tlv \<lparr>ir_status = RsSuccess, ir_tlvs = [t]\<rparr> True = Inr ir \<Longrightarrow>
      send_tlvs sl [ir] (sv1\<lparr>sv_phase := SvAwaitClientCb\<rparr>) = r \<Longrightarrow> srv_handle sl sign resp sv = r"
  using assms
  by (simp_all add: srv_handle_def handle_await_cb_def handle_await_result_def handle_after_commit_def next_id_def
      unwrapE_def op_simps)

lemma eap_success_packet:
  obtains req where "srv_eap EapSuccess i None [] = Inr req"
    "eap_decode req = Inr \<lparr>ep_code = EapSuccess, ep_id = i, ep_type = None, ep_data = []\<rparr>"
proof -
  let ?p = "\<lparr>ep_code = EapSuccess, ep_id = i, ep_type = None, ep_data = []\<rparr>"
  obtain req where "eap_encode ?p = Inr req" by (auto simp: eap_encode_def Let_def)
  moreover from this have "eap_decode req = Inr ?p"
    by (rule eap_decode_encode) (simp add: eap_wf_def eap_code_wf_def)
  ultimately show ?thesis using that by (simp add: srv_eap_def unwrapE_def)
qed

text \<open>On the answer to the commitment the server sends the binding it built.\<close>

lemma server_binds:
  assumes m: "aws_documented sign aws_sha384" "sv_mac sv1 = aws_sha384"
    and e: "rl_export sl (sv_outer sv1) S_IMCK_LEN EXPORTER_LABEL_SESSION_KEY_SEED = Inr seed" "length seed = S_IMCK_LEN"
    and i: "rl_export sl (sv_inner sv1) 64 SRV_EAP_TLS_LABEL = Inr imsk"
    and a: "absorb_inner (harness_mac sign) (take IMSK_LEN imsk) \<lparr>ks_s_imck = seed, ks_methods = 0\<rparr> = (Inr c, ks)"
    and recv: "recv_tlvs sl resp sv = Some (Inr tlvs, sv1)" and ph: "sv_phase sv = SvAfterCommit"
  obtains ir where "rt_type ir = INTERMEDIATE_RESULT" "rt_mandatory ir" "tlv_ok ir" "length (rt_value ir) \<le> 170"
    "ir_from_value (rt_value ir) = Inr \<lparr>ir_status = RsSuccess, ir_tlvs = [binding_tlv (harness_mac sign) c harness_nonce]\<rparr>"
    "\<And>r. send_tlvs sl [ir] (sv1\<lparr>sv_phase := SvAwaitClientCb\<rparr>) = r \<Longrightarrow> srv_handle sl sign resp sv = r"
proof -
  let ?mac = "harness_mac sign"
  note mac = harness_mac_ok [OF m(1)]
  obtain ir where ir: "ir_to_tlv \<lparr>ir_status = RsSuccess, ir_tlvs = [binding_tlv ?mac c harness_nonce]\<rparr> True = Inr ir"
    "rt_type ir = INTERMEDIATE_RESULT" "rt_mandatory ir" "tlv_ok ir" "length (rt_value ir) \<le> 170"
    "ir_from_value (rt_value ir) = Inr \<lparr>ir_status = RsSuccess, ir_tlvs = [binding_tlv ?mac c harness_nonce]\<rparr>"
    using binding_tlv_ok(2) [OF mac, of harness_nonce c] by (auto simp: harness_nonce_def)
  have t: "cb_to_tlv (sealed ?mac c (binding_request harness_nonce)) True = Inr (binding_tlv ?mac c harness_nonce)"
    using binding_tlv_ok(1) [OF mac, of harness_nonce c] by (simp add: harness_nonce_def)
  show ?thesis
    by (rule that [OF ir(2-6)]) (rule handle_recv(3) [OF recv ph build_binding [OF m e i a] t ir(1)])
qed

section \<open>A whole round\<close>

text \<open>TLVs that travel in \<open>p\<close>, at most \<open>n\<close> octets.\<close>

definition carried :: "nat \<Rightarrow> raw_tlv list \<Rightarrow> bytes \<Rightarrow> bool" where
  "carried n tlvs p \<longleftrightarrow> encode_all tlvs = Inr p \<and> parse_all p = Inr tlvs \<and> length p \<le> n"

lemma carried_one:
  assumes "tlv_ok t" "4 + length (rt_value t) \<le> n"
  obtains p where "carried n [t] p" "p \<noteq> []"
proof -
  obtain p where "encode_all [t] = Inr p" "parse_all p = Inr [t]" "length p = 4 + length (rt_value t)"
    using encodes [of "[t]"] assms(1) by (auto simp: MAX_TLVS_def)
  with assms(2) have "carried n [t] p" "p \<noteq> []" by (auto simp: carried_def)
  then show ?thesis by (rule that)
qed

lemma carried_none: "carried n [] []"
  by (simp add: carried_def encode_all_def)

text \<open>A driver in Phase 2 with room for \<open>r\<close> more rounds and for messages of \<open>m\<close> octets.\<close>

definition in_phase2 :: "nat \<Rightarrow> nat \<Rightarrow> ('c, 'i) teap_driver \<Rightarrow> 'i teap_session \<Rightarrow> bool" where
  "in_phase2 m r d s \<longleftrightarrow> dr_phase d = Phase2 \<and> dr_session d = Some s \<and> dr_rounds d + r \<le> MAX_PHASE2_ROUNDS
     \<and> dr_reasm d = reasm_new MAX_TLS_MESSAGE \<and> m \<le> dc_max_fragment (dr_cfg d) \<and> m \<le> 65500"

lemma in_phase2_next:
  "in_phase2 m (Suc r) d s \<Longrightarrow>
     in_phase2 m r (d\<lparr>dr_last_id := i, dr_rounds := Suc (dr_rounds d), dr_tunnel := t, dr_session := Some s', dr_queue := []\<rparr>) s'"
  by (simp add: in_phase2_def)

lemma round_trip:
  fixes rl :: "('c, 're) rustls" and d :: "('c, 'i) teap_driver"
  assumes ch: "secure_channel sl rl n m seed L" "L (sv_outer sv) (dr_tunnel d)"
    and down: "carried n tlvs p" "p \<noteq> []" and ph: "in_phase2 m (Suc r) d s"
    and st: "session_step proc tlvs s = Some (Inr st, s')" and up: "carried n (sent st) bs"
  obtains req c' reply c'' t' where
    "send_tlvs sl tlvs sv = Some (Inr req, sv\<lparr>sv_outer := c', sv_id := sv_id sv + 1\<rparr>)"
    "driver_step rl sign proc req d = Some (Inr (DrvRespond reply), (settle st (d\<lparr>dr_last_id := sv_id sv + 1,
       dr_rounds := Suc (dr_rounds d), dr_tunnel := t', dr_session := Some s'\<rparr>))\<lparr>dr_queue := []\<rparr>)"
    "recv_tlvs sl reply (sv\<lparr>sv_outer := c', sv_id := sv_id sv + 1\<rparr>)
       = Some (Inr (sent st), sv\<lparr>sv_outer := c'', sv_id := sv_id sv + 1\<rparr>)"
    "L c'' t'"
proof -
  have m: "m \<le> 65500" using ph by (simp add: in_phase2_def)
  from down(1) have p: "encode_all tlvs = Inr p" "parse_all p = Inr tlvs" "length p \<le> n"
    by (simp_all add: carried_def)
  obtain req records c' t where
    send: "send_tlvs sl tlvs sv = Some (Inr req, sv\<lparr>sv_outer := c', sv_id := sv_id sv + 1\<rparr>)"
      "eap_encode (teap_packet Request (sv_id sv + 1) (outer_build (whole records))) = Inr req"
    and rec: "records \<noteq> []" "length records \<le> m" "unprotect rl records (dr_tunnel d) = Some (Inr p, t)" "L c' t"
    by (rule server_sends [OF ch(1) m ch(2) p(1) down(2) p(3)])
  from up have b: "encode_all (sent st) = Inr bs" "parse_all bs = Inr (sent st)" "length bs \<le> n"
    by (simp_all add: carried_def)
  obtain ct t' c1 c'' where ret: "protect rl bs t = Some (Inr ct, t')" "length ct \<le> m"
    "srv_feed sl ct c' = Some (Inr (), c1)" "srv_read_plain sl c1 = Some (Inr bs, c'')" "L c'' t'"
    by (rule channel_up [OF ch(1) rec(4) b(3)])
  have w: "awaits d s records"
    using ph rec(1,2) by (auto simp: awaits_def in_phase2_def MAX_TLS_MESSAGE_def)
  have l: "length ct \<le> dc_max_fragment (dr_cfg d)" "length ct \<le> 65500" using ret(2) ph by (simp_all add: in_phase2_def)
  obtain reply where
    reply: "driver_step rl sign proc req d = Some (Inr (DrvRespond reply), (settle st (d\<lparr>dr_last_id := sv_id sv + 1,
       dr_rounds := Suc (dr_rounds d), dr_tunnel := t', dr_session := Some s'\<rparr>))\<lparr>dr_queue := []\<rparr>)"
      "eap_encode (teap_packet Response (sv_id sv + 1) (outer_build (whole ct))) = Inr reply"
    by (rule driver_round [OF send(2) w rec(3) p(2) st b(1) ret(1) l])
  have "recv_tlvs sl reply (sv\<lparr>sv_outer := c', sv_id := sv_id sv + 1\<rparr>)
      = Some (Inr (sent st), sv\<lparr>sv_outer := c', sv_id := sv_id sv + 1\<rparr>\<lparr>sv_outer := c''\<rparr>)"
    by (rule server_receives [OF reply(2) _ ret(4) b(2)]) (simp add: ret(3))
  also have "sv\<lparr>sv_outer := c', sv_id := sv_id sv + 1\<rparr>\<lparr>sv_outer := c''\<rparr> = sv\<lparr>sv_outer := c'', sv_id := sv_id sv + 1\<rparr>"
    by simp
  finally show ?thesis using that [OF send(1) reply(1)] ret(5) by blast
qed

lemma rt_carried:
  assumes "200 \<le> n" obtains p where "carried n [rt_to_tlv RsSuccess True] p" "p \<noteq> []"
  by (rule carried_one [of "rt_to_tlv RsSuccess True" n])
    (use assms in \<open>simp_all add: rt_to_tlv_def raw_tlv_new_def tlv_ok_def mask_eq_exp_minus_1\<close>)

text \<open>The last two rounds: the Result, then EAP-Success.\<close>

lemma converse_result:
  fixes rl :: "('c, 're) rustls" and d :: "('c, 'i) teap_driver"
  assumes ch: "secure_channel sl rl n m seed L" "L (sv_outer sv) (dr_tunnel d)" and n: "200 \<le> n"
    and ph: "in_phase2 m (Suc r) d s" and s: "\<not> ss_terminated s" "ss_cmk s = Some c"
      "derive_session_keys (ss_mac s) (ss_ks s) = Inr (msk, emsk)"
    and sv: "sv_phase sv = SvAwaitClientResult"
  obtains req sv1 sv' d' where "send_tlvs sl [rt_to_tlv RsSuccess True] sv = Some (Inr req, sv1)"
    "converse sl rl sign proc 2 req sv1 d = Some (Success msk emsk None, sv', d')" "srv_is_done sv'"
proof -
  let ?m = "[rt_to_tlv RsSuccess True]" and ?s = "s\<lparr>ss_terminated := True\<rparr>"
  obtain p where p: "carried n ?m p" "p \<noteq> []" using rt_carried [OF n] by blast
  have up: "carried n (sent (Done ?m (Success msk emsk None))) p" using p(1) by simp
  obtain req c' reply c'' t' where
    send: "send_tlvs sl ?m sv = Some (Inr req, sv\<lparr>sv_outer := c', sv_id := sv_id sv + 1\<rparr>)"
    and step: "driver_step rl sign proc req d = Some (Inr (DrvRespond reply), (settle (Done ?m (Success msk emsk None))
       (d\<lparr>dr_last_id := sv_id sv + 1, dr_rounds := Suc (dr_rounds d), dr_tunnel := t', dr_session := Some ?s\<rparr>))\<lparr>dr_queue := []\<rparr>)"
    and recv: "recv_tlvs sl reply (sv\<lparr>sv_outer := c', sv_id := sv_id sv + 1\<rparr>)
       = Some (Inr (sent (Done ?m (Success msk emsk None))), sv\<lparr>sv_outer := c'', sv_id := sv_id sv + 1\<rparr>)"
    by (rule round_trip [OF ch p ph result_message_step [OF s] up])
  let ?sv1 = "sv\<lparr>sv_outer := c', sv_id := sv_id sv + 1\<rparr>" and ?sv2 = "sv\<lparr>sv_outer := c'', sv_id := sv_id sv + 1\<rparr>"
  let ?d1 = "(settle (Done ?m (Success msk emsk None)) (d\<lparr>dr_last_id := sv_id sv + 1, dr_rounds := Suc (dr_rounds d),
     dr_tunnel := t', dr_session := Some ?s\<rparr>))\<lparr>dr_queue := []\<rparr>"
  obtain fin where fin: "srv_eap EapSuccess (sv_id ?sv2 + 1) None [] = Inr fin"
    "eap_decode fin = Inr \<lparr>ep_code = EapSuccess, ep_id = sv_id ?sv2 + 1, ep_type = None, ep_data = []\<rparr>"
    using eap_success_packet by blast
  have h: "srv_handle sl sign reply ?sv1 = Some (Inr fin, ?sv2\<lparr>sv_phase := SvDone, sv_id := sv_id ?sv2 + 1\<rparr>)"
    by (rule handle_recv(2) [OF recv _ fin(1)]) (simp add: sv)
  have f: "driver_step rl sign proc fin ?d1 = Some (Inr (Finished None (Success msk emsk None)),
      ?d1\<lparr>dr_phase := Terminated, dr_pending := None\<rparr>)"
    by (rule success_packet [OF fin(2)]) simp_all
  have "converse sl rl sign proc 2 req ?sv1 d = Some (Success msk emsk None,
      ?sv2\<lparr>sv_phase := SvDone, sv_id := sv_id ?sv2 + 1\<rparr>, ?d1\<lparr>dr_phase := Terminated, dr_pending := None\<rparr>)"
    using step h f by (simp add: numeral_2_eq_2 del: settle.simps)
  with send that show ?thesis by (simp add: srv_is_done_def)
qed


text \<open>The round before: the Binding Request and the Binding Response.\<close>

lemma converse_binding:
  fixes rl :: "('c, 're) rustls" and d :: "('c, 'i) teap_driver"
  assumes ch: "secure_channel sl rl n m seed L" "L (sv_outer sv) (dr_tunnel d)" and n: "200 \<le> n"
    and ph: "in_phase2 m (Suc (Suc r)) d s" and s: "ready k s"
    and a: "absorb_inner (ss_mac s) k (ss_ks s) = (Inr c, ks)" and ds: "derive_session_keys (ss_mac s) ks = Inr (msk, emsk)"
    and ir: "rt_type ir = INTERMEDIATE_RESULT" "rt_mandatory ir" "tlv_ok ir" "length (rt_value ir) \<le> 170"
      "ir_from_value (rt_value ir) = Inr \<lparr>ir_status = RsSuccess, ir_tlvs = [binding_tlv (ss_mac s) c harness_nonce]\<rparr>"
    and sv: "sv_phase sv = SvAwaitClientCb"
  obtains req sv1 sv' d' where "send_tlvs sl [ir] sv = Some (Inr req, sv1)"
    "converse sl rl sign proc 3 req sv1 d = Some (Success msk emsk None, sv', d')" "srv_is_done sv'"
proof -
  let ?s = "s\<lparr>ss_ks := ks, ss_cmk := Some c\<rparr>"
  have "4 + length (rt_value ir) \<le> n" using ir(4) n by simp
  from carried_one [OF ir(3) this] obtain p where p: "carried n [ir] p" "p \<noteq> []" by blast
  obtain ans where st: "session_step proc [ir] s = Some (Inr (Continue [ans]), ?s)"
    and ans: "tlv_ok ans" "length (rt_value ans) \<le> 170"
    using binding_message_step [OF s a _ ir(1,2,5)] by (auto simp: harness_nonce_def)
  have "4 + length (rt_value ans) \<le> n" using ans(2) n by simp
  from carried_one [OF ans(1) this] obtain bs where "carried n [ans] bs" by blast
  then have up: "carried n (sent (Continue [ans])) bs" by simp
  obtain req c' reply c'' t' where
    send: "send_tlvs sl [ir] sv = Some (Inr req, sv\<lparr>sv_outer := c', sv_id := sv_id sv + 1\<rparr>)"
    and step: "driver_step rl sign proc req d = Some (Inr (DrvRespond reply), (settle (Continue [ans])
       (d\<lparr>dr_last_id := sv_id sv + 1, dr_rounds := Suc (dr_rounds d), dr_tunnel := t', dr_session := Some ?s\<rparr>))\<lparr>dr_queue := []\<rparr>)"
    and recv: "recv_tlvs sl reply (sv\<lparr>sv_outer := c', sv_id := sv_id sv + 1\<rparr>)
       = Some (Inr (sent (Continue [ans])), sv\<lparr>sv_outer := c'', sv_id := sv_id sv + 1\<rparr>)"
    and l: "L c'' t'"
    by (rule round_trip [OF ch p ph st up])
  let ?sv1 = "sv\<lparr>sv_outer := c', sv_id := sv_id sv + 1\<rparr>" and ?sv2 = "sv\<lparr>sv_outer := c'', sv_id := sv_id sv + 1\<rparr>"
  let ?d1 = "d\<lparr>dr_last_id := sv_id sv + 1, dr_rounds := Suc (dr_rounds d), dr_tunnel := t', dr_session := Some ?s, dr_queue := []\<rparr>"
  let ?sv3 = "?sv2\<lparr>sv_phase := SvAwaitClientResult\<rparr>"
  have l3: "L (sv_outer ?sv3) (dr_tunnel ?d1)" using l by simp
  have sx: "\<not> ss_terminated ?s" "ss_cmk ?s = Some c" "derive_session_keys (ss_mac ?s) (ss_ks ?s) = Inr (msk, emsk)"
    using s ds by (simp_all add: ready_def)
  have p3: "sv_phase ?sv3 = SvAwaitClientResult" by simp
  obtain req2 sv4 sv' d' where
    nxt: "send_tlvs sl [rt_to_tlv RsSuccess True] ?sv3 = Some (Inr req2, sv4)"
      "converse sl rl sign proc 2 req2 sv4 ?d1 = Some (Success msk emsk None, sv', d')" "srv_is_done sv'"
    by (rule converse_result [OF ch(1) l3 n in_phase2_next [OF ph] sx p3])
  have "srv_handle sl sign reply ?sv1 = Some (Inr req2, sv4)"
    by (rule handle_recv(1) [OF recv _ nxt(1)]) (simp add: sv)
  with step nxt(2) have "converse sl rl sign proc 3 req ?sv1 d = Some (Success msk emsk None, sv', d')"
    by (simp add: numeral_3_eq_3 numeral_2_eq_2)
  with send nxt(3) that show ?thesis by blast
qed


text \<open>The round of the commitment, and with it the rest of the exchange.\<close>

lemma converse_commitment:
  fixes rl :: "('c, 're) rustls" and d :: "('c, 'i) teap_driver"
  assumes ch: "secure_channel sl rl n m seed L" "L (sv_outer sv) (dr_tunnel d)" and n: "200 \<le> n"
    and doc: "aws_documented sign aws_sha384" and seed: "length seed = S_IMCK_LEN"
    and sv: "sv_phase sv = SvAfterCommit" "sv_mac sv = aws_sha384"
      "rl_export sl (sv_inner sv) 64 SRV_EAP_TLS_LABEL = Inr imsk"
    and ph: "in_phase2 m 3 d s" and st: "session_step proc tlvs s = Some (Inr (Continue []), s')"
    and down: "carried n tlvs p" "p \<noteq> []"
    and r: "ready (take IMSK_LEN imsk) s'" and s': "ss_mac s' = harness_mac sign" "ss_ks s' = \<lparr>ks_s_imck = seed, ks_methods = 0\<rparr>"
    and a: "absorb_inner (ss_mac s') (take IMSK_LEN imsk) (ss_ks s') = (Inr c, ks)"
    and ds: "derive_session_keys (ss_mac s') ks = Inr (msk, emsk)"
  obtains req sv1 sv' d' where "send_tlvs sl tlvs sv = Some (Inr req, sv1)"
    "converse sl rl sign proc 4 req sv1 d = Some (Success msk emsk None, sv', d')" "srv_is_done sv'"
proof -
  have up: "carried n (sent (Continue [])) []" by (simp add: carried_none)
  have ph3: "in_phase2 m (Suc (Suc (Suc 0))) d s" using ph by (simp add: numeral_3_eq_3)
  obtain req c' reply c'' t' where
    send: "send_tlvs sl tlvs sv = Some (Inr req, sv\<lparr>sv_outer := c', sv_id := sv_id sv + 1\<rparr>)"
    and step: "driver_step rl sign proc req d = Some (Inr (DrvRespond reply), (settle (Continue [])
       (d\<lparr>dr_last_id := sv_id sv + 1, dr_rounds := Suc (dr_rounds d), dr_tunnel := t', dr_session := Some s'\<rparr>))\<lparr>dr_queue := []\<rparr>)"
    and recv: "recv_tlvs sl reply (sv\<lparr>sv_outer := c', sv_id := sv_id sv + 1\<rparr>)
       = Some (Inr (sent (Continue [])), sv\<lparr>sv_outer := c'', sv_id := sv_id sv + 1\<rparr>)"
    and l: "L c'' t'"
    by (rule round_trip [OF ch down ph3 st up])
  let ?sv1 = "sv\<lparr>sv_outer := c', sv_id := sv_id sv + 1\<rparr>"
  let ?sv3 = "sv\<lparr>sv_outer := c'', sv_id := sv_id sv + 1\<rparr>\<lparr>sv_phase := SvAwaitClientCb\<rparr>"
  let ?d1 = "d\<lparr>dr_last_id := sv_id sv + 1, dr_rounds := Suc (dr_rounds d), dr_tunnel := t', dr_session := Some s', dr_queue := []\<rparr>"
  obtain ir where ir: "rt_type ir = INTERMEDIATE_RESULT" "rt_mandatory ir" "tlv_ok ir" "length (rt_value ir) \<le> 170"
      "ir_from_value (rt_value ir) = Inr \<lparr>ir_status = RsSuccess, ir_tlvs = [binding_tlv (ss_mac s') c harness_nonce]\<rparr>"
    and handle: "\<And>r. send_tlvs sl [ir] ?sv3 = r \<Longrightarrow> srv_handle sl sign reply ?sv1 = r"
    unfolding s' by (rule server_binds [OF doc _ _ seed _ a [unfolded s'] recv])
      (use sv channel_seed [OF ch(1) l] in simp_all)
  have l3: "L (sv_outer ?sv3) (dr_tunnel ?d1)" and p3: "sv_phase ?sv3 = SvAwaitClientCb" using l by simp_all
  obtain req2 sv4 sv' d' where
    nxt: "send_tlvs sl [ir] ?sv3 = Some (Inr req2, sv4)"
      "converse sl rl sign proc 3 req2 sv4 ?d1 = Some (Success msk emsk None, sv', d')" "srv_is_done sv'"
    by (rule converse_binding [OF ch(1) l3 n in_phase2_next [OF ph3] r a ds ir p3])
  have "converse sl rl sign proc 4 req ?sv1 d = Some (Success msk emsk None, sv', d')"
    using step nxt(2) handle [OF nxt(1)] by (simp add: eval_nat_numeral)
  with send nxt(3) that show ?thesis by blast
qed

section \<open>Two ends over plain connections\<close>

definition plain_link :: "plain_conn \<Rightarrow> plain_conn tls_client \<Rightarrow> bool" where
  "plain_link c t \<longleftrightarrow> c = \<lparr>pc_script = [], pc_out = [], pc_in = []\<rparr> \<and> plain_idle t"

lemma plain_srv_read:
  "0 < length tmp \<Longrightarrow> srv_read_loop plain_tls acc tmp c = Some (Inr (acc @ pc_in c), c\<lparr>pc_in := []\<rparr>)"
proof (induction "length (pc_in c)" arbitrary: acc tmp c rule: less_induct)
  case less
  let ?n = "min (length tmp) (length (pc_in c))"
  let ?tmp = "take ?n (pc_in c) @ drop ?n tmp" and ?c = "c\<lparr>pc_in := drop ?n (pc_in c)\<rparr>"
  have r: "rl_read plain_tls c tmp = (Inr ?n, ?tmp, ?c)"
    by (simp add: plain_tls_def Let_def)
  show ?case
  proof (cases "pc_in c = []")
    case True
    with r show ?thesis by (subst srv_read_loop.simps) (cases c, simp)
  next
    case False
    then have n: "?n \<noteq> 0" "\<not> length ?tmp < ?n" "take ?n ?tmp = take ?n (pc_in c)" using less.prems by auto
    have "srv_read_loop plain_tls acc tmp c = srv_read_loop plain_tls (acc @ take ?n (pc_in c)) ?tmp ?c"
      unfolding srv_read_loop.simps [of plain_tls acc tmp c] r by (simp only: n prod.case sum.case if_False)
    also have "\<dots> = Some (Inr ((acc @ take ?n (pc_in c)) @ pc_in ?c), ?c\<lparr>pc_in := []\<rparr>)"
      by (rule less.hyps) (use n less.prems False in auto)
    finally show ?thesis by simp
  qed
qed

lemma plain_srv_feed:
  "srv_feed plain_tls bs \<lparr>pc_script = [], pc_out = [], pc_in = []\<rparr>
     = Some (Inr (), \<lparr>pc_script = [], pc_out = [], pc_in = bs\<rparr>)"
  by (cases "bs = []") (simp_all add: srv_feed_def pureO_def srv_feed_loop.simps plain_sel)

lemma plain_srv_drain:
  "srv_take plain_tls \<lparr>pc_script = k, pc_out = bs, pc_in = is\<rparr>
     = Some (Inr bs, \<lparr>pc_script = k, pc_out = [], pc_in = is\<rparr>)"
  by (cases "bs = []") (simp_all add: srv_take_def plain_tls_def srv_drain_loop.simps)


lemma plain_channel: "secure_channel plain_tls plain_tls n n (replicate 40 1) plain_link"
  unfolding secure_channel_def plain_link_def
  by (auto simp: plain_sel srv_write_all_def plain_srv_drain plain_unprotect plain_protect plain_srv_feed
      srv_read_plain_def plain_srv_read)

text \<open>An HMAC of documented length for the example.\<close>

definition sum_sign :: hmac_sign where
  "sum_sign a k d = replicate (digest_len a) (sum_list (k @ d))"

lemma sum_sign_documented: "aws_documented sum_sign aws_sha384"
  by (simp add: aws_documented_def sum_sign_def)

definition plain_server :: "plain_conn teap_server" where
  "plain_server = \<lparr>sv_outer = \<lparr>pc_script = [], pc_out = [], pc_in = []\<rparr>, sv_inner = \<lparr>pc_script = [], pc_out = [], pc_in = []\<rparr>,
     sv_phase = SvAfterCommit, sv_id = 4, sv_inner_id = 3, sv_mac = aws_sha384, sv_identity = ItUser\<rparr>"

definition plain_session :: "unit teap_session" where
  "plain_session = demo_start\<lparr>ss_mac := harness_mac sum_sign\<rparr>"

definition plain_driver :: "(plain_conn, unit) teap_driver" where
  "plain_driver = demo_driver\<lparr>dr_tunnel := \<lparr>tc_conn = \<lparr>pc_script = [], pc_out = [], pc_in = []\<rparr>, tc_established = True\<rparr>,
     dr_phase := Phase2, dr_session := Some plain_session\<rparr>"

lemma plain_start:
  "plain_link (sv_outer plain_server) (dr_tunnel plain_driver)" "in_phase2 1000 3 plain_driver plain_session"
  by (simp_all add: plain_link_def plain_idle_def plain_server_def plain_driver_def in_phase2_def demo_driver_def
      MAX_PHASE2_ROUNDS_def demo_driver_config_def)

section \<open>Properties\<close>

text \<open>The two halves of the program authenticate each other. When the harness server has sent its
  commitment to a driver in Phase 2 that talks to it over a TLS connection, the inner method takes the
  commitment and yields the first 32 octets of the server's inner exporter, and both have the outer
  exporter's seed, then four more rounds of driver and server end with the server done and the driver
  finished in success, holding the keys of the key schedule that the server sealed its binding with.\<close>

lemma harness_and_driver_agree:
  fixes rl :: "('c, 're) rustls" and d :: "('c, 'i) teap_driver"
  assumes "secure_channel sl rl n m seed L" and "L (sv_outer sv) (dr_tunnel d)" and "200 \<le> n"
    and "aws_documented sign aws_sha384" and "length seed = S_IMCK_LEN"
    and "sv_phase sv = SvAfterCommit" and "sv_mac sv = aws_sha384"
    and "rl_export sl (sv_inner sv) 64 SRV_EAP_TLS_LABEL = Inr imsk" and "length imsk = 64"
    and "in_phase2 m 3 d s" and "\<not> ss_terminated s" and "ss_cmk s = None"
    and "ss_mac s = aws_dyn_mac sign aws_sha384" and "ss_ks s = \<lparr>ks_s_imck = seed, ks_methods = 0\<rparr>"
    and "proc (ss_inner s) commitment = Some (InnerDone (take IMSK_LEN imsk), i')"
    and "length commitment \<le> 65535" and "4 + length commitment \<le> n"
    and "send_tlvs sl (payload_message commitment) sv = Some (Inr inbound, sv1)"
  shows "\<exists>sv' d' c ks msk emsk. converse sl rl sign proc 4 inbound sv1 d = Some (Success msk emsk None, sv', d')
    \<and> srv_is_done sv'
    \<and> absorb_inner (aws_dyn_mac sign aws_sha384) (take IMSK_LEN imsk) \<lparr>ks_s_imck = seed, ks_methods = 0\<rparr> = (Inr c, ks)
    \<and> derive_session_keys (aws_dyn_mac sign aws_sha384) ks = Inr (msk, emsk)"
proof -
  let ?k = "take IMSK_LEN imsk" and ?s = "s\<lparr>ss_inner := i', ss_imsk := Some (take IMSK_LEN imsk)\<rparr>"
  note mac = harness_mac_ok [OF assms(4)]
  have k: "length ?k = IMSK_LEN" using assms(9) by simp
  have s: "ss_mac ?s = harness_mac sign" "ss_ks ?s = \<lparr>ks_s_imck = seed, ks_methods = 0\<rparr>"
    using assms(13,14) by simp_all
  obtain c ks where a: "absorb_inner (ss_mac ?s) ?k (ss_ks ?s) = (Inr c, ks)" and ms: "ks_methods ks \<noteq> 0"
    using dyn.absorb_ok [OF mac(1) k] sat_add_pos unfolding s by fastforce
  obtain msk emsk where ds: "derive_session_keys (ss_mac ?s) ks = Inr (msk, emsk)"
    using dyn.derive_ok [OF mac(1), of ks] ms unfolding s by auto
  have st: "session_step proc (payload_message commitment) s = Some (Inr (Continue []), ?s)"
    by (rule payload_step [where proc = proc, OF assms(11,15) k])
  have r: "ready ?k ?s" using assms(11-13) mac k by (simp add: ready_def)
  obtain p where p: "carried n (payload_message commitment) p" "p \<noteq> []"
    unfolding payload_message_def
    by (rule carried_one [of "ep_to_tlv commitment True" n])
      (use assms(16,17) in \<open>simp_all add: ep_to_tlv_def raw_tlv_new_def tlv_ok_def mask_eq_exp_minus_1\<close>)
  obtain req sv2 sv' d' where "send_tlvs sl (payload_message commitment) sv = Some (Inr req, sv2)"
    "converse sl rl sign proc 4 req sv2 d = Some (Success msk emsk None, sv', d')" "srv_is_done sv'"
    by (rule converse_commitment [OF assms(1-8,10) st p r s a ds])
  with assms(18) a ds show ?thesis unfolding s by simp
qed

lemma harness_and_driver_agree_witness:
  "\<exists>inbound sv1 sv' d' msk emsk.
     send_tlvs plain_tls (payload_message [7]) plain_server = Some (Inr inbound, sv1)
     \<and> converse plain_tls plain_tls sum_sign demo_inner 4 inbound sv1 plain_driver = Some (Success msk emsk None, sv', d')
     \<and> srv_is_done sv'"
proof -
  obtain p where p: "carried 1000 (payload_message [7]) p" "p \<noteq> []"
    unfolding payload_message_def
    by (rule carried_one [of "ep_to_tlv [7] True" 1000])
      (simp_all add: ep_to_tlv_def raw_tlv_new_def tlv_ok_def mask_eq_exp_minus_1)
  then have e: "encode_all (payload_message [7]) = Inr p" "length p \<le> 1000" by (simp_all add: carried_def)
  obtain inbound sv1 where i: "send_tlvs plain_tls (payload_message [7]) plain_server = Some (Inr inbound, sv1)"
    using server_sends [OF plain_channel [of 1000] _ plain_start(1) e(1) p(2) e(2)] by fastforce
  have "\<exists>sv' d' c ks msk emsk. converse plain_tls plain_tls sum_sign demo_inner 4 inbound sv1 plain_driver
      = Some (Success msk emsk None, sv', d') \<and> srv_is_done sv'
    \<and> absorb_inner (aws_dyn_mac sum_sign aws_sha384) (take IMSK_LEN (replicate 64 1))
        \<lparr>ks_s_imck = replicate 40 1, ks_methods = 0\<rparr> = (Inr c, ks)
    \<and> derive_session_keys (aws_dyn_mac sum_sign aws_sha384) ks = Inr (msk, emsk)"
    by (rule harness_and_driver_agree [OF plain_channel [of 1000] plain_start(1) _ sum_sign_documented _ _ _ _ _
          plain_start(2) _ _ _ _ _ _ _ i])
      (simp_all add: plain_server_def plain_sel plain_session_def demo_start_def demo_inner_def)
  with i show ?thesis by blast
qed

end
