(* ===== verification/Harness_Session.thy ===== *)
theory Harness_Session
  imports Harness_Run
begin

text \<open>
  A whole authentication, from \<open>TeapServer::start\<close> and \<open>assemble_driver\<close> to success, as in
  crates/supplicant/tests/full_session.rs: both TLS handshakes, the inner EAP-TLS method and the exchange
  of \<open>Harness_Run\<close>.
\<close>

section \<open>Handshakes\<close>

text \<open>
  The handshake of TLS 1.3 between a server connection and a client: one flight of the client, one of the
  server, and the client's last one, all of at most \<open>m\<close> octets; then both are done, and the client has
  accepted the negotiated parameters.
\<close>

definition handshake_pair ::
  "('s, 'se) rustls \<Rightarrow> ('c, 're) rustls \<Rightarrow> nat \<Rightarrow> 's \<Rightarrow> 'c tls_client \<Rightarrow> 's \<Rightarrow> 'c tls_client \<Rightarrow> bool" where
  "handshake_pair sl rl m c0 t0 c t \<longleftrightarrow>
     (\<exists>hello t1 c1 flight c2 t2 fin t3.
        take_outgoing rl t0 = Some (Inr hello, t1) \<and> length hello \<le> m
        \<and> srv_feed sl hello c0 = Some (Inr (), c1) \<and> rl_is_handshaking sl c1
        \<and> srv_take sl c1 = Some (Inr flight, c2) \<and> flight \<noteq> [] \<and> length flight \<le> m
        \<and> feed_incoming rl flight t1 = Some (Inr (), t2) \<and> \<not> tls_is_handshaking rl t2
        \<and> take_outgoing rl t2 = Some (Inr fin, t3) \<and> length fin \<le> m
        \<and> finish_handshake rl t3 = Some (Inr (), t)
        \<and> srv_feed sl fin c2 = Some (Inr (), c) \<and> \<not> rl_is_handshaking sl c)"

section \<open>The driver opens its tunnel\<close>

definition fresh_session :: "driver_config \<Rightarrow> teap_mac \<Rightarrow> bytes \<Rightarrow> 'i \<Rightarrow> 'i teap_session" where
  "fresh_session cfg mac seed i =
     \<lparr>ss_cfg = session_cfg cfg, ss_mac = mac, ss_inner = i, ss_ks = \<lparr>ks_s_imck = seed, ks_methods = 0\<rparr>,
      ss_cmk = None, ss_imsk = None, ss_presented_mat = False, ss_terminated = False\<rparr>"

lemma driver_start:
  fixes rl :: "('c, 're) rustls" and d :: "('c, 'i) teap_driver"
  assumes req: "eap_encode (teap_packet Request j (outer_build start_packet)) = Inr req"
    and "dr_phase d = ExpectStart" "take_outgoing rl (dr_tunnel d) = Some (Inr hello, t1)"
    and l: "length hello \<le> dc_max_fragment (dr_cfg d)" "length hello \<le> 65500"
  obtains reply where "driver_step rl sign proc req d = Some (Inr (DrvRespond reply),
      d\<lparr>dr_last_id := j, dr_phase := Handshake, dr_tunnel := t1, dr_queue := []\<rparr>)"
    "eap_encode (teap_packet Response j (outer_build (whole hello))) = Inr reply"
proof -
  let ?e = "d\<lparr>dr_last_id := j, dr_phase := Handshake, dr_tunnel := t1\<rparr>"
  have "driver_step rl sign proc req d = send_tls_message hello ?e"
    unfolding request_handled [OF req whole_wf(2)]
    using assms(2,3) by (simp add: on_outer_def bindO_def modifyO_def on_tunnel_def zoomO_def)
  moreover have "length hello \<le> dc_max_fragment (dr_cfg ?e)" "length hello \<le> 65500" using l by simp_all
  from send_whole [OF this, where ?'re = 're] obtain bs where
    "(send_tls_message hello :: ('c, 're, 'i, driver_reply) driver_op) ?e = Some (Inr (DrvRespond bs), ?e\<lparr>dr_queue := []\<rparr>)"
    "eap_encode (teap_packet Response (dr_last_id ?e) (outer_build (whole hello))) = Inr bs" by blast
  ultimately show ?thesis using that by simp
qed

lemma phase2_starts:
  fixes rl :: "('c, 're) rustls" and d :: "('c, 'i) teap_driver"
  assumes "tc_established (dr_tunnel d)" "rl_export rl (tc_conn (dr_tunnel d)) S_IMCK_LEN EXPORTER_LABEL_SESSION_KEY_SEED = Inr seed"
    "length seed = S_IMCK_LEN" "rl_suite rl (tc_conn (dr_tunnel d)) = Some TLS13_AES_256_GCM_SHA384" "dr_inner d = Some i"
  shows "start_phase2 rl sign d = Some (Inr (), d\<lparr>dr_inner := None,
    dr_session := Some (fresh_session (dr_cfg d) (harness_mac sign) seed i), dr_phase := Phase2, dr_rounds := 0\<rparr>)"
proof -
  have "session_key_seed rl (dr_tunnel d) = Some (Inr seed, dr_tunnel d)"
    "negotiated_mac rl (dr_tunnel d) = Some (Inr aws_sha384, dr_tunnel d)"
    using assms(1,2,4) by (simp_all add: session_key_seed_def negotiated_mac_def negotiated_suite_def require_established_def op_simps)
  moreover have "d\<lparr>dr_tunnel := dr_tunnel d\<rparr> = d" by simp
  ultimately show ?thesis
    using assms(3,5)
    by (simp add: start_phase2_def bindO_def on_tunnel_def zoomO_def getO_def modifyO_def session_new_def ks_new_def
        fresh_session_def session_cfg_def)
qed

lemma driver_handshake:
  fixes rl :: "('c, 're) rustls" and d :: "('c, 'i) teap_driver"
  assumes req: "eap_encode (teap_packet Request j (outer_build (whole flight))) = Inr req"
    and d: "dr_phase d = Handshake" "dr_rounds d = 0" "dr_reasm d = reasm_new MAX_TLS_MESSAGE" "dr_inner d = Some i"
      "dr_tunnel d = t1"
    and f: "length flight \<le> MAX_TLS_MESSAGE" "flight \<noteq> []"
    and t: "feed_incoming rl flight t1 = Some (Inr (), t2)" "\<not> tls_is_handshaking rl t2"
      "take_outgoing rl t2 = Some (Inr fin, t3)" "finish_handshake rl t3 = Some (Inr (), t)"
    and s: "rl_export rl (tc_conn t) S_IMCK_LEN EXPORTER_LABEL_SESSION_KEY_SEED = Inr seed"
      "length seed = S_IMCK_LEN" "rl_suite rl (tc_conn t) = Some TLS13_AES_256_GCM_SHA384"
    and l: "length fin \<le> dc_max_fragment (dr_cfg d)" "length fin \<le> 65500"
  obtains reply where "driver_step rl sign proc req d = Some (Inr (DrvRespond reply),
      d\<lparr>dr_last_id := j, dr_rounds := 0, dr_tunnel := t, dr_inner := None,
        dr_session := Some (fresh_session (dr_cfg d) (harness_mac sign) seed i), dr_phase := Phase2, dr_queue := []\<rparr>)"
    "eap_encode (teap_packet Response j (outer_build (whole fin))) = Inr reply"
proof -
  let ?d1 = "d\<lparr>dr_last_id := j, dr_rounds := Suc 0\<rparr>"
  let ?d2 = "?d1\<lparr>dr_tunnel := t\<rparr>"
  let ?e = "?d2\<lparr>dr_inner := None, dr_session := Some (fresh_session (dr_cfg d) (harness_mac sign) seed i),
      dr_phase := Phase2, dr_rounds := 0\<rparr>"
  let ?op = "\<lambda>m. m :: ('c, 're, 'i, driver_reply) driver_op"
  have est: "tc_established t" using t(4) by (auto simp: finish_handshake_Inr)
  have p: "(start_phase2 rl sign :: ('c, 're, 'i, unit) driver_op) ?d2 = Some (Inr (), ?e)"
    using phase2_starts [of ?d2 rl seed i sign] est s d(4) by simp
  have r: "(on_reasm (whole flight) :: ('c, 're, 'i, bytes option) driver_op) ?d1 = Some (Inr (Some flight), ?d1)"
    using d(3) reasm_whole [OF f(1)] by (cases d) (simp add: on_reasm_def zoomO_def pureO_def)
  have "?op (handshake_message rl sign flight) ?d1 = ?op (send_tls_message fin) ?e"
    using t p d(5) by (simp add: handshake_message_def bindO_def on_tunnel_def zoomO_def getO_def)
  then have "?op (driver_step rl sign proc req) d = ?op (send_tls_message fin) ?e"
    unfolding request_handled [OF req whole_wf(1)]
    using d(1,2) r f(2)
    by (simp add: on_outer_def on_handshake_def bindO_def modifyO_def getO_def MAX_HANDSHAKE_ROUNDS_def
        sat_add_def usize_max_def)
  moreover have "length fin \<le> dc_max_fragment (dr_cfg ?e)" "length fin \<le> 65500" using l by simp_all
  from send_whole [OF this, where ?'re = 're] obtain bs where
    "?op (send_tls_message fin) ?e = Some (Inr (DrvRespond bs), ?e\<lparr>dr_queue := []\<rparr>)"
    "eap_encode (teap_packet Response (dr_last_id ?e) (outer_build (whole fin))) = Inr bs" by blast
  ultimately show ?thesis using that by simp
qed


section \<open>The server opens its tunnel\<close>

lemma server_flight:
  assumes "eap_encode (teap_packet Response j (outer_build (whole hello))) = Inr resp"
    and "sv_phase sv = SvOuterHs" "srv_feed sl hello (sv_outer sv) = Some (Inr (), c1)" "rl_is_handshaking sl c1"
    "srv_take sl c1 = Some (Inr flight, c2)" "length flight \<le> 65500"
  obtains req where "srv_handle sl sign resp sv = Some (Inr req, sv\<lparr>sv_outer := c2, sv_id := sv_id sv + 1\<rparr>)"
    "eap_encode (teap_packet Request (sv_id sv + 1) (outer_build (whole flight))) = Inr req"
proof -
  obtain req where "eap_encode (teap_packet Request (sv_id sv + 1) (outer_build (whole flight))) = Inr req"
    using teap_encodes [of "whole flight" Request "sv_id sv + 1"] assms(6) by (auto simp: whole_def)
  then show ?thesis
    using that [of req] records_of [OF assms(1)] assms(2-5)
    by (simp add: srv_handle_def handle_outer_hs_def next_id_def teap_req_packet teap_msg_whole unwrapE_def op_simps)
qed

text \<open>Packets of the inner method.\<close>

definition inner_begin :: teap_outer where
  "inner_begin = \<lparr>to_more = False, to_start = True, to_version = 0, to_length = None, to_data = []\<rparr>"

lemma inner_msg_wf [simp]:
  "outer_wf (inner_whole bs)" "outer_wf inner_begin" "is_ack (inner_whole bs) \<longleftrightarrow> bs = []" "\<not> is_ack inner_begin"
  "to_start inner_begin" "\<not> to_start (inner_whole bs)" "to_data (inner_whole bs) = bs" "to_data inner_begin = []"
  by (simp_all add: outer_wf_def inner_whole_def inner_begin_def is_ack_def)

lemma inner_payload_sends:
  assumes "eap_encode (eap_tls_packet Request (sv_inner_id sv + 1) (outer_build m)) = Inr e"
    "m = outer\<lparr>to_version := 0, to_start := start\<rparr>"
  shows "inner_payload outer start sv = Some (Inr (ep_to_tlv e True), sv\<lparr>sv_inner_id := sv_inner_id sv + 1\<rparr>)"
  using assms
  by (simp add: inner_payload_def next_inner_id_def srv_eap_def eap_tls_packet_def unwrapE_def op_simps)

lemma server_opens:
  assumes "eap_encode (teap_packet Response j (outer_build (whole fin))) = Inr resp"
    and "sv_phase sv = SvOuterHs" "srv_feed sl fin (sv_outer sv) = Some (Inr (), c)" "\<not> rl_is_handshaking sl c"
    and e: "eap_encode (eap_tls_packet Request (sv_inner_id sv + 1) (outer_build inner_begin)) = Inr e"
  shows "srv_handle sl sign resp sv = send_tlvs sl [it_to_tlv (sv_identity sv) True, ep_to_tlv e True]
      (sv\<lparr>sv_outer := c, sv_phase := SvInnerHs, sv_inner_id := sv_inner_id sv + 1\<rparr>)"
proof -
  have "inner_payload \<lparr>to_more = False, to_start = False, to_version = 0, to_length = None, to_data = []\<rparr> True
      (sv\<lparr>sv_outer := c, sv_phase := SvInnerHs\<rparr>) = Some (Inr (ep_to_tlv e True),
      sv\<lparr>sv_outer := c, sv_phase := SvInnerHs\<rparr>\<lparr>sv_inner_id := sv_inner_id sv + 1\<rparr>)"
    using inner_payload_sends [of "sv\<lparr>sv_outer := c, sv_phase := SvInnerHs\<rparr>" inner_begin e] e
    by (simp add: inner_begin_def)
  then show ?thesis
    using records_of [OF assms(1)] assms(2-4) by (simp add: srv_handle_def handle_outer_hs_def op_simps)
qed

lemma server_inner:
  assumes recv: "recv_tlvs sl resp sv = Some (Inr tlvs, sv1)" and ph: "sv_phase sv = SvInnerHs"
    and found: "srv_find tlvs EAP_PAYLOAD = Some (ep_to_tlv p True)"
    and p: "eap_encode (eap_tls_packet Response j (outer_build (inner_whole r))) = Inr p"
    and f: "srv_feed sl r (sv_inner sv1) = Some (Inr (), c1)"
    and e: "eap_encode (eap_tls_packet Request (sv_inner_id sv1 + 1) (outer_build (inner_whole flight))) = Inr e"
  shows "rl_is_handshaking sl c1 \<Longrightarrow> srv_take sl c1 = Some (Inr flight, c2) \<Longrightarrow>
      srv_handle sl sign resp sv = send_tlvs sl [ep_to_tlv e True]
        (sv1\<lparr>sv_inner := c2, sv_inner_id := sv_inner_id sv1 + 1\<rparr>)"
    "\<not> rl_is_handshaking sl c1 \<Longrightarrow> srv_write_all sl [0] c1 = Some (Inr (), c2) \<Longrightarrow>
      srv_take sl c2 = Some (Inr flight, c3) \<Longrightarrow>
      srv_handle sl sign resp sv = send_tlvs sl [ep_to_tlv e True]
        (sv1\<lparr>sv_inner := c3, sv_inner_id := sv_inner_id sv1 + 1, sv_phase := SvAfterCommit\<rparr>)"
proof -
  have "eap_wf (eap_tls_packet Response j (outer_build (inner_whole r)))"
    by (simp add: eap_wf_def eap_code_wf_def eap_tls_packet_def)
  then have d: "eap_decode p = Inr (eap_tls_packet Response j (outer_build (inner_whole r)))"
    using p by (simp add: eap_decode_encode)
  have o: "outer_parse (ep_data (eap_tls_packet Response j (outer_build (inner_whole r)))) = Inr (inner_whole r)"
    by (simp add: eap_tls_packet_def outer_parse_build)
  have t: "ep_from_value (rt_value (ep_to_tlv p True)) = p"
    by (simp add: ep_to_tlv_def raw_tlv_new_def ep_from_value_def)
  have i: "inner_payload (teap_msg flight) False (sv1\<lparr>sv_inner := c\<rparr>)
      = Some (Inr (ep_to_tlv e True), sv1\<lparr>sv_inner := c, sv_inner_id := sv_inner_id sv1 + 1\<rparr>)" for c
    using inner_payload_sends [of "sv1\<lparr>sv_inner := c\<rparr>" "inner_whole flight" e False "teap_msg flight"] e
    by (simp add: inner_whole_def teap_msg_def)
  note h = srv_handle_def handle_inner_hs_def unwrapE_def op_simps
  show "srv_handle sl sign resp sv = send_tlvs sl [ep_to_tlv e True]
        (sv1\<lparr>sv_inner := c2, sv_inner_id := sv_inner_id sv1 + 1\<rparr>)"
    if "rl_is_handshaking sl c1" "srv_take sl c1 = Some (Inr flight, c2)"
    using that recv ph f i d o t found by (simp add: h del: EAP_PAYLOAD_def)
  show "srv_handle sl sign resp sv = send_tlvs sl [ep_to_tlv e True]
        (sv1\<lparr>sv_inner := c3, sv_inner_id := sv_inner_id sv1 + 1, sv_phase := SvAfterCommit\<rparr>)"
    if "\<not> rl_is_handshaking sl c1" "srv_write_all sl [0] c1 = Some (Inr (), c2)" "srv_take sl c2 = Some (Inr flight, c3)"
    using that recv ph f i d o t found by (simp add: h del: EAP_PAYLOAD_def)
qed


section \<open>The inner method answers\<close>

lemma inner_starts:
  assumes e: "eap_encode (eap_tls_packet Request j (outer_build inner_begin)) = Inr e"
    and i: "ii_state i = InHandshake" "\<not> ii_started i" "take_outgoing rl (ii_tunnel i) = Some (Inr hello, t1)"
    and l: "length hello \<le> ii_max_fragment i" "length hello \<le> 65500"
  obtains bs where "inner_process_packet rl i e = Some (InnerRespond bs,
      i\<lparr>ii_last_id := j, ii_started := True, ii_tunnel := t1, ii_queue := []\<rparr>)"
    "eap_encode (eap_tls_packet Response j (outer_build (inner_whole hello))) = Inr bs"
proof -
  let ?i = "i\<lparr>ii_last_id := j, ii_started := True, ii_tunnel := t1\<rparr>"
  obtain bs where bs: "inner_send_tls hello ?i = Some (Inr (InnerRespond bs), ?i\<lparr>ii_queue := []\<rparr>)"
    "eap_encode (eap_tls_packet Response (ii_last_id ?i) (outer_build (inner_whole hello))) = Inr bs"
    by (rule inner_send_whole [of hello ?i]) (use l in simp_all)
  have "try_process rl e i = inner_send_tls hello ?i"
    using i by (simp add: inner_dispatch [OF e] inner_closed_def inner_on_handshake_def on_inner_tunnel_def op_simps)
  with bs that show ?thesis by (simp add: inner_process_packet_def)
qed

lemma inner_takes:
  assumes "ii_reasm i = reasm_new MAX_INNER_MESSAGE" "length r \<le> MAX_INNER_MESSAGE"
  shows "(on_inner_reasm (inner_whole r) :: ('c, bytes option) inner_op) i = Some (Inr (Some r), i)"
proof -
  have "reasm_push (inner_whole r) (reasm_new MAX_INNER_MESSAGE) = (Inr (Some r), reasm_new MAX_INNER_MESSAGE)"
    using assms(2) by (simp add: reasm_push_def reasm_declare_def inner_whole_def reasm_new_def sat_add_def usize_max_def
        MAX_FRAGMENTS_def)
  then show ?thesis using assms(1) by (cases i) (simp add: on_inner_reasm_def zoomO_def pureO_def)
qed

lemma inner_finishes:
  assumes e: "eap_encode (eap_tls_packet Request j (outer_build (inner_whole flight))) = Inr e"
    and i: "ii_state i = InHandshake" "ii_started i" "ii_reasm i = reasm_new MAX_INNER_MESSAGE"
    and f: "flight \<noteq> []" "length flight \<le> MAX_INNER_MESSAGE"
    and t: "feed_incoming rl flight (ii_tunnel i) = Some (Inr (), t2)" "\<not> tls_is_handshaking rl t2"
      "take_outgoing rl t2 = Some (Inr fin, t3)" "finish_handshake rl t3 = Some (Inr (), t)"
    and l: "length fin \<le> ii_max_fragment i" "length fin \<le> 65500"
  obtains bs where "inner_process_packet rl i e = Some (InnerRespond bs,
      i\<lparr>ii_last_id := j, ii_tunnel := t, ii_state := InAwaitCommitment, ii_queue := []\<rparr>)"
    "eap_encode (eap_tls_packet Response j (outer_build (inner_whole fin))) = Inr bs"
proof -
  let ?i = "i\<lparr>ii_last_id := j, ii_tunnel := t, ii_state := InAwaitCommitment\<rparr>"
  obtain bs where bs: "inner_send_tls fin ?i = Some (Inr (InnerRespond bs), ?i\<lparr>ii_queue := []\<rparr>)"
    "eap_encode (eap_tls_packet Response (ii_last_id ?i) (outer_build (inner_whole fin))) = Inr bs"
    by (rule inner_send_whole [of fin ?i]) (use l in simp_all)
  have r: "on_inner_reasm (inner_whole flight) (i\<lparr>ii_last_id := j\<rparr>) = Some (Inr (Some flight), i\<lparr>ii_last_id := j\<rparr>)"
    by (rule inner_takes) (use i f in simp_all)
  have "try_process rl e i = inner_send_tls fin ?i"
    using i t r f(1)
    by (simp add: inner_dispatch [OF e] inner_closed_def inner_on_handshake_def on_inner_tunnel_def
        bindO_def zoomO_def getO_def modifyO_def)
  with bs that show ?thesis by (simp add: inner_process_packet_def)
qed

lemma inner_commits:
  assumes e: "eap_encode (eap_tls_packet Request j (outer_build (inner_whole commit))) = Inr e"
    and i: "ii_state i = InAwaitCommitment" "ii_reasm i = reasm_new MAX_INNER_MESSAGE" "tc_established (ii_tunnel i)"
    and c: "commit \<noteq> []" "length commit \<le> MAX_INNER_MESSAGE"
    and x: "rl_export rl (tc_conn (ii_tunnel i)) 64 EAP_TLS_EXPORTER_LABEL = Inr imsk" "length imsk = 64"
  shows "inner_process_packet rl i e = Some (InnerDone (take IMSK_LEN imsk), i\<lparr>ii_last_id := j, ii_state := InDone\<rparr>)"
proof -
  have r: "on_inner_reasm (inner_whole commit) (i\<lparr>ii_last_id := j\<rparr>) = Some (Inr (Some commit), i\<lparr>ii_last_id := j\<rparr>)"
    by (rule inner_takes) (use i c in simp_all)
  have "export_keying_material rl EAP_TLS_EXPORTER_LABEL 64 (ii_tunnel i) = Some (Inr imsk, ii_tunnel i)"
    using i(3) x(1) by (simp add: export_keying_material_def require_established_def op_simps)
  then have "try_process rl e i = Some (Inr (InnerDone (take IMSK_LEN imsk)), i\<lparr>ii_last_id := j, ii_state := InDone\<rparr>)"
    using i r c x(2)
    by (simp add: inner_dispatch [OF e] inner_closed_def inner_on_commitment_def on_inner_tunnel_def get_to_def
        bindO_def zoomO_def getO_def modifyO_def returnO_def)
  then show ?thesis by (simp add: inner_process_packet_def)
qed

section \<open>The session carries the inner method\<close>

lemma inner_message_step:
  assumes "\<not> ss_terminated s" "proc (ss_inner s) e = Some (InnerRespond bs, i')"
  shows "session_step proc [ep_to_tlv e True] s = Some (Inr (Continue [ep_to_tlv bs True]), s\<lparr>ss_inner := i'\<rparr>)"
  using assms
  by (simp add: session_step_def malformed_def CRITICAL_TYPES_def ep_to_tlv_def identity_phase_def inner_phase_def
      intermediate_phase_def result_phase_def find_tlv_def ep_from_value_def continue_with_def op_simps)

text \<open>The ticket of a user session goes with its first answer.\<close>

definition tickets :: "session_config \<Rightarrow> raw_tlv list" where
  "tickets cfg = (if sc_identity cfg = User then (case sc_mat_to_present cfg of None \<Rightarrow> []
     | Some mat \<Rightarrow> [vs_to_tlv \<lparr>vs_vendor_id = sc_mat_vendor_id cfg, vs_data = mat\<rparr> True]) else [])"

definition ticket_room :: "bytes option \<Rightarrow> nat" where
  "ticket_room mat = (case mat of None \<Rightarrow> 0 | Some m \<Rightarrow> 8 + length m)"

lemma tickets_found [simp]: "srv_find (tickets cfg @ [ep_to_tlv p True]) EAP_PAYLOAD = Some (ep_to_tlv p True)"
  by (simp add: tickets_def srv_find_def vs_to_tlv_def ep_to_tlv_def raw_tlv_new_def split: option.split)

lemma identity_message_step:
  assumes "\<not> ss_terminated s" "proc (ss_inner s) e = Some (InnerRespond bs, i')"
    and "\<not> ss_presented_mat s" "identity_matches (sc_identity (ss_cfg s)) it" "identity_wf it"
  shows "\<exists>b. session_step proc [it_to_tlv it True, ep_to_tlv e True] s
    = Some (Inr (Continue (tickets (ss_cfg s) @ [ep_to_tlv bs True])), s\<lparr>ss_presented_mat := b, ss_inner := i'\<rparr>)"
proof -
  let ?out = "tickets (ss_cfg s)"
  have "it_from_value (rt_value (it_to_tlv it True)) = Inr it" using assms(5) by (simp add: it_round)
  moreover have "\<exists>b. present_mat [] s = Some (Inr (Inr ?out), s\<lparr>ss_presented_mat := b\<rparr>)"
    using assms(3)
    by (cases "sc_identity (ss_cfg s) = User")
      (auto simp: present_mat_def tickets_def Let_def split: option.split intro: exI [of _ "ss_presented_mat s"])
  ultimately obtain b where "identity_phase [it_to_tlv it True, ep_to_tlv e True] [] s
      = Some (Inr (Inr ?out), s\<lparr>ss_presented_mat := b\<rparr>)"
    using assms(4) by (auto simp: identity_phase_def find_tlv_def it_to_tlv_def op_simps)
  with assms(1,2) show ?thesis
    by (intro exI [of _ b])
      (simp add: session_step_def malformed_def CRITICAL_TYPES_def ep_to_tlv_def it_to_tlv_def inner_phase_def
        intermediate_phase_def result_phase_def find_tlv_def ep_from_value_def continue_with_def op_simps)
qed


section \<open>The exchange from the first flight on\<close>

lemma eap_tls_length:
  "eap_encode (eap_tls_packet c j (outer_build m)) = Inr bs \<Longrightarrow> length bs \<le> 10 + length (to_data m)"
  using length_outer_build [of m] by (auto simp: eap_encode_def eap_tls_packet_def Let_def split: if_splits option.splits)

lemma carried_ep:
  assumes "eap_encode (eap_tls_packet c j (outer_build m)) = Inr bs" "length (to_data m) + 20 \<le> n" "length (to_data m) \<le> 65500"
  obtains p where "carried n [ep_to_tlv bs True] p" "p \<noteq> []"
proof -
  have l: "length bs \<le> 10 + length (to_data m)" by (rule eap_tls_length [OF assms(1)])
  have "tlv_ok (ep_to_tlv bs True)"
    using l assms(3) by (simp add: tlv_ok_def ep_to_tlv_def raw_tlv_new_def mask_eq_exp_minus_1)
  moreover have "4 + length (rt_value (ep_to_tlv bs True)) \<le> n"
    using l assms(2) by (simp add: ep_to_tlv_def raw_tlv_new_def)
  ultimately show ?thesis using carried_one that by blast
qed

text \<open>A session that has only run its inner method.\<close>

definition untouched :: "hmac_sign \<Rightarrow> bytes \<Rightarrow> 'i \<Rightarrow> 'i teap_session \<Rightarrow> bool" where
  "untouched sign seed i s \<longleftrightarrow> ss_inner s = i \<and> \<not> ss_terminated s \<and> ss_cmk s = None \<and> ss_mac s = harness_mac sign
     \<and> ss_ks s = \<lparr>ks_s_imck = seed, ks_methods = 0\<rparr>"

text \<open>What the two ends of the inner connection agree on once its handshake is over.\<close>

definition inner_agreed ::
  "('s, 'se) rustls \<Rightarrow> ('c, 're) rustls \<Rightarrow> nat \<Rightarrow> 's \<Rightarrow> 'c tls_client \<Rightarrow> bytes \<Rightarrow> bool" where
  "inner_agreed sl rl m c t imsk \<longleftrightarrow>
     (\<exists>c1 commit c2. srv_write_all sl [0] c = Some (Inr (), c1) \<and> srv_take sl c1 = Some (Inr commit, c2)
        \<and> commit \<noteq> [] \<and> length commit \<le> m \<and> rl_export sl c2 64 SRV_EAP_TLS_LABEL = Inr imsk)
     \<and> rl_export rl (tc_conn t) 64 EAP_TLS_EXPORTER_LABEL = Inr imsk \<and> length imsk = 64"

text \<open>From the commitment on, with the inner method of the supplicant.\<close>

lemma converse_commit:
  fixes rl :: "('c, 're) rustls" and d :: "('c, 'c eap_tls_inner) teap_driver"
  assumes ch: "secure_channel sl rl n m seed L" "L (sv_outer sv) (dr_tunnel d)" and n: "200 \<le> n" "k + 20 \<le> n" "k \<le> 65500"
    and doc: "aws_documented sign aws_sha384" and seed: "length seed = S_IMCK_LEN"
    and sv: "sv_phase sv = SvAfterCommit" "sv_mac sv = aws_sha384"
      "rl_export sl (sv_inner sv) 64 SRV_EAP_TLS_LABEL = Inr imsk"
    and ph: "in_phase2 m 3 d s" and s: "untouched sign seed i s"
    and i: "ii_state i = InAwaitCommitment" "ii_reasm i = reasm_new MAX_INNER_MESSAGE" "tc_established (ii_tunnel i)"
      "rl_export rl (tc_conn (ii_tunnel i)) 64 EAP_TLS_EXPORTER_LABEL = Inr imsk" "length imsk = 64"
    and e: "eap_encode (eap_tls_packet Request j (outer_build (inner_whole commit))) = Inr e"
      "commit \<noteq> []" "length commit \<le> k"
    and a: "absorb_inner (harness_mac sign) (take IMSK_LEN imsk) \<lparr>ks_s_imck = seed, ks_methods = 0\<rparr> = (Inr c, ks)"
    and ds: "derive_session_keys (harness_mac sign) ks = Inr (msk, emsk)"
  obtains req sv1 sv' d' where "send_tlvs sl [ep_to_tlv e True] sv = Some (Inr req, sv1)"
    "converse sl rl sign (inner_process_packet rl) 4 req sv1 d = Some (Success msk emsk None, sv', d')" "srv_is_done sv'"
proof -
  let ?i = "i\<lparr>ii_last_id := j, ii_state := InDone\<rparr>" and ?k = "take IMSK_LEN imsk"
  let ?s = "s\<lparr>ss_inner := ?i, ss_imsk := Some ?k\<rparr>"
  have "length commit \<le> MAX_INNER_MESSAGE" using e(3) n(3) by (simp add: MAX_INNER_MESSAGE_def)
  from inner_commits [OF e(1) i(1-3) e(2) this i(4,5)] s
  have proc: "inner_process_packet rl (ss_inner s) e = Some (InnerDone ?k, ?i)" by (simp add: untouched_def)
  have k: "length ?k = IMSK_LEN" using i(5) by simp
  have nt: "\<not> ss_terminated s" using s by (simp add: untouched_def)
  have st: "session_step (inner_process_packet rl) [ep_to_tlv e True] s = Some (Inr (Continue []), ?s)"
    using payload_step [where proc = "inner_process_packet rl", OF nt proc k] by (simp add: payload_message_def)
  obtain p where p: "carried n [ep_to_tlv e True] p" "p \<noteq> []"
    by (rule carried_ep [OF e(1), of n]) (use e(3) n in simp_all)
  have r: "ready ?k ?s" "ss_mac ?s = harness_mac sign" "ss_ks ?s = \<lparr>ks_s_imck = seed, ks_methods = 0\<rparr>"
    using s k harness_mac_ok [OF doc] by (simp_all add: ready_def untouched_def)
  have ad: "absorb_inner (ss_mac ?s) ?k (ss_ks ?s) = (Inr c, ks)" "derive_session_keys (ss_mac ?s) ks = Inr (msk, emsk)"
    unfolding r(2,3) by (rule a, rule ds)
  show ?thesis by (rule converse_commitment [OF ch n(1) doc seed sv ph st p r ad that])
qed

text \<open>The last flight of the inner handshake, answered by the commitment.\<close>

lemma converse_fin:
  fixes rl :: "('c, 're) rustls" and d :: "('c, 'c eap_tls_inner) teap_driver"
  assumes ch: "secure_channel sl rl n m seed L" "L (sv_outer sv) (dr_tunnel d)" and n: "200 \<le> n" "k + 20 \<le> n" "k \<le> 65500"
    and doc: "aws_documented sign aws_sha384" and seed: "length seed = S_IMCK_LEN"
    and sv: "sv_phase sv = SvInnerHs" "sv_mac sv = aws_sha384"
      "srv_feed sl fin (sv_inner sv) = Some (Inr (), c)" "\<not> rl_is_handshaking sl c"
    and ag: "inner_agreed sl rl k c t imsk"
    and ph: "in_phase2 m 4 d s" and s: "untouched sign seed i s"
    and i: "ii_state i = InHandshake" "ii_started i" "ii_reasm i = reasm_new MAX_INNER_MESSAGE" "k \<le> ii_max_fragment i"
    and e: "eap_encode (eap_tls_packet Request j (outer_build (inner_whole flight))) = Inr e" "flight \<noteq> []" "length flight \<le> k"
    and t: "feed_incoming rl flight (ii_tunnel i) = Some (Inr (), t2)" "\<not> tls_is_handshaking rl t2"
      "take_outgoing rl t2 = Some (Inr fin, t3)" "length fin \<le> k" "finish_handshake rl t3 = Some (Inr (), t)"
    and a: "absorb_inner (harness_mac sign) (take IMSK_LEN imsk) \<lparr>ks_s_imck = seed, ks_methods = 0\<rparr> = (Inr cm, ks)"
    and ds: "derive_session_keys (harness_mac sign) ks = Inr (msk, emsk)"
  obtains req sv1 sv' d' where "send_tlvs sl [ep_to_tlv e True] sv = Some (Inr req, sv1)"
    "converse sl rl sign (inner_process_packet rl) 5 req sv1 d = Some (Success msk emsk None, sv', d')" "srv_is_done sv'"
proof -
  let ?i = "i\<lparr>ii_last_id := j, ii_tunnel := t, ii_state := InAwaitCommitment, ii_queue := []\<rparr>"
  let ?s = "s\<lparr>ss_inner := ?i\<rparr>"
  have mx: "length flight \<le> MAX_INNER_MESSAGE" using e(3) n(3) by (simp add: MAX_INNER_MESSAGE_def)
  obtain bs where bs: "inner_process_packet rl i e = Some (InnerRespond bs, ?i)"
    "eap_encode (eap_tls_packet Response j (outer_build (inner_whole fin))) = Inr bs"
    by (rule inner_finishes [OF e(1) i(1-3) e(2) mx t(1-3,5)]) (use t(4) i(4) n(3) in simp_all)
  have proc: "inner_process_packet rl (ss_inner s) e = Some (InnerRespond bs, ?i)"
    and nt: "\<not> ss_terminated s" using bs(1) s by (simp_all add: untouched_def)
  note st = inner_message_step [where proc = "inner_process_packet rl", OF nt proc]
  obtain p where p: "carried n [ep_to_tlv e True] p" "p \<noteq> []"
    by (rule carried_ep [OF e(1), of n]) (use e(3) n in simp_all)
  obtain q where "carried n [ep_to_tlv bs True] q"
    by (rule carried_ep [OF bs(2), of n]) (use t(4) n in simp_all)
  then have up: "carried n (sent (Continue [ep_to_tlv bs True])) q" by simp
  have ph4: "in_phase2 m (Suc 3) d s" using ph by simp
  obtain req c' reply c'' t' where
    send: "send_tlvs sl [ep_to_tlv e True] sv = Some (Inr req, sv\<lparr>sv_outer := c', sv_id := sv_id sv + 1\<rparr>)"
    and step: "driver_step rl sign (inner_process_packet rl) req d = Some (Inr (DrvRespond reply),
       (settle (Continue [ep_to_tlv bs True]) (d\<lparr>dr_last_id := sv_id sv + 1, dr_rounds := Suc (dr_rounds d),
         dr_tunnel := t', dr_session := Some ?s\<rparr>))\<lparr>dr_queue := []\<rparr>)"
    and recv: "recv_tlvs sl reply (sv\<lparr>sv_outer := c', sv_id := sv_id sv + 1\<rparr>)
       = Some (Inr (sent (Continue [ep_to_tlv bs True])), sv\<lparr>sv_outer := c'', sv_id := sv_id sv + 1\<rparr>)"
    and l: "L c'' t'"
    by (rule round_trip [OF ch p ph4 st up])
  let ?sv1 = "sv\<lparr>sv_outer := c', sv_id := sv_id sv + 1\<rparr>" and ?sv2 = "sv\<lparr>sv_outer := c'', sv_id := sv_id sv + 1\<rparr>"
  obtain c1 commit c2 where w: "srv_write_all sl [0] c = Some (Inr (), c1)" "srv_take sl c1 = Some (Inr commit, c2)"
      "commit \<noteq> []" "length commit \<le> k" "rl_export sl c2 64 SRV_EAP_TLS_LABEL = Inr imsk"
    and x: "rl_export rl (tc_conn t) 64 EAP_TLS_EXPORTER_LABEL = Inr imsk" "length imsk = 64"
    using ag unfolding inner_agreed_def by blast
  obtain e2 where e2: "eap_encode (eap_tls_packet Request (sv_inner_id ?sv2 + 1) (outer_build (inner_whole commit))) = Inr e2"
    using inner_encodes [of "inner_whole commit" Request "sv_inner_id ?sv2 + 1"] w(4) n(3) by auto
  let ?sv3 = "?sv2\<lparr>sv_inner := c2, sv_inner_id := sv_inner_id ?sv2 + 1, sv_phase := SvAfterCommit\<rparr>"
  let ?d1 = "d\<lparr>dr_last_id := sv_id sv + 1, dr_rounds := Suc (dr_rounds d), dr_tunnel := t', dr_session := Some ?s, dr_queue := []\<rparr>"
  have f: "sv_phase ?sv1 = SvInnerHs" "srv_feed sl fin (sv_inner ?sv2) = Some (Inr (), c)" using sv(1,3) by simp_all
  have h: "srv_handle sl sign reply ?sv1 = send_tlvs sl [ep_to_tlv e2 True] ?sv3"
    by (rule server_inner(2) [OF recv [unfolded sent.simps] f(1) _ bs(2) f(2) e2 sv(4) w(1,2)])
      (simp add: srv_find_def ep_to_tlv_def raw_tlv_new_def)
  have est: "tc_established (ii_tunnel ?i)" using t(5) by (auto simp: finish_handshake_Inr)
  have l3: "L (sv_outer ?sv3) (dr_tunnel ?d1)" and s3: "untouched sign seed ?i ?s"
    and v3: "sv_phase ?sv3 = SvAfterCommit" "sv_mac ?sv3 = aws_sha384" "rl_export sl (sv_inner ?sv3) 64 SRV_EAP_TLS_LABEL = Inr imsk"
    and i3: "ii_state ?i = InAwaitCommitment" "ii_reasm ?i = reasm_new MAX_INNER_MESSAGE"
      "rl_export rl (tc_conn (ii_tunnel ?i)) 64 EAP_TLS_EXPORTER_LABEL = Inr imsk"
    using l s sv(2) w(5) i(3) x(1) by (simp_all add: untouched_def)
  obtain req2 sv4 sv' d' where
    nxt: "send_tlvs sl [ep_to_tlv e2 True] ?sv3 = Some (Inr req2, sv4)"
      "converse sl rl sign (inner_process_packet rl) 4 req2 sv4 ?d1 = Some (Success msk emsk None, sv', d')" "srv_is_done sv'"
    by (rule converse_commit [OF ch(1) l3 n doc seed v3 in_phase2_next [OF ph4] s3 i3(1,2) est i3(3) x(2) e2 w(3,4) a ds])
  have "converse sl rl sign (inner_process_packet rl) 5 req ?sv1 d = Some (Success msk emsk None, sv', d')"
    using step nxt h by (simp add: eval_nat_numeral)
  with send nxt(3) that show ?thesis by blast
qed


text \<open>The first message of the inner method, with the server's Identity-Type.\<close>

lemma carried_hello:
  assumes "eap_encode (eap_tls_packet Request j (outer_build inner_begin)) = Inr e" "200 \<le> n"
  obtains p where "carried n [it_to_tlv it True, ep_to_tlv e True] p" "p \<noteq> []"
proof -
  let ?ts = "[it_to_tlv it True, ep_to_tlv e True]"
  have l: "length e \<le> 10" using eap_tls_length [OF assms(1)] by simp
  then have ok: "list_all tlv_ok ?ts"
    by (simp add: tlv_ok_def ep_to_tlv_def it_to_tlv_def raw_tlv_new_def mask_eq_exp_minus_1)
  have w: "(\<Sum>t\<leftarrow>?ts. 4 + length (rt_value t)) = 10 + length e"
    by (simp add: ep_to_tlv_def it_to_tlv_def raw_tlv_new_def)
  obtain p where "encode_all ?ts = Inr p" "parse_all p = Inr ?ts" "length p = 10 + length e"
    using encodes [OF ok] unfolding w by (auto simp: MAX_TLVS_def)
  with l assms(2) show ?thesis by (intro that [of p]) (auto simp: carried_def)
qed

lemma carried_ticket:
  assumes "eap_encode (eap_tls_packet c j (outer_build m)) = Inr bs" and "ticket_room (sc_mat_to_present cfg) \<le> 65500"
    and "length (to_data m) + 20 + ticket_room (sc_mat_to_present cfg) \<le> n" "length (to_data m) \<le> 65500"
  obtains p where "carried n (tickets cfg @ [ep_to_tlv bs True]) p"
proof -
  let ?ts = "tickets cfg @ [ep_to_tlv bs True]"
  have l: "length bs \<le> 10 + length (to_data m)" by (rule eap_tls_length [OF assms(1)])
  have ok: "list_all tlv_ok ?ts" "length ?ts \<le> MAX_TLVS"
    using l assms(2,4)
    by (auto simp: tickets_def ticket_room_def vs_to_tlv_def ep_to_tlv_def raw_tlv_new_def tlv_ok_def MAX_TLVS_def
        mask_eq_exp_minus_1 split: option.splits)
  have "(\<Sum>t\<leftarrow>?ts. 4 + length (rt_value t)) \<le> ticket_room (sc_mat_to_present cfg) + 4 + length bs"
    by (auto simp: tickets_def ticket_room_def vs_to_tlv_def ep_to_tlv_def raw_tlv_new_def split: option.split)
  then have small: "(\<Sum>t\<leftarrow>?ts. 4 + length (rt_value t)) \<le> n" using l assms(3) by linarith
  obtain p where "encode_all ?ts = Inr p" "parse_all p = Inr ?ts" "length p = (\<Sum>t\<leftarrow>?ts. 4 + length (rt_value t))"
    using encodes [OF ok] by blast
  with small have "carried n ?ts p" unfolding carried_def by presburger
  then show ?thesis by (rule that)
qed

lemma converse_hello:
  fixes rl :: "('c, 're) rustls" and d :: "('c, 'c eap_tls_inner) teap_driver"
  assumes ch: "secure_channel sl rl n m seed L" "L (sv_outer sv) (dr_tunnel d)" and n: "200 \<le> n" "k + 20 \<le> n" "k \<le> 65500"
    and doc: "aws_documented sign aws_sha384" and seed: "length seed = S_IMCK_LEN"
    and sv: "sv_phase sv = SvInnerHs" "sv_mac sv = aws_sha384"
    and hs: "handshake_pair sl rl k (sv_inner sv) (ii_tunnel i) c t" and ag: "inner_agreed sl rl k c t imsk"
    and ph: "in_phase2 m 5 d s" and s: "untouched sign seed i s"
    and cfg: "\<not> ss_presented_mat s" "identity_matches (sc_identity (ss_cfg s)) it" "identity_wf it"
    and mat: "ticket_room (sc_mat_to_present (ss_cfg s)) \<le> 65500" "k + 20 + ticket_room (sc_mat_to_present (ss_cfg s)) \<le> n"
    and i: "ii_state i = InHandshake" "\<not> ii_started i" "ii_reasm i = reasm_new MAX_INNER_MESSAGE" "k \<le> ii_max_fragment i"
    and e: "eap_encode (eap_tls_packet Request j (outer_build inner_begin)) = Inr e"
    and a: "absorb_inner (harness_mac sign) (take IMSK_LEN imsk) \<lparr>ks_s_imck = seed, ks_methods = 0\<rparr> = (Inr cm, ks)"
    and ds: "derive_session_keys (harness_mac sign) ks = Inr (msk, emsk)"
  obtains req sv1 sv' d' where "send_tlvs sl [it_to_tlv it True, ep_to_tlv e True] sv = Some (Inr req, sv1)"
    "converse sl rl sign (inner_process_packet rl) 6 req sv1 d = Some (Success msk emsk None, sv', d')" "srv_is_done sv'"
proof -
  obtain hello t1 c1 flight c2 t2 fin t3 where
    h1: "take_outgoing rl (ii_tunnel i) = Some (Inr hello, t1)" "length hello \<le> k"
    and h2: "srv_feed sl hello (sv_inner sv) = Some (Inr (), c1)" "rl_is_handshaking sl c1"
      "srv_take sl c1 = Some (Inr flight, c2)" "flight \<noteq> []" "length flight \<le> k"
    and h3: "feed_incoming rl flight t1 = Some (Inr (), t2)" "\<not> tls_is_handshaking rl t2"
      "take_outgoing rl t2 = Some (Inr fin, t3)" "length fin \<le> k" "finish_handshake rl t3 = Some (Inr (), t)"
    and h4: "srv_feed sl fin c2 = Some (Inr (), c)" "\<not> rl_is_handshaking sl c"
    using hs unfolding handshake_pair_def by blast
  let ?i = "i\<lparr>ii_last_id := j, ii_started := True, ii_tunnel := t1, ii_queue := []\<rparr>"
  obtain bs where bs: "inner_process_packet rl i e = Some (InnerRespond bs, ?i)"
    "eap_encode (eap_tls_packet Response j (outer_build (inner_whole hello))) = Inr bs"
    by (rule inner_starts [OF e i(1,2) h1(1)]) (use h1(2) i(4) n(3) in simp_all)
  have proc: "inner_process_packet rl (ss_inner s) e = Some (InnerRespond bs, ?i)"
    and nt: "\<not> ss_terminated s" using bs(1) s by (simp_all add: untouched_def)
  obtain b where st: "session_step (inner_process_packet rl) [it_to_tlv it True, ep_to_tlv e True] s
      = Some (Inr (Continue (tickets (ss_cfg s) @ [ep_to_tlv bs True])), s\<lparr>ss_presented_mat := b, ss_inner := ?i\<rparr>)"
    using identity_message_step [where proc = "inner_process_packet rl", OF nt proc cfg] by blast
  let ?s = "s\<lparr>ss_presented_mat := b, ss_inner := ?i\<rparr>"
  obtain p where p: "carried n [it_to_tlv it True, ep_to_tlv e True] p" "p \<noteq> []"
    by (rule carried_hello [OF e n(1)])
  let ?ans = "tickets (ss_cfg s) @ [ep_to_tlv bs True]"
  obtain q where "carried n ?ans q"
    by (rule carried_ticket [OF bs(2) mat(1), of n]) (use h1(2) n mat(2) in simp_all)
  then have up: "carried n (sent (Continue ?ans)) q" by simp
  have ph5: "in_phase2 m (Suc 4) d s" using ph by simp
  obtain req c' reply c'' t' where
    send: "send_tlvs sl [it_to_tlv it True, ep_to_tlv e True] sv = Some (Inr req, sv\<lparr>sv_outer := c', sv_id := sv_id sv + 1\<rparr>)"
    and step: "driver_step rl sign (inner_process_packet rl) req d = Some (Inr (DrvRespond reply),
       (settle (Continue ?ans) (d\<lparr>dr_last_id := sv_id sv + 1, dr_rounds := Suc (dr_rounds d),
         dr_tunnel := t', dr_session := Some ?s\<rparr>))\<lparr>dr_queue := []\<rparr>)"
    and recv: "recv_tlvs sl reply (sv\<lparr>sv_outer := c', sv_id := sv_id sv + 1\<rparr>)
       = Some (Inr (sent (Continue ?ans)), sv\<lparr>sv_outer := c'', sv_id := sv_id sv + 1\<rparr>)"
    and l: "L c'' t'"
    by (rule round_trip [OF ch p ph5 st up])
  let ?sv1 = "sv\<lparr>sv_outer := c', sv_id := sv_id sv + 1\<rparr>" and ?sv2 = "sv\<lparr>sv_outer := c'', sv_id := sv_id sv + 1\<rparr>"
  obtain e2 where e2: "eap_encode (eap_tls_packet Request (sv_inner_id ?sv2 + 1) (outer_build (inner_whole flight))) = Inr e2"
    using inner_encodes [of "inner_whole flight" Request "sv_inner_id ?sv2 + 1"] h2(5) n(3) by auto
  let ?sv3 = "?sv2\<lparr>sv_inner := c2, sv_inner_id := sv_inner_id ?sv2 + 1\<rparr>"
  let ?d1 = "d\<lparr>dr_last_id := sv_id sv + 1, dr_rounds := Suc (dr_rounds d), dr_tunnel := t', dr_session := Some ?s, dr_queue := []\<rparr>"
  have f: "sv_phase ?sv1 = SvInnerHs" "srv_feed sl hello (sv_inner ?sv2) = Some (Inr (), c1)" using sv(1) h2(1) by simp_all
  have h: "srv_handle sl sign reply ?sv1 = send_tlvs sl [ep_to_tlv e2 True] ?sv3"
    by (rule server_inner(1) [OF recv [unfolded sent.simps] f(1) tickets_found bs(2) f(2) e2 h2(2,3)])
  have l3: "L (sv_outer ?sv3) (dr_tunnel ?d1)" and s3: "untouched sign seed ?i ?s"
    and v3: "sv_phase ?sv3 = SvInnerHs" "sv_mac ?sv3 = aws_sha384" "srv_feed sl fin (sv_inner ?sv3) = Some (Inr (), c)"
    and i3: "ii_state ?i = InHandshake" "ii_started ?i" "ii_reasm ?i = reasm_new MAX_INNER_MESSAGE" "k \<le> ii_max_fragment ?i"
    and t3: "feed_incoming rl flight (ii_tunnel ?i) = Some (Inr (), t2)"
    using l s sv h4(1) h3(1) i by (simp_all add: untouched_def)
  obtain req2 sv4 sv' d' where
    nxt: "send_tlvs sl [ep_to_tlv e2 True] ?sv3 = Some (Inr req2, sv4)"
      "converse sl rl sign (inner_process_packet rl) 5 req2 sv4 ?d1 = Some (Success msk emsk None, sv', d')" "srv_is_done sv'"
    by (rule converse_fin [OF ch(1) l3 n doc seed v3 h4(2) ag in_phase2_next [OF ph5] s3 i3 e2 h2(4,5) t3 h3(2-5) a ds])
  have "converse sl rl sign (inner_process_packet rl) 6 req ?sv1 d = Some (Success msk emsk None, sv', d')"
    using step nxt h by (simp add: eval_nat_numeral)
  with send nxt(3) that show ?thesis by blast
qed


section \<open>Both ends fresh\<close>

definition identity_of :: "identity \<Rightarrow> identity_type" where
  "identity_of ident = (case ident of Machine \<Rightarrow> ItMachine | User \<Rightarrow> ItUser)"

lemma identity_of [simp]: "identity_matches ident (identity_of ident)" "identity_wf (identity_of ident)"
  by (cases ident; simp add: identity_of_def identity_wf_def)+

lemma unwrapE_Inr: "unwrapE r = Inr x \<longleftrightarrow> r = Inr x"
  by (cases r) (simp_all add: unwrapE_def)

lemma bindE_Inr: "bindE r f = Inr y \<longleftrightarrow> (\<exists>x. r = Inr x \<and> f x = Inr y)"
  by (cases r) (simp_all add: bindE_def)

lemma server_fresh:
  assumes "server_new sb server_id client_cert ident = Inr sv"
  shows "sv_phase sv = SvOuterHs" "sv_mac sv = aws_sha384" "sv_identity sv = identity_of ident"
  using assms by (auto simp: server_new_def bindE_Inr unwrapE_Inr identity_of_def)

lemma driver_fresh:
  assumes "assemble_driver rb cfg roots auth = Inr d"
  shows "dr_cfg d = cfg" "dr_phase d = ExpectStart" "dr_rounds d = 0" "dr_reasm d = reasm_new MAX_TLS_MESSAGE"
    and "\<exists>i. dr_inner d = Some i \<and> ii_state i = InHandshake \<and> \<not> ii_started i
      \<and> ii_reasm i = reasm_new MAX_INNER_MESSAGE \<and> ii_max_fragment i = dc_max_fragment cfg"
  using assms
  by (auto simp: assemble_driver_def inner_new_def driver_new_def split: sum.splits)

text \<open>The two rounds of the outer handshake, and then the rest.\<close>

lemma converse_outer:
  fixes rl :: "('c, 're) rustls" and d :: "('c, 'c eap_tls_inner) teap_driver"
  assumes ch: "secure_channel sl rl n m seed L" "L c t" and n: "200 \<le> n" "k + 20 \<le> n" "k \<le> 65500"
    and doc: "aws_documented sign aws_sha384" and seed: "length seed = S_IMCK_LEN"
    and sv: "sv_phase sv = SvOuterHs" "sv_mac sv = aws_sha384" "sv_identity sv = identity_of (dc_identity (dr_cfg d))"
    and d: "dr_phase d = ExpectStart" "dr_rounds d = 0" "dr_reasm d = reasm_new MAX_TLS_MESSAGE" "dr_inner d = Some i"
      "ticket_room (dc_mat_to_present (dr_cfg d)) \<le> 65500" "k + 20 + ticket_room (dc_mat_to_present (dr_cfg d)) \<le> n"
      "m \<le> dc_max_fragment (dr_cfg d)" "m \<le> 65500"
    and i: "ii_state i = InHandshake" "\<not> ii_started i" "ii_reasm i = reasm_new MAX_INNER_MESSAGE" "k \<le> ii_max_fragment i"
    and hs: "handshake_pair sl rl m (sv_outer sv) (dr_tunnel d) c t"
    and x: "rl_export rl (tc_conn t) S_IMCK_LEN EXPORTER_LABEL_SESSION_KEY_SEED = Inr seed"
      "rl_suite rl (tc_conn t) = Some TLS13_AES_256_GCM_SHA384"
    and ih: "handshake_pair sl rl k (sv_inner sv) (ii_tunnel i) ci ti" and ag: "inner_agreed sl rl k ci ti imsk"
    and a: "absorb_inner (harness_mac sign) (take IMSK_LEN imsk) \<lparr>ks_s_imck = seed, ks_methods = 0\<rparr> = (Inr cm, ks)"
    and ds: "derive_session_keys (harness_mac sign) ks = Inr (msk, emsk)"
  obtains req sv' d' where "srv_start sv = Some (Inr req, sv)"
    "converse sl rl sign (inner_process_packet rl) 8 req sv d = Some (Success msk emsk None, sv', d')" "srv_is_done sv'"
proof -
  let ?proc = "inner_process_packet rl"
  obtain hello t1 c1 flight c2 t2 fin t3 where
    h1: "take_outgoing rl (dr_tunnel d) = Some (Inr hello, t1)" "length hello \<le> m"
    and h2: "srv_feed sl hello (sv_outer sv) = Some (Inr (), c1)" "rl_is_handshaking sl c1"
      "srv_take sl c1 = Some (Inr flight, c2)" "flight \<noteq> []" "length flight \<le> m"
    and h3: "feed_incoming rl flight t1 = Some (Inr (), t2)" "\<not> tls_is_handshaking rl t2"
      "take_outgoing rl t2 = Some (Inr fin, t3)" "finish_handshake rl t3 = Some (Inr (), t)" "length fin \<le> m"
    and h4: "srv_feed sl fin c2 = Some (Inr (), c)" "\<not> rl_is_handshaking sl c"
    using hs unfolding handshake_pair_def by blast
  obtain req where req: "eap_encode (teap_packet Request (sv_id sv) (outer_build start_packet)) = Inr req"
    using teap_encodes [of start_packet Request "sv_id sv"] by (auto simp: start_packet_def)
  then have start: "srv_start sv = Some (Inr req, sv)"
    by (simp add: srv_start_def teap_req_packet start_packet_def unwrapE_def op_simps)
  let ?d1 = "d\<lparr>dr_last_id := sv_id sv, dr_phase := Handshake, dr_tunnel := t1, dr_queue := []\<rparr>"
  obtain r1 where r1: "driver_step rl sign ?proc req d = Some (Inr (DrvRespond r1), ?d1)"
    "eap_encode (teap_packet Response (sv_id sv) (outer_build (whole hello))) = Inr r1"
    by (rule driver_start [where sign = sign and proc = ?proc, OF req d(1) h1(1)]) (use h1(2) d(7,8) in simp_all)
  let ?sv1 = "sv\<lparr>sv_outer := c2, sv_id := sv_id sv + 1\<rparr>"
  have "length flight \<le> 65500" using h2(5) d(8) by simp
  from server_flight [where sign = sign, OF r1(2) sv(1) h2(1-3) this] obtain req1 where
    s1: "srv_handle sl sign r1 sv = Some (Inr req1, ?sv1)"
    "eap_encode (teap_packet Request (sv_id sv + 1) (outer_build (whole flight))) = Inr req1" by blast
  let ?s = "fresh_session (dr_cfg ?d1) (harness_mac sign) seed i"
  let ?d2 = "?d1\<lparr>dr_last_id := sv_id sv + 1, dr_rounds := 0, dr_tunnel := t, dr_inner := None,
        dr_session := Some ?s, dr_phase := Phase2, dr_queue := []\<rparr>"
  have d1: "dr_phase ?d1 = Handshake" "dr_rounds ?d1 = 0" "dr_reasm ?d1 = reasm_new MAX_TLS_MESSAGE"
    "dr_inner ?d1 = Some i" "dr_tunnel ?d1 = t1" and fl: "length flight \<le> MAX_TLS_MESSAGE"
    and fn: "length fin \<le> dc_max_fragment (dr_cfg ?d1)" "length fin \<le> 65500"
    using d h2(5) h3(5) by (simp_all add: MAX_TLS_MESSAGE_def)
  obtain r2 where r2: "driver_step rl sign ?proc req1 ?d1 = Some (Inr (DrvRespond r2), ?d2)"
    "eap_encode (teap_packet Response (sv_id sv + 1) (outer_build (whole fin))) = Inr r2"
    by (rule driver_handshake [where sign = sign and proc = ?proc, OF s1(2) d1 fl h2(4) h3(1-4) x(1) seed x(2) fn])
  obtain e where e: "eap_encode (eap_tls_packet Request (sv_inner_id ?sv1 + 1) (outer_build inner_begin)) = Inr e"
    using inner_encodes [of inner_begin Request "sv_inner_id ?sv1 + 1"] by auto
  let ?sv2 = "?sv1\<lparr>sv_outer := c, sv_phase := SvInnerHs, sv_inner_id := sv_inner_id ?sv1 + 1\<rparr>"
  have p1: "sv_phase ?sv1 = SvOuterHs" and f1: "srv_feed sl fin (sv_outer ?sv1) = Some (Inr (), c)"
    using sv(1) h4(1) by simp_all
  have s2: "srv_handle sl sign r2 ?sv1 = send_tlvs sl [it_to_tlv (sv_identity ?sv1) True, ep_to_tlv e True] ?sv2"
    by (rule server_opens [OF r2(2) p1 f1 h4(2) e])
  have l2: "L (sv_outer ?sv2) (dr_tunnel ?d2)" and v2: "sv_phase ?sv2 = SvInnerHs" "sv_mac ?sv2 = aws_sha384"
    and ih2: "handshake_pair sl rl k (sv_inner ?sv2) (ii_tunnel i) ci ti" and ph2: "in_phase2 m 5 ?d2 ?s"
    and u2: "untouched sign seed i ?s" and c2: "\<not> ss_presented_mat ?s"
      "identity_matches (sc_identity (ss_cfg ?s)) (sv_identity ?sv1)" "identity_wf (sv_identity ?sv1)"
    and m2: "ticket_room (sc_mat_to_present (ss_cfg ?s)) \<le> 65500" "k + 20 + ticket_room (sc_mat_to_present (ss_cfg ?s)) \<le> n"
    using ch(2) sv ih d
    by (simp_all add: in_phase2_def untouched_def fresh_session_def session_cfg_def MAX_PHASE2_ROUNDS_def)
  obtain req2 sv3 sv' d' where nxt:
    "send_tlvs sl [it_to_tlv (sv_identity ?sv1) True, ep_to_tlv e True] ?sv2 = Some (Inr req2, sv3)"
    "converse sl rl sign ?proc 6 req2 sv3 ?d2 = Some (Success msk emsk None, sv', d')" "srv_is_done sv'"
    by (rule converse_hello [OF ch(1) l2 n doc seed v2 ih2 ag ph2 u2 c2 m2 i e a ds])
  have "converse sl rl sign ?proc 8 req sv d = Some (Success msk emsk None, sv', d')"
    using r1(1) s1(1) r2(1) s2 nxt by (simp add: eval_nat_numeral)
  with start nxt(3) that show ?thesis by blast
qed


section \<open>The example of the test\<close>

text \<open>The configuration of the test, over connections whose records are the plaintext and whose handshake is
  one octet a flight.\<close>

definition test_config :: driver_config where
  "test_config = \<lparr>dc_identity = Machine, dc_server_name = [], dc_mat_vendor_id = 0x9999,
     dc_mat_to_present = None, dc_max_fragment = 64 * 1024\<rparr>"

definition test_builder :: "(unit, unit, unit, unit, bytes, plain_conn, unit) rustls_builder" where
  "test_builder = plain_builder\<lparr>rb_new_connection := (\<lambda>cfg name. Inr \<lparr>pc_script = [[20]], pc_out = [22], pc_in = []\<rparr>)\<rparr>"

definition test_server_conn :: plain_conn where
  "test_server_conn = \<lparr>pc_script = [[21], []], pc_out = [], pc_in = []\<rparr>"

definition test_server_builder :: "(unit, unit, unit, unit, unit, plain_conn, unit) server_builder" where
  "test_server_builder = \<lparr>sb_builder = Inr (), sb_no_client_auth = (\<lambda>b. b), sb_add_root = Inr,
     sb_verifier = (\<lambda>roots. Inr ()), sb_client_verifier = (\<lambda>b v. b), sb_single_cert = (\<lambda>b certs key. Inr ()),
     sb_connection = (\<lambda>cfg. Inr test_server_conn)\<rparr>"

abbreviation plain_open :: plain_conn where
  "plain_open \<equiv> \<lparr>pc_script = [], pc_out = [], pc_in = []\<rparr>"

lemma test_handshake:
  "0 < m \<Longrightarrow> handshake_pair plain_tls plain_tls m test_server_conn
     \<lparr>tc_conn = \<lparr>pc_script = [[20]], pc_out = [22], pc_in = []\<rparr>, tc_established = False\<rparr>
     plain_open \<lparr>tc_conn = plain_open, tc_established = True\<rparr>"
proof -
  let ?t = "\<lambda>script out. \<lparr>tc_conn = \<lparr>pc_script = script, pc_out = out, pc_in = []\<rparr>, tc_established = False\<rparr>"
  let ?c = "\<lambda>script out. \<lparr>pc_script = script, pc_out = out, pc_in = []\<rparr>"
  have "take_outgoing plain_tls (?t [[20]] [22]) = Some (Inr [22], ?t [[20]] [])"
    "feed_incoming plain_tls [21] (?t [[20]] []) = Some (Inr (), ?t [] [20])"
    "take_outgoing plain_tls (?t [] [20]) = Some (Inr [20], ?t [] [])"
    "finish_handshake plain_tls (?t [] []) = Some (Inr (), \<lparr>tc_conn = plain_open, tc_established = True\<rparr>)"
    "\<not> tls_is_handshaking plain_tls (?t [] [20])"
    using plain_drain [of "[[20]]" "[22]" "[]"] plain_drain [of "[]" "[20]" "[]"]
    by (simp_all add: take_outgoing_def feed_incoming_def plain_feed finish_handshake_def
        enforce_fips_parameters_def plain_sel tls_is_handshaking_def)
  moreover have "srv_feed plain_tls [22] test_server_conn = Some (Inr (), ?c [[]] [21])"
    "srv_feed plain_tls [20] (?c [[]] []) = Some (Inr (), plain_open)"
    by (simp_all add: srv_feed_def pureO_def srv_feed_loop.simps plain_sel test_server_conn_def)
  moreover have "rl_is_handshaking plain_tls (?c [[]] [21])" "\<not> rl_is_handshaking plain_tls plain_open"
    by (simp_all add: plain_sel)
  moreover assume "0 < m"
  ultimately show ?thesis
    unfolding handshake_pair_def using plain_srv_drain [of "[[]]" "[21]" "[]"]
    by (intro exI [of _ "[22]"] exI [of _ "?t [[20]] []"] exI [of _ "?c [[]] [21]"] exI [of _ "[21]"]
        exI [of _ "?c [[]] []"] exI [of _ "?t [] [20]"] exI [of _ "[20]"] exI [of _ "?t [] []"]) simp
qed

lemma test_inner_agreed:
  "inner_agreed plain_tls plain_tls 900 plain_open \<lparr>tc_conn = plain_open, tc_established = e\<rparr> (replicate 64 1)"
  unfolding inner_agreed_def
  using plain_srv_drain [of "[]" "[0]" "[]"]
  by (auto simp: srv_write_all_def plain_sel)

section \<open>Properties\<close>

text \<open>A whole session authenticates. The driver that \<open>assemble_driver\<close> builds and the harness server for
  the same identity, over TLS connections whose handshakes complete and whose ends agree (records that
  decrypt to what was encrypted, one exporter seed outside, one exporter secret inside, the allowed
  suite), reach success within eight rounds from the server's first packet: the server is done, and the
  driver holds an MSK and an EMSK of 64 octets, those of the key schedule over that seed and the first
  32 octets of that secret.\<close>

lemma whole_session_succeeds:
  fixes rl :: "('c, 're) rustls"
  assumes "assemble_driver rb cfg roots auth = Inr d" and "dr_inner d = Some i"
    and "server_new sb server_id client_cert (dc_identity cfg) = Inr sv"
    and "ticket_room (dc_mat_to_present cfg) \<le> 65500" and "m \<le> dc_max_fragment cfg" and "k \<le> dc_max_fragment cfg"
    and "m \<le> 65500" and "k \<le> 65500" and "200 \<le> n" and "k + 20 + ticket_room (dc_mat_to_present cfg) \<le> n"
    and "aws_documented sign aws_sha384"
    and "handshake_pair sl rl m (sv_outer sv) (dr_tunnel d) c t" and "secure_channel sl rl n m seed L" and "L c t"
    and "rl_suite rl (tc_conn t) = Some TLS13_AES_256_GCM_SHA384"
    and "rl_export rl (tc_conn t) S_IMCK_LEN EXPORTER_LABEL_SESSION_KEY_SEED = Inr seed" and "length seed = S_IMCK_LEN"
    and "handshake_pair sl rl k (sv_inner sv) (ii_tunnel i) ci ti" and "inner_agreed sl rl k ci ti imsk"
  shows "\<exists>inbound sv' d' cmk ks msk emsk. srv_start sv = Some (Inr inbound, sv)
    \<and> converse sl rl sign (inner_process_packet rl) 8 inbound sv d = Some (Success msk emsk None, sv', d')
    \<and> srv_is_done sv' \<and> length msk = 64 \<and> length emsk = 64
    \<and> absorb_inner (aws_dyn_mac sign aws_sha384) (take IMSK_LEN imsk) \<lparr>ks_s_imck = seed, ks_methods = 0\<rparr> = (Inr cmk, ks)
    \<and> derive_session_keys (aws_dyn_mac sign aws_sha384) ks = Inr (msk, emsk)"
proof -
  note mac = harness_mac_ok [OF assms(11)]
  have k: "length (take IMSK_LEN imsk) = IMSK_LEN" using assms(19) by (auto simp: inner_agreed_def)
  obtain cm ks where a: "absorb_inner (harness_mac sign) (take IMSK_LEN imsk) \<lparr>ks_s_imck = seed, ks_methods = 0\<rparr> = (Inr cm, ks)"
    and ms: "ks_methods ks \<noteq> 0"
    using dyn.absorb_ok [OF mac(1) k] sat_add_pos by fastforce
  obtain msk emsk where ds: "derive_session_keys (harness_mac sign) ks = Inr (msk, emsk)"
    and len: "length msk = 64" "length emsk = 64"
    using dyn.derive_ok [OF mac(1), of ks] ms by auto
  note srv = server_fresh [OF assms(3)] and drv = driver_fresh [OF assms(1)]
  have i: "ii_state i = InHandshake" "\<not> ii_started i" "ii_reasm i = reasm_new MAX_INNER_MESSAGE" "k \<le> ii_max_fragment i"
    using drv(5) assms(2,6) by auto
  have cfg: "sv_identity sv = identity_of (dc_identity (dr_cfg d))" "ticket_room (dc_mat_to_present (dr_cfg d)) \<le> 65500"
    "k + 20 + ticket_room (dc_mat_to_present (dr_cfg d)) \<le> n" "m \<le> dc_max_fragment (dr_cfg d)" and n: "k + 20 \<le> n"
    using srv(3) drv(1) assms(4,5,10) by simp_all
  obtain req sv' d' where "srv_start sv = Some (Inr req, sv)"
    "converse sl rl sign (inner_process_packet rl) 8 req sv d = Some (Success msk emsk None, sv', d')" "srv_is_done sv'"
    by (rule converse_outer [OF assms(13,14,9) n assms(8,11,17) srv(1,2) cfg(1) drv(2-4) assms(2) cfg(2-4) assms(7) i
          assms(12,16,15,18,19) a ds])
  with a ds len show ?thesis by blast
qed

lemma whole_session_succeeds_witness:
  "\<exists>d sv inbound sv' d' msk emsk. assemble_driver test_builder test_config () NoClientAuth = Inr d
     \<and> server_new test_server_builder ((), ()) () Machine = Inr sv \<and> srv_start sv = Some (Inr inbound, sv)
     \<and> converse plain_tls plain_tls sum_sign (inner_process_packet plain_tls) 8 inbound sv d
         = Some (Success msk emsk None, sv', d') \<and> srv_is_done sv' \<and> length msk = 64"
proof -
  let ?t = "\<lparr>tc_conn = \<lparr>pc_script = [[20]], pc_out = [22], pc_in = []\<rparr>, tc_established = False\<rparr>"
  obtain i where i: "inner_new test_builder () [] (64 * 1024) = Inr i" and it: "ii_tunnel i = ?t"
    by (simp add: inner_new_def tls_connect_def test_builder_def plain_builder_def)
  obtain d where d: "assemble_driver test_builder test_config () NoClientAuth = Inr d"
      and dt: "dr_tunnel d = ?t" "dr_inner d = Some i"
    using i by (simp add: assemble_driver_def driver_new_def client_config_def tls_connect_def test_builder_def
        plain_builder_def test_config_def)
  obtain sv where sv: "server_new test_server_builder ((), ()) () (dc_identity test_config) = Inr sv"
      and so: "sv_outer sv = test_server_conn" "sv_inner sv = test_server_conn"
    by (simp add: server_new_def bindE_def unwrapE_def test_server_builder_def)
  have outer: "handshake_pair plain_tls plain_tls 1000 (sv_outer sv) (dr_tunnel d)
      plain_open \<lparr>tc_conn = plain_open, tc_established = True\<rparr>"
    and inner: "handshake_pair plain_tls plain_tls 900 (sv_inner sv) (ii_tunnel i)
      plain_open \<lparr>tc_conn = plain_open, tc_established = True\<rparr>"
    unfolding so dt it by (simp_all add: test_handshake)
  show ?thesis
    using whole_session_succeeds [OF d dt(2) sv, of 1000 900 1000 sum_sign plain_tls plain_tls plain_open
        "\<lparr>tc_conn = plain_open, tc_established = True\<rparr>" "replicate 40 1" plain_link plain_open
        "\<lparr>tc_conn = plain_open, tc_established = True\<rparr>" "replicate 64 1"]
      outer inner plain_channel [of 1000] test_inner_agreed sum_sign_documented d sv
    by (auto simp: test_config_def ticket_room_def plain_sel plain_link_def plain_idle_def TLS13_AES_256_GCM_SHA384_def)
qed

end
