(* ===== verification/Host_Drive.thy ===== *)
theory Host_Drive
  imports Harness_Session Peer_Run
begin

text \<open>
  A host that drives the exported routines against the harness server, as
  crates/eaphost/tests/peer_full_session_dll.rs does: it hands each packet of the server to
  EapPeerProcessRequestPacket, fetches the response with EapPeerGetResponsePacket and, once told to, reads the
  verdict with EapPeerGetResult. The routines refine the loop of \<open>Harness_Run\<close>.
\<close>

section \<open>The calls of the host\<close>

text \<open>Before each call the host lays out its buffers anew: the error pointer at 8, and what the call reads and writes.\<close>

definition host_process ::
  "('d, 'e) teap_step \<Rightarrow> ('d \<Rightarrow> bool) \<Rightarrow> os_answers \<Rightarrow> nat \<Rightarrow> bytes \<Rightarrow> 'd ffi_state \<Rightarrow> (peer_action \<times> 'd ffi_state) option" where
  "host_process step est os ptr packet s =
     (case EapPeerProcessRequestPacket step est os ptr (word_of_nat (length packet)) 16 32 8
        (s\<lparr>ff_mem := [8 \<mapsto> CPtr 0, 16 \<mapsto> COctets packet, 32 \<mapsto> COutput ActionSend False]\<rparr>) of
        Some (Inr _, s') \<Rightarrow> (case ff_mem s' 32 of Some (COutput a _) \<Rightarrow> Some (a, s') | _ \<Rightarrow> None)
      | _ \<Rightarrow> None)"

definition host_fetch :: "nat \<Rightarrow> nat \<Rightarrow> 'd ffi_state \<Rightarrow> (bytes \<times> 'd ffi_state) option" where
  "host_fetch cap ptr s =
     (case EapPeerGetResponsePacket ptr 48 64 8
        (s\<lparr>ff_mem := [8 \<mapsto> CPtr 0, 48 \<mapsto> CU32 (word_of_nat cap), 64 \<mapsto> COctets (replicate cap 0)]\<rparr>) of
        Some (Inr _, s') \<Rightarrow>
          (case (ff_mem s' 48, ff_mem s' 64) of
             (Some (CU32 n), Some (COctets buf)) \<Rightarrow> Some (take (unat n) buf, s')
           | _ \<Rightarrow> None)
      | _ \<Rightarrow> None)"

definition host_verdict :: "os_answers \<Rightarrow> nat \<Rightarrow> 'd ffi_state \<Rightarrow> (bool \<times> 'd ffi_state) option" where
  "host_verdict os ptr s =
     (case EapPeerGetResult os ptr 80 8 (s\<lparr>ff_mem := [8 \<mapsto> CPtr 0, 80 \<mapsto> CResult False 0]\<rparr>) of
        Some (Inr _, s') \<Rightarrow> (case ff_mem s' 80 of Some (CResult ok _) \<Rightarrow> Some (ok, s') | _ \<Rightarrow> None)
      | _ \<Rightarrow> None)"

fun host_drive ::
  "('s, 'se) rustls \<Rightarrow> hmac_sign \<Rightarrow> ('d, 'e) teap_step \<Rightarrow> ('d \<Rightarrow> bool) \<Rightarrow> os_answers \<Rightarrow> nat \<Rightarrow> nat \<Rightarrow> nat \<Rightarrow> bytes
     \<Rightarrow> 's teap_server \<Rightarrow> 'd ffi_state \<Rightarrow> (bool \<times> 's teap_server \<times> 'd ffi_state) option" where
  "host_drive sl sign step est os cap ptr 0 inbound sv s = None"
| "host_drive sl sign step est os cap ptr (Suc n) inbound sv s =
     (case host_process step est os ptr inbound s of
        None \<Rightarrow> None
      | Some (ActionSend, s1) \<Rightarrow>
          (case host_fetch cap ptr s1 of
             None \<Rightarrow> None
           | Some (resp, s2) \<Rightarrow>
               (case srv_handle sl sign resp sv of
                  Some (Inr inbound', sv') \<Rightarrow> host_drive sl sign step est os cap ptr n inbound' sv' s2
                | _ \<Rightarrow> None))
      | Some (ActionResult, s1) \<Rightarrow>
          (case host_verdict os ptr s1 of None \<Rightarrow> None | Some (ok, s2) \<Rightarrow> Some (ok, sv, s2)))"

section \<open>What the calls do to one session\<close>

text \<open>The session behind the pointer of the host.\<close>

definition session_at :: "nat \<Rightarrow> 'd ffi_state \<Rightarrow> 'd peer_session option" where
  "session_at ptr s = map_of (rg_sessions (ph_registry (ff_host s))) (ptr_to_handle ptr)"

definition fits :: "bytes \<Rightarrow> bool" where
  "fits bs \<longleftrightarrow> 4 \<le> length bs \<and> length bs \<le> 65535"

lemma fits_length:
  assumes "fits bs"
  shows "unat (word_of_nat (length bs) :: u32) = length bs"
    "FFI_EAP_HEADER_LEN \<le> word_of_nat (length bs)" "(word_of_nat (length bs) :: u32) \<le> MAX_EAP_PACKET"
proof -
  show u: "unat (word_of_nat (length bs) :: u32) = length bs"
    using assms by (simp add: fits_def unsigned_of_nat take_bit_nat_eq_self)
  show "FFI_EAP_HEADER_LEN \<le> word_of_nat (length bs)" "(word_of_nat (length bs) :: u32) \<le> MAX_EAP_PACKET"
    using assms by (simp_all add: fits_def word_le_nat_alt u FFI_EAP_HEADER_LEN_def MAX_EAP_PACKET_def)
qed

lemma eap_encode_fits: "eap_encode p = Inr bs \<Longrightarrow> fits bs"
  by (auto simp: eap_encode_def Let_def fits_def EAP_HEADER_LEN_def split: if_splits option.splits)

definition action_of :: "process_action \<Rightarrow> peer_action" where
  "action_of a = (case a of ActRespond \<Rightarrow> ActionSend | ActFinished \<Rightarrow> ActionResult)"

lemma registry_at:
  assumes "map_of (rg_sessions r) h = Some ps"
  shows "peer_process step eap ps = Some (a, ps') \<Longrightarrow>
      registry_process step h eap r = Some (Some a, r\<lparr>rg_sessions := AList.update h ps' (rg_sessions r)\<rparr>)"
    and "peer_process step eap ps = None \<Longrightarrow> registry_process step h eap r = None"
    and "ps_pending ps = Some resp \<Longrightarrow> length resp \<le> avail \<Longrightarrow> registry_fetch_response h avail r
      = (Taken resp, r\<lparr>rg_sessions := AList.update h (ps\<lparr>ps_pending := None\<rparr>) (rg_sessions r)\<rparr>)"
  using assms
  by (auto simp: registry_process_def with_session_def registry_fetch_response_def peer_response_len_def
      peer_take_response_def)

lemma process_hosted:
  assumes "session_at ptr s = Some ps" and "fits packet"
  shows "peer_process step packet ps = Some (a, ps') \<Longrightarrow>
      \<exists>s'. host_process step est os ptr packet s = Some (action_of a, s') \<and> session_at ptr s' = Some ps'"
    and "peer_process step packet ps = None \<Longrightarrow> host_process step est os ptr packet s = None"
proof -
  note at = registry_at [OF assms(1) [unfolded session_at_def]]
  note routine = host_process_def EapPeerProcessRequestPacket_def clear_error_def poke_opt_def poke_def slice_raw_def
    registryO_def hostO_def op_simps Let_def fits_length [OF assms(2)]
  show "\<exists>s'. host_process step est os ptr packet s = Some (action_of a, s') \<and> session_at ptr s' = Some ps'"
    if "peer_process step packet ps = Some (a, ps')"
    using at(1) [OF that]
    by (cases a) (simp_all add: routine action_of_def session_at_def update_conv')
  show "host_process step est os ptr packet s = None" if "peer_process step packet ps = None"
    using at(2) [OF that] by (simp add: routine)
qed

lemma fetch_hosted:
  assumes "session_at ptr s = Some ps" and "ps_pending ps = Some resp" and "fits resp"
    and "65535 \<le> cap" and "cap < 2 ^ 32"
  shows "\<exists>s'. host_fetch cap ptr s = Some (resp, s') \<and> session_at ptr s' = Some (ps\<lparr>ps_pending := None\<rparr>)"
proof -
  have u: "unat (word_of_nat cap :: u32) = cap" using assms(5) by (simp add: unsigned_of_nat take_bit_nat_eq_self)
  have l: "length resp \<le> cap" "length resp \<le> u32_max" "resp \<noteq> []"
    using assms(3,4) by (auto simp: fits_def u32_max_def)
  show ?thesis
    using registry_at(3) [OF assms(1) [unfolded session_at_def] assms(2) l(1)] l fits_length(1) [OF assms(3)]
    by (simp add: host_fetch_def EapPeerGetResponsePacket_def clear_error_def poke_opt_def poke_def peek_u32_def
        copy_out_def hostO_def op_simps u min_def session_at_def update_conv')
qed

lemma verdict_hosted:
  assumes "session_at ptr s = Some ps"
  shows "\<exists>s'. host_verdict os ptr s = Some (\<exists>msk mat. ps_result ps = Some (AuthSuccess msk mat), s')
    \<and> session_at ptr s' = Some ps"
proof -
  obtain st detail where t: "terminal_status (ps_result ps) = (st, detail)" by fastforce
  show ?thesis
    using assms
    by (auto simp: host_verdict_def EapPeerGetResult_def clear_error_def poke_opt_def poke_def registry_result_def
        hostO_def op_simps session_at_def t Let_def split: option.split auth_result.split)
qed


section \<open>The packets of the server\<close>

definition emits_packets :: "('s, 'e, bytes) op \<Rightarrow> bool" where
  "emits_packets m \<longleftrightarrow> (\<forall>s bs s'. m s = Some (Inr bs, s') \<longrightarrow> fits bs)"

named_theorems emits \<open>operations that return packets\<close>

lemma emits_bind [emits]: "(\<And>x. emits_packets (f x)) \<Longrightarrow> emits_packets (bindO m f)"
  unfolding emits_packets_def bindO_Inr by blast

lemma emits_packet [emits]: "emits_packets (mustO (srv_eap code i ty d))" "emits_packets (mustO (teap_req i outer))"
  by (auto simp: emits_packets_def liftO_def teap_req_def srv_eap_def unwrapE_def eap_encode_fits split: sum.splits)

lemma emits_send [emits]: "emits_packets (send_tlvs sl tlvs)"
  unfolding send_tlvs_def by (intro emits)

lemma emits_handle: "emits_packets (srv_handle sl sign resp)"
proof -
  have "emits_packets (throwO e)" for e :: panic
    by (simp add: emits_packets_def throwO_def)
  then show ?thesis
    unfolding srv_handle_def handle_outer_hs_def handle_inner_hs_def handle_after_commit_def handle_await_cb_def
      handle_await_result_def
    by (auto intro!: emits split: server_phase.split)
qed

lemma handle_fits: "srv_handle sl sign resp sv = Some (Inr req, sv') \<Longrightarrow> fits req"
  using emits_handle [of sl sign resp] unfolding emits_packets_def by blast

lemma start_fits: "srv_start sv = Some (Inr req, sv') \<Longrightarrow> fits req"
proof -
  have "emits_packets srv_start" unfolding srv_start_def by (intro emits)
  then show "srv_start sv = Some (Inr req, sv') \<Longrightarrow> fits req" by (auto simp: emits_packets_def)
qed

lemma respond_fits: "driver_step rl sign proc req d = Some (Inr (DrvRespond bs), d') \<Longrightarrow> fits bs"
  using driver_answers eap_encode_fits by fastforce

section \<open>The routines refine the loop\<close>

lemma result_of_success: "(\<exists>msk mat. result_of oc = AuthSuccess msk mat) \<longleftrightarrow> (\<exists>msk emsk mat. oc = Success msk emsk mat)"
  by (cases oc) auto

text \<open>A round that the driver answers, as the host sees it.\<close>

lemma hosted_round:
  fixes rl :: "('c, 're) rustls" and d :: "('c, 'i) teap_driver"
  assumes at: "session_at ptr s = Some ps" "\<not> ps_terminated ps" and p: "fits inbound" and c: "65535 \<le> cap" "cap < 2 ^ 32"
    and st: "driver_step rl sign proc inbound (ps_driver ps) = Some (Inr (DrvRespond resp), d)"
  obtains s1 s2 where "host_process (driver_step rl sign proc) est os ptr inbound s = Some (ActionSend, s1)"
    "host_fetch cap ptr s1 = Some (resp, s2)" "session_at ptr s2 = Some (ps\<lparr>ps_driver := d, ps_pending := None\<rparr>)"
proof -
  let ?ps = "ps\<lparr>ps_driver := d, ps_pending := Some resp\<rparr>"
  have "peer_process (driver_step rl sign proc) inbound ps = Some (ActRespond, ?ps)"
    using at(2) st by (simp add: peer_process_def)
  from process_hosted(1) [OF at(1) p this, of est os] obtain s1 where
    s1: "host_process (driver_step rl sign proc) est os ptr inbound s = Some (ActionSend, s1)" "session_at ptr s1 = Some ?ps"
    by (auto simp: action_of_def)
  have "ps_pending ?ps = Some resp" by simp
  from fetch_hosted [OF s1(2) this respond_fits [OF st] c] obtain s2 where
    "host_fetch cap ptr s1 = Some (resp, s2)" "session_at ptr s2 = Some (?ps\<lparr>ps_pending := None\<rparr>)" by blast
  with s1(1) that show ?thesis by simp
qed

text \<open>A round that ends the session.\<close>

lemma hosted_end:
  fixes rl :: "('c, 're) rustls" and d :: "('c, 'i) teap_driver"
  assumes at: "session_at ptr s = Some ps" and p: "fits inbound"
    and st: "peer_process (driver_step rl sign proc) inbound ps = Some (ActFinished, ps')" "ps_result ps' = Some v"
  obtains s' where "session_at ptr s' = Some ps'"
    "host_drive sl sg (driver_step rl sign proc) est os cap ptr (Suc n) inbound sv s
       = Some (\<exists>msk mat. v = AuthSuccess msk mat, sv, s')"
proof -
  from process_hosted(1) [OF at p st(1), of est os] obtain s1 where
    s1: "host_process (driver_step rl sign proc) est os ptr inbound s = Some (ActionResult, s1)" "session_at ptr s1 = Some ps'"
    by (auto simp: action_of_def)
  from verdict_hosted [OF s1(2), of os] obtain s2 where
    "host_verdict os ptr s1 = Some (\<exists>msk mat. v = AuthSuccess msk mat, s2)" "session_at ptr s2 = Some ps'"
    unfolding st(2) by auto
  with s1(1) that show ?thesis by simp
qed

definition hosted ::
  "('s, 'se) rustls \<Rightarrow> ('c, 're) rustls \<Rightarrow> hmac_sign \<Rightarrow> 'i inner_process \<Rightarrow> os_answers \<Rightarrow> nat \<Rightarrow> nat \<Rightarrow> nat \<Rightarrow> bytes
     \<Rightarrow> 's teap_server \<Rightarrow> ('c, 'i) teap_driver ffi_state
     \<Rightarrow> (bool \<times> 's teap_server \<times> ('c, 'i) teap_driver ffi_state) option" where
  "hosted sl rl sign proc os cap ptr n inbound sv s =
     host_drive sl sign (driver_step rl sign proc) is_established os cap ptr n inbound sv s"

lemma hosted_complete:
  fixes rl :: "('c, 're) rustls" and d :: "('c, 'i) teap_driver"
  assumes "converse sl rl sign proc n inbound sv (ps_driver ps) = Some (oc, sv', d')"
    and "session_at ptr s = Some ps" and "\<not> ps_terminated ps" and "fits inbound" and "65535 \<le> cap" and "cap < 2 ^ 32"
  shows "\<exists>s' ps'. hosted sl rl sign proc os cap ptr n inbound sv s
      = Some (\<exists>msk emsk mat. oc = Success msk emsk mat, sv', s')
    \<and> session_at ptr s' = Some ps' \<and> ps_result ps' = Some (result_of oc) \<and> ps_driver ps' = d'"
  using assms(1-4)
proof (induction n arbitrary: inbound sv ps s)
  case (Suc n)
  from Suc.prems(1) consider
      (respond) resp e inbound' sv1 where "driver_step rl sign proc inbound (ps_driver ps) = Some (Inr (DrvRespond resp), e)"
        "srv_handle sl sign resp sv = Some (Inr inbound', sv1)" "converse sl rl sign proc n inbound' sv1 e = Some (oc, sv', d')"
    | (finish) send where "driver_step rl sign proc inbound (ps_driver ps) = Some (Inr (Finished send oc), d')" "sv' = sv"
    by (auto split: option.splits sum.splits driver_reply.splits)
  then show ?case
  proof cases
    case respond
    obtain s1 s2 where s1: "host_process (driver_step rl sign proc) is_established os ptr inbound s = Some (ActionSend, s1)"
      "host_fetch cap ptr s1 = Some (resp, s2)" "session_at ptr s2 = Some (ps\<lparr>ps_driver := e, ps_pending := None\<rparr>)"
      by (rule hosted_round [OF Suc.prems(2-4) assms(5,6) respond(1), where est = is_established and os = os])
    have "\<exists>s' ps'. hosted sl rl sign proc os cap ptr n inbound' sv1 s2
        = Some (\<exists>msk emsk mat. oc = Success msk emsk mat, sv', s')
      \<and> session_at ptr s' = Some ps' \<and> ps_result ps' = Some (result_of oc) \<and> ps_driver ps' = d'"
      by (rule Suc.IH [OF _ s1(3)]) (use respond Suc.prems(3) handle_fits [OF respond(2)] in simp_all)
    with s1(1,2) respond(2) show ?thesis by (simp add: hosted_def)
  next
    case finish
    let ?ps = "peer_finish oc (let p = ps\<lparr>ps_driver := d'\<rparr> in if send \<noteq> None then p\<lparr>ps_pending := send\<rparr> else p)"
    have p: "peer_process (driver_step rl sign proc) inbound ps = Some (ActFinished, ?ps)"
      "ps_result ?ps = Some (result_of oc)" "ps_driver ?ps = d'"
      using finish(1) Suc.prems(3) by (cases oc; simp add: peer_process_def peer_finish_def Let_def)+
    obtain s' where "session_at ptr s' = Some ?ps" "hosted sl rl sign proc os cap ptr (Suc n) inbound sv s
        = Some (\<exists>msk mat. result_of oc = AuthSuccess msk mat, sv, s')"
      unfolding hosted_def by (rule hosted_end [OF Suc.prems(2,4) p(1,2), where est = is_established and os = os and sl = sl and sg = sign and n = n and cap = cap and sv = sv])
    with p(2,3) finish(2) show ?thesis by (auto simp: result_of_success simp del: host_drive.simps)
  qed
qed simp


lemma hosted_sound:
  fixes rl :: "('c, 're) rustls" and s :: "('c, 'i) teap_driver ffi_state"
  assumes "hosted sl rl sign proc os cap ptr n inbound sv s = Some (True, sv', s')"
    and "session_at ptr s = Some ps" and "\<not> ps_terminated ps" and "fits inbound" and "65535 \<le> cap" and "cap < 2 ^ 32"
  shows "\<exists>msk emsk mat d'. converse sl rl sign proc n inbound sv (ps_driver ps) = Some (Success msk emsk mat, sv', d')"
  using assms(1-4)
proof (induction n arbitrary: inbound sv ps s)
  case (Suc n)
  let ?step = "driver_step rl sign proc"
  show ?case
  proof (cases "?step inbound (ps_driver ps)")
    case None
    with Suc.prems(3) have "peer_process ?step inbound ps = None" by (simp add: peer_process_def)
    from process_hosted(2) [OF Suc.prems(2,4) this] Suc.prems(1) show ?thesis by (simp add: hosted_def)
  next
    case (Some q)
    obtain r d where q: "q = (r, d)" by (cases q)
    show ?thesis
    proof (cases r)
      case (Inl e)
      let ?ps = "peer_finish (Failure ServerFailure) (ps\<lparr>ps_driver := d\<rparr>)"
      have p: "peer_process ?step inbound ps = Some (ActFinished, ?ps)" "ps_result ?ps = Some (AuthFailure ServerFailure)"
        using Some q Inl Suc.prems(3) by (simp_all add: peer_process_def peer_finish_def)
      obtain t where "hosted sl rl sign proc os cap ptr (Suc n) inbound sv s
          = Some (\<exists>msk mat. AuthFailure ServerFailure = AuthSuccess msk mat, sv, t)"
        unfolding hosted_def by (rule hosted_end [OF Suc.prems(2,4) p, where est = is_established and os = os and sl = sl and sg = sign and n = n and cap = cap and sv = sv])
      with Suc.prems(1) show ?thesis by simp
    next
      case (Inr st)
      show ?thesis
      proof (cases st)
        case (DrvRespond resp)
        have step: "?step inbound (ps_driver ps) = Some (Inr (DrvRespond resp), d)" using Some q Inr DrvRespond by simp
        obtain s1 s2 where s1: "host_process ?step is_established os ptr inbound s = Some (ActionSend, s1)"
          "host_fetch cap ptr s1 = Some (resp, s2)" "session_at ptr s2 = Some (ps\<lparr>ps_driver := d, ps_pending := None\<rparr>)"
          by (rule hosted_round [OF Suc.prems(2-4) assms(5,6) step, where est = is_established and os = os])
        from Suc.prems(1) s1(1,2) obtain inbound' sv1 where h: "srv_handle sl sign resp sv = Some (Inr inbound', sv1)"
          and rest: "hosted sl rl sign proc os cap ptr n inbound' sv1 s2 = Some (True, sv', s')"
          by (auto simp: hosted_def split: option.splits sum.splits)
        have "\<exists>msk emsk mat d'. converse sl rl sign proc n inbound' sv1 (ps_driver (ps\<lparr>ps_driver := d, ps_pending := None\<rparr>))
            = Some (Success msk emsk mat, sv', d')"
          by (rule Suc.IH [OF rest s1(3)]) (use Suc.prems(3) handle_fits [OF h] in simp_all)
        with step h show ?thesis by simp
      next
        case (Finished send oc)
        have fin: "converse sl rl sign proc (Suc n) inbound sv (ps_driver ps) = Some (oc, sv, d)"
          using Some q Inr Finished by simp
        from hosted_complete [OF fin Suc.prems(2-4) assms(5,6), of os] obtain t where
          "hosted sl rl sign proc os cap ptr (Suc n) inbound sv s = Some (\<exists>msk emsk mat. oc = Success msk emsk mat, sv, t)"
          by blast
        with Suc.prems(1) have "\<exists>msk emsk mat. oc = Success msk emsk mat" "sv' = sv" by simp_all
        with fin show ?thesis by blast
      qed
    qed
  qed
qed (simp add: hosted_def)

section \<open>The session of the test\<close>

text \<open>A session that was begun: its driver is fresh.\<close>

lemma begun_session:
  assumes "begin_session ra rb nc os blob h = (Some handle, h')"
    and "config_from_bytes blob = Some (Inr cfg)" and "ptr_to_handle ptr = handle" and "ff_host s = h'"
  obtains ps roots auth where "session_at ptr s = Some ps" "\<not> ps_terminated ps"
    "assemble_driver rb (session_driver_config cfg) roots auth = Inr (ps_driver ps)"
  using assms(1)
proof (cases rule: begin_cases)
  case (begun handle' cfg' driver thumbprint)
  have cfg: "cfg' = cfg" using begun(2) assms(2) by (simp add: made_for_def)
  have reg: "ph_registry h' = snd (registry_begin (peer_new (if scb_machine cfg' then MachineSession else UserSession) driver)
      (ph_registry h))" "handle' = rg_next (ph_registry h)"
    using begun(3) by (simp, simp add: registry_begin_def Let_def)
  have "session_at ptr s = Some (peer_new (if scb_machine cfg then MachineSession else UserSession) driver)"
    using begun(1) reg(2) by (simp add: session_at_def assms(3,4) reg(1) cfg registry_begin_def Let_def update_conv')
  with begun(2) cfg that show ?thesis by (auto simp: made_for_def peer_new_def)
qed simp


definition profile_identity :: "session_config_blob \<Rightarrow> identity" where
  "profile_identity cfg = (if scb_machine cfg then Machine else User)"

text \<open>The drivers of the example, over the scripted connections of \<open>Harness_Session\<close>.\<close>

lemma demo_parts:
  assumes "assemble_driver demo_builder cfg roots auth = Inr d"
  obtains i where "dr_inner d = Some i"
    "dr_tunnel d = \<lparr>tc_conn = \<lparr>pc_script = [[20]], pc_out = [22], pc_in = []\<rparr>, tc_established = False\<rparr>"
    "ii_tunnel i = \<lparr>tc_conn = \<lparr>pc_script = [[20]], pc_out = [22], pc_in = []\<rparr>, tc_established = False\<rparr>"
  using assms
  by (auto simp: assemble_driver_def driver_new_def inner_new_def client_config_def tls_connect_def demo_builder_def
      split: client_auth.splits)

text \<open>The example: a session just begun for \<open>demo_blob\<close>, the server for it, and the handshakes that fit.\<close>

lemma demo_session:
  assumes "begin_session demo_roots demo_builder demo_ncrypt demo_os (config_to_bytes demo_blob)
      (peer_host_init demo_host) = (Some 1, ff_host s)"
  obtains ps i sv roots auth where "session_at 1 s = Some ps" "\<not> ps_terminated ps" "dr_inner (ps_driver ps) = Some i"
    "assemble_driver demo_builder (session_driver_config demo_blob) roots auth = Inr (ps_driver ps)"
    "server_new test_server_builder ((), ()) () (profile_identity demo_blob) = Inr sv"
    "handshake_pair plain_tls plain_tls 1000 (sv_outer sv) (dr_tunnel (ps_driver ps)) plain_open
       \<lparr>tc_conn = plain_open, tc_established = True\<rparr>"
    "handshake_pair plain_tls plain_tls 900 (sv_inner sv) (ii_tunnel i) plain_open
       \<lparr>tc_conn = plain_open, tc_established = True\<rparr>"
proof -
  have cfg: "config_from_bytes (config_to_bytes demo_blob) = Some (Inr demo_blob)" and ptr: "ptr_to_handle 1 = 1"
    using config_round [OF demo_blob_wf] by (simp_all add: ptr_to_handle_def)
  obtain ps roots auth where ps: "session_at 1 s = Some ps" "\<not> ps_terminated ps"
    "assemble_driver demo_builder (session_driver_config demo_blob) roots auth = Inr (ps_driver ps)"
    by (rule begun_session [OF assms cfg ptr refl])
  obtain i where i: "dr_inner (ps_driver ps) = Some i"
    and t: "dr_tunnel (ps_driver ps) = \<lparr>tc_conn = \<lparr>pc_script = [[20]], pc_out = [22], pc_in = []\<rparr>, tc_established = False\<rparr>"
      "ii_tunnel i = \<lparr>tc_conn = \<lparr>pc_script = [[20]], pc_out = [22], pc_in = []\<rparr>, tc_established = False\<rparr>"
    by (rule demo_parts [OF ps(3)])
  obtain sv where sv: "server_new test_server_builder ((), ()) () (profile_identity demo_blob) = Inr sv"
      and so: "sv_outer sv = test_server_conn" "sv_inner sv = test_server_conn"
    by (simp add: server_new_def bindE_def unwrapE_def test_server_builder_def)
  let ?cl = "\<lparr>tc_conn = plain_open, tc_established = True\<rparr>"
  have "handshake_pair plain_tls plain_tls 1000 (sv_outer sv) (dr_tunnel (ps_driver ps)) plain_open ?cl"
    "handshake_pair plain_tls plain_tls 900 (sv_inner sv) (ii_tunnel i) plain_open ?cl"
    unfolding so t by (simp_all add: test_handshake)
  with that [OF ps(1,2) i ps(3) sv] show ?thesis by blast
qed

lemma demo_sizes:
  "ticket_room (scb_mat demo_blob) \<le> 65500" "1000 \<le> unat (scb_max_fragment demo_blob)"
  "900 \<le> unat (scb_max_fragment demo_blob)" "900 + 20 + ticket_room (scb_mat demo_blob) \<le> 1000"
  "plain_link plain_open \<lparr>tc_conn = plain_open, tc_established = True\<rparr>"
  "rl_suite plain_tls (tc_conn \<lparr>tc_conn = plain_open, tc_established = True\<rparr>) = Some TLS13_AES_256_GCM_SHA384"
  "rl_export plain_tls (tc_conn \<lparr>tc_conn = plain_open, tc_established = True\<rparr>) S_IMCK_LEN EXPORTER_LABEL_SESSION_KEY_SEED = Inr (replicate 40 1)"
  by (simp_all add: ticket_room_def demo_blob_def plain_sel TLS13_AES_256_GCM_SHA384_def plain_link_def plain_idle_def)

section \<open>Properties\<close>

text \<open>C2: the exported routines refine the driver. Let a host hand the packets of the harness server to the
  session behind its pointer and back, with a response buffer that holds any EAP packet. Whatever the
  operating system answers meanwhile: if the loop of driver and server ends, so does the host's, with
  the same server, a success exactly if the outcome is one, and a session that keeps that outcome; and
  if the host's ends in success, the loop of driver and server does.\<close>

theorem dll_refines_driver:
  fixes rl :: "('c, 're) rustls" and s :: "('c, 'i) teap_driver ffi_state"
  assumes "session_at ptr s = Some ps" and "\<not> ps_terminated ps" and "eap_encode pkt = Inr inbound"
    and "65535 \<le> cap" and "cap < 2 ^ 32"
  shows "(\<forall>oc sv' d'. converse sl rl sign proc n inbound sv (ps_driver ps) = Some (oc, sv', d') \<longrightarrow>
      (\<exists>s' ps'. hosted sl rl sign proc os cap ptr n inbound sv s
           = Some (\<exists>msk emsk mat. oc = Success msk emsk mat, sv', s')
         \<and> session_at ptr s' = Some ps' \<and> ps_result ps' = Some (result_of oc) \<and> ps_driver ps' = d'))
    \<and> (\<forall>sv' s'. hosted sl rl sign proc os cap ptr n inbound sv s = Some (True, sv', s') \<longrightarrow>
      (\<exists>msk emsk mat d'. converse sl rl sign proc n inbound sv (ps_driver ps) = Some (Success msk emsk mat, sv', d')))"
proof -
  have "fits inbound" using assms(3) by (rule eap_encode_fits)
  note fit = assms(1,2) this assms(4,5)
  show ?thesis
    by (intro conjI allI impI) (erule hosted_complete [OF _ fit], erule hosted_sound [OF _ fit])
qed

definition hosted_demo :: "(plain_conn, unit) teap_driver ffi_state" where
  "hosted_demo = \<lparr>ff_host = (peer_host_init demo_host)\<lparr>ph_registry := \<lparr>rg_next = 2,
     rg_sessions = [(1, peer_new UserSession plain_driver)]\<rparr>\<rparr>, ff_mem = Map.empty, ff_heap = []\<rparr>"

theorem dll_refines_driver_witness:
  "\<exists>s' ps'. hosted plain_tls plain_tls sum_sign demo_inner demo_os 65535 1 1 [4, 9, 0, 4] plain_server hosted_demo
      = Some (False, plain_server, s')
    \<and> session_at 1 s' = Some ps' \<and> ps_result ps' = Some (AuthFailure ServerFailure)"
proof -
  let ?ps = "peer_new UserSession plain_driver" and ?pkt = "\<lparr>ep_code = EapFailure, ep_id = 9, ep_type = None, ep_data = []\<rparr>"
  have at: "session_at 1 hosted_demo = Some ?ps" "\<not> ps_terminated ?ps"
    by (simp_all add: session_at_def hosted_demo_def ptr_to_handle_def peer_new_def)
  have e: "eap_encode ?pkt = Inr [4, 9, 0, 4]"
    by (simp add: eap_encode_def be_of_word_def)
  have "eap_decode [4, 9, 0, 4] = Inr ?pkt"
    using e by (rule eap_decode_encode) (simp add: eap_wf_def eap_code_wf_def)
  then obtain d' where "converse plain_tls plain_tls sum_sign demo_inner 1 [4, 9, 0, 4] plain_server (ps_driver ?ps)
      = Some (Failure ServerFailure, plain_server, d')"
    by (simp add: driver_step_def op_simps)
  with dll_refines_driver [OF at e, of 65535 plain_tls plain_tls sum_sign demo_inner 1 plain_server demo_os]
  show ?thesis by fastforce
qed

text \<open>C1: the whole program authenticates. A session begun by the DLL for a profile, driven by a
  host through the exported routines against the harness server for the identity of the profile, over TLS
  connections whose handshakes complete and whose ends agree, reaches a successful verdict within eight
  requests, whatever the status publication meets: the server is done, and the session holds an MSK of 64
  octets, which is the key schedule's.\<close>

theorem dll_authenticates:
  fixes rl :: "('c, 're) rustls" and s :: "'c host_driver ffi_state"
  assumes "begin_session ra rb nc os blob h = (Some handle, ff_host s)"
    and "config_from_bytes blob = Some (Inr cfg)" and "ticket_room (scb_mat cfg) \<le> 65500" and "ptr_to_handle ptr = handle"
    and "session_at ptr s = Some ps" and "dr_inner (ps_driver ps) = Some i"
    and "server_new sb server_id client_cert (profile_identity cfg) = Inr sv"
    and "m \<le> unat (scb_max_fragment cfg)" and "k \<le> unat (scb_max_fragment cfg)"
    and "m \<le> 65500" and "k \<le> 65500" and "200 \<le> n" and "k + 20 + ticket_room (scb_mat cfg) \<le> n" and "65535 \<le> cap" and "cap < 2 ^ 32"
    and "aws_documented sign aws_sha384"
    and "handshake_pair sl rl m (sv_outer sv) (dr_tunnel (ps_driver ps)) c t" and "secure_channel sl rl n m seed L" and "L c t"
    and "rl_suite rl (tc_conn t) = Some TLS13_AES_256_GCM_SHA384"
    and "rl_export rl (tc_conn t) S_IMCK_LEN EXPORTER_LABEL_SESSION_KEY_SEED = Inr seed" and "length seed = S_IMCK_LEN"
    and "handshake_pair sl rl k (sv_inner sv) (ii_tunnel i) ci ti" and "inner_agreed sl rl k ci ti imsk"
  shows "\<exists>inbound sv' s' ps' cmk ks msk emsk. srv_start sv = Some (Inr inbound, sv)
    \<and> hosted sl rl sign (inner_process_packet rl) os' cap ptr 8 inbound sv s = Some (True, sv', s') \<and> srv_is_done sv'
    \<and> session_at ptr s' = Some ps' \<and> ps_result ps' = Some (AuthSuccess msk None) \<and> length msk = 64
    \<and> absorb_inner (aws_dyn_mac sign aws_sha384) (take IMSK_LEN imsk) \<lparr>ks_s_imck = seed, ks_methods = 0\<rparr> = (Inr cmk, ks)
    \<and> derive_session_keys (aws_dyn_mac sign aws_sha384) ks = Inr (msk, emsk)"
proof -
  obtain ps' roots auth where ps': "session_at ptr s = Some ps'" "\<not> ps_terminated ps'"
    "assemble_driver rb (session_driver_config cfg) roots auth = Inr (ps_driver ps')"
    by (rule begun_session [OF assms(1,2,4) refl])
  with assms(5) have ps: "\<not> ps_terminated ps" "assemble_driver rb (session_driver_config cfg) roots auth = Inr (ps_driver ps)"
    by simp_all
  have sv: "server_new sb server_id client_cert (dc_identity (session_driver_config cfg)) = Inr sv"
    using assms(7) by (simp add: session_driver_config_def profile_identity_def)
  have cfg: "ticket_room (dc_mat_to_present (session_driver_config cfg)) \<le> 65500" "m \<le> dc_max_fragment (session_driver_config cfg)"
    "k \<le> dc_max_fragment (session_driver_config cfg)"
    and room: "k + 20 + ticket_room (dc_mat_to_present (session_driver_config cfg)) \<le> n"
    using assms(3,8,9,13) by (simp_all add: session_driver_config_def)
  obtain inbound sv' d' cmk ks msk emsk where w: "srv_start sv = Some (Inr inbound, sv)"
    "converse sl rl sign (inner_process_packet rl) 8 inbound sv (ps_driver ps) = Some (Success msk emsk None, sv', d')"
    "srv_is_done sv'" "length msk = 64"
    "absorb_inner (aws_dyn_mac sign aws_sha384) (take IMSK_LEN imsk) \<lparr>ks_s_imck = seed, ks_methods = 0\<rparr> = (Inr cmk, ks)"
    "derive_session_keys (aws_dyn_mac sign aws_sha384) ks = Inr (msk, emsk)"
    using whole_session_succeeds [OF ps(2) assms(6) sv cfg assms(10-12) room assms(16-24)] by blast
  from hosted_complete [OF w(2) assms(5) ps(1) start_fits [OF w(1)] assms(14,15), of os'] w(1,3-6) show ?thesis
    by auto
qed

theorem dll_authenticates_witness:
  "\<exists>handle s sv inbound sv' s'. begin_session demo_roots demo_builder demo_ncrypt demo_os (config_to_bytes demo_blob)
       (peer_host_init demo_host) = (Some handle, ff_host s)
     \<and> srv_start sv = Some (Inr inbound, sv)
     \<and> hosted plain_tls plain_tls sum_sign (inner_process_packet plain_tls) demo_os 65535 1 8 inbound sv s = Some (True, sv', s')
     \<and> srv_is_done sv'"
proof -
  obtain h' where h': "begin_session demo_roots demo_builder demo_ncrypt demo_os (config_to_bytes demo_blob)
      (peer_host_init demo_host) = (Some 1, h')"
    using demo_begins by blast
  let ?s = "\<lparr>ff_host = h', ff_mem = Map.empty, ff_heap = []\<rparr>" and ?cl = "\<lparr>tc_conn = plain_open, tc_established = True\<rparr>"
  have b: "begin_session demo_roots demo_builder demo_ncrypt demo_os (config_to_bytes demo_blob)
      (peer_host_init demo_host) = (Some 1, ff_host ?s)"
    and cfg: "config_from_bytes (config_to_bytes demo_blob) = Some (Inr demo_blob)" and ptr: "ptr_to_handle 1 = 1"
    using h' config_round [OF demo_blob_wf] by (simp_all add: ptr_to_handle_def)
  obtain ps i sv roots auth where d: "session_at 1 ?s = Some ps" "dr_inner (ps_driver ps) = Some i"
    "server_new test_server_builder ((), ()) () (profile_identity demo_blob) = Inr sv"
    and outer: "handshake_pair plain_tls plain_tls 1000 (sv_outer sv) (dr_tunnel (ps_driver ps)) plain_open ?cl"
    and inner: "handshake_pair plain_tls plain_tls 900 (sv_inner sv) (ii_tunnel i) plain_open ?cl"
    by (rule demo_session [OF b])
  have "\<exists>inbound sv' s' ps' cmk ks msk emsk. srv_start sv = Some (Inr inbound, sv)
    \<and> hosted plain_tls plain_tls sum_sign (inner_process_packet plain_tls) demo_os 65535 1 8 inbound sv ?s = Some (True, sv', s')
    \<and> srv_is_done sv' \<and> session_at 1 s' = Some ps' \<and> ps_result ps' = Some (AuthSuccess msk None) \<and> length msk = 64
    \<and> absorb_inner (aws_dyn_mac sum_sign aws_sha384) (take IMSK_LEN (replicate 64 1))
        \<lparr>ks_s_imck = replicate 40 1, ks_methods = 0\<rparr> = (Inr cmk, ks)
    \<and> derive_session_keys (aws_dyn_mac sum_sign aws_sha384) ks = Inr (msk, emsk)"
    by (rule dll_authenticates [OF b cfg demo_sizes(1) ptr d demo_sizes(2,3) _ _ _ demo_sizes(4) _ _ sum_sign_documented outer
          plain_channel demo_sizes(5-7) _ inner test_inner_agreed]) simp_all
  with b show ?thesis by blast
qed

end
