(* ===== verification/Dll_Verdict.thy ===== *)
theory Dll_Verdict
  imports Host_Drive
begin

text \<open>
  What a verdict read from the DLL (crates/eaphost/src/peer.rs) rests on, over its whole life: the host that
  drives a session to a success is one of the runs of \<open>Peer_Run\<close>, and in every run a success is
  that of a session whose beginning the run has seen.
\<close>

section \<open>The driving host is a run\<close>

lemma process_run:
  assumes "ffi_run ra rb nc mx rl sign evs s"
    and "host_process (driver_step rl sign (inner_process_packet rl)) is_established os ptr packet s = Some (a, s')"
  shows "\<exists>evs'. ffi_run ra rb nc mx rl sign evs' s'"
proof -
  let ?s = "s\<lparr>ff_mem := [8 \<mapsto> CPtr 0, 16 \<mapsto> COctets packet, 32 \<mapsto> COutput ActionSend False]\<rparr>"
  obtain u where "EapPeerProcessRequestPacket (driver_step rl sign (inner_process_packet rl)) is_established os ptr
      (word_of_nat (length packet)) 16 32 8 ?s = Some (Inr u, s')"
    using assms(2) by (auto simp: host_process_def split: option.splits sum.splits cell.splits)
  then have "ffi_exec ra rb nc mx rl sign (CallProcess os ptr (word_of_nat (length packet)) 16 32 8) ?s = Some (Inr u, s')"
    by (simp add: ffi_exec_def)
  from ffi_step [OF ffi_host [OF assms(1)] this] show ?thesis by blast
qed

lemma fetch_run:
  assumes "ffi_run ra rb nc mx rl sign evs s" and "host_fetch cap ptr s = Some (resp, s')"
  shows "\<exists>evs'. ffi_run ra rb nc mx rl sign evs' s'"
proof -
  let ?s = "s\<lparr>ff_mem := [8 \<mapsto> CPtr 0, 48 \<mapsto> CU32 (word_of_nat cap), 64 \<mapsto> COctets (replicate cap 0)]\<rparr>"
  obtain u where "EapPeerGetResponsePacket ptr 48 64 8 ?s = Some (Inr u, s')"
    using assms(2) by (auto simp: host_fetch_def split: option.splits sum.splits cell.splits)
  then have "ffi_exec ra rb nc mx rl sign (CallResponse ptr 48 64 8) ?s = Some (Inr u, s')"
    by (simp add: ffi_exec_def)
  from ffi_step [OF ffi_host [OF assms(1)] this] show ?thesis by blast
qed

lemma verdict_routine:
  assumes "host_verdict os ptr s = Some (ok, s')"
  obtains code where "EapPeerGetResult os ptr 80 8 (s\<lparr>ff_mem := [8 \<mapsto> CPtr 0, 80 \<mapsto> CResult False 0]\<rparr>) = Some (Inr (), s')"
    "ff_mem s' 80 = Some (CResult ok code)"
  using assms by (auto simp: host_verdict_def split: option.splits sum.splits cell.splits)

lemma verdict_run:
  assumes "ffi_run ra rb nc mx rl sign evs s" and "host_verdict os ptr s = Some (ok, s')"
  shows "\<exists>evs'. ffi_run ra rb nc mx rl sign evs' s'"
proof -
  let ?s = "s\<lparr>ff_mem := [8 \<mapsto> CPtr 0, 80 \<mapsto> CResult False 0]\<rparr>"
  obtain code where "EapPeerGetResult os ptr 80 8 ?s = Some (Inr (), s')" by (rule verdict_routine [OF assms(2)])
  then have "ffi_exec ra rb nc mx rl sign (CallResult os ptr 80 8) ?s = Some (Inr (), s')"
    by (simp add: ffi_exec_def)
  from ffi_step [OF ffi_host [OF assms(1)] this] show ?thesis by blast
qed

lemma hosted_run:
  fixes rl :: "('c, 're) rustls"
  assumes "hosted sl rl sign (inner_process_packet rl) os cap ptr n inbound sv s = Some (ok, sv', s')"
    and "ffi_run ra rb nc mx rl sign evs s"
  shows "\<exists>evs'. ffi_run ra rb nc mx rl sign evs' s'"
  using assms
proof (induction n arbitrary: inbound sv s evs)
  case (Suc n)
  let ?step = "driver_step rl sign (inner_process_packet rl)"
  from Suc.prems(1) obtain a s1 where p: "host_process ?step is_established os ptr inbound s = Some (a, s1)"
    by (auto simp: hosted_def split: option.splits)
  obtain evs1 where r1: "ffi_run ra rb nc mx rl sign evs1 s1" using process_run [OF Suc.prems(2) p] by blast
  show ?case
  proof (cases a)
    case ActionSend
    with Suc.prems(1) p obtain resp s2 inbound' sv1 where f: "host_fetch cap ptr s1 = Some (resp, s2)"
      and rest: "hosted sl rl sign (inner_process_packet rl) os cap ptr n inbound' sv1 s2 = Some (ok, sv', s')"
      by (auto simp: hosted_def split: option.splits sum.splits)
    obtain evs2 where "ffi_run ra rb nc mx rl sign evs2 s2" using fetch_run [OF r1 f] by blast
    from Suc.IH [OF rest this] show ?thesis .
  next
    case ActionResult
    with Suc.prems(1) p have "host_verdict os ptr s1 = Some (ok, s')"
      by (auto simp: hosted_def split: option.splits)
    from verdict_run [OF r1 this] show ?thesis .
  qed
qed (simp add: hosted_def)

text \<open>A run that begins a session and drives it to success against the harness server.\<close>

lemma demo_success_run:
  obtains evs s ps msk where "ffi_run demo_roots demo_builder demo_ncrypt demo_xml plain_tls sum_sign evs s"
    "session_at 1 s = Some ps" "ps_result ps = Some (AuthSuccess msk None)"
proof -
  obtain s where s: "EapPeerBeginSession demo_roots demo_builder demo_ncrypt demo_os
       (word_of_nat (length (config_to_bytes demo_blob))) 16 32 0 demo_ffi = Some (Inr (), s)"
    and h: "begin_session demo_roots demo_builder demo_ncrypt demo_os (config_to_bytes demo_blob)
      (peer_host_init demo_host) = (Some 1, ff_host s)"
    using demo_begin_routine by blast
  have load: "ffi_run demo_roots demo_builder demo_ncrypt demo_xml plain_tls sum_sign [] demo_ffi"
    unfolding demo_ffi_def by (rule ffi_load)
  have "ffi_exec demo_roots demo_builder demo_ncrypt demo_xml plain_tls sum_sign
      (CallBegin demo_os (word_of_nat (length (config_to_bytes demo_blob))) 16 32 0) demo_ffi = Some (Inr (), s)"
    using s by (simp add: ffi_exec_def)
  note run = ffi_step [OF load this]
  let ?cl = "\<lparr>tc_conn = plain_open, tc_established = True\<rparr>"
  obtain ps i sv roots auth where d: "session_at 1 s = Some ps" "\<not> ps_terminated ps" "dr_inner (ps_driver ps) = Some i"
      "assemble_driver demo_builder (session_driver_config demo_blob) roots auth = Inr (ps_driver ps)"
    and sv: "server_new test_server_builder ((), ()) () (profile_identity demo_blob) = Inr sv"
    and outer: "handshake_pair plain_tls plain_tls 1000 (sv_outer sv) (dr_tunnel (ps_driver ps)) plain_open ?cl"
    and inner: "handshake_pair plain_tls plain_tls 900 (sv_inner sv) (ii_tunnel i) plain_open ?cl"
    by (rule demo_session [OF h])
  have sv': "server_new test_server_builder ((), ()) () (dc_identity (session_driver_config demo_blob)) = Inr sv"
    using sv by (simp add: session_driver_config_def profile_identity_def)
  have cfg: "ticket_room (dc_mat_to_present (session_driver_config demo_blob)) \<le> 65500"
    "1000 \<le> dc_max_fragment (session_driver_config demo_blob)" "900 \<le> dc_max_fragment (session_driver_config demo_blob)"
    "900 + 20 + ticket_room (dc_mat_to_present (session_driver_config demo_blob)) \<le> 1000"
    using demo_sizes(1-4) by (simp_all add: session_driver_config_def)
  have "\<exists>inbound sv' d' cmk ks msk emsk. srv_start sv = Some (Inr inbound, sv)
      \<and> converse plain_tls plain_tls sum_sign (inner_process_packet plain_tls) 8 inbound sv (ps_driver ps)
          = Some (Success msk emsk None, sv', d') \<and> srv_is_done sv' \<and> length msk = 64 \<and> length emsk = 64
      \<and> absorb_inner (aws_dyn_mac sum_sign aws_sha384) (take IMSK_LEN (replicate 64 1))
          \<lparr>ks_s_imck = replicate 40 1, ks_methods = 0\<rparr> = (Inr cmk, ks)
      \<and> derive_session_keys (aws_dyn_mac sum_sign aws_sha384) ks = Inr (msk, emsk)"
    by (rule whole_session_succeeds [OF d(4,3) sv' cfg(1-3) _ _ _ cfg(4) sum_sign_documented outer plain_channel demo_sizes(5-7)
          _ inner test_inner_agreed]) simp_all
  then obtain inbound sv1 d' msk emsk where w: "srv_start sv = Some (Inr inbound, sv)"
    "converse plain_tls plain_tls sum_sign (inner_process_packet plain_tls) 8 inbound sv (ps_driver ps)
       = Some (Success msk emsk None, sv1, d')"
    by blast
  from hosted_complete [OF w(2) d(1,2) start_fits [OF w(1)], of 65535 demo_os] obtain s' ps' where
    "hosted plain_tls plain_tls sum_sign (inner_process_packet plain_tls) demo_os 65535 1 8 inbound sv s = Some (True, sv1, s')"
    "session_at 1 s' = Some ps'" "ps_result ps' = Some (AuthSuccess msk None)"
    by auto
  with hosted_run [OF _ run] that show ?thesis by blast
qed

section \<open>Properties\<close>

text \<open>C5: what the host reads as a success is one. In every run of the DLL, over any calls of any routines
  in any order with whatever the operating system answers, and whatever the host writes to its memory, a
  result that says success is the verdict of a live session that the run has seen begin: the call of
  \<open>EapPeerBeginSession\<close> that last gave out its handle, after which no call ended it, read the FIPS policy
  as on, found in the host's memory a profile with trust anchors, and found the signer and assembled the driver
  from them, with the answers of that call; and the verdict rests on an approved tunnel of that driver, a
  delivered IMSK and a verified Crypto-Binding.\<close>

theorem ffi_success_sound:
  assumes "ffi_run ra rb nc mx rl sign evs s" and "EapPeerGetResult os ptr p pp s = Some (Inr (), s')"
  shows "\<exists>b. ff_mem s' p = Some (CResult b (if b then 0 else E_FAIL))
    \<and> (b \<longrightarrow> (\<exists>sess cfg d0 msk emsk mat.
         live (ph_registry (ff_host s)) (ptr_to_handle ptr) = Some sess \<and> ps_result sess = Some (AuthSuccess msk mat)
         \<and> began ra rb nc evs (ptr_to_handle ptr) cfg d0
         \<and> bound_success rl sign (inner_process_packet rl) (dr_tunnel d0) (session_driver_config cfg) msk emsk mat))"
proof -
  obtain b where b: "ff_mem s' p = Some (CResult b (if b then 0 else E_FAIL))"
    "b \<longleftrightarrow> (\<exists>msk mat. registry_result (ptr_to_handle ptr) (ph_registry (ff_host s)) = Some (AuthSuccess msk mat))"
    using result_routine [OF assms(2)] by blast
  have "\<exists>sess cfg d0 msk emsk mat.
         live (ph_registry (ff_host s)) (ptr_to_handle ptr) = Some sess \<and> ps_result sess = Some (AuthSuccess msk mat)
         \<and> began ra rb nc evs (ptr_to_handle ptr) cfg d0
         \<and> bound_success rl sign (inner_process_packet rl) (dr_tunnel d0) (session_driver_config cfg) msk emsk mat" if b
  proof -
    from that b(2) obtain msk mat sess where l: "live (ph_registry (ff_host s)) (ptr_to_handle ptr) = Some sess"
      "ps_result sess = Some (AuthSuccess msk mat)"
      by (auto simp: registry_result_def live_def split: option.splits)
    with run_bound [OF assms(1)] have "session_bound ra rb nc rl sign evs (ptr_to_handle ptr) sess"
      by (simp add: all_bound_def)
    from bound_success_of [OF this l(2)] l show ?thesis by blast
  qed
  with b(1) show ?thesis by blast
qed

text \<open>The run that succeeds against the harness server, read once more: the host reads a success, and the
  session behind it was begun for the profile of the example.\<close>

theorem ffi_success_sound_witness:
  "\<exists>evs s s' cfg d0 msk emsk mat. ffi_run demo_roots demo_builder demo_ncrypt demo_xml plain_tls sum_sign evs s
     \<and> EapPeerGetResult demo_os 1 80 8 s = Some (Inr (), s') \<and> ff_mem s' 80 = Some (CResult True 0)
     \<and> began demo_roots demo_builder demo_ncrypt evs 1 cfg d0
     \<and> bound_success plain_tls sum_sign (inner_process_packet plain_tls) (dr_tunnel d0) (session_driver_config cfg) msk emsk mat"
proof -
  obtain evs s ps msk where r: "ffi_run demo_roots demo_builder demo_ncrypt demo_xml plain_tls sum_sign evs s"
    "session_at 1 s = Some ps" "ps_result ps = Some (AuthSuccess msk None)"
    by (rule demo_success_run)
  obtain s' where v: "host_verdict demo_os 1 s = Some (True, s')"
    using verdict_hosted [OF r(2), of demo_os] r(3) by auto
  let ?s = "s\<lparr>ff_mem := [8 \<mapsto> CPtr 0, 80 \<mapsto> CResult False 0]\<rparr>"
  obtain code where g: "EapPeerGetResult demo_os 1 80 8 ?s = Some (Inr (), s')" "ff_mem s' 80 = Some (CResult True code)"
    by (rule verdict_routine [OF v])
  have run: "ffi_run demo_roots demo_builder demo_ncrypt demo_xml plain_tls sum_sign evs ?s" by (rule ffi_host [OF r(1)])
  have one: "ptr_to_handle 1 = 1" by (simp add: ptr_to_handle_def)
  from ffi_success_sound [OF run g(1)] g(2) obtain cfg d0 msk emsk mat where
    "ff_mem s' 80 = Some (CResult True 0)" "began demo_roots demo_builder demo_ncrypt evs 1 cfg d0"
    "bound_success plain_tls sum_sign (inner_process_packet plain_tls) (dr_tunnel d0) (session_driver_config cfg) msk emsk mat"
    unfolding one by auto
  with run g(1) show ?thesis by blast
qed

end
