(* ===== verification/Kat.thy ===== *)
theory Kat
  imports Wide Config_Blob Key_Schedule Eap Tlv_Body
begin

text \<open>
  The shared known-answer vectors and their hexadecimal helpers: crates/usg-kat/src/lib.rs. The lemmas say
  exactly which strings decode and to what, that the TLV vectors are what the encoders of \<open>Tlv_Body\<close> and
  \<open>Eap\<close> produce and the decoders read, and that the inputs of the key-schedule vectors are the octets
  their documentation names.
\<close>

section \<open>Hexadecimal\<close>

datatype hex_error = OddLength | BadDigit nat

text \<open>\<open>char::is_ascii_whitespace\<close> and \<open>char::to_digit(16)\<close>.\<close>

definition char_is_space :: "nat \<Rightarrow> bool" where
  "char_is_space c \<longleftrightarrow> c \<in> {9, 10, 12, 13, 32}"

definition char_digit16 :: "nat \<Rightarrow> nat option" where
  "char_digit16 c =
     (if 48 \<le> c \<and> c \<le> 57 then Some (c - 48)
      else if 97 \<le> c \<and> c \<le> 102 then Some (c - 87)
      else if 65 \<le> c \<and> c \<le> 70 then Some (c - 55)
      else None)"

text \<open>The loop over \<open>s.chars()\<close>; a digit is below 16, so \<open>u8::try_from\<close> takes it.\<close>

fun nibbles_of :: "nat list \<Rightarrow> u8 list \<Rightarrow> hex_error + u8 list" where
  "nibbles_of [] nibbles = Inr nibbles"
| "nibbles_of (c # cs) nibbles =
     (if char_is_space c then nibbles_of cs nibbles
      else (case char_digit16 c of
          None \<Rightarrow> Inl (BadDigit c)
        | Some v \<Rightarrow> nibbles_of cs (nibbles @ [word_of_nat v])))"

fun pairs_exact :: "u8 list \<Rightarrow> bytes" where
  "pairs_exact (hi # lo # rest) = (push_bit 4 hi OR lo) # pairs_exact rest"
| "pairs_exact _ = []"

definition kat_from_hex :: "str \<Rightarrow> hex_error + bytes" where
  "kat_from_hex s =
     (case nibbles_of (chars s) [] of
        Inl e \<Rightarrow> Inl e
      | Inr nibbles \<Rightarrow>
          if length nibbles mod 2 \<noteq> 0 then Inl OddLength else Inr (pairs_exact nibbles))"

definition kat_to_hex :: "bytes \<Rightarrow> str" where
  "kat_to_hex bs = concat (map (\<lambda>b. [hex_digit 97 (drop_bit 4 b), hex_digit 97 (b AND 15)]) bs)"

section \<open>The vectors\<close>

definition RESULT_SUCCESS :: bytes where "RESULT_SUCCESS = [0x80, 0x3, 0, 0x2, 0, 0x1]"
definition RESULT_FAILURE :: bytes where "RESULT_FAILURE = [0x80, 0x3, 0, 0x2, 0, 0x2]"
definition IDENTITY_TYPE_MACHINE :: bytes where "IDENTITY_TYPE_MACHINE = [0x80, 0x2, 0, 0x2, 0, 0x2]"
definition IDENTITY_TYPE_USER :: bytes where "IDENTITY_TYPE_USER = [0x80, 0x2, 0, 0x2, 0, 0x1]"
definition ERROR_2001 :: bytes where "ERROR_2001 = [0x80, 0x5, 0, 0x4, 0, 0, 0x7, 0xd1]"
definition EAP_PAYLOAD_IDENTITY :: bytes where "EAP_PAYLOAD_IDENTITY = [0x80, 0xb, 0, 0x8, 0x2, 0x1, 0, 0x8, 0x1, 0x61, 0x62, 0]"

definition SEED_HEX :: str where
  "SEED_HEX =
     ascii ''000102030405060708090a0b0c0d0e0f101112131415161718191a1b1c1d1e1f2021222324252627''"

definition IMSK_HEX :: str where
  "IMSK_HEX =
     ascii ''404142434445464748494a4b4c4d4e4f505152535455565758595a5b5c5d5e5f''"

definition SHA384_CMK_HEX :: str where
  "SHA384_CMK_HEX =
     ascii ''ec65075ade52c48f9001de7170e56e8a61470bf3''"

definition SHA384_MSK_HEX :: str where
  "SHA384_MSK_HEX =
     ascii ''d7a3eda0be0678a6ddec2a9e997f929eacce447cb764924beaf11ce57496c698caddce5a42b2653aa01c9e03c6''
     @ ascii ''3febf1dd4de6ad3e996a772bb9a240492717b9''"

definition SHA384_EMSK_HEX :: str where
  "SHA384_EMSK_HEX =
     ascii ''c5caaeb66a6ef1e909d4cb5b8f2fcf81d0477c09d6129ee3ebd789e6e9d33fa7ee7b0a0ebea55123067f5ae858''
     @ ascii ''f5a81c106a4323439343036a5217add9f3ce95''"

definition SHA384_CB_MSK_MAC_HEX :: str where
  "SHA384_CB_MSK_MAC_HEX =
     ascii ''37c3886d7bf8161722f120a61dfeca831b39d2fe03f12d0aff52892126892d77db39bb1f004ed455274cee831c''
     @ ascii ''a8018c''"

definition SHA256_CMK_HEX :: str where
  "SHA256_CMK_HEX =
     ascii ''b80e91d0c7f5c87b375db2df2a57f89143168646''"

definition SHA256_MSK_HEX :: str where
  "SHA256_MSK_HEX =
     ascii ''f289867655337dc4f4d6a6098285fe2984f7c94e750ef7386ef297b85983629e8235bfc3a519878c649dc4224d''
     @ ascii ''008558f842b0fef9a359c00becd11ed4378f23''"

definition SHA256_EMSK_HEX :: str where
  "SHA256_EMSK_HEX =
     ascii ''ec12e38d0e2648730ffd1d476a6df4325830102e556d1a478e79b49ff332d5a6a90e7c2645e2e37bcccd0f8870''
     @ ascii ''8ccd1221724966d9332a6180cdabc26866b188''"

section \<open>What decodes\<close>

definition digits_of :: "str \<Rightarrow> nat list" where
  "digits_of s = filter (\<lambda>c. \<not> char_is_space c) (chars s)"

text \<open>Upper-case digits count as lower-case ones.\<close>

definition fold_digit :: "nat \<Rightarrow> nat" where
  "fold_digit c = (if 65 \<le> c \<and> c \<le> 70 then c + 32 else c)"

lemma nibbles_of_iff:
  "nibbles_of cs ns = Inr xs \<longleftrightarrow>
     (let ds = filter (\<lambda>c. \<not> char_is_space c) cs in
      list_all (\<lambda>c. char_digit16 c \<noteq> None) ds \<and> xs = ns @ map (word_of_nat \<circ> the \<circ> char_digit16) ds)"
  by (induction cs ns arbitrary: xs rule: nibbles_of.induct) (auto simp: Let_def split: option.split)

lemma nibbles_of_bad:
  "nibbles_of cs ns = Inl e \<longleftrightarrow>
     (\<exists>c. e = BadDigit c \<and> find (\<lambda>c. char_digit16 c = None) (filter (\<lambda>c. \<not> char_is_space c) cs) = Some c)"
  by (induction cs ns rule: nibbles_of.induct) (auto split: option.split)

lemma digit16_bound: "char_digit16 c = Some v \<Longrightarrow> v < 16"
  by (auto simp: char_digit16_def split: if_splits)

text \<open>A digit and the character \<open>to_hex\<close> writes for it.\<close>

lemma hex_digit_char: "n < 16 \<Longrightarrow> unat (hex_digit 97 n) = (if n < 10 then 48 + unat n else 87 + unat n)"
  by (rule nibble_all [of "\<lambda>n. unat (hex_digit 97 n) = (if n < 10 then 48 + unat n else 87 + unat n)"])
    (simp_all add: hex_digit_def upt_conv_Cons)

lemma digit16_hex:
  assumes "n < 16"
  shows "fold_digit c = unat (hex_digit 97 n) \<longleftrightarrow> char_digit16 c = Some (unat n)"
proof -
  have "unat n < 16" using assms by (simp add: word_less_nat_alt)
  moreover have "n < 10 \<longleftrightarrow> unat n < 10" by (simp add: word_less_nat_alt)
  ultimately show ?thesis
    unfolding hex_digit_char [OF assms] by (auto simp: char_digit16_def fold_digit_def)
qed

lemma nibble_pair:
  assumes "h < 16" "l < (16 :: u8)"
  shows "push_bit 4 h OR l = b \<longleftrightarrow> h = drop_bit 4 b \<and> l = b AND 15"
proof -
  have m: "(15 :: u8) = mask 4" by (simp add: mask_eq_exp_minus_1)
  have t: "take_bit 4 h = h" "take_bit 4 l = l"
    unfolding take_bit_eq_mask using assms by (auto intro!: less_mask_eq)
  have hb: "bit h i \<Longrightarrow> i < 4" and lb: "bit l i \<Longrightarrow> i < 4" for i
    using t by (metis bit_take_bit_iff)+
  have "drop_bit 4 (push_bit 4 h OR l) = h" "(push_bit 4 h OR l) AND 15 = l"
    unfolding m by (rule bit_word_eqI; auto simp: bit_simps dest: hb lb)+
  moreover have "push_bit 4 (drop_bit 4 b) OR (b AND 15) = b"
    unfolding m by (rule bit_word_eqI) (auto simp: bit_simps)
  ultimately show ?thesis by auto
qed

lemma kat_to_hex_Cons:
  "kat_to_hex (b # bs) = hex_digit 97 (drop_bit 4 b) # hex_digit 97 (b AND 15) # kat_to_hex bs" "kat_to_hex [] = []"
  by (simp_all add: kat_to_hex_def)

abbreviation digit_word :: "nat \<Rightarrow> u8" where
  "digit_word c \<equiv> word_of_nat (the (char_digit16 c))"

lemma digit_word_iff:
  assumes "n < 16"
  shows "char_digit16 c = Some (unat n) \<longleftrightarrow> char_digit16 c \<noteq> None \<and> digit_word c = n"
proof
  assume "char_digit16 c \<noteq> None \<and> digit_word c = n"
  then obtain v where v: "char_digit16 c = Some v" "word_of_nat v = n" by auto
  moreover have "unat (word_of_nat v :: u8) = v" using digit16_bound [OF v(1)] by (simp add: unat_of_nat take_bit_eq_mod)
  ultimately show "char_digit16 c = Some (unat n)" by simp
qed simp

lemma digit_word_bound: "char_digit16 c \<noteq> None \<Longrightarrow> digit_word c < 16"
  using digit16_bound [of c] by (auto simp: word_less_nat_alt unat_of_nat take_bit_eq_mod)

lemma hex_pairs:
  "map fold_digit ds = map unat (kat_to_hex bs) \<longleftrightarrow>
     list_all (\<lambda>c. char_digit16 c \<noteq> None) ds \<and> even (length ds) \<and> pairs_exact (map digit_word ds) = bs"
proof (induction ds arbitrary: bs rule: induct_list012)
  case 1
  show ?case by (cases bs) (simp_all add: kat_to_hex_Cons)
next
  case (2 c)
  show ?case by (cases bs) (simp_all add: kat_to_hex_Cons)
next
  case (3 c d ds)
  show ?case
  proof (cases bs)
    case (Cons b bs')
    have n: "drop_bit 4 b < 16" "b AND 15 < 16" by (rule nibble_bound)+
    have "fold_digit c = unat (hex_digit 97 (drop_bit 4 b)) \<and> fold_digit d = unat (hex_digit 97 (b AND 15))
        \<longleftrightarrow> char_digit16 c \<noteq> None \<and> char_digit16 d \<noteq> None \<and> push_bit 4 (digit_word c) OR digit_word d = b"
      using nibble_pair [OF digit_word_bound digit_word_bound, of c d b]
      unfolding digit16_hex [OF n(1)] digit16_hex [OF n(2)] digit_word_iff [OF n(1)] digit_word_iff [OF n(2)]
      by blast
    with 3(1) [of bs'] show ?thesis by (auto simp: Cons kat_to_hex_Cons)
  qed (simp add: kat_to_hex_Cons)
qed

lemma kat_from_hex_unfold:
  "kat_from_hex s =
     (case find (\<lambda>c. char_digit16 c = None) (digits_of s) of
        Some c \<Rightarrow> Inl (BadDigit c)
      | None \<Rightarrow> if odd (length (digits_of s)) then Inl OddLength else Inr (pairs_exact (map digit_word (digits_of s))))"
proof (cases "find (\<lambda>c. char_digit16 c = None) (digits_of s)")
  case None
  then have "list_all (\<lambda>c. char_digit16 c \<noteq> None) (digits_of s)" by (auto simp: find_None_iff list_all_iff)
  then have "nibbles_of (chars s) [] = Inr (map digit_word (digits_of s))"
    by (simp add: nibbles_of_iff digits_of_def Let_def comp_def)
  with None show ?thesis by (simp add: kat_from_hex_def odd_iff_mod_2_eq_one)
next
  case (Some c)
  then have "nibbles_of (chars s) [] = Inl (BadDigit c)" by (simp add: nibbles_of_bad digits_of_def)
  with Some show ?thesis by (simp add: kat_from_hex_def)
qed


section \<open>The vectors decode\<close>

lemma chars_low: "list_all (\<lambda>b. b < 0x80) s \<Longrightarrow> chars s = map unat s"
  by (induction s rule: chars.induct) simp_all

lemma hex_char_low: "n < 16 \<Longrightarrow> hex_digit 97 n < 0x80 \<and> \<not> char_is_space (unat (hex_digit 97 n))"
  by (rule nibble_all [of "\<lambda>n. hex_digit 97 n < 0x80 \<and> \<not> char_is_space (unat (hex_digit 97 n))"])
    (simp_all add: hex_digit_def char_is_space_def upt_conv_Cons)

lemma digits_of_hex: "digits_of (kat_to_hex bs) = map unat (kat_to_hex bs)"
proof -
  have "list_all (\<lambda>b. b < 0x80 \<and> \<not> char_is_space (unat b)) (kat_to_hex bs)"
    by (induction bs) (simp_all add: kat_to_hex_Cons hex_char_low nibble_bound)
  then have l: "list_all (\<lambda>b. b < 0x80) (kat_to_hex bs)" and s: "\<forall>b\<in>set (kat_to_hex bs). \<not> char_is_space (unat b)"
    by (simp_all add: list_all_iff)
  then show ?thesis by (simp add: digits_of_def chars_low filter_id_conv)
qed

lemma kat_from_hex_Inr: "kat_from_hex s = Inr bs \<longleftrightarrow> map fold_digit (digits_of s) = map unat (kat_to_hex bs)"
  unfolding hex_pairs kat_from_hex_unfold
  by (auto simp: list_all_iff find_None_iff find_Some_iff split: option.split if_splits dest: nth_mem)

lemma hex_char_fold: "n < 16 \<Longrightarrow> fold_digit (unat (hex_digit 97 n)) = unat (hex_digit 97 n)"
  by (rule nibble_all [of "\<lambda>n. fold_digit (unat (hex_digit 97 n)) = unat (hex_digit 97 n)"])
    (simp_all add: hex_digit_def fold_digit_def upt_conv_Cons)

lemma fold_hex: "map fold_digit (map unat (kat_to_hex bs)) = map unat (kat_to_hex bs)"
  by (induction bs) (simp_all add: kat_to_hex_Cons hex_char_fold nibble_bound del: map_map)

text \<open>A string of lower-case digits stands for as many octets as it has pairs.\<close>

definition hex_of_len :: "nat \<Rightarrow> str \<Rightarrow> bool" where
  "hex_of_len n s \<longleftrightarrow> list_all (\<lambda>b. b < 0x80 \<and> \<not> char_is_space (unat b) \<and> char_digit16 (unat b) \<noteq> None) s \<and> length s = 2 * n"

lemma length_pairs: "even (length ns) \<Longrightarrow> length (pairs_exact ns) = length ns div 2"
  by (induction ns rule: pairs_exact.induct) simp_all

lemma hex_of_len_decodes:
  assumes "hex_of_len n s"
  shows "\<exists>bs. kat_from_hex s = Inr bs \<and> length bs = n"
proof -
  have c: "digits_of s = map unat s"
    using assms by (auto simp: hex_of_len_def digits_of_def chars_low list_all_iff filter_id_conv)
  then have f: "find (\<lambda>c. char_digit16 c = None) (digits_of s) = None"
    using assms by (auto simp: hex_of_len_def list_all_iff find_None_iff)
  from c f assms show ?thesis
    by (simp add: kat_from_hex_unfold length_pairs hex_of_len_def)
qed

lemma be_expand:
  "be_of_word 2 w = [ucast (drop_bit 8 w), ucast w]"
  "be_of_word 4 w = [ucast (drop_bit 8 (drop_bit 8 (drop_bit 8 w))), ucast (drop_bit 8 (drop_bit 8 w)), ucast (drop_bit 8 w), ucast w]"
  by (simp_all add: eval_nat_numeral del: drop_bit_drop_bit)

lemma vectors_encode:
  "encode_all [rt_to_tlv RsSuccess True] = Inr RESULT_SUCCESS"
  "encode_all [rt_to_tlv RsFailure True] = Inr RESULT_FAILURE"
  "encode_all [it_to_tlv ItMachine True] = Inr IDENTITY_TYPE_MACHINE"
  "encode_all [it_to_tlv ItUser True] = Inr IDENTITY_TYPE_USER"
  "encode_all [er_to_tlv 2001 True] = Inr ERROR_2001"
  "encode_all [ep_to_tlv (drop 4 EAP_PAYLOAD_IDENTITY) True] = Inr EAP_PAYLOAD_IDENTITY"
  "encode_all [rt_to_tlv RsSuccess True, rt_to_tlv RsFailure True, it_to_tlv ItMachine True, it_to_tlv ItUser True,
      er_to_tlv 2001 True, ep_to_tlv (drop 4 EAP_PAYLOAD_IDENTITY) True]
    = Inr (RESULT_SUCCESS @ RESULT_FAILURE @ IDENTITY_TYPE_MACHINE @ IDENTITY_TYPE_USER @ ERROR_2001
        @ EAP_PAYLOAD_IDENTITY)"
  by (simp_all add: encode_all_def encode_into_def rt_to_tlv_def it_to_tlv_def er_to_tlv_def ep_to_tlv_def
      raw_tlv_new_def RESULT_SUCCESS_def RESULT_FAILURE_def IDENTITY_TYPE_MACHINE_def IDENTITY_TYPE_USER_def
      ERROR_2001_def EAP_PAYLOAD_IDENTITY_def drop_bit_eq_div be_expand)

lemma identity_packet:
  "eap_encode \<lparr>ep_code = Response, ep_id = 1, ep_type = Some 1, ep_data = [97, 98, 0]\<rparr>
     = Inr (drop 4 EAP_PAYLOAD_IDENTITY)"
  by (simp add: eap_encode_def EAP_PAYLOAD_IDENTITY_def drop_bit_eq_div be_expand Let_def)

lemma seed_hex: "SEED_HEX = kat_to_hex (map word_of_nat [0..<40])"
  by (simp add: SEED_HEX_def ascii_def kat_to_hex_def upt_conv_Cons hex_digit_def drop_bit_eq_div)

lemma imsk_hex: "IMSK_HEX = kat_to_hex (map word_of_nat [64..<96])"
  by (simp add: IMSK_HEX_def ascii_def kat_to_hex_def upt_conv_Cons hex_digit_def drop_bit_eq_div)

lemma hex_lens:
  "hex_of_len 20 SHA384_CMK_HEX" "hex_of_len 20 SHA256_CMK_HEX" "hex_of_len 48 SHA384_CB_MSK_MAC_HEX"
  "hex_of_len 64 SHA384_MSK_HEX" "hex_of_len 64 SHA384_EMSK_HEX" "hex_of_len 64 SHA256_MSK_HEX" "hex_of_len 64 SHA256_EMSK_HEX"
  by (simp_all add: hex_of_len_def SHA384_CMK_HEX_def SHA256_CMK_HEX_def SHA384_CB_MSK_MAC_HEX_def SHA384_MSK_HEX_def
      SHA384_EMSK_HEX_def SHA256_MSK_HEX_def SHA256_EMSK_HEX_def ascii_def char_is_space_def char_digit16_def)

text \<open>The reader gives the messages of the TLV vectors back, and the packet inside the EAP-Payload vector decodes.\<close>

lemma vectors_read_back:
  "parse_all (RESULT_SUCCESS @ RESULT_FAILURE @ IDENTITY_TYPE_MACHINE @ IDENTITY_TYPE_USER @ ERROR_2001 @ EAP_PAYLOAD_IDENTITY)
     = Inr [rt_to_tlv RsSuccess True, rt_to_tlv RsFailure True, it_to_tlv ItMachine True, it_to_tlv ItUser True,
            er_to_tlv 2001 True, ep_to_tlv (drop 4 EAP_PAYLOAD_IDENTITY) True]"
  "eap_decode (drop 4 EAP_PAYLOAD_IDENTITY) = Inr \<lparr>ep_code = Response, ep_id = 1, ep_type = Some 1, ep_data = [97, 98, 0]\<rparr>"
  by (rule parse_encode_all [OF vectors_encode(7)], simp add: MAX_TLVS_def)
    (rule eap_decode_encode [OF identity_packet], simp add: eap_wf_def eap_code_wf_def)

section \<open>Properties\<close>

text \<open>C40: the hexadecimal helpers that both ends decode the shared vectors with are exact, on any string. \<open>from_hex\<close>
  gives octets exactly when, white space aside and upper-case digits taken for lower-case ones, the string is
  what \<open>to_hex\<close> writes for them; it names the first character that is neither a digit nor white space, and
  complains of an odd number of digits exactly when there is no such character; and what \<open>to_hex\<close> writes
  is read back, whatever the octets.\<close>

theorem kat_hex_exact:
  "(kat_from_hex s = Inr bs \<longleftrightarrow> map fold_digit (digits_of s) = map unat (kat_to_hex bs))
   \<and> (kat_from_hex s = Inl (BadDigit c) \<longleftrightarrow> find (\<lambda>c. char_digit16 c = None) (digits_of s) = Some c)
   \<and> (kat_from_hex s = Inl OddLength \<longleftrightarrow>
        list_all (\<lambda>c. char_digit16 c \<noteq> None) (digits_of s) \<and> odd (length (digits_of s)))
   \<and> kat_from_hex (kat_to_hex bs) = Inr bs"
proof (intro conjI)
  show "kat_from_hex s = Inl OddLength \<longleftrightarrow>
      list_all (\<lambda>c. char_digit16 c \<noteq> None) (digits_of s) \<and> odd (length (digits_of s))"
    unfolding kat_from_hex_unfold
    by (auto simp: list_all_iff find_None_iff find_Some_iff split: option.split if_splits dest: nth_mem)
  show "kat_from_hex (kat_to_hex bs) = Inr bs"
    unfolding kat_from_hex_Inr digits_of_hex by (rule fold_hex)
qed (simp_all add: kat_from_hex_Inr, simp add: kat_from_hex_unfold split: option.split)

end
