(* ===== verification/Error_Text.thy ===== *)
theory Error_Text
  imports Peer_Begin Pac Cli Kat
begin

text \<open>
  What errors and states print as: the \<open>Display\<close> implementations of the error types of every crate, the derived
  \<open>Debug\<close> of the error of the driver (crates/eaphost/src/builder.rs keeps that text), and the hand-written \<open>Debug\<close>
  implementations that hide secrets. The lemmas say that an error never breaks its line, that values which differ in
  their secrets print the same, and that the hand-written equalities are equality.
\<close>

section \<open>Quoted strings\<close>

text \<open>What a text takes from elsewhere: the texts of an error of rustls, the names of the kinds of I/O error
  beyond \<open>NotFound\<close>, and the characters outside ASCII that are shown as they are (Unicode's tables).\<close>

record 're texts =
  tx_rustls :: "'re \<Rightarrow> str"
  tx_rustls_debug :: "'re \<Rightarrow> str"
  tx_io_kind :: "nat \<Rightarrow> str"
  tx_shown :: "nat \<Rightarrow> bool"

definition utf8_char :: "nat \<Rightarrow> str" where
  "utf8_char c =
     (if c < 0x80 then [word_of_nat c]
      else if c < 0x800 then [word_of_nat (0xC0 + c div 64), word_of_nat (0x80 + c mod 64)]
      else if c < 0x10000 then
        [word_of_nat (0xE0 + c div 4096), word_of_nat (0x80 + c div 64 mod 64), word_of_nat (0x80 + c mod 64)]
      else
        [word_of_nat (0xF0 + c div 262144), word_of_nat (0x80 + c div 4096 mod 64),
         word_of_nat (0x80 + c div 64 mod 64), word_of_nat (0x80 + c mod 64)])"

text \<open>\<open>char::escape_debug\<close> inside quotes of the kind \<open>q\<close>; 92 is the backslash.\<close>

definition escape_char :: "(nat \<Rightarrow> bool) \<Rightarrow> nat \<Rightarrow> nat \<Rightarrow> str" where
  "escape_char shown q c =
     (if c = 0 then [92, 48]
      else if c = 9 then [92, 116]
      else if c = 13 then [92, 114]
      else if c = 10 then [92, 110]
      else if c = 92 \<or> c = q then [92, word_of_nat c]
      else if 32 \<le> c \<and> c < 127 then [word_of_nat c]
      else if 128 \<le> c \<and> shown c then utf8_char c
      else [92, 117, 123] @ render 16 c @ [125])"

definition str_debug :: "(nat \<Rightarrow> bool) \<Rightarrow> str \<Rightarrow> str" where
  "str_debug shown s = [34] @ concat (map (escape_char shown 34) (chars s)) @ [34]"

definition char_debug :: "(nat \<Rightarrow> bool) \<Rightarrow> nat \<Rightarrow> str" where
  "char_debug shown c = [39] @ escape_char shown 39 c @ [39]"

text \<open>\<open>{}\<close> of an \<open>i32\<close>, and \<open>{:?}\<close> of a \<open>bool\<close>.\<close>

definition signed_decimal :: "32 word \<Rightarrow> str" where
  "signed_decimal w = (if sint w < 0 then [45] @ decimal (nat (- sint w)) else decimal (nat (sint w)))"

definition bool_debug :: "bool \<Rightarrow> str" where
  "bool_debug b = (if b then ascii ''true'' else ascii ''false'')"

section \<open>Display of the errors\<close>

fun tlv_error_display :: "tlv_error \<Rightarrow> str" where
  "tlv_error_display (TruncatedHeader off av) =
     ascii ''truncated TLV header at offset '' @ decimal off @ ascii '': '' @ decimal av
     @ ascii '' octet(s) available, need '' @ decimal HEADER_LEN"
| "tlv_error_display (TruncatedValue t d av) =
     ascii ''truncated value for TLV type '' @ decimal (unat t) @ ascii '': declared '' @ decimal d
     @ ascii '', available '' @ decimal av"
| "tlv_error_display ReservedType = ascii ''TLV type 0 is reserved''"
| "tlv_error_display (BadBodyLength t a want) =
     ascii ''bad body length '' @ decimal a @ ascii '' for TLV type '' @ decimal (unat t) @ ascii '': requires ''
     @ len_req_debug want"
| "tlv_error_display (ValueTooLong t n) =
     ascii ''value length '' @ decimal n @ ascii '' exceeds 65535 for TLV type '' @ decimal (unat t)"
| "tlv_error_display (TypeOutOfRange t) =
     ascii ''TLV type '' @ decimal (unat t) @ ascii '' does not fit in 14 bits''"
| "tlv_error_display (FieldLengthMismatch t a b) =
     ascii ''TLV type '' @ decimal (unat t) @ ascii '' field lengths differ: '' @ decimal a @ ascii '' vs '' @ decimal b"
| "tlv_error_display (TooManyTlvs n) = ascii ''buffer exceeds the '' @ decimal n @ ascii ''-TLV ceiling''"

fun key_schedule_display :: "key_schedule_error \<Rightarrow> str" where
  "key_schedule_display (BadSeedLen a) = ascii ''session_key_seed must be 40 octets, got '' @ decimal a"
| "key_schedule_display (BadImskLen a) = ascii ''IMSK must be 32 octets, got '' @ decimal a"
| "key_schedule_display BadHashLen = ascii ''MAC reported a zero hash length''"
| "key_schedule_display (OutputTooLong r m) = ascii ''HKDF output '' @ decimal r @ ascii '' exceeds maximum '' @ decimal m"
| "key_schedule_display NoMethods = ascii ''no inner method absorbed before key export''"
| "key_schedule_display KsInternal = ascii ''internal key-schedule invariant violated''"

fun crypto_bind_display :: "crypto_bind_error \<Rightarrow> str" where
  "crypto_bind_display (BadMacLen e a) =
     ascii ''compound MAC must be '' @ decimal e @ ascii '' octets, got '' @ decimal a"
| "crypto_bind_display EmskMacNotZero = ascii ''EMSK Compound MAC field must be zero''"
| "crypto_bind_display MacMismatch = ascii ''compound MAC mismatch''"
| "crypto_bind_display (CbEncode e) = ascii ''crypto-binding re-encode failed: '' @ tlv_error_display e"

fun fips_tls_display :: "'re texts \<Rightarrow> 're fips_tls_error \<Rightarrow> str" where
  "fips_tls_display tx NotFips =
     ascii ''crypto provider is not the FIPS-validated AWS-LC module (build without the `fips` feature)''"
| "fips_tls_display tx (DisallowedParameter what) =
     ascii ''negotiated '' @ ascii what @ ascii '' is outside the FIPS allow-list''"
| "fips_tls_display tx BadServerName = ascii ''expected server name is not a valid DNS name''"
| "fips_tls_display tx NoNegotiatedParameters = ascii ''handshake produced no negotiated parameters''"
| "fips_tls_display tx HandshakeIncomplete = ascii ''handshake is not yet complete''"
| "fips_tls_display tx NotEstablished = ascii ''tunnel not finalized: call finish_handshake first''"
| "fips_tls_display tx (Rustls e) = ascii ''rustls error: '' @ tx_rustls tx e"

fun signer_display :: "signer_error \<Rightarrow> str" where
  "signer_display SigningFailed = ascii ''remote signing operation failed''"
| "signer_display UnsupportedScheme = ascii ''signature scheme not supported by this key''"

fun session_error_debug :: "session_error \<Rightarrow> str" where
  "session_error_debug (Decode e) = debug_tuple ''Decode'' (tlv_error_debug e)"
| "session_error_debug AlreadyTerminated = ascii ''AlreadyTerminated''"

fun driver_display :: "'re texts \<Rightarrow> 're driver_error \<Rightarrow> str" where
  "driver_display tx (DrvDecode e) = ascii ''framing/decode error: '' @ tlv_error_display e"
| "driver_display tx (DrvTls e) = ascii ''TLS error: '' @ fips_tls_display tx e"
| "driver_display tx (DrvSession e) = ascii ''session error: '' @ session_error_debug e"
| "driver_display tx (DrvProtocol msg) = ascii ''protocol violation: '' @ ascii msg"

fun io_kind_debug :: "'re texts \<Rightarrow> Files.io_kind \<Rightarrow> str" where
  "io_kind_debug tx Files.NotFound = ascii ''NotFound''"
| "io_kind_debug tx (Files.io_kind.OtherKind n) = tx_io_kind tx n"

fun pac_display :: "'re texts \<Rightarrow> pac_error \<Rightarrow> str" where
  "pac_display tx BadRecord = ascii ''stored MAT record is malformed''"
| "pac_display tx (TooLarge n) = ascii ''MAT ticket length '' @ decimal n @ ascii '' exceeds maximum''"
| "pac_display tx (SealError w) = ascii ''DPAPI protect failed (status '' @ signed_decimal w @ ascii '')''"
| "pac_display tx (UnsealError w) = ascii ''DPAPI unprotect failed (status '' @ signed_decimal w @ ascii '')''"
| "pac_display tx (PacIo k) = ascii ''MAT storage I/O error: '' @ io_kind_debug tx k"
| "pac_display tx PacLocked = ascii ''MAT store lock poisoned''"

fun cred_display :: "cred_error \<Rightarrow> str" where
  "cred_display NoMatchingCert = ascii ''no certificate matched the selection criteria''"
| "cred_display (AmbiguousMatch n) = decimal n @ ascii '' certificates matched; criteria not unique''"
| "cred_display BadCertificate = ascii ''certificate could not be parsed as X.509''"
| "cred_display NoSigningKey = ascii ''selected certificate has no usable signing key''"
| "cred_display (StoreFailure w) = ascii ''key store failure (status '' @ signed_decimal w @ ascii '')''"
| "cred_display BadSignature = ascii ''raw ECDSA signature could not be DER-encoded''"
| "cred_display UnsupportedKey = ascii ''unsupported certificate key algorithm/curve''"

fun eap_host_display :: "eap_host_error \<Rightarrow> str" where
  "eap_host_display OsFipsDisabled = ascii ''OS FIPS policy is not enabled (FipsAlgorithmPolicy)''"
| "eap_host_display (Win32Error code) = ascii ''Win32 error (status '' @ decimal (unat code) @ ascii '')''"
| "eap_host_display NotWindows = ascii ''operation supported only on Windows''"

fun config_display :: "config_error \<Rightarrow> str" where
  "config_display BadMagic = ascii ''config blob has a bad magic prefix''"
| "config_display BadVersion = ascii ''config blob version not understood''"
| "config_display Truncated = ascii ''config blob is truncated''"
| "config_display TrailingData = ascii ''config blob has trailing data''"
| "config_display BadUtf8 = ascii ''config blob string field is not valid UTF-8''"

fun hex_display :: "(nat \<Rightarrow> bool) \<Rightarrow> hex_error \<Rightarrow> str" where
  "hex_display shown OddLength = ascii ''hex string has an odd number of digits''"
| "hex_display shown (BadDigit c) = ascii ''invalid hex digit '' @ char_debug shown c"

text \<open>\<open>{e:?}\<close> of a driver error, which is what a build error keeps of it, and the build error itself.\<close>

fun fips_tls_debug :: "'re texts \<Rightarrow> 're fips_tls_error \<Rightarrow> str" where
  "fips_tls_debug tx NotFips = ascii ''NotFips''"
| "fips_tls_debug tx (DisallowedParameter what) =
     debug_struct ''DisallowedParameter'' [(''what'', str_debug (tx_shown tx) (ascii what))]"
| "fips_tls_debug tx BadServerName = ascii ''BadServerName''"
| "fips_tls_debug tx NoNegotiatedParameters = ascii ''NoNegotiatedParameters''"
| "fips_tls_debug tx HandshakeIncomplete = ascii ''HandshakeIncomplete''"
| "fips_tls_debug tx NotEstablished = ascii ''NotEstablished''"
| "fips_tls_debug tx (Rustls e) = debug_tuple ''Rustls'' (tx_rustls_debug tx e)"

fun driver_debug :: "'re texts \<Rightarrow> 're driver_error \<Rightarrow> str" where
  "driver_debug tx (DrvDecode e) = debug_tuple ''Decode'' (tlv_error_debug e)"
| "driver_debug tx (DrvTls e) = debug_tuple ''Tls'' (fips_tls_debug tx e)"
| "driver_debug tx (DrvSession e) = debug_tuple ''Session'' (session_error_debug e)"
| "driver_debug tx (DrvProtocol msg) = debug_tuple ''Protocol'' (str_debug (tx_shown tx) (ascii msg))"

fun build_display :: "'re texts \<Rightarrow> 're build_error \<Rightarrow> str" where
  "build_display tx (BuildCredential e) = ascii ''credential selection/acquisition failed: '' @ cred_display e"
| "build_display tx (BuildDriver e) = ascii ''driver assembly failed: '' @ driver_debug tx e"

section \<open>Hand-written Debug\<close>

text \<open>\<open>finish_non_exhaustive\<close>.\<close>

definition debug_open :: "string \<Rightarrow> (string \<times> str) list \<Rightarrow> str" where
  "debug_open name fs =
     (if fs = [] then ascii name @ ascii '' { .. }''
      else ascii name @ ascii '' { '' @ join_commas (map (\<lambda>(f, v). ascii f @ ascii '': '' @ v) fs) @ ascii '', .. }'')"

fun identity_debug :: "identity \<Rightarrow> str" where
  "identity_debug Machine = ascii ''Machine''"
| "identity_debug User = ascii ''User''"

fun cred_kind_debug :: "cred_kind \<Rightarrow> str" where
  "cred_kind_debug CredMachine = ascii ''Machine''"
| "cred_kind_debug CredUser = ascii ''User''"

fun driver_phase_debug :: "driver_phase \<Rightarrow> str" where
  "driver_phase_debug ExpectStart = ascii ''ExpectStart''"
| "driver_phase_debug Handshake = ascii ''Handshake''"
| "driver_phase_debug Phase2 = ascii ''Phase2''"
| "driver_phase_debug Terminated = ascii ''Terminated''"

fun inner_state_debug :: "inner_state \<Rightarrow> str" where
  "inner_state_debug InHandshake = ascii ''Handshake''"
| "inner_state_debug InAwaitCommitment = ascii ''AwaitCommitment''"
| "inner_state_debug InDone = ascii ''Done''"
| "inner_state_debug InFailed = ascii ''Failed''"

definition cmk_debug :: "cmk \<Rightarrow> str" where
  "cmk_debug k = ascii ''Cmk('' @ decimal (length k) @ ascii '' octets, redacted)''"

definition key_schedule_state_debug :: "key_schedule \<Rightarrow> str" where
  "key_schedule_state_debug ks =
     debug_struct ''KeySchedule''
       [(''methods'', decimal (ks_methods ks)), (''s_imck'', str_debug (\<lambda>_. False) (ascii ''redacted''))]"

definition session_debug :: "'i teap_session \<Rightarrow> str" where
  "session_debug s =
     debug_open ''TeapSession''
       [(''identity'', identity_debug (sc_identity (ss_cfg s))), (''absorbed'', bool_debug (ss_cmk s \<noteq> None)),
        (''terminated'', bool_debug (ss_terminated s))]"

definition tls_client_debug :: "('c, 're) rustls \<Rightarrow> 'c tls_client \<Rightarrow> str" where
  "tls_client_debug rl t =
     debug_struct ''TeapTlsClient''
       [(''handshaking'', bool_debug (rl_is_handshaking rl (tc_conn t))), (''established'', bool_debug (tc_established t))]"

definition teap_driver_debug :: "('c, 'i) teap_driver \<Rightarrow> str" where
  "teap_driver_debug d =
     debug_open ''TeapDriver''
       [(''identity'', identity_debug (dc_identity (dr_cfg d))), (''phase'', driver_phase_debug (dr_phase d))]"

definition eap_tls_inner_debug :: "'c eap_tls_inner \<Rightarrow> str" where
  "eap_tls_inner_debug i = debug_open ''EapTlsInner'' [(''state'', inner_state_debug (ii_state i))]"

definition cng_signer_debug :: "cng_signer \<Rightarrow> str" where
  "cng_signer_debug s = debug_open ''CngSigner'' [(''kind'', cred_kind_debug (cg_kind s))]"

definition mat_record_debug :: "mat_record \<Rightarrow> str" where
  "mat_record_debug r =
     debug_struct ''MatRecord''
       [(''ticket_len'', decimal (length (mr_ticket r))), (''stored_at_unix'', decimal (unat (mr_stored_at_unix r)))]"

definition session_config_debug :: "(nat \<Rightarrow> bool) \<Rightarrow> session_config_blob \<Rightarrow> str" where
  "session_config_debug shown b =
     debug_struct ''SessionConfigBlob''
       [(''machine'', bool_debug (scb_machine b)), (''server_name'', str_debug shown (scb_server_name b)),
        (''mat_vendor_id'', decimal (unat (scb_mat_vendor_id b))), (''max_fragment'', decimal (unat (scb_max_fragment b))),
        (''selector_subject'', str_debug shown (scb_selector_subject b)), (''roots'', decimal (length (scb_roots b))),
        (''has_mat'', bool_debug (scb_mat b \<noteq> None))]"

definition registry_debug :: "'d session_registry \<Rightarrow> str" where
  "registry_debug r = debug_open ''SessionRegistry'' [(''live'', decimal (length (rg_sessions r)))]"

section \<open>Hand-written equality\<close>

fun outcome_eq :: "outcome \<Rightarrow> outcome \<Rightarrow> bool" where
  "outcome_eq (Success msk emsk mat) (Success m2 e2 i2) \<longleftrightarrow> msk = m2 \<and> emsk = e2 \<and> mat = i2"
| "outcome_eq (Failure a) (Failure b) \<longleftrightarrow> a = b"
| "outcome_eq _ _ \<longleftrightarrow> False"

fun auth_result_eq :: "auth_result \<Rightarrow> auth_result \<Rightarrow> bool" where
  "auth_result_eq (AuthSuccess msk mat) (AuthSuccess m2 i2) \<longleftrightarrow> msk = m2 \<and> mat = i2"
| "auth_result_eq (AuthFailure a) (AuthFailure b) \<longleftrightarrow> a = b"
| "auth_result_eq _ _ \<longleftrightarrow> False"

section \<open>An error is one line\<close>

text \<open>No octet of a text is a control character, so a text never ends the line it is printed on.\<close>

definition line_text :: "str \<Rightarrow> bool" where
  "line_text s \<longleftrightarrow> list_all (\<lambda>b. 32 \<le> b) s"

named_theorems lines

lemma line_basic [lines]:
  "line_text []" "line_text (b # s) \<longleftrightarrow> 32 \<le> b \<and> line_text s" "line_text (s @ t) \<longleftrightarrow> line_text s \<and> line_text t"
  by (simp_all add: line_text_def)

lemma line_ascii [lines]: "line_text (ascii s) \<longleftrightarrow> list_all (\<lambda>c. 32 \<le> (of_char c :: u8)) s"
  by (simp add: line_text_def ascii_def list_all_iff)

lemma line_digits: "(\<And>b. b \<in> set s \<Longrightarrow> 32 \<le> b) \<Longrightarrow> line_text s"
  by (simp add: line_text_def list_all_iff)

lemma line_decimal [lines]: "line_text (decimal n)"
proof (rule line_digits)
  fix b assume "b \<in> set (decimal n)"
  then have "is_digit b" using set_decimal [of n] by auto
  then show "32 \<le> b" by (simp add: is_digit_def word_le_nat_alt)
qed

lemma line_signed [lines]: "line_text (signed_decimal w)"
  by (simp add: signed_decimal_def lines)

lemma line_bool [lines]: "line_text (bool_debug b)"
  by (simp add: bool_debug_def lines)

lemma line_hex_digit: "n < 16 \<Longrightarrow> 32 \<le> hex_digit 97 n"
  by (rule nibble_all [of "\<lambda>n. 32 \<le> hex_digit 97 n"]) (simp_all add: hex_digit_def upt_conv_Cons)

lemma line_render: "line_text (render 16 n)"
proof (induction n rule: less_induct)
  case (less n)
  have h: "32 \<le> hex_digit 97 (word_of_nat m)" if "m < 16" for m
  proof (rule line_hex_digit)
    have "unat (word_of_nat m :: u8) = m" using that by (simp add: unsigned_of_nat take_bit_nat_eq_self)
    with that show "(word_of_nat m :: u8) < 16" by (simp add: word_less_nat_alt)
  qed
  show ?case
  proof (cases "n < 16")
    case True
    then show ?thesis using h by (simp add: render.simps [of 16 n] line_basic)
  next
    case False
    then have "line_text (render 16 (n div 16))" by (intro less) simp
    with False show ?thesis using h [of "n mod 16"] by (simp add: render.simps [of 16 n] line_basic)
  qed
qed

lemma high_octet: "0x80 \<le> k \<Longrightarrow> k < 256 \<Longrightarrow> (32 :: u8) \<le> word_of_nat k"
  by (simp add: word_le_nat_alt unsigned_of_nat take_bit_nat_eq_self)

lemma line_utf8_char: "128 \<le> c \<Longrightarrow> c < 0x110000 \<Longrightarrow> line_text (utf8_char c)"
proof -
  assume c: "128 \<le> c" "c < 0x110000"
  have m: "(32 :: u8) \<le> word_of_nat (0x80 + k mod 64)" for k :: nat
    by (rule high_octet) (simp_all add: less_imp_le trans_less_add1)
  show ?thesis
  proof (cases "c < 0x800")
    case True
    have "(32 :: u8) \<le> word_of_nat (0xC0 + c div 64)" by (rule high_octet) (use True in simp_all)
    with True c m [of c] show ?thesis by (simp add: utf8_char_def line_basic)
  next
    case F1: False
    show ?thesis
    proof (cases "c < 0x10000")
      case True
      have "(32 :: u8) \<le> word_of_nat (0xE0 + c div 4096)" by (rule high_octet) (use True in simp_all)
      with True F1 c m show ?thesis by (simp add: utf8_char_def line_basic)
    next
      case False
      have "(32 :: u8) \<le> word_of_nat (0xF0 + c div 262144)" by (rule high_octet) (use c in simp_all)
      with False F1 c m show ?thesis by (simp add: utf8_char_def line_basic)
    qed
  qed
qed

lemma line_escape:
  assumes "c < 0x110000" and "32 \<le> q" and "q < 127"
  shows "line_text (escape_char shown q c)"
proof -
  have q: "(32 :: u8) \<le> word_of_nat c" if "32 \<le> c" "c < 127"
    using that by (simp add: word_le_nat_alt unsigned_of_nat take_bit_nat_eq_self)
  consider "c < 32" | "32 \<le> c" "c < 127" | "127 \<le> c" by linarith
  then show ?thesis
  proof cases
    case 1
    with assms(2) show ?thesis by (simp add: escape_char_def line_basic line_render)
  next
    case 2
    with q show ?thesis by (auto simp: escape_char_def line_basic)
  next
    case 3
    with assms line_utf8_char [of c] show ?thesis by (simp add: escape_char_def line_basic line_render)
  qed
qed

lemma line_str [lines]: "utf8_valid s \<Longrightarrow> line_text (str_debug shown s)"
proof -
  assume "utf8_valid s"
  then have "\<forall>c\<in>set (chars s). line_text (escape_char shown 34 c)"
    using chars_scalar [of s] by (fastforce simp: list_all_iff scalar_def intro!: line_escape)
  then have "line_text (concat (map (escape_char shown 34) (chars s)))" by (simp add: line_text_def list_all_iff)
  then show ?thesis by (simp add: str_debug_def line_basic)
qed

lemma line_char [lines]: "scalar c \<Longrightarrow> line_text (char_debug shown c)"
  using line_escape [of c 39 shown] by (auto simp: char_debug_def line_basic scalar_def)

lemma line_struct [lines]:
  "line_text (debug_tuple name v) \<longleftrightarrow> line_text (ascii name) \<and> line_text v"
  "line_text (debug_struct name fs) \<longleftrightarrow> line_text (ascii name) \<and> list_all (\<lambda>(f, v). line_text (ascii f) \<and> line_text v) fs"
  "line_text (debug_open name fs) \<longleftrightarrow> line_text (ascii name) \<and> list_all (\<lambda>(f, v). line_text (ascii f) \<and> line_text v) fs"
proof -
  have j: "line_text (join_commas xs) \<longleftrightarrow> list_all line_text xs" for xs
    by (induction xs rule: join_commas.induct) (simp_all add: lines)
  have m: "list_all line_text (map (\<lambda>(f, v). ascii f @ ascii '': '' @ v) fs)
      \<longleftrightarrow> list_all (\<lambda>(f, v). line_text (ascii f) \<and> line_text v) fs"
    by (induction fs) (auto simp: line_basic line_ascii)
  show "line_text (debug_tuple name v) \<longleftrightarrow> line_text (ascii name) \<and> line_text v"
    by (simp add: debug_tuple_def line_basic line_ascii)
  show "line_text (debug_struct name fs) \<longleftrightarrow> line_text (ascii name) \<and> list_all (\<lambda>(f, v). line_text (ascii f) \<and> line_text v) fs"
    using j m by (simp add: debug_struct_def line_basic line_ascii)
  show "line_text (debug_open name fs) \<longleftrightarrow> line_text (ascii name) \<and> list_all (\<lambda>(f, v). line_text (ascii f) \<and> line_text v) fs"
    using j m by (auto simp: debug_open_def line_basic line_ascii)
qed

lemma line_tlv_debug [lines]: "line_text (tlv_error_debug e)"
proof -
  have "line_text (len_req_debug w)" for w by (cases w) (simp_all add: lines)
  then show ?thesis by (cases e) (simp_all add: lines)
qed

lemma line_tlv_display [lines]: "line_text (tlv_error_display e)"
proof -
  have "line_text (len_req_debug w)" for w by (cases w) (simp_all add: lines)
  then show ?thesis by (cases e) (simp_all add: lines)
qed

lemma line_crypto [lines]: "line_text (crypto_bind_debug e)" "line_text (crypto_bind_display e)"
  by (cases e; simp add: lines)+

lemma line_key_schedule [lines]: "line_text (key_schedule_debug e)" "line_text (key_schedule_display e)"
  by (cases e; simp add: lines)+

lemma line_fail_reason [lines]: "line_text (fail_reason_debug r)"
  by (cases r) (simp_all add: lines)

lemma line_cred [lines]: "line_text (cred_display e)"
  by (cases e) (simp_all add: lines)

lemma line_session [lines]: "line_text (session_error_debug e)"
  by (cases e) (simp_all add: lines)

lemma line_signer [lines]: "line_text (signer_display e)"
  by (cases e) (simp_all add: lines)

lemma line_eap_host [lines]: "line_text (eap_host_display e)"
  by (cases e) (simp_all add: lines)

lemma line_config [lines]: "line_text (config_display e)"
  by (cases e) (simp_all add: lines)

text \<open>The texts of the library are lines, and the messages an error carries are Rust strings.\<close>

definition line_texts :: "'re texts \<Rightarrow> bool" where
  "line_texts tx \<longleftrightarrow> (\<forall>e. line_text (tx_rustls tx e) \<and> line_text (tx_rustls_debug tx e)) \<and> (\<forall>n. line_text (tx_io_kind tx n))"

fun rust_message :: "'re driver_error \<Rightarrow> bool" where
  "rust_message (DrvTls (DisallowedParameter what)) = utf8_valid (ascii what)"
| "rust_message (DrvProtocol msg) = utf8_valid (ascii msg)"
| "rust_message _ = True"

text \<open>The text of a failure to store a ticket, and of a failure to build a session, whose driver error is quoted
  inside it: whatever message that error carries, quoting escapes its control characters.\<close>

lemma line_pac: "line_texts tx \<Longrightarrow> line_text (pac_display tx e)"
proof -
  assume "line_texts tx"
  then have "line_text (io_kind_debug tx k)" for k by (cases k) (simp_all add: lines line_texts_def)
  then show ?thesis by (cases e) (simp_all add: lines)
qed

lemma line_build:
  assumes "line_texts tx" and "\<And>e. b = BuildDriver e \<Longrightarrow> rust_message e"
  shows "line_text (build_display tx b)"
proof (cases b)
  case (BuildDriver e)
  with assms(2) have m: "rust_message e" by simp
  have "line_text (driver_debug tx e)"
  proof (cases e)
    case (DrvTls f)
    with m assms(1) show ?thesis by (cases f) (simp_all add: lines line_texts_def)
  qed (use m in \<open>simp_all add: lines\<close>)
  with BuildDriver show ?thesis by (simp add: lines)
qed (simp add: lines)

text \<open>So the detail of a failed session survives publication unchanged: \<open>one_line\<close>, which the encoder of the status
  file applies to every field, has nothing to replace.\<close>

lemma failure_detail_published:
  "terminal_status r = (st, detail) \<Longrightarrow> one_line detail = detail"
proof -
  have e: "one_line s = s" if "line_text s" for s
    by (rule one_line_id) (use that in \<open>auto simp: line_text_def list_all_iff\<close>)
  have "line_text (ascii ''no result'')" "line_text []" by (simp_all add: lines)
  then show "terminal_status r = (st, detail) \<Longrightarrow> one_line detail = detail"
    using e line_fail_reason by (auto simp: terminal_status_def split: option.splits auth_result.splits)
qed

section \<open>Secrets are not printed\<close>

text \<open>Two values that differ only in secrets (keys, tickets, trust anchors, the inner method, the connection) print
  the same: only lengths and whether there is a secret show.\<close>

lemma debug_hides_secrets:
  "length k = length k' \<Longrightarrow> cmk_debug k = cmk_debug k'"
  "key_schedule_state_debug (ks\<lparr>ks_s_imck := s\<rparr>) = key_schedule_state_debug ks"
  "session_debug (ts\<lparr>ss_ks := ks, ss_imsk := im, ss_cmk := map_option f (ss_cmk ts),
      ss_cfg := (ss_cfg ts)\<lparr>sc_mat_to_present := tk\<rparr>\<rparr>) = session_debug ts"
  "teap_driver_debug (d\<lparr>dr_cfg := (dr_cfg d)\<lparr>dc_mat_to_present := tk\<rparr>, dr_tunnel := tn, dr_session := so, dr_pending := oc\<rparr>)
     = teap_driver_debug d"
  "eap_tls_inner_debug (i\<lparr>ii_tunnel := tn', ii_queue := q, ii_reasm := rs\<rparr>) = eap_tls_inner_debug i"
  "length (mr_ticket r) = length t \<Longrightarrow> mat_record_debug (r\<lparr>mr_ticket := t\<rparr>) = mat_record_debug r"
  "length (scb_roots b) = length rts \<Longrightarrow>
     session_config_debug shown (b\<lparr>scb_roots := rts, scb_mat := map_option g (scb_mat b)\<rparr>) = session_config_debug shown b"
  "map fst (rg_sessions rg) = map fst ss \<Longrightarrow> registry_debug (rg\<lparr>rg_sessions := ss\<rparr>) = registry_debug rg"
  by (simp_all add: cmk_debug_def key_schedule_state_debug_def session_debug_def teap_driver_debug_def
      eap_tls_inner_debug_def mat_record_debug_def session_config_debug_def registry_debug_def)
    (metis length_map)

text \<open>The hand-written equalities are equality.\<close>

lemma outcome_eq_iff [simp]: "outcome_eq a b \<longleftrightarrow> a = b"
  by (cases a; cases b) simp_all

lemma auth_result_eq_iff [simp]: "auth_result_eq a b \<longleftrightarrow> a = b"
  by (cases a; cases b) simp_all

end
