(* ===== verification/Spec2Isabelle.thy ===== *)
theory Spec2Isabelle
  imports Prelude Tlv_Raw Tlv_Body Eap Outer Key_Schedule Crypto_Bind Session Fips_Tls Inner_Tls Driver Driver_Run Driver_Types Text_Codec Config_Blob Peer_Session Files Status Pac Creds Cng Peer_Begin Peer_Ffi Peer_Run Wide Registration Cli Gfx Toast Tray Viewer Desktop Harness Harness_Run Harness_Session Host_Drive Dll_Verdict Kat Error_Text
begin

text \<open>
  A verification development for usg-supplicant, an EAP-TEAP supplicant with mutual TLS inside: the
  peer half of the profile \<open>usg-TEAP/1.3\<close>, packaged as a Windows EAPHost peer-method DLL, with its
  provisioning command line, status tray and status window. All paths below are under src/crates/.

  \<^bold>\<open>The program and its parts.\<close> A host (EAPHost) loads the DLL and calls the routines of
  eaphost/src/peer.rs. A session begins from a profile (config.rs inside the XML of config_xml.rs),
  passes the FIPS gate of the operating system (os_fips.rs), picks a credential of the key store
  (creds/src) and assembles a driver (supplicant/src/driver.rs). The driver takes one EAP packet and
  returns one: it reassembles TEAP fragments (teap/src/outer.rs), runs the outer TLS 1.3 tunnel
  (fips-tls/src/backend.rs), and inside it exchanges TLVs (teap/src/tlv) with the Phase-2 state machine
  (teap/src/session.rs), which runs an inner EAP-TLS method (supplicant/src/inner_tls.rs), chains the
  keys (keyschedule.rs) and checks the Crypto-Binding (cryptobind.rs). What becomes of a session is
  published in a file (usg-status/src/lib.rs) that the tray (usg-tray/src) polls and the status window
  (usg-status-window/src) displays.

  \<^bold>\<open>The theories, in the order of the calls.\<close>

  \<^item> \<open>Prelude\<close>: octets, big- and little-endian conversions, the slice accesses of Rust that
    do not panic, the operation type \<open>'s => ('a * 's) option\<close> with errors as \<open>Inl\<close> (\<open>None\<close> is a call
    that does not return), its sequencing operators, and the locale \<open>codec\<close>: an encoder and
    a decoder that are inverse on well-formed values.
  \<^item> \<open>Tlv_Raw\<close> (tlv/raw.rs, error.rs, types.rs), \<open>Tlv_Body\<close> (tlv/body.rs), \<open>Eap\<close> (eap.rs), \<open>Outer\<close>
    (outer.rs): the wire formats. Each decoder is characterised exactly: the relation \<open>tlv_frames\<close>
    is the grammar of a TLV sequence, and the reader accepts it and nothing else, up to 4096 TLVs;
    the codecs are interpretations of \<open>codec\<close>; fragmenting and reassembling are inverse.
  \<^item> \<open>Key_Schedule\<close> (keyschedule.rs, fips-tls/src/mac.rs), \<open>Crypto_Bind\<close> (cryptobind.rs): HKDF-Expand
    against a recursive definition of RFC 5869 section 2.3; verification accepts exactly the sealed
    TLVs. The MAC is the record \<open>teap_mac\<close>; the locale \<open>mac_provider\<close> states that it returns digests
    of its length, and is interpreted for the trait object and for the production MAC.
  \<^item> \<open>Session\<close> (session.rs): \<open>session_step\<close> composes the phases of \<open>TeapSession::step\<close>. The state invariant
    \<open>sess_inv\<close> says what the keys of a session are derived from; \<open>session_run\<close> closes the
    step under repetition. \<open>phase\<close>, \<open>keeps\<close>, \<open>quiet\<close> are predicates on operations with one lemma
    per operation, collected in \<open>phases\<close>, \<open>quiets\<close> and \<open>totals\<close>.
  \<^item> \<open>Fips_Tls\<close> (backend.rs, error.rs), \<open>Inner_Tls\<close> (inner_tls.rs), \<open>Driver\<close> (driver.rs, builder.rs of
    supplicant/src): the tunnel (\<open>tunnel_history\<close> keeps where \<open>finish_handshake\<close> was tried), the inner method and the
    driver. \<open>Driver_Run\<close> holds the guarantees
    of runs of the driver: what success means, that an honest exchange succeeds, that failure is
    final, how many rounds it can take. \<open>Driver_Types\<close> holds the invariant of its fields, which every exit
    of every call keeps, with the lemmas \<open>stays\<close>, one per operation.
  \<^item> \<open>Harness\<close> (teap-test-harness/src/lib.rs): the server half. \<open>Harness_Run\<close> and \<open>Harness_Session\<close>: driver and
    server in the loop of supplicant/tests/full_session.rs, over connections that satisfy \<open>handshake_pair\<close> and
    \<open>secure_channel\<close>, from the last message back to the first packet. \<open>Host_Drive\<close>: the host of
    eaphost/tests/peer_full_session_dll.rs, whose loop over the exported routines refines that one.
    \<open>Dll_Verdict\<close>: that host is a run of the DLL, and a success read in any run goes back to the call that began
    its session.
  \<^item> \<open>Kat\<close> (usg-kat/src/lib.rs): the hexadecimal helpers and the shared vectors; that an HMAC reproduces the
    expected keys is a fact about aws-lc.
  \<^item> \<open>Error_Text\<close> (the error.rs of every crate): what errors print as, that an error is one line, and that the
    hand-written Debug texts do not depend on keys, tickets and trust anchors.
  \<^item> \<open>Text_Codec\<close>: Rust strings as their UTF-8 octets and the library operations used on them;
    \<open>Config_Blob\<close> (config.rs, config_xml.rs, profile.rs): the profile and its grammar.
  \<^item> \<open>Peer_Session\<close> (session.rs, session_registry.rs of eaphost/src): the adapter from driver to EAPHost
    and the table of live sessions. The registry answers every sequence of calls as \<open>table_exec\<close>, a partial map
    from handles to sessions with the number of sessions begun, answers it.
  \<^item> \<open>Files\<close>: the file operations of the standard library over a disk on which each may fail;
    \<open>Status\<close> (usg-status), \<open>Pac\<close> (pac/src): the published status and the ticket store over it.
  \<^item> \<open>Creds\<close> (creds/src without the platform), \<open>Cng\<close> (creds/src/cng.rs): choosing a certificate and signing;
    the CNG calls leave a trace, over which references are accounted for.
  \<^item> \<open>Peer_Begin\<close>, \<open>Peer_Ffi\<close>, \<open>Peer_Run\<close> (eaphost/src/peer.rs with os_fips.rs, status_security.rs,
    builder.rs): the exported routines over a host memory in which an access the host does not allow is
    \<open>None\<close>, and the runs of the DLL, which keep their past: \<open>began\<close> points from a live session to the call that
    began it. Ending a session records no release of its signer, which rustls may hold or drop earlier.
  \<^item> \<open>Wide\<close>: characters and UTF-16; \<open>Registration\<close> (register.rs): the registry writes;
    \<open>Cli\<close> (eaphost-cli/src/main.rs): the provisioning commands.
  \<^item> \<open>Gfx\<close>, \<open>Toast\<close>, \<open>Tray\<close> (usg-tray/src) and \<open>Viewer\<close> (usg-status-window/src): the window procedures as
    steps over what they keep, with the GDI objects that exist accounted for; \<open>Desktop\<close>: the process of the
    status window, and both screens against what is published.

  \<^bold>\<open>Conventions.\<close> A Rust struct is a \<open>record\<close> whose fields carry a prefix of the type; an enum is
  a \<open>datatype\<close>; \<open>u8\<close>, \<open>u16\<close>, \<open>u32\<close>, \<open>u64\<close> are words of that width; \<open>usize\<close> is \<open>nat\<close> where the source adds
  lengths of existing buffers, and \<open>sat_add\<close> where it saturates. \<open>&mut self\<close> is the state of an
  operation: an error leaves the state that the code leaves, including what was changed before
  the early return. Where a text of an error is only passed on, the model keeps the error; what it prints
  as is \<open>Error_Text\<close>.

  \<^bold>\<open>Bounds and loops.\<close> The loops of the code are structural recursions or functions with a
  termination proof, except where an external library decides how long they run: draining the
  records and the plaintext of a connection are \<open>partial_function\<close>s, whose result is proved to exist under the
  documented behaviour of the connection (\<open>tunnel_operations_return\<close>, \<open>inner_answers\<close>). The caps of the
  source are kept: 4096 TLVs, 1024 fragments, 256 KiB of a TLS message, 64 handshake and 64 Phase-2 rounds.

  \<^bold>\<open>What is a parameter.\<close> rustls (record \<open>rustls\<close>, with its documented behaviour as hypotheses where a
  property needs it), HMAC and SHA-256 of aws-lc, the X.509 parser, CryptoAPI, CNG and DPAPI,
  MSXML, LocalAlloc and the memory of the host, the answers of Windows to the tray, netsh, the
  resolution of paths. The witnesses instantiate each with concrete functions, among them a
  connection in which records are plaintext and a MAC that sums its input.

  \<^bold>\<open>Not modelled.\<close> The rustls provider (a dependency names the allowed groups and suites); the module files that only re-export (the lib.rs
  of teap, pac, supplicant and fips-tls); the empty Error implementations; the user interface in usg-status-window/ui, of which only what the program computes for it is kept; zeroization of secrets on drop and the running time of comparisons, which no function of
  inputs can show; the tests; configurations other than Windows, except where a theory says that both
  are there.
\<close>

end
